(* ===== verification/Prelude.thy ===== *)
theory Prelude
  imports Main "HOL-Library.Word" "HOL-Library.Sublist" "HOL-Library.State_Monad"
    "HOL-Library.Monad_Syntax"
begin

text \<open>
  Shared vocabulary of the development.

  \<^item> Rust's \<^verbatim>\<open>str\<close> is the list of its UTF-8 bytes, a HOL \<^typ>\<open>string\<close>; \<open>chars\<close> splits it
    into the encoded characters, so the source's character loops are recursions over
    \<open>chars s\<close>.  Unicode white space is the table \<open>ws_utf8\<close>.
  \<^item> The parts of Rust's standard library the sources use on strings (\<^verbatim>\<open>lines\<close>, \<^verbatim>\<open>trim\<close>,
    \<^verbatim>\<open>starts_with\<close>, \<^verbatim>\<open>contains\<close>, \<^verbatim>\<open>replacen\<close>, decimal rendering) are the functions below.
  \<^item> \<open>wp\<close> is the weakest precondition of a computation of the \<open>State_Monad\<close>; its rules are
    collected in \<open>wp_simps\<close> and carry the proofs about stateful code.
\<close>

section \<open>Collections of facts\<close>

named_theorems wp_simps \<open>weakest preconditions of the primitive computations\<close>
named_theorems text_simps \<open>evaluation of the string operations\<close>

section \<open>Types\<close>

type_synonym u64 = "64 word"
type_synonym u32 = "32 word"
type_synonym issue_no = nat

section \<open>UTF-8 characters\<close>

text \<open>The number of continuation bytes a lead byte announces.\<close>

definition utf8_tail :: "char \<Rightarrow> nat" where
  "utf8_tail b =
     (let n = (of_char b :: nat)
      in if n < 192 then 0 else if n < 224 then 1 else if n < 240 then 2 else 3)"

text \<open>Rust's \<^verbatim>\<open>chars()\<close>: the encoded characters of a string, in order.\<close>

function chars :: "string \<Rightarrow> string list" where
  "chars [] = []"
| "chars (b # bs) = (b # take (utf8_tail b) bs) # chars (drop (utf8_tail b) bs)"
  by pat_completeness auto
termination
  by (relation "measure length") auto

lemma concat_chars [simp]: "concat (chars s) = s"
  by (induction s rule: chars.induct) auto

lemma chars_nonempty: "c \<in> set (chars s) \<Longrightarrow> c \<noteq> []"
  by (induction s rule: chars.induct) auto

text \<open>Every lead byte of the string has all its continuation bytes.\<close>

function whole_chars :: "string \<Rightarrow> bool" where
  "whole_chars [] = True"
| "whole_chars (b # bs) =
     (utf8_tail b \<le> length bs \<and> whole_chars (drop (utf8_tail b) bs))"
  by pat_completeness auto
termination
  by (relation "measure length") auto

lemma chars_append: "whole_chars s \<Longrightarrow> chars (s @ t) = chars s @ chars t"
  by (induction s rule: whole_chars.induct) auto

lemma whole_chars_append: "whole_chars s \<Longrightarrow> whole_chars t \<Longrightarrow> whole_chars (s @ t)"
  by (induction s rule: whole_chars.induct) auto

definition is_ascii :: "char \<Rightarrow> bool" where
  "is_ascii c \<longleftrightarrow> (of_char c :: nat) < 128"

lemma utf8_tail_ascii: "is_ascii c \<Longrightarrow> utf8_tail c = 0"
  by (simp add: is_ascii_def utf8_tail_def)

lemma whole_chars_ascii: "list_all is_ascii s \<Longrightarrow> whole_chars s"
  by (induction s) (auto simp: utf8_tail_ascii)

lemma chars_ascii: "list_all is_ascii s \<Longrightarrow> chars s = map (\<lambda>c. [c]) s"
  by (induction s) (auto simp: utf8_tail_ascii)

section \<open>White space, trimming, lines\<close>

text \<open>
  The characters of Unicode's \<^verbatim>\<open>White_Space\<close> property, which is what Rust's
  \<^verbatim>\<open>char::is_whitespace\<close> and \<^verbatim>\<open>str::trim\<close> use, in UTF-8.
\<close>

definition ws_utf8 :: "string list" where
  "ws_utf8 =
     [[CHR 0x20], [CHR 0x09], [CHR 0x0A], [CHR 0x0B], [CHR 0x0C], [CHR 0x0D],
      [CHR 0xC2, CHR 0x85], [CHR 0xC2, CHR 0xA0], [CHR 0xE1, CHR 0x9A, CHR 0x80],
      [CHR 0xE2, CHR 0x80, CHR 0x80], [CHR 0xE2, CHR 0x80, CHR 0x81],
      [CHR 0xE2, CHR 0x80, CHR 0x82], [CHR 0xE2, CHR 0x80, CHR 0x83],
      [CHR 0xE2, CHR 0x80, CHR 0x84], [CHR 0xE2, CHR 0x80, CHR 0x85],
      [CHR 0xE2, CHR 0x80, CHR 0x86], [CHR 0xE2, CHR 0x80, CHR 0x87],
      [CHR 0xE2, CHR 0x80, CHR 0x88], [CHR 0xE2, CHR 0x80, CHR 0x89],
      [CHR 0xE2, CHR 0x80, CHR 0x8A], [CHR 0xE2, CHR 0x80, CHR 0xA8],
      [CHR 0xE2, CHR 0x80, CHR 0xA9], [CHR 0xE2, CHR 0x80, CHR 0xAF],
      [CHR 0xE2, CHR 0x81, CHR 0x9F], [CHR 0xE3, CHR 0x80, CHR 0x80]]"

definition is_ws :: "string \<Rightarrow> bool" where
  "is_ws c \<longleftrightarrow> c \<in> set ws_utf8"

definition nl :: char where "nl = CHR 0x0A"
definition cr :: char where "cr = CHR 0x0D"
definition dquote :: char where "dquote = CHR 0x22"
definition squote :: char where "squote = CHR 0x27"
definition bslash :: char where "bslash = CHR 0x5C"
definition backtick :: char where "backtick = CHR 0x60"

definition em_dash :: string where "em_dash = [CHR 0xE2, CHR 0x80, CHR 0x94]"
definition en_dash :: string where "en_dash = [CHR 0xE2, CHR 0x80, CHR 0x93]"
definition check_mark :: string where "check_mark = [CHR 0xE2, CHR 0x9C, CHR 0x93]"
definition cross_mark :: string where "cross_mark = [CHR 0xE2, CHR 0x9C, CHR 0x97]"
definition warning_sign :: string where "warning_sign = [CHR 0xE2, CHR 0x9A, CHR 0xA0]"

definition trim_start :: "string \<Rightarrow> string" where
  "trim_start s = concat (dropWhile is_ws (chars s))"

definition trim_end :: "string \<Rightarrow> string" where
  "trim_end s = concat (rev (dropWhile is_ws (rev (chars s))))"

definition trim :: "string \<Rightarrow> string" where
  "trim s = trim_end (trim_start s)"

lemma trim_Nil [simp]: "trim_start [] = []" "trim_end [] = []" "trim [] = []"
  by (simp_all add: trim_start_def trim_end_def trim_def)

lemma chars_concat_take: "chars (concat (take n (chars s))) = take n (chars s)"
proof (induction s arbitrary: n rule: chars.induct)
  case 1
  then show ?case by simp
next
  case (2 b bs)
  show ?case
  proof (cases n)
    case 0
    then show ?thesis by simp
  next
    case (Suc m)
    with 2 [of m] show ?thesis by (cases "length bs < utf8_tail b") simp_all
  qed
qed

lemma chars_concat_drop: "chars (concat (drop n (chars s))) = drop n (chars s)"
proof (induction s arbitrary: n rule: chars.induct)
  case 1
  then show ?case by simp
next
  case (2 b bs)
  show ?case
  proof (cases n)
    case 0
    then show ?thesis by simp
  next
    case (Suc m)
    with 2 [of m] show ?thesis by simp
  qed
qed

lemma dropWhile_as_drop: "dropWhile P xs = drop (length (takeWhile P xs)) xs"
  by (induction xs) auto

lemma chars_trim_start: "chars (trim_start s) = dropWhile is_ws (chars s)"
  unfolding trim_start_def dropWhile_as_drop by (rule chars_concat_drop)

lemma trim_end_take: "\<exists>n. trim_end s = concat (take n (chars s))"
  unfolding trim_end_def dropWhile_as_drop
  by (auto simp: rev_drop)

lemma prefix_trim_end: "prefix (trim_end s) s"
proof -
  obtain n where n: "trim_end s = concat (take n (chars s))"
    using trim_end_take by blast
  have "s = concat (take n (chars s)) @ concat (drop n (chars s))"
    by (simp flip: concat_append)
  with n show ?thesis by (metis prefixI)
qed

text \<open>A trimmed text that is not empty starts with a character that is not white space.\<close>

lemma trim_head:
  assumes "trim s \<noteq> []"
  obtains c cs where "chars (trim s) = c # cs" and "\<not> is_ws c"
proof -
  obtain n where n: "trim s = concat (take n (chars (trim_start s)))"
    using trim_end_take unfolding trim_def by blast
  then have "chars (trim s) = take n (chars (trim_start s))"
    by (simp add: chars_concat_take)
  moreover have "chars (trim s) \<noteq> []"
    using assms concat_chars [of "trim s"] by fastforce
  ultimately obtain c cs where "chars (trim s) = c # cs" and "chars (trim_start s) \<noteq> []"
      and "c = hd (chars (trim_start s))"
    by (metis hd_take take_eq_Nil list.exhaust_sel list.sel(1) gr0I)
  then show thesis
    using that hd_dropWhile [of is_ws "chars s"] by (metis chars_trim_start)
qed

text \<open>Rust's \<^verbatim>\<open>lines()\<close>: a line ends at a newline, and one carriage return before it goes too.\<close>

definition strip_cr :: "string \<Rightarrow> string" where
  "strip_cr l = (if l \<noteq> [] \<and> last l = cr then butlast l else l)"

function rust_lines :: "string \<Rightarrow> string list" where
  "rust_lines s =
     (if s = [] then []
      else case dropWhile (\<lambda>c. c \<noteq> nl) s of
        [] \<Rightarrow> [s]
      | _ # rest \<Rightarrow> strip_cr (takeWhile (\<lambda>c. c \<noteq> nl) s) # rust_lines rest)"
  by pat_completeness auto
termination
proof (relation "measure length", goal_cases)
  case (2 s x rest)
  have "length (x # rest) \<le> length s"
    unfolding 2(2) [symmetric] by (rule length_dropWhile_le)
  then show ?case by simp
qed auto

declare rust_lines.simps [simp del]

lemma rust_lines_Nil [simp]: "rust_lines [] = []"
  by (simp add: rust_lines.simps)

fun join :: "string \<Rightarrow> string list \<Rightarrow> string" where
  "join sep [] = []"
| "join sep [x] = x"
| "join sep (x # y # ys) = x @ sep @ join sep (y # ys)"

definition contains :: "string \<Rightarrow> string \<Rightarrow> bool" where
  "contains s p \<longleftrightarrow> sublist p s"

definition ascii_lower :: "char \<Rightarrow> char" where
  "ascii_lower c =
     (let n = (of_char c :: nat) in if 65 \<le> n \<and> n \<le> 90 then char_of (n + 32) else c)"

definition eq_ignore_ascii_case :: "string \<Rightarrow> string \<Rightarrow> bool" where
  "eq_ignore_ascii_case s t \<longleftrightarrow> map ascii_lower s = map ascii_lower t"

text \<open>Rust's \<^verbatim>\<open>replacen(pat, to, 1)\<close> for a non-empty pattern: the leftmost occurrence.\<close>

fun replace_first :: "string \<Rightarrow> string \<Rightarrow> string \<Rightarrow> string" where
  "replace_first p t [] = []"
| "replace_first p t (c # cs) =
     (if prefix p (c # cs) then t @ drop (length p) (c # cs)
      else c # replace_first p t cs)"

text \<open>Decimal rendering of a number.\<close>

fun show_nat :: "nat \<Rightarrow> string" where
  "show_nat n =
     (if n < 10 then [char_of (48 + n)] else show_nat (n div 10) @ [char_of (48 + n mod 10)])"

declare show_nat.simps [simp del]

lemma show_nat_nonempty [simp]: "show_nat n \<noteq> []"
  by (subst show_nat.simps) simp

section \<open>Lists and options\<close>

text \<open>The first element with a property, and the elements before it.\<close>

lemma find_Some_in: "find P xs = Some x \<Longrightarrow> x \<in> set xs \<and> P x"
  by (induction xs) (auto split: if_splits)

lemma find_None_all: "find P xs = None \<longleftrightarrow> (\<forall>x \<in> set xs. \<not> P x)"
  by (induction xs) auto

text \<open>Keeping the first occurrence of each element, as a \<^verbatim>\<open>seen.insert\<close> guard does.\<close>

fun dedup_acc :: "'a list \<Rightarrow> 'a list \<Rightarrow> 'a list" where
  "dedup_acc seen [] = []"
| "dedup_acc seen (x # xs) =
     (if x \<in> set seen then dedup_acc seen xs else x # dedup_acc (x # seen) xs)"

lemma set_dedup_acc: "set (dedup_acc seen xs) = set xs - set seen"
  by (induction xs arbitrary: seen) auto

lemma distinct_dedup_acc: "distinct (dedup_acc seen xs)"
  by (induction xs arbitrary: seen) (auto simp: set_dedup_acc)

lemma subseq_dedup_acc: "subseq (dedup_acc seen xs) xs"
  by (induction xs arbitrary: seen) auto

section \<open>Weakest preconditions for the state monad\<close>

definition wp :: "('s, 'a) state \<Rightarrow> ('a \<Rightarrow> 's \<Rightarrow> bool) \<Rightarrow> 's \<Rightarrow> bool" where
  "wp m Q s \<longleftrightarrow> (case run_state m s of (a, s') \<Rightarrow> Q a s')"

lemma wp_return [wp_simps]: "wp (State_Monad.return a) Q = Q a"
  by (simp add: wp_def State_Monad.return_def fun_eq_iff)

lemma wp_bind [wp_simps]: "wp (State_Monad.bind m f) Q = wp m (\<lambda>a. wp (f a) Q)"
  by (simp add: wp_def State_Monad.bind_def fun_eq_iff split: prod.splits)

lemma wp_State [wp_simps]: "wp (State f) Q = (\<lambda>s. case f s of (a, s') \<Rightarrow> Q a s')"
  by (simp add: wp_def fun_eq_iff)

lemma wp_get [wp_simps]: "wp State_Monad.get Q = (\<lambda>s. Q s s)"
  by (simp add: wp_def State_Monad.get_def fun_eq_iff)

lemma wp_set [wp_simps]: "wp (State_Monad.set s') Q = (\<lambda>_. Q () s')"
  by (simp add: wp_def State_Monad.set_def fun_eq_iff)

lemma wp_update [wp_simps]: "wp (State_Monad.update f) Q = (\<lambda>s. Q () (f s))"
  by (simp add: State_Monad.update_def wp_simps)

lemma wp_if [wp_simps]: "wp (if b then m else n) Q = (if b then wp m Q else wp n Q)"
  by simp

lemma wp_mono: "wp m P s \<Longrightarrow> (\<And>a s'. P a s' \<Longrightarrow> Q a s') \<Longrightarrow> wp m Q s"
  by (auto simp: wp_def split: prod.splits)

lemma wp_True [simp]: "wp m (\<lambda>_ _. True) s"
  by (simp add: wp_def split: prod.splits)

lemma wp_imp: "wp m (\<lambda>a s'. A \<longrightarrow> Q a s') s \<longleftrightarrow> (A \<longrightarrow> wp m Q s)"
  by (auto simp: wp_def split: prod.splits)

lemma map_sum_eq_Inl [simp]: "map_sum f g x = Inl y \<longleftrightarrow> (\<exists>z. x = Inl z \<and> y = f z)"
  by (cases x) auto

lemma map_sum_eq_Inr [simp]: "map_sum f g x = Inr y \<longleftrightarrow> (\<exists>z. x = Inr z \<and> y = g z)"
  by (cases x) auto

lemma wp_conj: "wp m P s \<Longrightarrow> wp m Q s \<Longrightarrow> wp m (\<lambda>a s'. P a s' \<and> Q a s') s"
  by (auto simp: wp_def)

lemma wp_run: "wp m Q s \<Longrightarrow> run_state m s = (a, s') \<Longrightarrow> Q a s'"
  by (simp add: wp_def)

end
