(* ===== verification/Domain.thy ===== *)
theory Domain
  imports Prelude
begin

text \<open>
  The domain vocabulary of \<^verbatim>\<open>ralphy-core/src/types.rs\<close>: issues, token usage, plans, execution
  outcomes and the errors an agent returns.  Token counters are \<^typ>\<open>u64\<close> words: the release
  build wraps on overflow, and every sum below is a sum of words.
\<close>

section \<open>Data\<close>

record issue =
  issue_number :: issue_no
  issue_title :: string
  issue_body :: string
  issue_labels :: "string list"
  issue_comments :: "string list"

record usage =
  u_input :: u64
  u_output :: u64
  u_cache_read :: u64
  u_cache_creation :: u64
  u_model :: "string option"

definition usage_default :: usage where
  "usage_default = \<lparr>u_input = 0, u_output = 0, u_cache_read = 0, u_cache_creation = 0, u_model = None\<rparr>"

text \<open>When a usage limit lifts: the vendor's words and the instant they name, if any.\<close>

record reset_at =
  ra_text :: string
  ra_at :: "int option"

datatype outcome = Done | Blocked string | Timeout | Stuck | Limit "reset_at option"

record execution =
  ex_outcome :: outcome
  ex_usage :: usage
  ex_session_id :: "string option"

record plan =
  plan_path :: string
  plan_open_steps :: nat
  plan_recommended_model :: "string option"
  plan_usage :: usage
  plan_session_id :: "string option"

text \<open>
  The errors the runner tells apart by \<^verbatim>\<open>downcast\<close>: a plan-time usage limit, a session refused
  because its hooks did not prove they run, and any other error.
\<close>

datatype error = PlanLimit "reset_at option" | HooksUnproven string | Other string

section \<open>Operations\<close>

definition add_tokens :: "usage \<Rightarrow> usage \<Rightarrow> usage" where
  "add_tokens self other =
     self\<lparr>u_input := u_input self + u_input other,
          u_output := u_output self + u_output other,
          u_cache_read := u_cache_read self + u_cache_read other,
          u_cache_creation := u_cache_creation self + u_cache_creation other\<rparr>"

definition total :: "usage \<Rightarrow> u64" where
  "total u = u_input u + u_output u + u_cache_read u + u_cache_creation u"

text \<open>Rust's \<^verbatim>\<open>max_by_key\<close>: the last of the elements with the greatest key.\<close>

fun max_by_key :: "('a \<Rightarrow> 'k::linorder) \<Rightarrow> 'a list \<Rightarrow> 'a option" where
  "max_by_key key [] = None"
| "max_by_key key (x # xs) =
     Some (foldl (\<lambda>best y. if key best \<le> key y then y else best) x xs)"

definition fold_usage :: "usage list \<Rightarrow> string option \<Rightarrow> usage" where
  "fold_usage items fallback =
     (let folded = foldl add_tokens usage_default items;
          heaviest = max_by_key total (filter (\<lambda>u. u_model u \<noteq> None) items)
      in folded\<lparr>u_model :=
           (case heaviest of
              None \<Rightarrow> fallback
            | Some u \<Rightarrow> (case u_model u of None \<Rightarrow> fallback | Some m \<Rightarrow> Some m))\<rparr>)"

definition is_feasible :: "plan \<Rightarrow> bool" where
  "is_feasible p \<longleftrightarrow> plan_open_steps p > 0"

section \<open>Laws of token sums\<close>

lemma total_default [simp]: "total usage_default = 0"
  by (simp add: total_def usage_default_def)

lemma total_add_tokens [simp]: "total (add_tokens a b) = total a + total b"
  by (simp add: total_def add_tokens_def)

lemma model_add_tokens [simp]: "u_model (add_tokens a b) = u_model a"
  by (simp add: add_tokens_def)

lemma total_model_update [simp]: "total (u\<lparr>u_model := m\<rparr>) = total u"
  by (simp add: total_def)

lemma total_foldl_add_tokens: "total (foldl add_tokens acc us) = total acc + sum_list (map total us)"
  by (induction us arbitrary: acc) (simp_all add: algebra_simps)

lemma foldl_add_tokens_fields:
  "u_input (foldl add_tokens acc us) = u_input acc + sum_list (map u_input us)"
  "u_output (foldl add_tokens acc us) = u_output acc + sum_list (map u_output us)"
  "u_cache_read (foldl add_tokens acc us) = u_cache_read acc + sum_list (map u_cache_read us)"
  "u_cache_creation (foldl add_tokens acc us) =
     u_cache_creation acc + sum_list (map u_cache_creation us)"
  by (induction us arbitrary: acc) (simp_all add: add_tokens_def algebra_simps)

lemma foldl_max_spec:
  fixes key :: "'a \<Rightarrow> 'k::linorder"
  defines "pick \<equiv> (\<lambda>best y. if key best \<le> key y then y else best)"
  shows "foldl pick x xs \<in> set (x # xs) \<and> (\<forall>y \<in> set (x # xs). key y \<le> key (foldl pick x xs))"
proof (induction xs arbitrary: x)
  case Nil
  then show ?case by simp
next
  case (Cons y ys)
  have "key x \<le> key (pick x y)" and "key y \<le> key (pick x y)" and "pick x y \<in> {x, y}"
    by (auto simp: pick_def)
  with Cons.IH [of "pick x y"] show ?case
    by (auto intro: order_trans)
qed

lemma max_by_key_Some:
  assumes "max_by_key key xs = Some m"
  shows "m \<in> set xs \<and> (\<forall>y \<in> set xs. key y \<le> key m)"
proof (cases xs)
  case Nil
  with assms show ?thesis by simp
next
  case (Cons x xs')
  with assms foldl_max_spec [of key x xs'] show ?thesis by auto
qed

lemma max_by_key_None [simp]: "max_by_key key xs = None \<longleftrightarrow> xs = []"
  by (cases xs) auto

text \<open>
  The usage a phase records for its attempts carries the word sum of every attempt's four
  token fields, and is attributed to the model of a heaviest attempt that names one; the
  fallback is taken only when no attempt names a model.
\<close>

lemma fold_usage_spec:
  "u_input (fold_usage items fb) = sum_list (map u_input items) \<and>
   u_output (fold_usage items fb) = sum_list (map u_output items) \<and>
   u_cache_read (fold_usage items fb) = sum_list (map u_cache_read items) \<and>
   u_cache_creation (fold_usage items fb) = sum_list (map u_cache_creation items) \<and>
   (if \<exists>u \<in> set items. u_model u \<noteq> None
    then \<exists>u \<in> set items. u_model u \<noteq> None \<and> u_model (fold_usage items fb) = u_model u \<and>
           list_all (\<lambda>v. total v \<le> total u) (filter (\<lambda>v. u_model v \<noteq> None) items)
    else u_model (fold_usage items fb) = fb)"
proof -
  let ?named = "filter (\<lambda>u. u_model u \<noteq> None) items"
  have model: "u_model (fold_usage items fb) =
      (case max_by_key total ?named of None \<Rightarrow> fb
       | Some u \<Rightarrow> (case u_model u of None \<Rightarrow> fb | Some m \<Rightarrow> Some m))"
    by (simp add: fold_usage_def Let_def)
  have attributed: "if \<exists>u \<in> set items. u_model u \<noteq> None
    then \<exists>u \<in> set items. u_model u \<noteq> None \<and> u_model (fold_usage items fb) = u_model u \<and>
           list_all (\<lambda>v. total v \<le> total u) ?named
    else u_model (fold_usage items fb) = fb"
  proof (cases "max_by_key total ?named")
    case None
    with model show ?thesis by (auto simp: filter_empty_conv)
  next
    case (Some u)
    from max_by_key_Some [OF this] have "u \<in> set ?named" and "\<forall>v \<in> set ?named. total v \<le> total u"
      by auto
    with Some model show ?thesis
      by (auto simp: list_all_iff)
  qed
  then show ?thesis
    by (simp add: fold_usage_def Let_def foldl_add_tokens_fields usage_default_def)
qed

lemma total_fold_usage [simp]: "total (fold_usage us fb) = sum_list (map total us)"
  by (simp add: fold_usage_def Let_def total_foldl_add_tokens)

end
