(* ===== verification/Markdown.thy ===== *)
theory Markdown
  imports Prelude
begin

text \<open>
  \<^verbatim>\<open>ralphy-core/src/markdown.rs\<close>: the section that follows a heading.  The regular expressions are
  run by the third-party \<^verbatim>\<open>regex\<close> crate, so the engine is a parameter of every function that
  searches: \<open>rx_find\<close> is the byte range of the leftmost match of a pattern, \<open>rx_find_iter\<close> the
  ranges of all its matches in order, \<open>rx_captures\<close> the capture groups of every match in order
  (group 0 first), \<open>rx_escape\<close> the pattern that matches a literal text.  Patterns are the literals of the
  source.  \<open>rx_ok\<close> is the documented range of a match.
\<close>

record regex_engine =
  rx_find :: "string \<Rightarrow> string \<Rightarrow> (nat \<times> nat) option"
  rx_find_iter :: "string \<Rightarrow> string \<Rightarrow> (nat \<times> nat) list"
  rx_captures :: "string \<Rightarrow> string \<Rightarrow> string list list"
  rx_escape :: "string \<Rightarrow> string"

definition rx_ok :: "regex_engine \<Rightarrow> bool" where
  "rx_ok rx \<longleftrightarrow> (\<forall>pat s a b. rx_find rx pat s = Some (a, b) \<longrightarrow> a \<le> b \<and> b \<le> length s)"

definition is_match :: "regex_engine \<Rightarrow> string \<Rightarrow> string \<Rightarrow> bool" where
  "is_match rx pat s \<longleftrightarrow> rx_find rx pat s \<noteq> None"

definition next_heading_re :: string where
  "next_heading_re = ''(?m)^##'' @ [bslash] @ ''s+''"

definition section_after_heading :: "regex_engine \<Rightarrow> string \<Rightarrow> string \<Rightarrow> string" where
  "section_after_heading rx md heading_re =
     (case rx_find rx heading_re md of
        None \<Rightarrow> []
      | Some (_, heading_end) \<Rightarrow>
          (let after = drop heading_end md;
               end = (case rx_find rx next_heading_re after of
                        Some (s, _) \<Rightarrow> s | None \<Rightarrow> length after)
           in take end after))"

lemma section_sublist: "sublist (section_after_heading rx md re) md"
  by (auto simp: section_after_heading_def Let_def split: option.splits
      intro: sublist_order.order_trans [OF prefix_imp_sublist [OF take_is_prefix]
        suffix_imp_sublist [OF suffix_drop]])

text \<open>
  The heading of a section: two hashes, white space, the title, then the end of the line, with
  the case ignored and \<open>^\<close> and \<open>$\<close> at line ends.
\<close>

definition heading_re :: "string \<Rightarrow> string" where
  "heading_re ttl = ''(?im)^##'' @ [bslash] @ ''s+'' @ ttl @ [bslash] @ ''s*$''"

end
