(* ===== verification/Verify.thy ===== *)
theory Verify
  imports Markdown
begin

text \<open>
  The verify gate of \<^verbatim>\<open>ralphy-core/src/verify.rs\<close> and \<^verbatim>\<open>ralphy-core/src/verify/parse.rs\<close>: the
  \<^verbatim>\<open>## Verify\<close> section of a plan is read into commands, the commands run in order until one
  fails, and the report says which.  Spawning a process is a parameter.
\<close>

section \<open>The Verify section of a plan\<close>

datatype verify_spec =
    VsNone
  | Commands "string list list"
  | Invalid string
  | Unspecified

definition looks_like_markdown_list :: "string \<Rightarrow> bool" where
  "looks_like_markdown_list line =
     (case chars line of
        [] \<Rightarrow> False
      | c # _ \<Rightarrow> c \<in> {''-'', ''*'', ''+'', [backtick]})"

definition quoted_lines :: "string list \<Rightarrow> string" where
  "quoted_lines ls = join '', '' (map (\<lambda>l. [backtick] @ l @ [backtick]) ls)"

definition bt :: "string \<Rightarrow> string" where
  "bt s = [backtick] @ s @ [backtick]"

definition malformed_error :: "string list \<Rightarrow> string" where
  "malformed_error malformed =
     bt ''## Verify'' @ '' must be one bare command per line, not a markdown list (no '' @
     bt ''-'' @ ''/'' @ bt ''*'' @ ''/'' @ bt ''+'' @ '' bullet, '' @ bt ''- [ ]'' @
     '' checkbox, or backtick-wrapped command). Offending line(s): '' @ quoted_lines malformed"

text \<open>The state of a character loop over quotes: in single quotes, in double quotes, after a backslash.\<close>

definition toggles_quote :: "string \<Rightarrow> bool \<Rightarrow> bool \<Rightarrow> bool" where
  "toggles_quote ch in_single in_double \<longleftrightarrow>
     (ch = [dquote] \<and> \<not> in_single) \<or> (ch = [squote] \<and> \<not> in_double)"

fun escaped_quote_loop :: "string list \<Rightarrow> bool \<Rightarrow> bool \<Rightarrow> bool \<Rightarrow> bool" where
  "escaped_quote_loop [] in_single in_double prev_backslash = False"
| "escaped_quote_loop (ch # rest) in_single in_double prev_backslash =
     (if prev_backslash then
        (if toggles_quote ch in_single in_double then True
         else escaped_quote_loop rest in_single in_double False)
      else if ch = [bslash] then escaped_quote_loop rest in_single in_double True
      else if ch = [squote] \<and> \<not> in_double then
        escaped_quote_loop rest (\<not> in_single) in_double False
      else if ch = [dquote] \<and> \<not> in_single then
        escaped_quote_loop rest in_single (\<not> in_double) False
      else escaped_quote_loop rest in_single in_double False)"

definition has_escaped_quote :: "string \<Rightarrow> bool" where
  "has_escaped_quote line = escaped_quote_loop (chars line) False False False"

definition escaped_quote_error :: "string list \<Rightarrow> string" where
  "escaped_quote_error offenders =
     bt ''## Verify'' @ '' runs each command as argv with no shell, and its tokenizer does '' @
     ''not honor backslash-escaped quotes ('' @ bt [bslash, dquote] @ ''/'' @ bt [bslash, squote] @
     ''). Rewrite with single outer quotes (e.g. '' @
     bt (''sh -c '' @ [squote] @ ''test '' @ [dquote] @ ''$x'' @ [dquote] @ '' = y'' @ [squote]) @
     '') or as one bare command per line (e.g. a '' @
     bt (''python -c '' @ [dquote] @ ''...'' @ [dquote]) @
     '' one-liner). Offending line(s): '' @ quoted_lines offenders"

record tokenizer =
  tk_tokens :: "string list"
  tk_cur :: string
  tk_in_single :: bool
  tk_in_double :: bool
  tk_has_token :: bool

definition tokenize_char :: "tokenizer \<Rightarrow> string \<Rightarrow> tokenizer" where
  "tokenize_char t ch =
     (if ch = [squote] \<and> \<not> tk_in_double t then
        t\<lparr>tk_in_single := \<not> tk_in_single t, tk_has_token := True\<rparr>
      else if ch = [dquote] \<and> \<not> tk_in_single t then
        t\<lparr>tk_in_double := \<not> tk_in_double t, tk_has_token := True\<rparr>
      else if is_ws ch \<and> \<not> tk_in_single t \<and> \<not> tk_in_double t then
        (if tk_has_token t then
           t\<lparr>tk_tokens := tk_tokens t @ [tk_cur t], tk_cur := [], tk_has_token := False\<rparr>
         else t)
      else t\<lparr>tk_cur := tk_cur t @ ch, tk_has_token := True\<rparr>)"

definition tokenizer_start :: tokenizer where
  "tokenizer_start = \<lparr>tk_tokens = [], tk_cur = [], tk_in_single = False, tk_in_double = False,
     tk_has_token = False\<rparr>"

definition tokenizer_finish :: "tokenizer \<Rightarrow> string list" where
  "tokenizer_finish t = (if tk_has_token t then tk_tokens t @ [tk_cur t] else tk_tokens t)"

definition tokenize :: "string \<Rightarrow> string list" where
  "tokenize line = tokenizer_finish (foldl tokenize_char tokenizer_start (chars line))"

definition verify_lines :: "string \<Rightarrow> string list" where
  "verify_lines sec =
     filter (\<lambda>l. l \<noteq> [] \<and> \<not> prefix [backtick, backtick, backtick] l) (map trim (rust_lines sec))"

definition parse_verify :: "regex_engine \<Rightarrow> string \<Rightarrow> verify_spec" where
  "parse_verify rx md =
     (let sec = section_after_heading rx md (heading_re ''Verify'');
          ls = verify_lines sec
      in if ls = [] then Unspecified
         else if length ls = 1 \<and> eq_ignore_ascii_case (hd ls) ''none'' then VsNone
         else
           (let malformed = filter looks_like_markdown_list ls
            in if malformed \<noteq> [] then Invalid (malformed_error malformed)
               else
                 (let escaped = filter has_escaped_quote ls
                  in if escaped \<noteq> [] then Invalid (escaped_quote_error escaped)
                     else
                       (let commands = filter (\<lambda>argv. argv \<noteq> []) (map tokenize ls)
                        in if commands = [] then Unspecified else Commands commands))))"

section \<open>Running the gate\<close>

text \<open>
  One command's outcome.  \<open>co_secs\<close> is the measured duration, an opaque number here.
\<close>

record command_outcome =
  co_argv :: "string list"
  co_exit_code :: "int option"
  co_timed_out :: bool
  co_spawn_failed :: bool
  co_output_tail :: string
  co_secs :: nat

definition co_passed :: "command_outcome \<Rightarrow> bool" where
  "co_passed c \<longleftrightarrow> \<not> co_timed_out c \<and> co_exit_code c = Some 0"

record verify_report =
  vr_commands :: "command_outcome list"
  vr_passed :: bool

definition first_failure :: "verify_report \<Rightarrow> command_outcome option" where
  "first_failure r = find (\<lambda>c. \<not> co_passed c) (vr_commands r)"

definition vr_spawn_failed :: "verify_report \<Rightarrow> bool" where
  "vr_spawn_failed r =
     (case first_failure r of None \<Rightarrow> False | Some c \<Rightarrow> co_spawn_failed c)"

fun run_loop ::
  "(string list \<Rightarrow> 'h \<Rightarrow> command_outcome \<times> 'h) \<Rightarrow> string list list \<Rightarrow> command_outcome list \<Rightarrow> 'h
    \<Rightarrow> verify_report \<times> 'h" where
  "run_loop one [] outcomes h = (\<lparr>vr_commands = outcomes, vr_passed = True\<rparr>, h)"
| "run_loop one (argv # rest) outcomes h =
     (case one argv h of (oc, h') \<Rightarrow>
        if co_passed oc then run_loop one rest (outcomes @ [oc]) h'
        else (\<lparr>vr_commands = outcomes @ [oc], vr_passed = False\<rparr>, h'))"

definition run ::
  "(string list \<Rightarrow> 'h \<Rightarrow> command_outcome \<times> 'h) \<Rightarrow> string list list \<Rightarrow> 'h \<Rightarrow> verify_report \<times> 'h" where
  "run one commands h = run_loop one commands [] h"

definition spawn_failure :: "string list \<Rightarrow> string \<Rightarrow> command_outcome" where
  "spawn_failure argv output_tail = \<lparr>co_argv = argv, co_exit_code = None, co_timed_out = False,
     co_spawn_failed = True, co_output_tail = output_tail, co_secs = 0\<rparr>"

definition TAIL_BYTES :: nat where "TAIL_BYTES = 4000"

text \<open>A UTF-8 continuation byte: an offset there is not a character boundary.\<close>

definition is_continuation :: "char \<Rightarrow> bool" where
  "is_continuation c \<longleftrightarrow> 128 \<le> (of_char c :: nat) \<and> (of_char c :: nat) < 192"

definition tail :: "string \<Rightarrow> string" where
  "tail s =
     (let trimmed = trim_end s
      in if length trimmed \<le> TAIL_BYTES then trimmed
         else
           (let slice = dropWhile is_continuation (drop (length trimmed - TAIL_BYTES) trimmed)
            in case dropWhile (\<lambda>c. c \<noteq> nl) slice of
                 [] \<Rightarrow> slice
               | _ # rest \<Rightarrow> rest))"

text \<open>
  What the operating system answers to a spawn: an error text, or how the wait for the child ended, the
  captured output and the time taken.  The wait polls the child, the operator's stop flag and the deadline:
  the child exited (\<open>None\<close> without a code), a poll of it failed, the flag was read as set, or the deadline
  had passed.  The last two cut the wait short, and the outcome says no more than that.
\<close>

datatype wait_end =
    ChildExited "int option"
  | PollFailed
  | StopSeen
  | DeadlineSeen

fun wait_until :: "wait_end \<Rightarrow> int option \<times> bool" where
  "wait_until (ChildExited code) = (code, False)"
| "wait_until PollFailed = (None, False)"
| "wait_until StopSeen = (None, True)"
| "wait_until DeadlineSeen = (None, True)"

datatype spawn_result =
    SpawnError string
  | Ran (ran_end: wait_end) (ran_output: string) (ran_secs: nat)

definition run_one :: "(string list \<Rightarrow> 'h \<Rightarrow> spawn_result \<times> 'h) \<Rightarrow> string list \<Rightarrow> 'h
    \<Rightarrow> command_outcome \<times> 'h" where
  "run_one spawn argv h =
     (case argv of
        [] \<Rightarrow> (spawn_failure argv ''empty command'', h)
      | program # _ \<Rightarrow>
          (case spawn argv h of
             (SpawnError e, h') \<Rightarrow>
               (spawn_failure argv
                  (''failed to spawn '' @ [backtick] @ program @ [backtick] @ '': '' @ e), h')
           | (Ran wait out secs, h') \<Rightarrow>
               (case wait_until wait of
                  (status, timed_out) \<Rightarrow>
                    (\<lparr>co_argv = argv, co_exit_code = status, co_timed_out = timed_out,
                      co_spawn_failed = False, co_output_tail = tail out, co_secs = secs\<rparr>, h'))))"

section \<open>The run of a gate\<close>

lemma run_loop_outcomes:
  assumes "run_loop one cmds outs h = (r, h')"
  shows "\<exists>new. vr_commands r = outs @ new \<and> length new \<le> length cmds \<and>
     (if vr_passed r then length new = length cmds \<and> list_all co_passed new
      else new \<noteq> [] \<and> \<not> co_passed (last new) \<and> list_all co_passed (butlast new))"
  using assms
proof (induction one cmds outs h rule: run_loop.induct)
  case (1 one outs h)
  then show ?case by auto
next
  case (2 one argv rest outs h)
  obtain oc h2 where one: "one argv h = (oc, h2)" by fastforce
  show ?case
  proof (cases "co_passed oc")
    case False
    with 2 one have "r = \<lparr>vr_commands = outs @ [oc], vr_passed = False\<rparr>" by simp
    with False show ?thesis by (intro exI [of _ "[oc]"]) simp
  next
    case True
    with 2 one obtain new where new: "vr_commands r = (outs @ [oc]) @ new" "length new \<le> length rest"
        "if vr_passed r then length new = length rest \<and> list_all co_passed new
         else new \<noteq> [] \<and> \<not> co_passed (last new) \<and> list_all co_passed (butlast new)"
      by fastforce
    with True show ?thesis
      by (intro exI [of _ "oc # new"]) (auto split: if_splits)
  qed
qed

lemma find_last_failing:
  assumes "xs \<noteq> []" "\<not> co_passed (last xs)" "list_all co_passed (butlast xs)"
  shows "find (\<lambda>c. \<not> co_passed c) xs = Some (last xs)"
  using assms by (induction xs) (auto split: if_splits)

lemma find_all_passed: "list_all co_passed xs \<Longrightarrow> find (\<lambda>c. \<not> co_passed c) xs = None"
  by (induction xs) auto

text \<open>
  The answers of a gate whose commands are all spawned, one after the other; an empty command is not
  spawned.  Only an exit with code zero passes.
\<close>

fun gate_answers :: "(string list \<Rightarrow> 'h \<Rightarrow> spawn_result \<times> 'h) \<Rightarrow> string list list \<Rightarrow> 'h \<Rightarrow> spawn_result list" where
  "gate_answers spawn [] h = []"
| "gate_answers spawn ([] # cmds) h = SpawnError ''empty command'' # gate_answers spawn cmds h"
| "gate_answers spawn (argv # cmds) h =
     (case spawn argv h of (answer, h') \<Rightarrow> answer # gate_answers spawn cmds h')"

fun spawn_ok :: "spawn_result \<Rightarrow> bool" where
  "spawn_ok (Ran (ChildExited (Some code)) _ _) = (code = 0)"
| "spawn_ok _ = False"

lemma spawn_ok_Ran:
  "wait_until w = (status, was_cut) \<Longrightarrow> spawn_ok (Ran w out secs) \<longleftrightarrow> \<not> was_cut \<and> status = Some 0"
  by (cases w rule: wait_until.cases; cases status) auto

lemma run_one_answer:
  "run_one spawn argv h = (oc, h') \<Longrightarrow>
   co_argv oc = argv \<and> (\<exists>a. gate_answers spawn (argv # cmds) h = a # gate_answers spawn cmds h' \<and>
     co_passed oc = spawn_ok a)"
  by (auto simp: run_one_def spawn_failure_def co_passed_def spawn_ok_Ran
      split: list.splits prod.splits spawn_result.splits)

lemma run_loop_answers:
  "run_loop (run_one spawn) cmds outs h = (r, h') \<Longrightarrow>
   \<exists>new. vr_commands r = outs @ new \<and> map co_argv new = take (length new) cmds \<and>
     map co_passed new = map spawn_ok (take (length new) (gate_answers spawn cmds h))"
proof (induction cmds arbitrary: outs h)
  case (Cons argv cmds)
  obtain oc t where one: "run_one spawn argv h = (oc, t)" by fastforce
  from run_one_answer [OF one, of cmds] obtain a where
    a: "co_argv oc = argv" "gate_answers spawn (argv # cmds) h = a # gate_answers spawn cmds t"
      "co_passed oc = spawn_ok a"
    by blast
  show ?case
  proof (cases "co_passed oc")
    case False
    with Cons.prems one have "vr_commands r = outs @ [oc]" by auto
    with a show ?thesis by (intro exI [of _ "[oc]"]) simp
  next
    case True
    with Cons.prems one have "run_loop (run_one spawn) cmds (outs @ [oc]) t = (r, h')" by simp
    from Cons.IH [OF this] obtain new where "vr_commands r = (outs @ [oc]) @ new"
      "map co_argv new = take (length new) cmds"
      "map co_passed new = map spawn_ok (take (length new) (gate_answers spawn cmds t))" by blast
    with a show ?thesis by (intro exI [of _ "oc # new"]) simp
  qed
qed auto

text \<open>
  C25. The commands a gate reports are the first configured ones in their order, each with what its own
  spawn answered, and a command passed exactly when its child exited with code zero.  The gate passes
  exactly when every one of its commands ran and passed; otherwise it stopped at the first command that
  failed: that command is the last one run, every command before it passed, and it is the one the report
  names.
\<close>

theorem gate_run_spec:
  assumes "run (run_one spawn) cmds h = (r, h')"
  shows "map co_argv (vr_commands r) = take (length (vr_commands r)) cmds \<and>
         map co_passed (vr_commands r) =
           map spawn_ok (take (length (vr_commands r)) (gate_answers spawn cmds h)) \<and>
         (if vr_passed r
          then length (vr_commands r) = length cmds \<and> list_all co_passed (vr_commands r) \<and>
               first_failure r = None
          else vr_commands r \<noteq> [] \<and> length (vr_commands r) \<le> length cmds \<and>
               \<not> co_passed (last (vr_commands r)) \<and> list_all co_passed (butlast (vr_commands r)) \<and>
               first_failure r = Some (last (vr_commands r)))"
proof -
  from assms have loop: "run_loop (run_one spawn) cmds [] h = (r, h')" by (simp add: run_def)
  from run_loop_outcomes [OF this] obtain new where "vr_commands r = new" "length new \<le> length cmds"
      "if vr_passed r then length new = length cmds \<and> list_all co_passed new
       else new \<noteq> [] \<and> \<not> co_passed (last new) \<and> list_all co_passed (butlast new)"
    by auto
  with run_loop_answers [OF loop] show ?thesis
    by (auto simp: first_failure_def find_last_failing find_all_passed split: if_splits)
qed

definition stop_at_b :: "string list \<Rightarrow> nat \<Rightarrow> spawn_result \<times> nat" where
  "stop_at_b argv n = (Ran (if argv = [''b''] then StopSeen else ChildExited (Some 0)) [] 1, n + 1)"

text \<open>Three commands, of which the second is cut by the stop: the third is not spawned.\<close>

theorem gate_run_spec_witness:
  "\<exists>r. run (run_one stop_at_b) [[''a''], [''b''], [''c'']] 0 = (r, 2) \<and> \<not> vr_passed r \<and>
     map co_argv (vr_commands r) = [[''a''], [''b'']] \<and> map co_passed (vr_commands r) = [True, False]"
proof -
  obtain r where r: "run (run_one stop_at_b) [[''a''], [''b''], [''c'']] 0 = (r, 2)" "length (vr_commands r) = 2"
    "\<not> vr_passed r"
    by (simp add: run_def run_one_def stop_at_b_def co_passed_def)
  with gate_run_spec [OF r(1)] show ?thesis
    by (simp add: stop_at_b_def numeral_2_eq_2)
qed

section \<open>Splitting a command line\<close>

lemma utf8_tail_quote [simp]:
  "utf8_tail dquote = 0" "utf8_tail squote = 0" "utf8_tail bslash = 0" "utf8_tail (CHR '' '') = 0"
  by (simp_all add: utf8_tail_def dquote_def squote_def bslash_def Let_def)

lemma quote_chars_distinct [simp]:
  "dquote \<noteq> squote" "squote \<noteq> dquote" "bslash \<noteq> dquote" "bslash \<noteq> squote"
  "dquote \<noteq> bslash" "squote \<noteq> bslash" "CHR '' '' \<noteq> squote" "CHR '' '' \<noteq> dquote"
  by (simp_all add: dquote_def squote_def bslash_def)

lemma is_ws_space [simp]: "is_ws '' ''"
  by (simp add: is_ws_def ws_utf8_def)

text \<open>A token in double quotes, and a command line that quotes every token.\<close>

definition dq :: "string \<Rightarrow> string" where
  "dq t = [dquote] @ t @ [dquote]"

lemma tokenize_inside_quotes:
  assumes "tk_in_double st" "\<not> tk_in_single st" "tk_has_token st" "[dquote] \<notin> set cs"
  shows "foldl tokenize_char st cs = st\<lparr>tk_cur := tk_cur st @ concat cs\<rparr>"
  using assms by (induction cs arbitrary: st) (auto simp: tokenize_char_def)

lemma chars_no_quote: "dquote \<notin> set t \<Longrightarrow> [dquote] \<notin> set (chars t)"
  by (metis concat_chars UN_iff list.set_intros(1) set_concat)

lemma tokenize_quoted_token:
  assumes "whole_chars t" "dquote \<notin> set t"
    and st: "\<not> tk_in_double st" "\<not> tk_in_single st" "tk_cur st = []"
  shows "foldl tokenize_char st (chars (dq t)) = st\<lparr>tk_cur := t, tk_has_token := True\<rparr>"
proof -
  let ?opened = "st\<lparr>tk_in_double := True, tk_has_token := True\<rparr>"
  have split: "chars (dq t) = [[dquote]] @ chars t @ [[dquote]]"
    using assms(1) by (simp add: dq_def chars_append)
  have body: "foldl tokenize_char ?opened (chars t) = ?opened\<lparr>tk_cur := t\<rparr>"
    using tokenize_inside_quotes [of ?opened "chars t"] chars_no_quote [OF assms(2)] st by simp
  have "tokenize_char st [dquote] = ?opened"
    using st by (simp add: tokenize_char_def)
  with st show ?thesis
    unfolding split by (simp add: body) (simp add: tokenize_char_def)
qed

lemma whole_chars_dq: "whole_chars t \<Longrightarrow> whole_chars (dq t)"
  by (simp add: dq_def whole_chars_append)

lemma tokenize_quoted_line:
  assumes "list_all (\<lambda>t. whole_chars t \<and> dquote \<notin> set t) ts"
    and st: "\<not> tk_in_double st" "\<not> tk_in_single st" "\<not> tk_has_token st" "tk_cur st = []"
  shows "tokenizer_finish (foldl tokenize_char st (chars (join '' '' (map dq ts)))) = tk_tokens st @ ts"
  using assms
proof (induction ts arbitrary: st rule: induct_list012)
  case 1
  then show ?case by (simp add: tokenizer_finish_def)
next
  case (2 t)
  then show ?case by (simp add: tokenize_quoted_token tokenizer_finish_def)
next
  case (3 t u us)
  let ?after = "st\<lparr>tk_tokens := tk_tokens st @ [t]\<rparr>"
  have split: "chars (join '' '' (map dq (t # u # us))) =
      chars (dq t) @ ['' ''] @ chars (join '' '' (map dq (u # us)))"
    using 3(3) by (simp add: chars_append whole_chars_dq)
  have "foldl tokenize_char st (chars (dq t) @ ['' '']) = ?after"
    using 3 by (simp add: tokenize_quoted_token) (simp add: tokenize_char_def)
  then have "foldl tokenize_char st (chars (join '' '' (map dq (t # u # us)))) =
      foldl tokenize_char ?after (chars (join '' '' (map dq (u # us))))"
    unfolding split append_assoc [symmetric] by (simp only: foldl_append)
  with 3(2) [of ?after] 3 show ?case by simp
qed

text \<open>
  C28. Quoting and splitting are inverse on arguments without a double quote: a command line that wraps
  each of them in double quotes and separates them by blanks is split back into exactly those arguments,
  empty arguments and arguments with blanks included.  (An argument that holds a double quote has no such
  spelling; the arguments are whole UTF-8 characters, as a Rust string is.)
\<close>

theorem tokenize_quoted_roundtrip:
  assumes "list_all (\<lambda>t. whole_chars t \<and> dquote \<notin> set t) ts"
  shows "tokenize (join '' '' (map dq ts)) = ts"
  using tokenize_quoted_line [OF assms, of tokenizer_start]
  by (simp add: tokenize_def tokenizer_start_def)

theorem tokenize_quoted_roundtrip_witness:
  "list_all (\<lambda>t. whole_chars t \<and> dquote \<notin> set t) [''sh'', ''-c'', ''cargo test'', []] \<and>
   tokenize (join '' '' (map dq [''sh'', ''-c'', ''cargo test'', []])) = [''sh'', ''-c'', ''cargo test'', []]"
proof -
  have h: "list_all (\<lambda>t. whole_chars t \<and> dquote \<notin> set t) [''sh'', ''-c'', ''cargo test'', []]"
    by (simp add: utf8_tail_def dquote_def)
  with tokenize_quoted_roundtrip [OF h] show ?thesis by blast
qed

text \<open>
  The reference splitter honors a backslash before a quote: the quote is then a literal
  character.  It keeps the backslash, as the gate does.
\<close>

definition reference_char :: "tokenizer \<times> bool \<Rightarrow> string \<Rightarrow> tokenizer \<times> bool" where
  "reference_char = (\<lambda>(t, prev_backslash) ch.
     if prev_backslash then
       (if toggles_quote ch (tk_in_single t) (tk_in_double t)
        then t\<lparr>tk_cur := tk_cur t @ ch, tk_has_token := True\<rparr> else tokenize_char t ch, False)
     else (tokenize_char t ch, ch = [bslash]))"

definition reference_tokenize :: "string \<Rightarrow> string list" where
  "reference_tokenize line =
     tokenizer_finish (fst (foldl reference_char (tokenizer_start, False) (chars line)))"

lemma tokenize_char_quotes:
  "tk_in_single (tokenize_char t ch) =
     (if ch = [squote] \<and> \<not> tk_in_double t then \<not> tk_in_single t else tk_in_single t)"
  "tk_in_double (tokenize_char t ch) =
     (if ch = [dquote] \<and> \<not> tk_in_single t then \<not> tk_in_double t else tk_in_double t)"
  by (auto simp: tokenize_char_def)

lemma reference_agrees:
  assumes "\<not> escaped_quote_loop cs (tk_in_single t) (tk_in_double t) prev"
  shows "fst (foldl reference_char (t, prev) cs) = foldl tokenize_char t cs"
  using assms
proof (induction cs arbitrary: t prev)
  case Nil
  then show ?case by simp
next
  case (Cons ch cs)
  have step: "reference_char (t, prev) ch = (tokenize_char t ch, \<not> prev \<and> ch = [bslash])"
    using Cons.prems by (auto simp: reference_char_def split: if_splits)
  have "\<not> escaped_quote_loop cs (tk_in_single (tokenize_char t ch))
          (tk_in_double (tokenize_char t ch)) (\<not> prev \<and> ch = [bslash])"
    using Cons.prems
    by (auto simp: tokenize_char_quotes toggles_quote_def split: if_splits)
  from Cons.IH [OF this] show ?case by (simp add: step)
qed

text \<open>
  The gate's splitter has no notion of a backslash escape, and the escape check in front of it
  makes up for that: a line the check lets through is split exactly as a splitter that honors
  backslash-escaped quotes would split it.
\<close>

theorem unflagged_line_tokenizes_as_reference:
  assumes "\<not> has_escaped_quote line"
  shows "tokenize line = reference_tokenize line"
  using reference_agrees [of "chars line" tokenizer_start False] assms
  by (simp add: has_escaped_quote_def tokenize_def reference_tokenize_def tokenizer_start_def)

theorem unflagged_line_tokenizes_as_reference_witness:
  "\<not> has_escaped_quote (''a'' @ [bslash] @ ''b c'') \<and>
   tokenize (''a'' @ [bslash] @ ''b c'') = reference_tokenize (''a'' @ [bslash] @ ''b c'') \<and>
   has_escaped_quote ([dquote, bslash, dquote])"
proof -
  have h: "\<not> has_escaped_quote (''a'' @ [bslash] @ ''b c'')"
    by (simp add: has_escaped_quote_def utf8_tail_def toggles_quote_def bslash_def squote_def dquote_def)
  have "has_escaped_quote ([dquote, bslash, dquote])"
    by (simp add: has_escaped_quote_def toggles_quote_def)
  with h unflagged_line_tokenizes_as_reference [OF h] show ?thesis by blast
qed

section \<open>Reading the section\<close>

lemma tokenize_char_grows:
  "tk_has_token t \<or> tk_tokens t \<noteq> [] \<Longrightarrow>
   tk_has_token (tokenize_char t ch) \<or> tk_tokens (tokenize_char t ch) \<noteq> []"
  by (auto simp: tokenize_char_def)

lemma tokenize_chars_grow:
  "tk_has_token t \<or> tk_tokens t \<noteq> [] \<Longrightarrow>
   tk_has_token (foldl tokenize_char t cs) \<or> tk_tokens (foldl tokenize_char t cs) \<noteq> []"
  by (induction cs arbitrary: t) (auto simp: tokenize_char_grows)

lemma tokenize_trimmed_nonempty:
  assumes "trim l \<noteq> []"
  shows "tokenize (trim l) \<noteq> []"
proof -
  obtain c cs where c: "chars (trim l) = c # cs" "\<not> is_ws c"
    using assms by (rule trim_head)
  have "tk_has_token (tokenize_char tokenizer_start c)"
    using c(2) by (simp add: tokenize_char_def tokenizer_start_def)
  with tokenize_chars_grow [of "tokenize_char tokenizer_start c" cs] show ?thesis
    by (auto simp: tokenize_def tokenizer_finish_def c(1))
qed

lemma verify_lines_tokenize: "l \<in> set (verify_lines sec) \<Longrightarrow> tokenize l \<noteq> []"
  by (auto simp: verify_lines_def tokenize_trimmed_nonempty)

text \<open>
  When a plan's Verify section is accepted as commands, there is one command per non-blank,
  non-fence line, in order, none of them empty, and no line was a markdown bullet or carried a
  backslash-escaped quote.
\<close>

theorem parse_verify_commands:
  assumes "parse_verify rx md = Commands cs"
  shows "cs = map tokenize (verify_lines (section_after_heading rx md (heading_re ''Verify''))) \<and>
         cs \<noteq> [] \<and> list_all (\<lambda>argv. argv \<noteq> []) cs \<and>
         list_all (\<lambda>l. \<not> looks_like_markdown_list l \<and> \<not> has_escaped_quote l)
           (verify_lines (section_after_heading rx md (heading_re ''Verify'')))"
proof -
  let ?ls = "verify_lines (section_after_heading rx md (heading_re ''Verify''))"
  have nonempty: "list_all (\<lambda>argv. argv \<noteq> []) (map tokenize ?ls)"
    using verify_lines_tokenize by (fastforce simp: list_all_iff)
  then have "filter (\<lambda>argv. argv \<noteq> []) (map tokenize ?ls) = map tokenize ?ls"
    by (simp only: filter_id_conv list_all_iff)
  with assms have "cs = map tokenize ?ls" and "cs \<noteq> []"
      and "list_all (\<lambda>l. \<not> looks_like_markdown_list l \<and> \<not> has_escaped_quote l) ?ls"
    by (auto simp: parse_verify_def Let_def list_all_iff filter_empty_conv split: if_splits)
  with nonempty show ?thesis by simp
qed

definition example_engine :: regex_engine where
  "example_engine = \<lparr>rx_find = (\<lambda>pat s. if pat = heading_re ''Verify'' then Some (0, 9) else None),
     rx_find_iter = (\<lambda>_ _. []), rx_captures = (\<lambda>_ _. []), rx_escape = (\<lambda>s. s)\<rparr>"

theorem parse_verify_commands_witness:
  "parse_verify example_engine (''## Verify'' @ [nl] @ ''cargo test'' @ [nl]) = Commands [[''cargo'', ''test'']] \<and>
   list_all (\<lambda>l. \<not> looks_like_markdown_list l \<and> \<not> has_escaped_quote l) [''cargo test'']"
proof -
  let ?md = "''## Verify'' @ [nl] @ ''cargo test'' @ [nl]"
  have sec: "section_after_heading example_engine ?md (heading_re ''Verify'') = [nl] @ ''cargo test'' @ [nl]"
    by (simp add: section_after_heading_def example_engine_def next_heading_re_def heading_re_def)
  have ls: "verify_lines ([nl] @ ''cargo test'' @ [nl]) = [''cargo test'']"
    by (simp add: verify_lines_def rust_lines.simps nl_def strip_cr_def cr_def trim_def trim_start_def
        trim_end_def utf8_tail_def is_ws_def ws_utf8_def backtick_def)
  have p: "parse_verify example_engine ?md = Commands [[''cargo'', ''test'']]"
    unfolding parse_verify_def Let_def sec ls
    by (simp add: eq_ignore_ascii_case_def looks_like_markdown_list_def has_escaped_quote_def
        utf8_tail_def tokenize_def tokenize_char_def tokenizer_start_def tokenizer_finish_def
        is_ws_def ws_utf8_def backtick_def squote_def dquote_def bslash_def)
  from parse_verify_commands [OF p] p show ?thesis
    unfolding sec ls by blast
qed

section \<open>The captured output\<close>

text \<open>
  The output tail published on an issue is a suffix of the command's trimmed output and never
  longer than the byte budget.
\<close>

lemma tail_bounded: "length (tail s) \<le> TAIL_BYTES \<and> suffix (tail s) (trim_end s)"
proof -
  define slice where "slice = dropWhile is_continuation (drop (length (trim_end s) - TAIL_BYTES) (trim_end s))"
  have slice: "suffix slice (drop (length (trim_end s) - TAIL_BYTES) (trim_end s))"
    unfolding slice_def by (rule suffix_dropWhile)
  then have whole: "suffix slice (trim_end s)" by (meson suffix_drop suffix_order.order_trans)
  have line: "suffix (dropWhile (\<lambda>c. c \<noteq> nl) slice) slice" by (rule suffix_dropWhile)
  have len: "length (trim_end s) > TAIL_BYTES \<Longrightarrow> length slice \<le> TAIL_BYTES"
    using suffix_length_le [OF slice] by simp
  show ?thesis
  proof (cases "length (trim_end s) \<le> TAIL_BYTES")
    case True
    then show ?thesis by (simp add: tail_def Let_def)
  next
    case False
    show ?thesis
    proof (cases "dropWhile (\<lambda>c. c \<noteq> nl) slice")
      case Nil
      then have "tail s = slice"
        using False unfolding tail_def Let_def slice_def [symmetric] by (simp del: dropWhile_eq_Nil_conv)
      then show ?thesis using len whole False by simp
    next
      case (Cons c rest)
      then have "tail s = rest"
        using False by (simp add: tail_def Let_def slice_def [symmetric])
      moreover have "suffix rest slice"
        using line Cons by (metis suffix_ConsD)
      ultimately show ?thesis
        using len whole False suffix_length_le by (fastforce intro: suffix_order.order_trans)
    qed
  qed
qed

end
