(* ===== verification/Blocked.thy ===== *)
theory Blocked
  imports Domain Markdown "HOL-Library.AList" "HOL-Library.Multiset"
begin

text \<open>
  \<^verbatim>\<open>ralphy-core/src/blocked.rs\<close>: the issue references of a body and the order of the queue.  A
  \<^verbatim>\<open>BTreeMap\<close> is an association list; \<^verbatim>\<open>by_number\<close>, whose iteration order matters, is kept sorted
  by key.  A \<^verbatim>\<open>BTreeSet\<close> that is only asked for membership is a set.
\<close>

section \<open>References\<close>

definition CONSOLIDATED_SPEC_MARKER :: string where
  "CONSOLIDATED_SPEC_MARKER = ''<!-- ralphy:consolidated-spec -->''"

definition find_consolidated_spec :: "string list \<Rightarrow> string option" where
  "find_consolidated_spec comments = find (\<lambda>c. contains c CONSOLIDATED_SPEC_MARKER) comments"

text \<open>Rust's \<^verbatim>\<open>parse::<u64>\<close>: decimal digits after an optional plus sign, below \<open>2 ^ 64\<close>.\<close>

definition digit_value :: "char \<Rightarrow> nat option" where
  "digit_value c = (let n = (of_char c :: nat) in if 48 \<le> n \<and> n \<le> 57 then Some (n - 48) else None)"

fun digits_value :: "nat \<Rightarrow> string \<Rightarrow> nat option" where
  "digits_value acc [] = Some acc"
| "digits_value acc (c # cs) =
     (case digit_value c of
        None \<Rightarrow> None
      | Some d \<Rightarrow> if acc * 10 + d < 2 ^ 64 then digits_value (acc * 10 + d) cs else None)"

definition parse_u64 :: "string \<Rightarrow> nat option" where
  "parse_u64 s =
     (let ds = (if prefix ''+'' s then tl s else s) in if ds = [] then None else digits_value 0 ds)"

text \<open>The numbers in capture group 1 of every match; a match that is no \<^verbatim>\<open>u64\<close> is dropped.\<close>

definition captured_numbers :: "regex_engine \<Rightarrow> string \<Rightarrow> string \<Rightarrow> issue_no list" where
  "captured_numbers rx re sec =
     List.map_filter (\<lambda>c. case c of _ # g # _ \<Rightarrow> parse_u64 g | _ \<Rightarrow> None) (rx_captures rx re sec)"

definition bullet_ref_re :: string where
  "bullet_ref_re = ''(?m)^'' @ [bslash] @ ''s*-'' @ [bslash] @ ''s*#('' @ [bslash] @ ''d+)''"

definition parse_blocked_by :: "regex_engine \<Rightarrow> string \<Rightarrow> issue_no list" where
  "parse_blocked_by rx body =
     (let sec = section_after_heading rx body (heading_re ''Blocked by'')
      in if sec = [] then [] else captured_numbers rx bullet_ref_re sec)"

definition parse_blocked_by_all :: "regex_engine \<Rightarrow> string \<Rightarrow> string list \<Rightarrow> issue_no list" where
  "parse_blocked_by_all rx body comments =
     dedup_acc []
       (parse_blocked_by rx body @
        (case find_consolidated_spec comments of
           None \<Rightarrow> []
         | Some spec \<Rightarrow> parse_blocked_by rx spec))"

definition any_ref_re :: string where
  "any_ref_re = ''#('' @ [bslash] @ ''d+)''"

definition parse_parent :: "regex_engine \<Rightarrow> string \<Rightarrow> issue_no list" where
  "parse_parent rx body =
     (let sec = section_after_heading rx body (heading_re ''Parent'')
      in if sec = [] then [] else take 1 (captured_numbers rx any_ref_re sec))"

definition structured_refs :: "regex_engine \<Rightarrow> string \<Rightarrow> issue_no \<Rightarrow> issue_no list" where
  "structured_refs rx body self_number =
     dedup_acc [] (filter (\<lambda>n. n \<noteq> self_number) (parse_blocked_by rx body @ parse_parent rx body))"

definition body_ref_re :: string where
  "body_ref_re = ''(?:^|'' @ [bslash] @ ''W)#('' @ [bslash] @ ''d+)'' @ [bslash] @ ''b''"

definition parse_body_refs :: "regex_engine \<Rightarrow> string \<Rightarrow> issue_no list" where
  "parse_body_refs rx body = dedup_acc [] (captured_numbers rx body_ref_re body)"

definition referenced_issues :: "regex_engine \<Rightarrow> string \<Rightarrow> issue_no \<Rightarrow> issue_no list" where
  "referenced_issues rx body self_number =
     dedup_acc []
       (filter (\<lambda>n. n \<noteq> self_number)
          (parse_blocked_by rx body @ parse_parent rx body @ parse_body_refs rx body))"

definition assignee_union_keep :: "string list \<Rightarrow> string option \<Rightarrow> bool" where
  "assignee_union_keep assignees configured \<longleftrightarrow>
     assignees = [] \<or> (case configured of None \<Rightarrow> False | Some c \<Rightarrow> c \<in> set assignees)"

section \<open>The dependency graph of a queue\<close>

record graph =
  g_body_of :: "(issue_no \<times> string) list"
  g_in_queue :: "issue_no set"
  g_open_numbers :: "issue_no set"
  g_children_of :: "(issue_no \<times> issue_no list) list"

definition body_lookup :: "issue list \<Rightarrow> issue list \<Rightarrow> (issue_no \<times> string) list" where
  "body_lookup open_issues queue =
     foldl (\<lambda>m i. if map_of m (issue_number i) = None
                  then AList.update (issue_number i) (issue_body i) m else m)
       (foldl (\<lambda>m i. AList.update (issue_number i) (issue_body i) m) [] open_issues)
       queue"

definition add_child :: "issue_no \<Rightarrow> (issue_no \<times> issue_no list) list \<Rightarrow> issue_no
    \<Rightarrow> (issue_no \<times> issue_no list) list" where
  "add_child child m p =
     AList.update p ((case map_of m p of None \<Rightarrow> [] | Some cs \<Rightarrow> cs) @ [child]) m"

definition children_by_parent :: "regex_engine \<Rightarrow> issue list \<Rightarrow> (issue_no \<times> issue_no list) list" where
  "children_by_parent rx queue =
     foldl (\<lambda>m i. foldl (add_child (issue_number i)) m (parse_parent rx (issue_body i))) [] queue"

text \<open>One blocker of the walk from \<open>root\<close>: the predecessors found and the stack, top first.\<close>

definition follow_blocker :: "issue_no \<Rightarrow> graph \<Rightarrow> issue_no set \<times> issue_no list \<Rightarrow> issue_no
    \<Rightarrow> issue_no set \<times> issue_no list" where
  "follow_blocker root g = (\<lambda>(acc, stack) n.
     if n \<in> g_in_queue g then (insert n acc, stack)
     else if n \<in> g_open_numbers g then (acc, n # stack)
     else case map_of (g_children_of g) n of
       Some children \<Rightarrow> (acc \<union> set (filter (\<lambda>c. c \<noteq> root) children), stack)
     | None \<Rightarrow> (acc, stack))"

definition follow_blockers :: "issue_no \<Rightarrow> graph \<Rightarrow> issue_no list \<Rightarrow> issue_no set \<times> issue_no list
    \<Rightarrow> issue_no set \<times> issue_no list" where
  "follow_blockers root g refs st =
     foldl (\<lambda>st n. if n \<noteq> root then follow_blocker root g st n else st) st refs"

function walk_predecessors :: "regex_engine \<Rightarrow> issue_no \<Rightarrow> graph \<Rightarrow> issue_no list \<Rightarrow> issue_no set
    \<Rightarrow> issue_no set \<Rightarrow> issue_no set" where
  "walk_predecessors rx root g [] seen acc = acc"
| "walk_predecessors rx root g (node # stack) seen acc =
     (if node \<in> seen then walk_predecessors rx root g stack seen acc
      else case map_of (g_body_of g) node of
        None \<Rightarrow> walk_predecessors rx root g stack (insert node seen) acc
      | Some body \<Rightarrow>
          (case follow_blockers root g (parse_blocked_by rx body) (acc, stack) of
             (acc', stack') \<Rightarrow> walk_predecessors rx root g stack' (insert node seen) acc'))"
  by pat_completeness auto
termination
proof (relation "measures [\<lambda>(rx, root, g, stack, seen, acc). card (fst ` set (g_body_of g) - seen),
    \<lambda>(rx, root, g, stack, seen, acc). length stack]", goal_cases)
  case (3 rx root g node stack seen acc)
  then have "fst ` set (g_body_of g) - insert node seen = fst ` set (g_body_of g) - seen"
    by (auto simp: map_of_eq_None_iff)
  then show ?case by simp
next
  case (4 rx root g node stack seen acc body acc' stack')
  then have "node \<in> fst ` set (g_body_of g) - seen"
    by (auto dest: map_of_SomeD intro: rev_image_eqI)
  then have "card (fst ` set (g_body_of g) - insert node seen) < card (fst ` set (g_body_of g) - seen)"
    by (intro psubset_card_mono) auto
  then show ?case by simp
qed auto

definition queue_predecessors :: "regex_engine \<Rightarrow> issue_no \<Rightarrow> graph \<Rightarrow> issue_no set" where
  "queue_predecessors rx root g = walk_predecessors rx root g [root] {} {}"

section \<open>Kahn's algorithm\<close>

text \<open>Inserting into a map sorted by key; a present key has its value replaced.\<close>

fun btree_insert :: "'k::linorder \<Rightarrow> 'v \<Rightarrow> ('k \<times> 'v) list \<Rightarrow> ('k \<times> 'v) list" where
  "btree_insert k v [] = [(k, v)]"
| "btree_insert k v ((k', v') # m) =
     (if k < k' then (k, v) # (k', v') # m
      else if k = k' then (k, v) # m
      else (k', v') # btree_insert k v m)"

definition by_number :: "issue list \<Rightarrow> (issue_no \<times> issue) list" where
  "by_number queue = foldl (\<lambda>m i. btree_insert (issue_number i) i m) [] queue"

definition is_ready :: "(issue_no \<Rightarrow> issue_no set) \<Rightarrow> issue_no set \<Rightarrow> issue_no \<Rightarrow> bool" where
  "is_ready deps placed n \<longleftrightarrow> deps n \<subseteq> placed"

lemma find_first_split:
  "find P xs = Some x \<Longrightarrow> \<exists>us vs. xs = us @ x # vs \<and> P x \<and> (\<forall>y \<in> set us. \<not> P y)"
proof (induction xs)
  case Nil
  then show ?case by simp
next
  case (Cons y ys)
  show ?case
  proof (cases "P y")
    case True
    with Cons.prems have "y # ys = [] @ x # ys" and "P x" by auto
    then show ?thesis by fastforce
  next
    case False
    with Cons obtain us vs where "ys = us @ x # vs" "P x" "\<forall>y \<in> set us. \<not> P y"
      by auto
    with False have "y # ys = (y # us) @ x # vs" "P x" "\<forall>z \<in> set (y # us). \<not> P z" by auto
    then show ?thesis by blast
  qed
qed

lemma find_filter_shorter:
  assumes "find P m = Some x" "\<not> Q x"
  shows "length (filter Q m) < length m"
proof -
  from assms(1) have "x \<in> set m" by (simp add: find_Some_in)
  with assms(2) show ?thesis by (meson length_filter_less)
qed

function kahn_loop :: "(issue_no \<Rightarrow> issue_no set) \<Rightarrow> (issue_no \<times> issue) list \<Rightarrow> issue_no set
    \<Rightarrow> issue list \<Rightarrow> issue list" where
  "kahn_loop deps m placed out =
     (if m = [] then out
      else case find (\<lambda>e. is_ready deps placed (fst e)) m of
        Some (n, i) \<Rightarrow>
          kahn_loop deps (filter (\<lambda>e. fst e \<noteq> n) m) (insert n placed) (out @ [i])
      | None \<Rightarrow> out @ map snd m)"
  by pat_completeness auto
termination
  by (relation "measure (\<lambda>(deps, m, placed, out). length m)") (auto intro: find_filter_shorter)

declare kahn_loop.simps [simp del]

definition kahn :: "issue list \<Rightarrow> (issue_no \<Rightarrow> issue_no set) \<Rightarrow> issue list" where
  "kahn queue deps = kahn_loop deps (by_number queue) {} []"

definition queue_graph :: "regex_engine \<Rightarrow> issue list \<Rightarrow> issue list \<Rightarrow> graph" where
  "queue_graph rx queue open_issues =
     \<lparr>g_body_of = body_lookup open_issues queue,
      g_in_queue = set (map issue_number queue),
      g_open_numbers = set (map issue_number open_issues),
      g_children_of = children_by_parent rx queue\<rparr>"

definition sort_queue_in_graph :: "regex_engine \<Rightarrow> issue list \<Rightarrow> issue list \<Rightarrow> issue list" where
  "sort_queue_in_graph rx queue open_issues =
     kahn queue (\<lambda>n. queue_predecessors rx n (queue_graph rx queue open_issues))"

definition sort_queue :: "regex_engine \<Rightarrow> issue list \<Rightarrow> issue list" where
  "sort_queue rx queue = sort_queue_in_graph rx queue queue"

section \<open>The sorted map of a queue\<close>

lemma btree_insert_keys: "fst ` set (btree_insert k v m) = insert k (fst ` set m)"
  by (induction k v m rule: btree_insert.induct) auto

lemma btree_insert_sorted:
  "sorted_wrt (<) (map fst m) \<Longrightarrow> sorted_wrt (<) (map fst (btree_insert k v m))"
proof (induction k v m rule: btree_insert.induct)
  case (1 k v)
  then show ?case by simp
next
  case (2 k v k' v' m)
  have "fst ` set (btree_insert k v m) = insert k (fst ` set m)" by (rule btree_insert_keys)
  with 2 show ?case by (auto simp: image_iff)
qed

lemma btree_insert_entries: "set (btree_insert k v m) \<subseteq> insert (k, v) (set m)"
  by (induction k v m rule: btree_insert.induct) auto

lemma btree_insert_fresh: "k \<notin> fst ` set m \<Longrightarrow> mset (btree_insert k v m) = add_mset (k, v) (mset m)"
  by (induction k v m rule: btree_insert.induct) auto

definition number_keyed :: "(issue_no \<times> issue) list \<Rightarrow> bool" where
  "number_keyed m \<longleftrightarrow> sorted_wrt (<) (map fst m) \<and> (\<forall>(k, i) \<in> set m. issue_number i = k)"

lemma number_keyed_fold:
  assumes "number_keyed m"
  shows "number_keyed (foldl (\<lambda>m i. btree_insert (issue_number i) i m) m q)"
  using assms
proof (induction q arbitrary: m)
  case Nil
  then show ?case by simp
next
  case (Cons i q)
  have "number_keyed (btree_insert (issue_number i) i m)"
    using Cons.prems btree_insert_entries [of "issue_number i" i m]
    by (auto simp: number_keyed_def btree_insert_sorted)
  then show ?case using Cons.IH by simp
qed

lemma number_keyed_by_number: "number_keyed (by_number q)"
  unfolding by_number_def by (rule number_keyed_fold) (simp add: number_keyed_def)

lemma by_number_keys: "fst ` set (by_number q) = issue_number ` set q"
proof -
  have "fst ` set (foldl (\<lambda>m i. btree_insert (issue_number i) i m) m q) =
      fst ` set m \<union> issue_number ` set q" for m
    by (induction q arbitrary: m) (auto simp: btree_insert_keys)
  then show ?thesis by (simp add: by_number_def)
qed

lemma mset_by_number:
  assumes "distinct (map issue_number q)"
  shows "mset (map snd (by_number q)) = mset q"
proof -
  have "distinct (map issue_number q) \<Longrightarrow> fst ` set m \<inter> issue_number ` set q = {} \<Longrightarrow>
      mset (map snd (foldl (\<lambda>m i. btree_insert (issue_number i) i m) m q)) = mset (map snd m) + mset q"
    for m
  proof (induction q arbitrary: m)
    case Nil
    then show ?case by simp
  next
    case (Cons i q)
    then have fresh: "issue_number i \<notin> fst ` set m" by auto
    have "fst ` set (btree_insert (issue_number i) i m) \<inter> issue_number ` set q = {}"
      using Cons.prems by (auto simp: btree_insert_keys)
    with Cons fresh show ?case
      by (simp add: btree_insert_fresh)
  qed
  from this [of "[]"] assms show ?thesis by (simp add: by_number_def)
qed

lemma number_keyed_filter: "number_keyed m \<Longrightarrow> number_keyed (filter P m)"
  by (auto simp: number_keyed_def sorted_wrt_map sorted_wrt_filter)

section \<open>The order Kahn's algorithm gives\<close>

lemma kahn_loop_stuck:
  "find (\<lambda>e. is_ready deps placed (fst e)) m = None \<Longrightarrow>
   kahn_loop deps m placed out = out @ map snd m"
  by (simp add: kahn_loop.simps [of deps m placed out])

lemma kahn_loop_take:
  "find (\<lambda>e. is_ready deps placed (fst e)) m = Some (n, i) \<Longrightarrow>
   kahn_loop deps m placed out =
     kahn_loop deps (filter (\<lambda>e. fst e \<noteq> n) m) (insert n placed) (out @ [i])"
  by (auto simp: kahn_loop.simps [of deps m placed out])

lemma kahn_loop_acc: "kahn_loop deps m placed out = out @ kahn_loop deps m placed []"
proof (induction "length m" arbitrary: m placed out rule: less_induct)
  case less
  show ?case
  proof (cases "find (\<lambda>e. is_ready deps placed (fst e)) m")
    case None
    then show ?thesis by (simp add: kahn_loop_stuck)
  next
    case (Some e)
    then obtain n i where e: "find (\<lambda>e. is_ready deps placed (fst e)) m = Some (n, i)"
      by fastforce
    then have "length (filter (\<lambda>e. fst e \<noteq> n) m) < length m"
      by (auto intro: find_filter_shorter)
    note less [OF this, of "insert n placed"]
    then show ?thesis
      unfolding kahn_loop_take [OF e] by (metis append_Nil append_assoc)
  qed
qed

lemma kahn_loop_Cons:
  "find (\<lambda>e. is_ready deps placed (fst e)) m = Some (n, i) \<Longrightarrow>
   kahn_loop deps m placed [] = i # kahn_loop deps (filter (\<lambda>e. fst e \<noteq> n) m) (insert n placed) []"
  by (simp add: kahn_loop_take kahn_loop_acc [where out = "[i]"])

text \<open>Induction along the run: the map is stuck, or its least ready entry is taken.\<close>

lemma kahn_loop_cases [consumes 1, case_names stuck take]:
  assumes "number_keyed m"
    and stuck: "\<And>m placed. number_keyed m \<Longrightarrow> (\<forall>n \<in> fst ` set m. \<not> is_ready deps placed n) \<Longrightarrow>
      kahn_loop deps m placed [] = map snd m \<Longrightarrow> P m placed"
    and take: "\<And>m placed n i m'. number_keyed m \<Longrightarrow> number_keyed m' \<Longrightarrow> (n, i) \<in> set m \<Longrightarrow>
      is_ready deps placed n \<Longrightarrow> (\<forall>k \<in> fst ` set m. is_ready deps placed k \<longrightarrow> n \<le> k) \<Longrightarrow>
      fst ` set m' = fst ` set m - {n} \<Longrightarrow> mset m = add_mset (n, i) (mset m') \<Longrightarrow>
      kahn_loop deps m placed [] = i # kahn_loop deps m' (insert n placed) [] \<Longrightarrow>
      P m' (insert n placed) \<Longrightarrow> P m placed"
  shows "P m placed"
  using assms(1)
proof (induction "length m" arbitrary: m placed rule: less_induct)
  case (less m placed)
  show ?case
  proof (cases "find (\<lambda>e. is_ready deps placed (fst e)) m")
    case None
    then have "\<forall>n \<in> fst ` set m. \<not> is_ready deps placed n" by (auto simp: find_None_all)
    with stuck less.prems None show ?thesis by (simp add: kahn_loop_stuck)
  next
    case (Some e)
    then obtain n i where e: "find (\<lambda>e. is_ready deps placed (fst e)) m = Some (n, i)"
      by fastforce
    let ?m' = "filter (\<lambda>e. fst e \<noteq> n) m"
    from find_first_split [OF e] obtain us vs where m: "m = us @ (n, i) # vs"
        and us: "\<forall>e \<in> set us. \<not> is_ready deps placed (fst e)" and n: "is_ready deps placed n"
      by auto
    have sorted: "sorted_wrt (<) (map fst us @ n # map fst vs)"
      using less.prems m by (simp add: number_keyed_def)
    then have us_less: "\<forall>e \<in> set us. fst e < n" and vs_greater: "\<forall>e \<in> set vs. n < fst e"
      by (auto simp: sorted_wrt_append)
    then have "filter (\<lambda>e. fst e \<noteq> n) us = us" and "filter (\<lambda>e. fst e \<noteq> n) vs = vs"
      by (auto simp: filter_id_conv)
    then have m': "?m' = us @ vs" using m by simp
    have "length ?m' < length m" using m m' by simp
    then have IH: "P ?m' (insert n placed)"
      using less.hyps number_keyed_filter [OF less.prems] by blast
    show ?thesis
    proof (rule take [OF less.prems number_keyed_filter [OF less.prems] _ n _ _ _ kahn_loop_Cons [OF e] IH])
      show "(n, i) \<in> set m" using m by simp
      show "\<forall>k \<in> fst ` set m. is_ready deps placed k \<longrightarrow> n \<le> k"
        using m us vs_greater by force
      show "fst ` set ?m' = fst ` set m - {n}" by auto
      show "mset m = add_mset (n, i) (mset ?m')" using m m' by simp
    qed
  qed
qed

lemma mset_kahn_loop: "number_keyed m \<Longrightarrow> mset (kahn_loop deps m placed []) = mset (map snd m)"
  by (induction m placed rule: kahn_loop_cases [where deps = deps]) simp_all

lemma numbers_of_map: "number_keyed m \<Longrightarrow> map issue_number (map snd m) = map fst m"
  by (auto simp: number_keyed_def)

lemma kahn_numbers:
  assumes "number_keyed m"
  shows "distinct (map issue_number (kahn_loop deps m placed []))"
    and "set (map issue_number (kahn_loop deps m placed [])) = fst ` set m"
proof -
  have "mset (map issue_number (kahn_loop deps m placed [])) = mset (map fst m)"
    using mset_kahn_loop [OF assms] numbers_of_map [OF assms] by (metis mset_map)
  moreover have "distinct (map fst m)"
    using assms by (simp add: number_keyed_def strict_sorted_iff)
  ultimately show "distinct (map issue_number (kahn_loop deps m placed []))"
    and "set (map issue_number (kahn_loop deps m placed [])) = fst ` set m"
    by (metis mset_eq_imp_distinct_iff, metis list.set_map mset_eq_setD)
qed







section \<open>The predecessors of a queue member\<close>

text \<open>
  What one node of the graph contributes to the walk from \<open>root\<close>: the queue members its blockers
  stand for, and the open out-of-queue blockers whose own blockers are followed.
\<close>

definition stands_for :: "issue_no \<Rightarrow> graph \<Rightarrow> issue_no \<Rightarrow> issue_no set" where
  "stands_for root g m =
     (if m = root then {}
      else if m \<in> g_in_queue g then {m}
      else if m \<in> g_open_numbers g then {}
      else case map_of (g_children_of g) m of None \<Rightarrow> {} | Some cs \<Rightarrow> set cs - {root})"

definition transparent :: "issue_no \<Rightarrow> graph \<Rightarrow> issue_no \<Rightarrow> bool" where
  "transparent root g m \<longleftrightarrow> m \<noteq> root \<and> m \<notin> g_in_queue g \<and> m \<in> g_open_numbers g"

definition node_refs :: "regex_engine \<Rightarrow> graph \<Rightarrow> issue_no \<Rightarrow> issue_no list" where
  "node_refs rx g n = (case map_of (g_body_of g) n of None \<Rightarrow> [] | Some b \<Rightarrow> parse_blocked_by rx b)"

inductive reaches :: "regex_engine \<Rightarrow> issue_no \<Rightarrow> graph \<Rightarrow> issue_no \<Rightarrow> bool" for rx root g where
  start: "reaches rx root g root"
| through: "reaches rx root g n \<Longrightarrow> m \<in> set (node_refs rx g n) \<Longrightarrow> transparent root g m \<Longrightarrow>
    reaches rx root g m"

definition must_precede :: "regex_engine \<Rightarrow> issue_no \<Rightarrow> graph \<Rightarrow> issue_no set" where
  "must_precede rx root g = {p. \<exists>n m. reaches rx root g n \<and> m \<in> set (node_refs rx g n) \<and> p \<in> stands_for root g m}"

lemma must_precedeI:
  "reaches rx root g n \<Longrightarrow> m \<in> set (node_refs rx g n) \<Longrightarrow> p \<in> stands_for root g m \<Longrightarrow>
   p \<in> must_precede rx root g"
  by (auto simp: must_precede_def)

lemma follow_blockers_result:
  "follow_blockers root g refs (acc, stack) =
     (acc \<union> (\<Union>m \<in> set refs. stands_for root g m), rev (filter (transparent root g) refs) @ stack)"
proof (induction refs arbitrary: acc stack)
  case Nil
  then show ?case by (simp add: follow_blockers_def)
next
  case (Cons m refs)
  have step: "(if m \<noteq> root then follow_blocker root g (acc, stack) m else (acc, stack)) =
      (acc \<union> stands_for root g m, (if transparent root g m then m # stack else stack))"
    by (auto simp: follow_blocker_def stands_for_def transparent_def split: option.splits)
  have "follow_blockers root g (m # refs) (acc, stack) =
      follow_blockers root g refs (acc \<union> stands_for root g m, (if transparent root g m then m # stack else stack))"
    unfolding follow_blockers_def foldl_Cons step ..
  then show ?case by (auto simp: Cons.IH)
qed

lemma walk_sound:
  assumes "\<forall>n \<in> set stack. reaches rx root g n" "acc \<subseteq> must_precede rx root g"
  shows "walk_predecessors rx root g stack seen acc \<subseteq> must_precede rx root g"
  using assms
proof (induction rx root g stack seen acc rule: walk_predecessors.induct)
  case (1 rx root g seen acc)
  then show ?case by simp
next
  case (2 rx root g node stack seen acc)
  show ?case
  proof (cases "node \<in> seen")
    case True
    with 2 show ?thesis by simp
  next
    case unseen: False
    show ?thesis
    proof (cases "map_of (g_body_of g) node")
      case None
      with 2 unseen show ?thesis by simp
    next
      case (Some body)
      let ?refs = "parse_blocked_by rx body"
      let ?acc = "acc \<union> (\<Union>m \<in> set ?refs. stands_for root g m)"
      let ?stack = "rev (filter (transparent root g) ?refs) @ stack"
      have refs: "node_refs rx g node = ?refs" by (simp add: node_refs_def Some)
      have node: "reaches rx root g node" using 2 by simp
      have "\<forall>n \<in> set ?stack. reaches rx root g n"
        using 2(4) node refs by (auto intro: reaches.through)
      moreover have "?acc \<subseteq> must_precede rx root g"
        using 2(5) node unfolding refs [symmetric] by (auto intro: must_precedeI)
      ultimately show ?thesis
        using 2(3) unseen Some by (simp add: follow_blockers_result)
    qed
  qed
qed

text \<open>Every node already seen has had its contribution taken.\<close>

definition walked :: "regex_engine \<Rightarrow> issue_no \<Rightarrow> graph \<Rightarrow> issue_no list \<Rightarrow> issue_no set \<Rightarrow> issue_no set \<Rightarrow> bool" where
  "walked rx root g stack seen acc \<longleftrightarrow>
     (\<forall>n \<in> seen. \<forall>m \<in> set (node_refs rx g n). stands_for root g m \<subseteq> acc \<and>
        (transparent root g m \<longrightarrow> m \<in> seen \<union> set stack))"

lemma walk_complete:
  assumes "walked rx root g stack seen acc"
  shows "\<exists>S. seen \<union> set stack \<subseteq> S \<and> walked rx root g [] S (walk_predecessors rx root g stack seen acc)"
  using assms
proof (induction rx root g stack seen acc rule: walk_predecessors.induct)
  case (1 rx root g seen acc)
  then show ?case by auto
next
  case (2 rx root g node stack seen acc)
  show ?case
  proof (cases "node \<in> seen")
    case True
    with "2.prems" have "walked rx root g stack seen acc" by (auto simp: walked_def)
    with 2(1) True show ?thesis by auto
  next
    case unseen: False
    show ?thesis
    proof (cases "map_of (g_body_of g) node")
      case None
      with "2.prems" have "walked rx root g stack (insert node seen) acc"
        by (auto simp: walked_def node_refs_def)
      with 2(2) unseen None show ?thesis by auto
    next
      case (Some body)
      let ?refs = "parse_blocked_by rx body"
      let ?acc = "acc \<union> (\<Union>m \<in> set ?refs. stands_for root g m)"
      let ?stack = "rev (filter (transparent root g) ?refs) @ stack"
      have refs: "node_refs rx g node = ?refs" by (simp add: node_refs_def Some)
      have walked': "walked rx root g ?stack (insert node seen) ?acc"
        unfolding walked_def
      proof (intro ballI)
        fix n m
        assume n: "n \<in> insert node seen" and m: "m \<in> set (node_refs rx g n)"
        show "stands_for root g m \<subseteq> ?acc \<and> (transparent root g m \<longrightarrow> m \<in> insert node seen \<union> set ?stack)"
        proof (cases "n = node")
          case True
          with m refs show ?thesis by auto
        next
          case False
          with n have "n \<in> seen" by simp
          with m "2.prems" have "stands_for root g m \<subseteq> acc"
              and "transparent root g m \<longrightarrow> m \<in> seen \<union> set (node # stack)"
            unfolding walked_def by blast+
          then show ?thesis by auto
        qed
      qed
      from 2(3) [OF unseen Some follow_blockers_result [symmetric] walked']
      obtain S where S: "insert node seen \<union> set ?stack \<subseteq> S"
          "walked rx root g [] S (walk_predecessors rx root g ?stack (insert node seen) ?acc)"
        by blast
      have "walk_predecessors rx root g (node # stack) seen acc =
          walk_predecessors rx root g ?stack (insert node seen) ?acc"
        using unseen Some by (simp add: follow_blockers_result)
      with S show ?thesis by (intro exI [of _ S]) auto
    qed
  qed
qed

lemma walked_closed:
  assumes "walked rx root g [] S acc" "root \<in> S" "reaches rx root g n"
  shows "n \<in> S"
  using assms(3,1,2) by (induction rule: reaches.induct) (auto simp: walked_def)

lemma predecessors_eq: "queue_predecessors rx root g = must_precede rx root g"
proof
  show "queue_predecessors rx root g \<subseteq> must_precede rx root g"
    unfolding queue_predecessors_def by (rule walk_sound) (auto intro: reaches.start)
next
  have "walked rx root g [root] {} {}" by (simp add: walked_def)
  from walk_complete [OF this] obtain S where S: "root \<in> S"
      "walked rx root g [] S (queue_predecessors rx root g)"
    by (auto simp: queue_predecessors_def)
  show "must_precede rx root g \<subseteq> queue_predecessors rx root g"
  proof
    fix p
    assume "p \<in> must_precede rx root g"
    then obtain n m where "reaches rx root g n" "m \<in> set (node_refs rx g n)" "p \<in> stands_for root g m"
      by (auto simp: must_precede_def)
    with walked_closed [OF S(2,1)] S(2) show "p \<in> queue_predecessors rx root g"
      by (auto simp: walked_def)
  qed
qed

text \<open>
  C26. The predecessors the queue order uses are exactly the queue members that \<open>root\<close> waits for:
  those reached from its blocked-by references through open issues outside the queue, a closed
  blocker being replaced by the queue members split from it; the walk terminates on every graph,
  cyclic ones included.
\<close>

theorem queue_predecessors_correct:
  "queue_predecessors rx root g =
     {p. \<exists>n m. reaches rx root g n \<and> m \<in> set (node_refs rx g n) \<and> p \<in> stands_for root g m}"
  unfolding predecessors_eq must_precede_def ..

section \<open>The queue order\<close>








lemma number_in_numbers: "set (map issue_number xs) = issue_number ` set xs"
  by simp

lemma sort_queue_numbers:
  "distinct (map issue_number (sort_queue_in_graph rx queue open_issues))"
  "set (map issue_number (sort_queue_in_graph rx queue open_issues)) = set (map issue_number queue)"
  using kahn_numbers [OF number_keyed_by_number]
  by (simp_all add: sort_queue_in_graph_def kahn_def by_number_keys)

text \<open>
  Sorting a queue loses and invents nothing: when the issue numbers are distinct, the order the
  run shows and executes is a permutation of the queue it was given.
\<close>

theorem sort_queue_permutation:
  assumes "distinct (map issue_number queue)"
  shows "mset (sort_queue_in_graph rx queue open_issues) = mset queue"
  using mset_kahn_loop [OF number_keyed_by_number] mset_by_number [OF assms]
  by (simp add: sort_queue_in_graph_def kahn_def)


definition example_issue :: "issue_no \<Rightarrow> string \<Rightarrow> issue" where
  "example_issue n body = \<lparr>issue_number = n, issue_title = [], issue_body = body, issue_labels = [],
     issue_comments = []\<rparr>"

text \<open>An engine that reads the body \<open>5\<close> as one bullet that names issue 5.\<close>

definition bullet_engine :: regex_engine where
  "bullet_engine = \<lparr>rx_find = (\<lambda>pat s. if pat = heading_re ''Blocked by'' then Some (0, 0) else None),
     rx_find_iter = (\<lambda>_ _. []),
     rx_captures = (\<lambda>pat s. if pat = bullet_ref_re then [[s, s]] else []), rx_escape = (\<lambda>s. s)\<rparr>"

definition example_queue :: "issue list" where
  "example_queue = [example_issue 3 ''5'', example_issue 5 []]"


theorem sort_queue_permutation_witness:
  "distinct (map issue_number example_queue) \<and>
   mset (sort_queue_in_graph bullet_engine example_queue []) = mset example_queue"
proof -
  have d: "distinct (map issue_number example_queue)"
    by (simp add: example_queue_def example_issue_def)
  from sort_queue_permutation [OF d] d show ?thesis by blast
qed


end
