(* ===== verification/Handoff.thy ===== *)
theory Handoff
  imports Domain Markdown
begin

text \<open>
  \<^verbatim>\<open>ralphy-core/src/handoff.rs\<close> and the plan-step reader of
  \<^verbatim>\<open>ralphy-core/src/runner/phases/plan.rs\<close>: what a session leaves in its plan and what the next
  session reads of it.
\<close>

section \<open>Sections of a plan\<close>

definition plan_section :: "regex_engine \<Rightarrow> string \<Rightarrow> string \<Rightarrow> string" where
  "plan_section rx md re = trim (section_after_heading rx md re)"

definition HANDOFF_HEADING :: string where
  "HANDOFF_HEADING = ''## Handoff''"

definition close_report :: "regex_engine \<Rightarrow> string \<Rightarrow> string option" where
  "close_report rx plan_md =
     (let handoff = plan_section rx plan_md (heading_re ''Handoff'');
          friction = plan_section rx plan_md (heading_re ''Plan friction'');
          out1 = (if handoff \<noteq> [] then HANDOFF_HEADING @ [nl, nl] @ handoff @ [nl] else []);
          out2 = (if friction \<noteq> []
                  then out1 @ (if out1 \<noteq> [] then [nl] else []) @ ''## Plan friction'' @ [nl, nl] @ friction @ [nl]
                  else out1)
      in if out2 = [] then None else Some out2)"

definition feasible_re :: string where
  "feasible_re = ''(?im)^##'' @ [bslash] @ ''s+Feasible'' @ [bslash] @ ''b.*$''"

definition infeasible_reason :: "regex_engine \<Rightarrow> string \<Rightarrow> string option" where
  "infeasible_reason rx plan_md =
     (let reason = plan_section rx plan_md feasible_re in if reason = [] then None else Some reason)"

text \<open>
  \<^verbatim>\<open>to_lowercase().contains("bundle")\<close>: no character outside ASCII has one of the letters of
  \<open>bundle\<close> as its lower case, so lowering the ASCII letters decides the same.
\<close>

definition is_bundle_reason :: "string \<Rightarrow> bool" where
  "is_bundle_reason reason \<longleftrightarrow> contains (map ascii_lower reason) ''bundle''"

definition says_yes_re :: string where
  "says_yes_re = ''(?im)^##'' @ [bslash] @ ''s+Feasible'' @ [bslash] @ ''s*:'' @ [bslash] @ ''s*yes'' @ [bslash] @ ''b''"

definition is_bundle_verdict :: "regex_engine \<Rightarrow> string \<Rightarrow> bool" where
  "is_bundle_verdict rx plan_md \<longleftrightarrow>
     \<not> is_match rx says_yes_re plan_md \<and>
     (case infeasible_reason rx plan_md of None \<Rightarrow> False | Some r \<Rightarrow> is_bundle_reason r)"

definition find_handoff_comment :: "regex_engine \<Rightarrow> string list \<Rightarrow> string option" where
  "find_handoff_comment rx comments =
     map_option trim (find (\<lambda>c. is_match rx (heading_re ''Handoff'') c) (rev comments))"

definition render_handoffs_file :: "(issue_no \<times> string) list \<Rightarrow> string option" where
  "render_handoffs_file entries =
     (if entries = [] then None
      else Some (
        ''# Handoffs from dependency issues'' @ [nl, nl] @
        ''Knowledge left by the closed issues this one depends on. Entries are'' @ [nl] @
        ''leads, not truths '' @ em_dash @ '' they were accurate when each issue closed.'' @ [nl] @
        concat (map (\<lambda>(number, handoff).
          [nl] @ ''---'' @ [nl, nl] @ ''## From #'' @ show_nat number @ [nl, nl] @ handoff @ [nl]) entries)))"

definition has_handoff :: "regex_engine \<Rightarrow> string \<Rightarrow> bool" where
  "has_handoff rx plan_md \<longleftrightarrow> plan_section rx plan_md (heading_re ''Handoff'') \<noteq> []"

section \<open>Knowledge blocks\<close>

definition HANDOFF_KEYS :: "string list" where
  "HANDOFF_KEYS = [''Delivered'', ''Environment facts & traps'', ''Commands that work'', ''Residue'',
     ''Knowledge used'']"

text \<open>\<^verbatim>\<open>regex::escape\<close>, a function of the \<^verbatim>\<open>regex\<close> crate, is the parameter \<open>rx_escape\<close>.\<close>

definition key_re :: "regex_engine \<Rightarrow> string \<Rightarrow> string" where
  "key_re rx key = ''(?im)^'' @ [bslash] @ ''s*(?:-'' @ [bslash] @ ''s*)?'' @ [bslash] @ ''*'' @ [bslash] @ ''*'' @
     rx_escape rx key @ [bslash] @ ''*'' @ [bslash] @ ''*''"

definition boundary_re :: "regex_engine \<Rightarrow> string" where
  "boundary_re rx = ''(?im)^'' @ [bslash] @ ''s*(?:-'' @ [bslash] @ ''s*)?'' @ [bslash] @ ''*'' @ [bslash] @ ''*(?:'' @
     join ''|'' (map (rx_escape rx) HANDOFF_KEYS) @ '')'' @ [bslash] @ ''*'' @ [bslash] @ ''*''"

definition bullet_block :: "regex_engine \<Rightarrow> string \<Rightarrow> string \<Rightarrow> string" where
  "bullet_block rx md key =
     (case rx_find rx (key_re rx key) md of
        None \<Rightarrow> []
      | Some (start, _) \<Rightarrow>
          (let end = (case find (\<lambda>s. s > start) (map fst (rx_find_iter rx (boundary_re rx) md)) of
                        Some s \<Rightarrow> s | None \<Rightarrow> length md)
           in trim_end (take (end - start) (drop start md))))"

definition knowledge_note :: "regex_engine \<Rightarrow> string \<Rightarrow> string option" where
  "knowledge_note rx plan_md =
     (let handoff = plan_section rx plan_md (heading_re ''Handoff'')
      in if handoff = [] then None
         else
           (let out = concat (map (\<lambda>key. let block = bullet_block rx handoff key
                        in if block \<noteq> [] then block @ [nl] else [])
                      [''Environment facts & traps'', ''Commands that work''])
            in if out = [] then None else Some out))"

text \<open>Rust's \<^verbatim>\<open>trim_start_matches\<close> and \<^verbatim>\<open>trim_matches\<close> for a set of ASCII characters.\<close>

definition trim_start_chars :: "char list \<Rightarrow> string \<Rightarrow> string" where
  "trim_start_chars cs s = dropWhile (\<lambda>c. c \<in> set cs) s"

definition trim_end_chars :: "char list \<Rightarrow> string \<Rightarrow> string" where
  "trim_end_chars cs s = rev (dropWhile (\<lambda>c. c \<in> set cs) (rev s))"

text \<open>\<^verbatim>\<open>split_once\<close>: the text after the leftmost occurrence of a non-empty pattern.\<close>

fun after_first :: "string \<Rightarrow> string \<Rightarrow> string option" where
  "after_first p [] = (if p = [] then Some [] else None)"
| "after_first p (c # cs) =
     (if prefix p (c # cs) then Some (drop (length p) (c # cs)) else after_first p cs)"

definition citation :: "string \<Rightarrow> string option" where
  "citation line =
     (let rest = (case after_first ''**Knowledge used**'' line of
                    Some tail \<Rightarrow> trim_start_chars '':'' tail
                  | None \<Rightarrow> line);
          item = trim (trim_start_chars ''-'' (trim rest))
      in if item \<noteq> [] \<and> \<not> prefix [backtick, backtick, backtick] item then Some item else None)"

definition knowledge_used :: "regex_engine \<Rightarrow> string \<Rightarrow> string list option" where
  "knowledge_used rx plan_md =
     (let handoff = plan_section rx plan_md (heading_re ''Handoff'')
      in if handoff = [] then None
         else
           (let block = bullet_block rx handoff ''Knowledge used''
            in if block = [] then None
               else
                 (let items = List.map_filter citation (rust_lines block)
                  in case items of
                       [only] \<Rightarrow>
                         (if eq_ignore_ascii_case
                               (trim_end_chars [backtick, dquote, squote, CHR ''.'']
                                 (trim_start_chars [backtick, dquote, squote, CHR ''.''] only)) ''none''
                          then Some [] else Some items)
                     | _ \<Rightarrow> Some items)))"

section \<open>Plan steps\<close>

datatype step_status = OpenStep | CheckedStep | NoticedStep

definition strip_prefix :: "string \<Rightarrow> string \<Rightarrow> string option" where
  "strip_prefix p s = (if prefix p s then Some (drop (length p) s) else None)"

definition parse_plan_step :: "string \<Rightarrow> (string \<times> step_status) option" where
  "parse_plan_step line =
     (let t = trim_start line
      in case strip_prefix ''- [ ]'' t of
           Some r \<Rightarrow> Some (trim r, OpenStep)
         | None \<Rightarrow>
             (case strip_prefix ''- [x]'' t of
                Some r \<Rightarrow> Some (trim r, CheckedStep)
              | None \<Rightarrow>
                  (case strip_prefix ''- [X]'' t of
                     Some r \<Rightarrow> Some (trim r, CheckedStep)
                   | None \<Rightarrow>
                       (case strip_prefix ''- [!]'' t of
                          Some r \<Rightarrow> Some (trim r, NoticedStep)
                        | None \<Rightarrow> None))))"

definition parse_plan_steps :: "string \<Rightarrow> (string \<times> step_status) list" where
  "parse_plan_steps md = List.map_filter parse_plan_step (rust_lines md)"

definition is_executed :: "string \<Rightarrow> bool" where
  "is_executed plan_md \<longleftrightarrow> CheckedStep \<in> set (map snd (parse_plan_steps plan_md))"

end
