(* ===== verification/Acceptance.thy ===== *)
theory Acceptance
  imports Handoff "HOL-Library.Multiset"
begin

text \<open>
  \<^verbatim>\<open>ralphy-core/src/acceptance.rs\<close>: the acceptance ledger of a plan, ticked into an issue body, and
  the evidence comment.
\<close>

section \<open>The ledger\<close>

datatype verdict_kind = Verified | ReviewOnly

record verdict =
  v_criterion :: string
  v_kind :: verdict_kind
  v_evidence :: string

definition ledger_line_re :: string where
  "ledger_line_re =
     ''(?m)^'' @ [bslash] @ ''s*-'' @ [bslash] @ ''s*'' @ [bslash] @
     ''[(verified|review-only)'' @ [bslash] @ '']'' @ [bslash] @ ''s+(.+?)'' @ [bslash] @
     ''s*(?:'' @ [bslash] @ ''u{2014}|'' @ [bslash] @ ''u{2013}|-{1,2})'' @ [bslash] @
     ''s*evidence:'' @ [bslash] @ ''s*(.*?)'' @ [bslash] @ ''s*$''"

definition parse_ledger :: "regex_engine \<Rightarrow> string \<Rightarrow> verdict list" where
  "parse_ledger rx md =
     (let sec = section_after_heading rx md (heading_re ''Acceptance ledger'')
      in List.map_filter
           (\<lambda>cap. case cap of
              _ # k # c # e # _ \<Rightarrow>
                Some \<lparr>v_criterion = trim c, v_kind = (if k = ''verified'' then Verified else ReviewOnly),
                      v_evidence = trim e\<rparr>
            | _ \<Rightarrow> None)
           (rx_captures rx ledger_line_re sec))"

section \<open>Ticking an issue body\<close>

record tick_result =
  tr_new_body :: string
  tr_ticked :: "string list"
  tr_unmatched :: "string list"

fun split_ws :: "string list \<Rightarrow> string \<Rightarrow> string list" where
  "split_ws [] cur = (if cur = [] then [] else [cur])"
| "split_ws (c # cs) cur =
     (if is_ws c then (if cur = [] then split_ws cs [] else cur # split_ws cs [])
      else split_ws cs (cur @ c))"

definition split_whitespace :: "string \<Rightarrow> string list" where
  "split_whitespace s = split_ws (chars s) []"

definition normalize_ac :: "string \<Rightarrow> string" where
  "normalize_ac s =
     trim_end_chars ''.;:,''
       (join '' '' (split_whitespace (filter (\<lambda>c. c \<notin> {CHR ''*'', CHR ''_'', backtick}) s)))"

definition continuation :: "string \<Rightarrow> string option" where
  "continuation line =
     (let trimmed = trim_start line
      in if trimmed \<noteq> [] \<and> (case chars line of [] \<Rightarrow> False | c # _ \<Rightarrow> is_ws c) \<and>
            \<not> prefix ''-'' trimmed \<and> \<not> prefix ''#'' trimmed
         then Some trimmed else None)"

function join_loop :: "string list \<Rightarrow> nat \<Rightarrow> string \<Rightarrow> string \<times> nat" where
  "join_loop ls next joined =
     (if next < length ls
      then (case continuation (ls ! next) of
              Some trimmed \<Rightarrow> join_loop ls (Suc next) (joined @ '' '' @ trimmed)
            | None \<Rightarrow> (joined, next))
      else (joined, next))"
  by pat_completeness auto
termination
  by (relation "measure (\<lambda>(ls, next, joined). length ls - next)") auto

declare join_loop.simps [simp del]

definition join_continuations :: "string list \<Rightarrow> nat \<Rightarrow> string \<times> nat" where
  "join_continuations ls start = join_loop ls (Suc start) (ls ! start)"

lemma join_loop_advances: "next \<le> snd (join_loop ls next joined)"
proof (induction ls "next" joined rule: join_loop.induct)
  case (1 ls "next" joined)
  then show ?case
    by (auto simp: join_loop.simps [of ls "next" joined] split: option.splits)
qed

lemma join_continuations_advances: "start < snd (join_continuations ls start)"
  using join_loop_advances [of "Suc start"] by (simp add: join_continuations_def Suc_le_eq)

function checkbox_items_from :: "string list \<Rightarrow> nat \<Rightarrow> (nat \<times> string) list" where
  "checkbox_items_from ls i =
     (if i < length ls
      then (if prefix ''- ['' (trim_start (ls ! i))
            then (i, fst (join_continuations ls i)) #
                 checkbox_items_from ls (snd (join_continuations ls i))
            else checkbox_items_from ls (Suc i))
      else [])"
  by pat_completeness auto
termination
  by (relation "measure (\<lambda>(ls, i). length ls - i)")
    (use join_continuations_advances in \<open>auto intro: diff_less_mono2\<close>)

declare checkbox_items_from.simps [simp del]

definition logical_checkbox_items :: "string list \<Rightarrow> (nat \<times> string) list" where
  "logical_checkbox_items ls = checkbox_items_from ls 0"

definition tick_line :: "string \<Rightarrow> string" where
  "tick_line l = replace_first ''[ ]'' ''[x]'' l"

definition tick_criterion :: "string list \<Rightarrow> string \<Rightarrow> bool \<times> string list" where
  "tick_criterion body_lines criterion =
     (let target = normalize_ac (''- [ ] '' @ criterion)
      in case find (\<lambda>(_, item). normalize_ac item = target) (logical_checkbox_items body_lines) of
           None \<Rightarrow> (False, body_lines)
         | Some (start, _) \<Rightarrow> (True, body_lines[start := tick_line (body_lines ! start)]))"

fun apply_verdicts :: "verdict list \<Rightarrow> string list \<Rightarrow> string list \<Rightarrow> string list
    \<Rightarrow> string list \<times> string list \<times> string list" where
  "apply_verdicts [] body_lines ticked unmatched = (body_lines, ticked, unmatched)"
| "apply_verdicts (v # vs) body_lines ticked unmatched =
     (if v_kind v \<noteq> Verified then apply_verdicts vs body_lines ticked unmatched
      else case tick_criterion body_lines (v_criterion v) of
        (True, body_lines') \<Rightarrow> apply_verdicts vs body_lines' (ticked @ [v_criterion v]) unmatched
      | (False, body_lines') \<Rightarrow> apply_verdicts vs body_lines' ticked (unmatched @ [v_criterion v]))"

definition ends_with_nl :: "string \<Rightarrow> bool" where
  "ends_with_nl s \<longleftrightarrow> s \<noteq> [] \<and> last s = nl"

definition apply_ledger :: "string \<Rightarrow> verdict list \<Rightarrow> tick_result" where
  "apply_ledger body verdicts =
     (case apply_verdicts verdicts (rust_lines body) [] [] of
        (body_lines, ticked, unmatched) \<Rightarrow>
          \<lparr>tr_new_body = join [nl] body_lines @ (if ends_with_nl body then [nl] else []),
           tr_ticked = ticked, tr_unmatched = unmatched\<rparr>)"

section \<open>The evidence comment\<close>

definition evidence_entry :: "verdict \<Rightarrow> string list \<Rightarrow> string" where
  "evidence_entry v unmatched =
     (let tag = (case v_kind v of Verified \<Rightarrow> ''verified'' | ReviewOnly \<Rightarrow> ''review-only'');
          evidence = (if v_evidence v = [] then ''(no evidence recorded)'' else v_evidence v);
          head = ''- **['' @ tag @ '']** '' @ v_criterion v @ ''  '' @ [nl] @ ''  Evidence: '' @ evidence
      in if v_criterion v \<in> set unmatched then
           head @ ''  '' @ [nl] @
             ''  [NEEDS REVIEW: criterion not found in issue body '' @ em_dash @ '' not auto-ticked]'' @
             [nl]
         else if v_kind v = ReviewOnly then
           head @ ''  '' @ [nl] @
             ''  [NEEDS REVIEW: review-only '' @ em_dash @ '' not auto-ticked]'' @ [nl]
         else head @ [nl])"

definition evidence_comment :: "verdict list \<Rightarrow> string list \<Rightarrow> string" where
  "evidence_comment verdicts unmatched =
     ''## Acceptance ledger'' @ [nl, nl] @
     concat (map (\<lambda>v. evidence_entry v unmatched) verdicts) @
     (if unmatched \<noteq> [] then
        [nl] @ ''### Unmatched criteria'' @ [nl, nl] @
        ''The following verified criteria could not be ticked automatically '' @
        ''because their verbatim text was not found as an unchecked line in the '' @
        ''issue body:'' @ [nl, nl] @
        concat (map (\<lambda>c. ''- '' @ c @ [nl]) unmatched)
      else [])"

end
