(* ===== verification/Protocol.thy ===== *)
theory Protocol
  imports Acceptance
begin

text \<open>
  \<^verbatim>\<open>ralphy-core/src/protocol.rs\<close>: the structural lint of a finished plan and the texts made of it.
\<close>

record protocol_check =
  pc_label :: string
  pc_passed :: bool
  pc_detail :: "string option"

type_synonym protocol_report = "protocol_check list"

definition pr_passed :: "protocol_report \<Rightarrow> bool" where
  "pr_passed report \<longleftrightarrow> list_all pc_passed report"

definition failed_labels :: "protocol_report \<Rightarrow> string list" where
  "failed_labels report = map pc_label (filter (\<lambda>c. \<not> pc_passed c) report)"

definition reason_re :: string where
  "reason_re =
     ''(?i)(?:'' @ [bslash] @ ''u{2014}|'' @ [bslash] @ ''u{2013}|-{1,2})'' @ [bslash] @
     ''s*(?:blocked|noticed):'' @ [bslash] @ ''s*'' @ [bslash] @ ''S''"

text \<open>
  \<^verbatim>\<open>to_lowercase().contains(...)\<close> for two ASCII phrases: the only characters outside ASCII whose
  lower case has an ASCII letter are the Kelvin sign and the dotted capital I, and neither can
  complete one of the phrases (they hold no k, and each i is followed by a letter, not by the
  combining dot).  Lowering the ASCII letters decides the same.
\<close>

definition is_placeholder_evidence :: "string \<Rightarrow> bool" where
  "is_placeholder_evidence evidence \<longleftrightarrow>
     (let t = trim evidence; lower = map ascii_lower t
      in t = [] \<or> (prefix ''<'' t \<and> suffix ''>'' t) \<or>
         contains lower ''that will prove it'' \<or> contains lower ''how a human confirms'')"

definition lint :: "regex_engine \<Rightarrow> string \<Rightarrow> protocol_report" where
  "lint rx plan_md =
     (let sect = (\<lambda>ttl. section_after_heading rx plan_md (heading_re ttl));
          steps = sect ''Steps'';
          step_lines = rust_lines steps;
          unticked = length (filter (\<lambda>l. prefix ''- [ ]'' (trim_start l)) step_lines);
          bare_noticed = length (filter (\<lambda>l. \<not> is_match rx reason_re l)
                           (filter (\<lambda>l. prefix ''- [!]'' (trim_start l)) step_lines));
          handoff_present = (trim (sect ''Handoff'') \<noteq> []);
          friction_present = (trim (sect ''Plan friction'') \<noteq> []);
          has_self_review_step = is_match rx ''(?i)self-review'' steps;
          findings_present = (trim (sect ''Self-review findings'') \<noteq> []);
          verdicts = parse_ledger rx plan_md;
          ledger_present = (verdicts \<noteq> []);
          placeholders = map v_criterion (filter (\<lambda>v. is_placeholder_evidence (v_evidence v)) verdicts);
          absent = ''section absent or blank''
      in [\<lparr>pc_label = ''no plan step left open'', pc_passed = (unticked = 0),
           pc_detail = (if unticked > 0 then Some (show_nat unticked @
             '' step(s) still '' @ [backtick] @ ''- [ ]'' @ [backtick]) else None)\<rparr>,
          \<lparr>pc_label = ''every '' @ [backtick] @ ''- [!]'' @ [backtick] @
             '' noticed step carries its inline reason'', pc_passed = (bare_noticed = 0),
           pc_detail = (if bare_noticed > 0 then Some (show_nat bare_noticed @
             '' '' @ [backtick] @ ''- [!]'' @ [backtick] @ '' step(s) without an inline '' @
             [backtick] @ em_dash @ '' blocked:'' @ [backtick] @ ''/'' @ [backtick] @ em_dash @
             '' noticed:'' @ [backtick] @ '' reason'') else None)\<rparr>,
          \<lparr>pc_label = ''## Handoff present'', pc_passed = handoff_present,
           pc_detail = (if \<not> handoff_present then Some absent else None)\<rparr>,
          \<lparr>pc_label = ''## Plan friction present'', pc_passed = friction_present,
           pc_detail = (if \<not> friction_present then Some absent else None)\<rparr>,
          \<lparr>pc_label = ''## Acceptance ledger present'', pc_passed = ledger_present,
           pc_detail = (if \<not> ledger_present
             then Some (if trim (sect ''Acceptance ledger'') = [] then absent
                        else ''section present but no '' @ [backtick] @ ''- [verified]'' @ [backtick] @ ''/'' @
                         [backtick] @ ''- [review-only]'' @ [backtick] @ '' line parsed'')
             else None)\<rparr>,
          \<lparr>pc_label = ''## Self-review findings present when the plan has a self-review step'',
           pc_passed = (\<not> has_self_review_step \<or> findings_present),
           pc_detail = (if has_self_review_step \<and> \<not> findings_present
             then Some ''the plan carries a self-review step but no findings section'' else None)\<rparr>,
          \<lparr>pc_label = ''no planner placeholder evidence in the acceptance ledger'',
           pc_passed = (placeholders = []),
           pc_detail = (if placeholders \<noteq> []
             then Some (show_nat (length placeholders) @ '' ledger line(s) unfilled'') else None)\<rparr>])"

definition fence :: string where
  "fence = [backtick, backtick, backtick, nl]"

definition render_check :: "protocol_check \<Rightarrow> string" where
  "render_check c =
     (let mark = (if pc_passed c then check_mark else cross_mark)
      in case (pc_detail c, pc_passed c) of
           (Some d, False) \<Rightarrow> mark @ '' '' @ pc_label c @ ''    '' @ d @ [nl]
         | _ \<Rightarrow> mark @ '' '' @ pc_label c @ [nl])"

definition render_checks :: "protocol_report \<Rightarrow> string" where
  "render_checks report = fence @ concat (map render_check report) @ fence"

definition comment_block :: "protocol_report \<Rightarrow> string" where
  "comment_block report =
     ''## Protocol lint'' @ [nl, nl] @ render_checks report @
     (if \<not> pr_passed report then
        [nl] @ warning_sign @ '' Closed WITH protocol violations '' @ em_dash @
        '' the executor did not repair the structural checks above within the '' @
        ''one bounce. The checks assert presence and shape only, so review the '' @
        ''plan artifacts and the diff with extra care.'' @ [nl]
      else [])"

definition failure_brief :: "string \<Rightarrow> protocol_report \<Rightarrow> string \<Rightarrow> string" where
  "failure_brief stamp report done_signal =
     ''# Protocol lint failed '' @ em_dash @ '' completion artifacts required (Ralphy run '' @ stamp @
     '')'' @ [nl, nl] @ ''You emitted '' @ [backtick] @ done_signal @
     [backtick] @ '', but the runner'' @ [squote] @ ''s structural lint over '' @ [backtick] @
     ''.ralphy/plan.md'' @ [backtick] @ '' found the charter'' @ [squote] @
     ''s completion protocol unfinished. The session is handed back ONCE to '' @
     ''complete it.'' @ [nl, nl] @ ''Failed checks ('' @ cross_mark @ ''):'' @ [nl, nl] @
     render_checks report @
     [nl] @ ''Fix each failed check HONESTLY, then emit '' @ [backtick] @ done_signal @
     [backtick] @ '' again:'' @ [nl] @ ''- Tick a step '' @ [backtick] @ ''- [x]'' @
     [backtick] @ '' ONLY when its work is genuinely done and committed; if work remains, '' @
     ''finish it (or split the step and finish the rest) first.'' @ [nl] @ ''- A '' @
     [backtick] @ ''- [!]'' @ [backtick] @
     '' noticed step must end with its reason on the SAME line ('' @ [backtick] @
     ''-- blocked: <the literal error>'' @ [backtick] @ '' or '' @ [backtick] @
     ''-- noticed: <the surprise>'' @ [backtick] @
     ''; an em dash works too), backed by an attempt recorded under '' @ [backtick] @
     ''## Notes & decisions'' @ [backtick] @ '' '' @ em_dash @ '' never use '' @ [backtick] @
     ''- [!]'' @ [backtick] @ '' to dodge work a command could still verify.'' @ [nl] @
     ''- Write any missing '' @ [backtick] @ ''## Handoff'' @ [backtick] @ '' / '' @
     [backtick] @ ''## Plan friction'' @ [backtick] @ '' / '' @ [backtick] @
     ''## Self-review findings'' @ [backtick] @
     '' section with real content, as the charter specifies '' @ em_dash @ '' not filler.'' @
     [nl] @ ''- A missing '' @ [backtick] @ ''## Acceptance ledger'' @ [backtick] @
     '' must be WRITTEN: one ledger line per issue acceptance criterion, in '' @ ''the '' @
     [backtick] @ ''- [verified|review-only] <criterion> -- evidence: <backing>'' @ [backtick] @
     '' shape (an em dash works too).'' @ [nl] @ ''- Replace planner placeholder '' @
     [backtick] @ ''evidence:'' @ [backtick] @ '' text in the '' @ [backtick] @
     ''## Acceptance ledger'' @ [backtick] @
     '' with the real commit hash, test name, or captured command output '' @
     ''backing that criterion.'' @ [nl, nl] @
     ''The lint checks structure only, so completing the protocol satisfies '' @
     ''it in minutes. The runner re-runs the SAME checks; a second violation '' @
     ''closes the issue with this failure report published for the human '' @ ''reviewer.'' @
     [nl]"

text \<open>
  A plan passes the lint exactly when none of its steps is open, every noticed step carries its
  reason, the handoff and friction sections are not blank, the ledger has a verdict and none of
  them is a planner placeholder, and a self-review step comes with its findings.
\<close>

lemma lint_passed_iff:
  "pr_passed (lint rx md) \<longleftrightarrow>
     list_all (\<lambda>l. \<not> prefix ''- [ ]'' (trim_start l)) (rust_lines (section_after_heading rx md (heading_re ''Steps''))) \<and>
     list_all (\<lambda>l. if prefix ''- [!]'' (trim_start l) then is_match rx reason_re l else True)
       (rust_lines (section_after_heading rx md (heading_re ''Steps''))) \<and>
     trim (section_after_heading rx md (heading_re ''Handoff'')) \<noteq> [] \<and>
     trim (section_after_heading rx md (heading_re ''Plan friction'')) \<noteq> [] \<and>
     parse_ledger rx md \<noteq> [] \<and>
     list_all (\<lambda>v. \<not> is_placeholder_evidence (v_evidence v)) (parse_ledger rx md) \<and>
     (if is_match rx ''(?i)self-review'' (section_after_heading rx md (heading_re ''Steps''))
      then trim (section_after_heading rx md (heading_re ''Self-review findings'')) \<noteq> [] else True)"
  by (auto simp: pr_passed_def lint_def Let_def list_all_iff filter_empty_conv)

end
