(* ===== verification/Artifacts.thy ===== *)
theory Artifacts
  imports Verify Protocol
begin

text \<open>
  The texts a run leaves on an issue or in the workspace: \<^verbatim>\<open>ralphy-core/src/verify/comment.rs\<close>,
  \<^verbatim>\<open>runner/comments.rs\<close>, the digests of \<^verbatim>\<open>runner/artifacts.rs\<close> and \<^verbatim>\<open>references.rs\<close>.
\<close>

section \<open>The verify gate\<close>

definition show_int :: "int \<Rightarrow> string" where
  "show_int i = (if i < 0 then ''-'' @ show_nat (nat (- i)) else show_nat (nat i))"

definition status_line :: "command_outcome \<Rightarrow> string" where
  "status_line cmd =
     (let line = join '' '' (co_argv cmd)
      in if co_passed cmd then check_mark @ '' '' @ line @ ''    exit 0''
         else if co_spawn_failed cmd then
           cross_mark @ '' '' @ line @ ''    could not spawn '' @ em_dash @ '' program not found''
         else if co_timed_out cmd then cross_mark @ '' '' @ line @ ''    timed out''
         else cross_mark @ '' '' @ line @ ''    exit '' @
           (case co_exit_code cmd of Some c \<Rightarrow> show_int c | None \<Rightarrow> ''killed''))"

definition status_block :: "verify_report \<Rightarrow> string" where
  "status_block report = fence @ concat (map (\<lambda>c. status_line c @ [nl]) (vr_commands report)) @ fence"

definition details_block :: "string \<Rightarrow> string \<Rightarrow> string" where
  "details_block summary output =
     [nl] @ ''<details><summary>'' @ summary @ ''</summary>'' @ [nl, nl] @ fence @ output @ [nl] @ fence @
     [nl] @ ''</details>'' @ [nl]"

definition last_opt :: "'a list \<Rightarrow> 'a option" where
  "last_opt xs = (if xs = [] then None else Some (last xs))"

definition gate_comment :: "string \<Rightarrow> verify_report \<Rightarrow> string" where
  "gate_comment stamp report =
     ''## Verify (Ralphy run '' @ stamp @ '')'' @ [nl, nl] @
     (if vr_passed report
      then ''All verify commands passed '' @ em_dash @
           '' the runner saw the gate go green on the committed state.'' @ [nl, nl]
      else ''Verify gate FAILED '' @ em_dash @
           '' the issue was left open and the branch handed back.'' @ [nl, nl]) @
     status_block report @
     (if vr_passed report then []
      else case last_opt (vr_commands report) of
        Some c \<Rightarrow> (if co_output_tail c \<noteq> [] then details_block ''Output tail'' (co_output_tail c) else [])
      | None \<Rightarrow> [])"

definition invalid_comment :: "string \<Rightarrow> string \<Rightarrow> string" where
  "invalid_comment stamp err =
     ''## Verify (Ralphy run '' @ stamp @ '')'' @ [nl, nl] @
     ''Verify gate could NOT run '' @ em_dash @ '' the plan'' @ [squote] @ ''s '' @ [backtick] @
     ''## Verify'' @ [backtick] @
     '' section is malformed, so no command was executed and the issue was '' @ ''left open.'' @
     [nl, nl] @ err @ [nl]"

definition spawn_failure_comment :: "string \<Rightarrow> verify_report \<Rightarrow> string" where
  "spawn_failure_comment stamp report =
     ''## Verify (Ralphy run '' @ stamp @ '')'' @ [nl, nl] @
     ''Verify gate could NOT run '' @ em_dash @ '' a '' @ [backtick] @ ''## Verify'' @
     [backtick] @ '' command could not be spawned (program not found), so it never '' @
     ''executed. This is a spec/spawn problem, not a test failure: '' @
     ''re-running the same command cannot fix it, so the issue was left open '' @
     ''WITHOUT spending any repair attempts. Fix the command name in the plan'' @ [squote] @
     ''s '' @ [backtick] @ ''## Verify'' @ [backtick] @
     '' section (or install the missing tool).'' @ [nl, nl] @
     status_block report @
     (case first_failure report of
        Some c \<Rightarrow> (if co_output_tail c \<noteq> [] then details_block ''Spawn error'' (co_output_tail c) else [])
      | None \<Rightarrow> [])"

definition repair_brief :: "string \<Rightarrow> verify_report \<Rightarrow> string \<Rightarrow> string" where
  "repair_brief stamp report done_signal =
     ''# Verify gate failed '' @ em_dash @ '' repair required (Ralphy run '' @ stamp @
     '')'' @ [nl, nl] @ ''A previous session emitted '' @ [backtick] @ done_signal @
     [backtick] @ '', but the runner re-ran the plan'' @ [squote] @ ''s '' @ [backtick] @
     ''## Verify'' @ [backtick] @
     '' commands over your committed work and the gate did NOT pass. The '' @
     ''repo is handed back to you to REPAIR.'' @ [nl, nl] @
     ''Fix the ROOT CAUSE of the failure below, commit the fix, then emit '' @ [backtick] @ done_signal @
     [backtick] @ '' again so the runner re-checks the gate. Do NOT make the gate pass by '' @
     ''weakening, deleting, or skipping a verify command or by editing the '' @ ''plan'' @
     [squote] @ ''s '' @ [backtick] @ ''## Verify'' @ [backtick] @ '' section '' @ em_dash @
     '' the runner re-runs the SAME commands and the gate is the authority.'' @ [nl, nl] @
     ''Gate commands ('' @ cross_mark @ '' marks where it failed):'' @ [nl, nl] @ status_block report @
     (case last_opt (vr_commands report) of
        Some c \<Rightarrow>
          (if co_output_tail c \<noteq> []
           then [nl] @ ''Output tail of the failing command:'' @ [nl, nl] @ fence @ co_output_tail c @ [nl] @ fence
           else [])
      | None \<Rightarrow> [])"

definition verify_failure_summary :: "verify_report \<Rightarrow> string" where
  "verify_failure_summary report =
     (case find (\<lambda>c. \<not> co_passed c) (vr_commands report) of
        Some c \<Rightarrow>
          (if co_timed_out c then bt (join '' '' (co_argv c)) @ '' timed out''
           else bt (join '' '' (co_argv c)) @ '' exited '' @
             (case co_exit_code c of Some n \<Rightarrow> show_int n | None \<Rightarrow> ''non-zero''))
      | None \<Rightarrow> ''verify gate failed'')"

definition verify_spawn_failure_summary :: "verify_report \<Rightarrow> string" where
  "verify_spawn_failure_summary report =
     (case first_failure report of
        Some c \<Rightarrow> bt (join '' '' (co_argv c)) @ '' could not be spawned (program not found)''
      | None \<Rightarrow> ''verify gate command could not be spawned'')"

section \<open>Comments of the runner\<close>

definition close_comment :: "string \<Rightarrow> string \<Rightarrow> protocol_report \<Rightarrow> string" where
  "close_comment stamp branch report =
     ''Closed by Ralphy run '' @ stamp @ '' (green on branch '' @ [squote] @ branch @ [squote] @
     ''; merge by hand).'' @ [nl, nl] @ comment_block report"

definition no_gate_comment :: "string \<Rightarrow> string \<Rightarrow> string" where
  "no_gate_comment stamp branch =
     ''Ralphy run '' @ stamp @
     '' did NOT close this issue. The agent reported the work as done, but '' @
     ''nothing checked it: the plan has no '' @ [backtick] @ ''## Verify'' @ [backtick] @
     '' commands, no '' @ [backtick] @ ''verify.command'' @ [backtick] @
     '' is configured, and '' @ [backtick] @ ''verify.require_verify_gate'' @ [backtick] @
     '' is on.'' @ [nl, nl] @ ''The work is committed on branch '' @ [squote] @ branch @
     [squote] @ ''. Next step, for a person: review the branch, check the work, then '' @
     ''close this issue by hand. The '' @ [backtick] @ ''ready-for-human'' @ [backtick] @
     '' label marks this issue; the run went on to the next one.''"

definition infeasible_comment :: "string \<Rightarrow> string \<Rightarrow> string" where
  "infeasible_comment stamp reason =
     ''Ralphy run '' @ stamp @
     '' skipped this issue '' @ em_dash @
     '' the planner judged it not autonomously implementable as written.'' @ [nl, nl] @
     ''## Planner reasoning'' @ [nl, nl] @ reason @
     [nl, nl] @ ''The issue stays open; act on the reasoning above (split, respecify, '' @
     ''or label) and the next run will pick it up again.''"

definition bundle_comment :: "string \<Rightarrow> string \<Rightarrow> string" where
  "bundle_comment stamp reason =
     ''Ralphy run '' @ stamp @
     '' skipped this issue '' @ em_dash @
     '' the planner judged it a **bundle**: several backlog tasks under one '' @
     ''issue number. The queue is parked on this until it is split.'' @ [nl, nl] @
     ''## Planner reasoning'' @ [nl, nl] @ reason @
     [nl, nl] @ ''Next step (human): run '' @ [backtick] @ ''/to-issues'' @ [backtick] @
     '' against the source PRD using the split recommended above as a draft, '' @
     ''open one child issue per task with a '' @ [backtick] @ ''## Parent'' @ [backtick] @
     '' reference to this issue, then close this issue '' @ em_dash @
     '' dependents follow the open children automatically.''"

section \<open>References\<close>

record reference =
  ref_number :: issue_no
  ref_state :: string
  ref_title :: string
  ref_body :: string
  ref_url :: string

definition render_references_file :: "reference list \<Rightarrow> string option" where
  "render_references_file refs =
     (if refs = [] then None
      else Some (
        ''# Referenced issues'' @ [nl, nl] @ ''The current issue'' @ [squote] @
        ''s body references these issues '' @ em_dash @ '' via its '' @ [backtick] @
        ''## Blocked by'' @ [backtick, nl] @ ''and '' @ [backtick] @ ''## Parent'' @ [backtick] @
        '' sections and any inline '' @ [backtick] @ ''#N'' @ [backtick] @ '' mention; each one'' @
        [squote] @ ''s source'' @ [nl] @
        ''title and body are reproduced below so you read the referenced spec, '' @ ''not'' @
        [nl] @ ''a paraphrase of it. The '' @ [backtick] @ ''state'' @ [backtick] @
        '' shown was current at fetch time '' @ em_dash @ [nl] @
        ''treat it as a lead and re-check if a decision hinges on it. Only the'' @ [nl] @
        ''body is reproduced; to read a referenced issue'' @ [squote] @ ''s'' @ [nl] @
        ''comment thread (caveats, clarifications), open its URL or run'' @ [nl, backtick] @
        ''gh issue view <n>'' @ [backtick] @ ''.'' @ [nl] @
        concat (map (\<lambda>r. [nl] @ ''---'' @ [nl, nl] @ ''## #'' @ show_nat (ref_number r) @ '' ('' @ ref_state r @
          '') '' @ em_dash @ '' '' @ trim (ref_title r) @ [nl] @ trim (ref_url r) @ [nl, nl] @
          trim (ref_body r) @ [nl]) refs)))"

end
