(* ===== verification/World.thy ===== *)
theory World
  imports Artifacts
begin

text \<open>
  What the runner talks to.  The collaborators \<^verbatim>\<open>run_queue_with\<close> receives as trait objects (the
  agent, the issue tracker, the clock, the repository, the ledger sink), the operator's stop flag
  and the file system are the functions of the record \<open>env\<close>.  Each function is given the history
  of everything that happened before the call and its arguments, so a collaborator may answer
  the same question differently at two moments, and no theorem assumes how.  Every call goes
  through \<open>ask\<close>, which appends the call with its answer to the history; a proof about the order
  of effects is a proof about that list.

  A computation of the runner is a computation of the state monad over \<open>run_state\<close>; \<open>bindE\<close> is
  Rust's \<^verbatim>\<open>?\<close> operator.  \<open>within R m\<close> says that \<open>m\<close> moves every state along the relation \<open>R\<close>; the locale
  \<open>run_discipline\<close> is the interface the proofs about the phases rely on.
\<close>

section \<open>Configuration and results\<close>

text \<open>\<^verbatim>\<open>runner/branch.rs\<close>, \<^verbatim>\<open>runner/clock.rs\<close> and \<^verbatim>\<open>runner/types.rs\<close>.\<close>

datatype branch_mode = NewBranch | CurrentBranch

datatype wait_outcome = Resumed | DeadlinePassed

record queue_config =
  qc_repo_root :: string
  qc_base_branch :: string
  qc_dry_run :: bool
  qc_stamp :: string
  qc_branch_mode :: branch_mode
  qc_forced_issues :: "issue_no list"
  qc_human_return_labels :: "string list"
  qc_stop_on_limit_plan :: bool
  qc_stop_on_limit_exec :: bool
  qc_verify_fallback :: "string list list option"
  qc_verify_timeout :: nat
  qc_require_verify_gate :: bool
  qc_done_signal :: string

datatype result_status =
  StDone | StSkipped | StBlocked | StInfeasible | StNeedsSplit | StNonGreen | StHitl | StPlanned

fun status_wire :: "result_status \<Rightarrow> string" where
  "status_wire StDone = ''done''"
| "status_wire StSkipped = ''skipped''"
| "status_wire StBlocked = ''blocked''"
| "status_wire StInfeasible = ''infeasible''"
| "status_wire StNeedsSplit = ''needs_split''"
| "status_wire StNonGreen = ''non_green''"
| "status_wire StHitl = ''hitl''"
| "status_wire StPlanned = ''planned''"

datatype skip_reason = SkBlockedBy | SkStopBefore | SkHumanReturn | SkVerifyFailed

fun skip_wire :: "skip_reason \<Rightarrow> string" where
  "skip_wire SkBlockedBy = ''blocked_by''"
| "skip_wire SkStopBefore = ''stop_before''"
| "skip_wire SkHumanReturn = ''human_return''"
| "skip_wire SkVerifyFailed = ''verify_failed''"

record issue_result =
  ir_number :: issue_no
  ir_outcome :: "outcome option"
  ir_closed :: bool
  ir_blocked_by :: "issue_no list"
  ir_human_blockers :: "issue_no list"
  ir_status :: result_status
  ir_skip :: "skip_reason option"
  ir_review_only :: nat

datatype stop_reason =
    SrDeadline
  | SrNonGreen issue_no outcome
  | SrStopBefore issue_no
  | SrLimit issue_no "reset_at option"
  | SrStopped "issue_no option"

text \<open>One line of the usage ledger (\<^verbatim>\<open>ledger.rs\<close>).\<close>

record ledger_record =
  lr_project :: string
  lr_actor_email :: string
  lr_actor_name :: string
  lr_version :: string
  lr_issue :: issue_no
  lr_phase :: string
  lr_agent :: string
  lr_model :: string
  lr_session_id :: "string option"
  lr_outcome :: string
  lr_tokens :: usage
  lr_ts :: string

text \<open>One entry of the citation log (\<^verbatim>\<open>knowledge.rs\<close>).\<close>

record citation_entry =
  ce_issue :: issue_no
  ce_stamp :: string
  ce_date :: string
  ce_citations :: "string list"

section \<open>Events\<close>

text \<open>
  The structured log events of \<^verbatim>\<open>emit.rs\<close> the runner publishes.  \<^verbatim>\<open>plan_written\<close> carries the step list
  that \<^verbatim>\<open>serde_json\<close> renders.
\<close>

datatype emission =
    RunStopped "issue_no option"
  | EmDeadlinePassed issue_no
  | StopBeforeLabel issue_no
  | HumanReturnLabel issue_no string
  | BlockedByOpen issue_no "issue_no list"
  | BlockedWaitingHuman issue_no "issue_no list" "issue_no list"
  | IssueStarted issue_no string
  | PlanWritten issue_no nat usage "(string \<times> step_status) list"
  | PlanOpened issue_no string
  | NeedsSplit issue_no
  | EmNonGreen issue_no outcome
  | VerifyGateFailed issue_no string
  | IssueClosed issue_no u64 u64 usage
  | PlanClosed issue_no string

text \<open>The files of \<^verbatim>\<open>.ralphy/\<close> the runner writes or removes.\<close>

datatype ralphy_file =
  VerifyFailureFile | ProtocolFailureFile | HandoffsFile | ReferencesFile | KnowledgeFile issue_no

datatype event =
    EvStop bool
  | EvDeadline bool
  | EvWait reset_at wait_outcome
  | EvSynthetic string
  | EvPlan issue "error + plan"
  | EvExecute plan "error + execution"
  | EvIsClosed issue_no "error + bool"
  | EvOpenChildren issue_no "error + issue_no list"
  | EvLabels issue_no "error + string list"
  | EvComments issue_no "error + string list"
  | EvHandoff issue_no "error + string option"
  | EvReference issue_no "error + reference option"
  | EvClose issue_no string "error + unit"
  | EvComment issue_no string "error + unit"
  | EvAddLabel issue_no string "error + unit"
  | EvEvidence issue_no string "verdict list" "error + unit"
  | EvHeadSha "error + string"
  | EvCheckoutForce string "error + unit"
  | EvDeleteBranch string "error + unit"
  | EvTag string string "error + unit"
  | EvDeleteTag string "error + unit"
  | EvRevCount string "error + nat"
  | EvLogOneline string "error + string list"
  | EvFetch "error + unit"
  | EvIsClean "error + bool"
  | EvCurrentBranch "error + string"
  | EvCommitish string bool
  | EvNewBranch string string "error + unit"
  | EvReadIgnore "error + string option"
  | EvWriteIgnore string "error + unit"
  | EvSpawn "string list" spawn_result
  | EvGateCosts "(string list \<times> nat) list"
  | EvReadPlan "string option"
  | EvStageIssue issue "error + unit"
  | EvExists ralphy_file bool
  | EvWrite ralphy_file string "error + unit"
  | EvRemove ralphy_file "error + unit"
  | EvKnowledgeDir "error + unit"
  | EvToday string
  | EvNow string
  | EvCite citation_entry "error + unit"
  | EvLedger ledger_record "error + unit"
  | EvRalphyDir "error + unit"
  | EvEnsureBrief
  | EvIdentity "string \<times> string option \<times> string option"
  | EvEmit emission

type_synonym history = "event list"

section \<open>The environment\<close>

record env =
  e_rx :: regex_engine
  e_agent_name :: string
  e_version :: string
  e_stop :: "history \<Rightarrow> bool"
  e_deadline :: "history \<Rightarrow> bool"
  e_wait :: "history \<Rightarrow> reset_at \<Rightarrow> wait_outcome"
  e_synthetic :: "history \<Rightarrow> string"
  e_plan :: "history \<Rightarrow> issue \<Rightarrow> error + plan"
  e_execute :: "history \<Rightarrow> plan \<Rightarrow> error + execution"
  e_is_closed :: "history \<Rightarrow> issue_no \<Rightarrow> error + bool"
  e_open_children :: "history \<Rightarrow> issue_no \<Rightarrow> error + issue_no list"
  e_labels :: "history \<Rightarrow> issue_no \<Rightarrow> error + string list"
  e_comments :: "history \<Rightarrow> issue_no \<Rightarrow> error + string list"
  e_handoff :: "history \<Rightarrow> issue_no \<Rightarrow> error + string option"
  e_reference :: "history \<Rightarrow> issue_no \<Rightarrow> error + reference option"
  e_close :: "history \<Rightarrow> issue_no \<Rightarrow> string \<Rightarrow> error + unit"
  e_comment :: "history \<Rightarrow> issue_no \<Rightarrow> string \<Rightarrow> error + unit"
  e_add_label :: "history \<Rightarrow> issue_no \<Rightarrow> string \<Rightarrow> error + unit"
  e_evidence :: "history \<Rightarrow> issue_no \<Rightarrow> string \<Rightarrow> verdict list \<Rightarrow> error + unit"
  e_head_sha :: "history \<Rightarrow> error + string"
  e_checkout_force :: "history \<Rightarrow> string \<Rightarrow> error + unit"
  e_delete_branch :: "history \<Rightarrow> string \<Rightarrow> error + unit"
  e_tag :: "history \<Rightarrow> string \<Rightarrow> string \<Rightarrow> error + unit"
  e_delete_tag :: "history \<Rightarrow> string \<Rightarrow> error + unit"
  e_rev_count :: "history \<Rightarrow> string \<Rightarrow> error + nat"
  e_log_oneline :: "history \<Rightarrow> string \<Rightarrow> error + string list"
  e_fetch :: "history \<Rightarrow> error + unit"
  e_is_clean :: "history \<Rightarrow> error + bool"
  e_current_branch :: "history \<Rightarrow> error + string"
  e_commitish :: "history \<Rightarrow> string \<Rightarrow> bool"
  e_new_branch :: "history \<Rightarrow> string \<Rightarrow> string \<Rightarrow> error + unit"
  e_read_ignore :: "history \<Rightarrow> error + string option"
  e_write_ignore :: "history \<Rightarrow> string \<Rightarrow> error + unit"
  e_spawn :: "history \<Rightarrow> string list \<Rightarrow> spawn_result"
  e_read_plan :: "history \<Rightarrow> string option"
  e_stage_issue :: "history \<Rightarrow> issue \<Rightarrow> error + unit"
  e_exists :: "history \<Rightarrow> ralphy_file \<Rightarrow> bool"
  e_write :: "history \<Rightarrow> ralphy_file \<Rightarrow> string \<Rightarrow> error + unit"
  e_remove :: "history \<Rightarrow> ralphy_file \<Rightarrow> error + unit"
  e_knowledge_dir :: "history \<Rightarrow> error + unit"
  e_today :: "history \<Rightarrow> string"
  e_now :: "history \<Rightarrow> string"
  e_cite :: "history \<Rightarrow> citation_entry \<Rightarrow> error + unit"
  e_ledger :: "history \<Rightarrow> ledger_record \<Rightarrow> error + unit"
  e_ralphy_dir :: "history \<Rightarrow> error + unit"
  e_identity :: "history \<Rightarrow> string \<times> string option \<times> string option"

section \<open>The state of a run\<close>

text \<open>The history, and the fields of \<^verbatim>\<open>QueueRun\<close> and \<^verbatim>\<open>RunLedger\<close> that change.\<close>

record run_state =
  hist :: history
  worked :: "issue_result list"
  run_usage :: usage
  run_usage_by_model :: "string \<rightharpoonup> usage"
  invocations :: u64

type_synonym 'a run = "(run_state, 'a) state"

definition push_event :: "event \<Rightarrow> run_state \<Rightarrow> run_state" where
  "push_event e s = s\<lparr>hist := hist s @ [e]\<rparr>"

definition ask :: "(history \<Rightarrow> 'a) \<Rightarrow> ('a \<Rightarrow> event) \<Rightarrow> 'a run" where
  "ask f ev = State (\<lambda>s. let a = f (hist s) in (a, push_event (ev a) s))"

definition tell :: "event \<Rightarrow> unit run" where
  "tell e = State_Monad.update (push_event e)"

definition emit :: "emission \<Rightarrow> unit run" where
  "emit m = tell (EvEmit m)"

definition push_worked :: "issue_result \<Rightarrow> unit run" where
  "push_worked r = State_Monad.update (\<lambda>s. s\<lparr>worked := worked s @ [r]\<rparr>)"

text \<open>Rust's \<^verbatim>\<open>?\<close>: the first error ends the computation.\<close>

definition bindE :: "('s, 'e + 'a) state \<Rightarrow> ('a \<Rightarrow> ('s, 'e + 'b) state) \<Rightarrow> ('s, 'e + 'b) state" where
  "bindE m f = State_Monad.bind m (\<lambda>r. case r of Inl e \<Rightarrow> State_Monad.return (Inl e) | Inr a \<Rightarrow> f a)"

definition okE :: "'a \<Rightarrow> ('s, 'e + 'a) state" where
  "okE a = State_Monad.return (Inr a)"

definition errE :: "'e \<Rightarrow> ('s, 'e + 'a) state" where
  "errE e = State_Monad.return (Inl e)"

definition map_err :: "('e \<Rightarrow> 'f) \<Rightarrow> ('s, 'e + 'a) state \<Rightarrow> ('s, 'f + 'a) state" where
  "map_err g m = State_Monad.bind m (\<lambda>r. State_Monad.return (map_sum g id r))"

text \<open>A result used for its success only, as \<^verbatim>\<open>.ok()\<close> and a \<^verbatim>\<open>warn!\<close> on the error do.\<close>

fun ok_of :: "'e + 'a \<Rightarrow> 'a option" where
  "ok_of (Inl _) = None"
| "ok_of (Inr a) = Some a"

section \<open>Weakest preconditions\<close>

lemma push_event_simps [simp]:
  "hist (push_event e s) = hist s @ [e]"
  "worked (push_event e s) = worked s"
  "run_usage (push_event e s) = run_usage s"
  "run_usage_by_model (push_event e s) = run_usage_by_model s"
  "invocations (push_event e s) = invocations s"
  by (simp_all add: push_event_def)

lemma wp_ask [wp_simps]:
  "wp (ask f ev) Q = (\<lambda>s. Q (f (hist s)) (push_event (ev (f (hist s))) s))"
  by (simp add: ask_def wp_simps Let_def)

lemma wp_tell [wp_simps]: "wp (tell e) Q = (\<lambda>s. Q () (push_event e s))"
  by (simp add: tell_def wp_simps)

lemma wp_emit [wp_simps]: "wp (emit m) Q = (\<lambda>s. Q () (push_event (EvEmit m) s))"
  by (simp add: emit_def wp_simps)

lemma wp_push_worked [wp_simps]:
  "wp (push_worked r) Q = (\<lambda>s. Q () (s\<lparr>worked := worked s @ [r]\<rparr>))"
  by (simp add: push_worked_def wp_simps)

lemma wp_bindE [wp_simps]:
  "wp (bindE m f) Q = wp m (\<lambda>r. case r of Inl e \<Rightarrow> Q (Inl e) | Inr a \<Rightarrow> wp (f a) Q)"
proof -
  have "(\<lambda>r. wp (case r of Inl e \<Rightarrow> State_Monad.return (Inl e) | Inr a \<Rightarrow> f a) Q) =
        (\<lambda>r. case r of Inl e \<Rightarrow> Q (Inl e) | Inr a \<Rightarrow> wp (f a) Q)"
    by (auto simp: fun_eq_iff wp_simps split: sum.splits)
  then show ?thesis by (simp add: bindE_def wp_simps)
qed

lemma wp_okE [wp_simps]: "wp (okE a) Q = Q (Inr a)"
  by (simp add: okE_def wp_simps)

lemma wp_errE [wp_simps]: "wp (errE e) Q = Q (Inl e)"
  by (simp add: errE_def wp_simps)

lemma wp_map_err [wp_simps]: "wp (map_err g m) Q = wp m (\<lambda>r. Q (map_sum g id r))"
  by (simp add: map_err_def wp_simps)

section \<open>Computations within a relation\<close>

definition within :: "('s \<Rightarrow> 's \<Rightarrow> bool) \<Rightarrow> ('s, 'a) state \<Rightarrow> bool" where
  "within R m \<longleftrightarrow> (\<forall>s. wp m (\<lambda>_ s'. R s s') s)"

lemma withinD: "within R m \<Longrightarrow> run_state m s = (a, s') \<Longrightarrow> R s s'"
  by (auto simp: within_def dest: spec [of _ s] wp_run)

locale state_preorder =
  fixes R :: "'s \<Rightarrow> 's \<Rightarrow> bool"
  assumes R_refl: "R s s"
    and R_trans: "R s t \<Longrightarrow> R t u \<Longrightarrow> R s u"
begin

lemma within_return [simp]: "within R (State_Monad.return a)"
  by (simp add: within_def wp_simps R_refl)

lemma within_bind:
  assumes "within R m" and "\<And>a. within R (f a)"
  shows "within R (State_Monad.bind m f)"
  unfolding within_def wp_bind
proof
  fix s
  have "wp m (\<lambda>_ t. R s t) s" using assms(1) by (simp add: within_def)
  then show "wp m (\<lambda>a. wp (f a) (\<lambda>_ u. R s u)) s"
  proof (rule wp_mono)
    fix a t assume "R s t"
    moreover have "wp (f a) (\<lambda>_ u. R t u) t" using assms(2) by (simp add: within_def)
    ultimately show "wp (f a) (\<lambda>_ u. R s u) t" by (auto elim: wp_mono intro: R_trans)
  qed
qed

text \<open>The same when the rest relies on what the first step answers.\<close>

lemma within_bind_post:
  assumes "within R m" and "\<And>s. wp m (\<lambda>a _. A a) s" and "\<And>a. A a \<Longrightarrow> within R (f a)"
  shows "within R (State_Monad.bind m f)"
  unfolding within_def wp_bind
proof
  fix s
  have "wp m (\<lambda>a t. R s t \<and> A a) s" using assms(1,2) by (simp add: within_def wp_conj)
  then show "wp m (\<lambda>a. wp (f a) (\<lambda>_ u. R s u)) s"
  proof (rule wp_mono)
    fix a t assume "R s t \<and> A a"
    moreover from this have "wp (f a) (\<lambda>_ u. R t u) t" using assms(3) by (simp add: within_def)
    ultimately show "wp (f a) (\<lambda>_ u. R s u) t" by (auto elim: wp_mono intro: R_trans)
  qed
qed

lemma within_bindE:
  assumes "within R m" and "\<And>a. within R (f a)"
  shows "within R (bindE m f)"
  unfolding bindE_def using assms
  by (intro within_bind) (auto split: sum.splits)

lemma within_okE [simp]: "within R (okE a)"
  by (simp add: okE_def)

lemma within_errE [simp]: "within R (errE e)"
  by (simp add: errE_def)

lemma within_map_err: "within R m \<Longrightarrow> within R (map_err g m)"
  unfolding map_err_def by (intro within_bind) auto

lemma within_if: "within R m \<Longrightarrow> within R n \<Longrightarrow> within R (if b then m else n)"
  by simp

lemmas within_intros = within_bind within_bindE within_map_err

end

section \<open>The context of a run\<close>

text \<open>
  \<^verbatim>\<open>IssueCtx\<close> (\<^verbatim>\<open>runner/phases.rs\<close>) with the fields of \<^verbatim>\<open>QueueRun\<close> and \<^verbatim>\<open>RunLedger\<close> that never change.
\<close>

record ctx =
  cx_cfg :: queue_config
  cx_env :: env
  cx_branch :: string
  cx_orig :: string
  cx_project :: string
  cx_actor_email :: string
  cx_actor_name :: string

definition stop_requested :: "ctx \<Rightarrow> bool run" where
  "stop_requested cx = ask (e_stop (cx_env cx)) EvStop"

definition read_plan :: "ctx \<Rightarrow> string option run" where
  "read_plan cx = ask (e_read_plan (cx_env cx)) EvReadPlan"

text \<open>\<^verbatim>\<open>agent.execute\<close>, called by the execute phase and by both gates.\<close>

definition agent_execute :: "ctx \<Rightarrow> plan \<Rightarrow> (error + execution) run" where
  "agent_execute cx p = ask (\<lambda>h. e_execute (cx_env cx) h p) (EvExecute p)"

definition post_comment :: "ctx \<Rightarrow> issue_no \<Rightarrow> string \<Rightarrow> (error + unit) run" where
  "post_comment cx n body = ask (\<lambda>h. e_comment (cx_env cx) h n body) (EvComment n body)"

definition add_label :: "ctx \<Rightarrow> issue_no \<Rightarrow> string \<Rightarrow> (error + unit) run" where
  "add_label cx n l = ask (\<lambda>h. e_add_label (cx_env cx) h n l) (EvAddLabel n l)"

definition write_file :: "ctx \<Rightarrow> ralphy_file \<Rightarrow> string \<Rightarrow> (error + unit) run" where
  "write_file cx f c = ask (\<lambda>h. e_write (cx_env cx) h f c) (EvWrite f c)"

definition remove_file :: "ctx \<Rightarrow> ralphy_file \<Rightarrow> (error + unit) run" where
  "remove_file cx f = ask (\<lambda>h. e_remove (cx_env cx) h f) (EvRemove f)"

text \<open>A call whose failure is only logged.\<close>

definition best_effort :: "(error + unit) run \<Rightarrow> unit run" where
  "best_effort m = State_Monad.bind m (\<lambda>_. State_Monad.return ())"

lemmas call_defs = stop_requested_def read_plan_def agent_execute_def post_comment_def add_label_def
  write_file_def remove_file_def best_effort_def

section \<open>Disciplines\<close>

text \<open>
  An event is \<open>active\<close> when it can change something outside the run's own scratch and log: a vendor
  session, a close, a move of the repository between branches, a ledger line.
\<close>

fun active :: "event \<Rightarrow> bool" where
  "active (EvPlan _ _) = True"
| "active (EvExecute _ _) = True"
| "active (EvClose _ _ _) = True"
| "active (EvCheckoutForce _ _) = True"
| "active (EvDeleteBranch _ _) = True"
| "active (EvNewBranch _ _ _) = True"
| "active (EvLedger _ _) = True"
| "active (EvWait _ _) = True"
| "active (EvSpawn _ _) = True"
| "active _ = False"

text \<open>
  An event is \<open>quiet\<close> when it is not active, reads no stop flag and publishes nothing: these are the
  events every discipline below allows.
\<close>

fun quiet :: "event \<Rightarrow> bool" where
  "quiet (EvStop _) = False"
| "quiet (EvEmit _) = False"
| "quiet e = (\<not> active e)"

lemma quiet_not_active [simp]: "quiet e \<Longrightarrow> \<not> active e"
  by (cases e) auto

text \<open>The emissions that name an issue, or none; a discipline speaks for an issue when it allows them.\<close>

fun about :: "issue_no \<Rightarrow> emission \<Rightarrow> bool" where
  "about n (RunStopped k) = (case k of Some m \<Rightarrow> m = n | None \<Rightarrow> True)"
| "about n (EmDeadlinePassed m) = (m = n)"
| "about n (StopBeforeLabel m) = (m = n)"
| "about n (HumanReturnLabel m _) = (m = n)"
| "about n (BlockedByOpen m _) = (m = n)"
| "about n (BlockedWaitingHuman m _ _) = (m = n)"
| "about n (IssueStarted m _) = (m = n)"
| "about n (PlanWritten m _ _ _) = (m = n)"
| "about n (PlanOpened m _) = (m = n)"
| "about n (NeedsSplit m) = (m = n)"
| "about n (EmNonGreen m _) = (m = n)"
| "about n (VerifyGateFailed m _) = (m = n)"
| "about n (IssueClosed m _ _ _) = (m = n)"
| "about n (PlanClosed m _) = (m = n)"

definition speaks_for :: "(event \<Rightarrow> bool) \<Rightarrow> issue_no \<Rightarrow> bool" where
  "speaks_for allowed n \<longleftrightarrow> (\<forall>m. about n m \<longrightarrow> allowed (EvEmit m))"

lemma speaks_forD: "speaks_for allowed n \<Longrightarrow> about n m \<Longrightarrow> allowed (EvEmit m)"
  by (simp add: speaks_for_def)

lemma speaks_for_all [simp]: "(\<And>m. allowed (EvEmit m)) \<Longrightarrow> speaks_for allowed n"
  by (simp add: speaks_for_def)

text \<open>
  What a proof about every phase needs of the relation it tracks: it is a preorder, and each event
  of the kind the phases may produce is a step of it.
\<close>

locale run_discipline = state_preorder R
  for R :: "run_state \<Rightarrow> run_state \<Rightarrow> bool" +
  fixes allowed :: "event \<Rightarrow> bool"
  assumes quiet_allowed: "quiet e \<Longrightarrow> allowed e"
    and allowed_step: "allowed e \<Longrightarrow> R s (push_event e s)"
begin

lemma within_ask: "(\<And>a. allowed (ev a)) \<Longrightarrow> within R (ask f ev)"
  by (simp add: within_def wp_simps allowed_step)

lemma within_tell: "allowed e \<Longrightarrow> within R (tell e)"
  by (simp add: within_def wp_simps allowed_step)

lemma within_quiet_ask [simp]: "(\<And>a. quiet (ev a)) \<Longrightarrow> within R (ask f ev)"
  by (simp add: within_ask quiet_allowed)

lemma within_emit: "speaks_for allowed n \<Longrightarrow> about n m \<Longrightarrow> within R (emit m)"
  by (simp add: within_def wp_simps allowed_step speaks_forD)

lemma within_quiet_tell [simp]: "quiet e \<Longrightarrow> within R (tell e)"
  by (simp add: within_tell quiet_allowed)

lemma within_best_effort: "within R m \<Longrightarrow> within R (best_effort m)"
  unfolding best_effort_def by (rule within_bind) simp_all

lemma within_calls [simp]:
  "within R (read_plan cx)" "within R (post_comment cx n b)"
  "within R (add_label cx n l)" "within R (write_file cx f c)" "within R (remove_file cx f)"
  by (simp_all add: call_defs)

lemmas phase_intros = within_bind within_bindE within_map_err within_best_effort

end

text \<open>A discipline that allows reading the stop flag.\<close>

locale stop_reader = run_discipline R allowed
  for R :: "run_state \<Rightarrow> run_state \<Rightarrow> bool" and allowed +
  fixes cx :: ctx
  assumes within_stop: "within R (stop_requested cx)"

text \<open>The events a computation adds, and the relation that says all of them satisfy a predicate.\<close>

definition adds :: "(event \<Rightarrow> bool) \<Rightarrow> run_state \<Rightarrow> run_state \<Rightarrow> bool" where
  "adds P s s' \<longleftrightarrow> (\<exists>es. hist s' = hist s @ es \<and> list_all P es)"

lemma adds_refl [simp]: "adds P s s"
  by (simp add: adds_def)

lemma adds_trans: "adds P s t \<Longrightarrow> adds P t u \<Longrightarrow> adds P s u"
  by (auto simp: adds_def)

lemma adds_push [simp]: "adds P s (push_event e s) \<longleftrightarrow> P e"
  by (auto simp: adds_def)

definition new_events :: "run_state \<Rightarrow> run_state \<Rightarrow> event list" where
  "new_events s s' = drop (length (hist s)) (hist s')"

lemma adds_new_events: "adds P s s' \<Longrightarrow> list_all P (new_events s s')"
  by (auto simp: adds_def new_events_def)

end
