(* ===== verification/Ledger.thy ===== *)
theory Ledger
  imports World
begin

text \<open>
  The run's token accounting: \<^verbatim>\<open>RunLedger\<close> of \<^verbatim>\<open>runner/types.rs\<close>.  A phase offers one line to the
  ledger sink and folds its usage into the run total and into the total of its model, whether or not the
  sink took the line; the phases of the history are the specification the totals are proved against.
\<close>

section \<open>Recording a phase\<close>

definition model_key :: "usage \<Rightarrow> string" where
  "model_key u = (case u_model u of None \<Rightarrow> ''unknown'' | Some m \<Rightarrow> m)"

definition accumulate_by_model :: "(string \<rightharpoonup> usage) \<Rightarrow> usage \<Rightarrow> (string \<rightharpoonup> usage)" where
  "accumulate_by_model m u =
     m(model_key u \<mapsto>
        add_tokens (case m (model_key u) of None \<Rightarrow> usage_default | Some acc \<Rightarrow> acc) u)"

definition record_phase :: "ctx \<Rightarrow> issue_no \<Rightarrow> string \<Rightarrow> string \<Rightarrow> usage \<Rightarrow> string option \<Rightarrow> unit run" where
  "record_phase cx n ph oc u sid = do {
     ts \<leftarrow> ask (e_now (cx_env cx)) EvNow;
     let rec = \<lparr>lr_project = cx_project cx, lr_actor_email = cx_actor_email cx,
                lr_actor_name = cx_actor_name cx, lr_version = e_version (cx_env cx),
                lr_issue = n, lr_phase = ph, lr_agent = e_agent_name (cx_env cx),
                lr_model = model_key u, lr_session_id = sid, lr_outcome = oc,
                lr_tokens = u, lr_ts = ts\<rparr>;
     _ \<leftarrow> ask (\<lambda>h. e_ledger (cx_env cx) h rec) (EvLedger rec);
     State_Monad.update (\<lambda>s. s\<lparr>run_usage := add_tokens (run_usage s) u,
                               run_usage_by_model := accumulate_by_model (run_usage_by_model s) u,
                               invocations := invocations s + 1\<rparr>)
   }"

definition record_phase_if_used ::
  "ctx \<Rightarrow> issue_no \<Rightarrow> string \<Rightarrow> string \<Rightarrow> usage \<Rightarrow> string option \<Rightarrow> unit run" where
  "record_phase_if_used cx n ph oc u sid =
     (if total u > 0 then record_phase cx n ph oc u sid else State_Monad.return ())"

section \<open>The totals follow the phases\<close>

text \<open>The usages of the recorded phases of a history, in order, and of those whose line the sink took.\<close>

fun recorded_phase :: "event \<Rightarrow> usage list" where
  "recorded_phase (EvLedger r _) = [lr_tokens r]"
| "recorded_phase _ = []"

definition recorded_phases :: "history \<Rightarrow> usage list" where
  "recorded_phases h = concat (map recorded_phase h)"

fun appended_line :: "event \<Rightarrow> usage list" where
  "appended_line (EvLedger r (Inr _)) = [lr_tokens r]"
| "appended_line _ = []"

definition appended_lines :: "history \<Rightarrow> usage list" where
  "appended_lines h = concat (map appended_line h)"

fun append_failed :: "event \<Rightarrow> bool" where
  "append_failed (EvLedger _ (Inl _)) = True"
| "append_failed _ = False"

lemma appended_count:
  "length (appended_lines h) + length (filter append_failed h) = length (recorded_phases h)"
proof (induction h)
  case (Cons e h)
  have "length (appended_line e) + (if append_failed e then 1 else 0) = length (recorded_phase e)"
    by (cases e rule: append_failed.cases; simp)
  with Cons show ?case by (auto simp: appended_lines_def recorded_phases_def)
qed (simp_all add: appended_lines_def recorded_phases_def)

lemma appended_all: "\<not> list_ex append_failed h \<Longrightarrow> appended_lines h = recorded_phases h"
proof (induction h)
  case (Cons e h)
  then have "appended_line e = recorded_phase e"
    by (cases e rule: append_failed.cases) auto
  with Cons show ?case by (simp add: appended_lines_def recorded_phases_def)
qed (simp_all add: appended_lines_def recorded_phases_def)

text \<open>The ledger holds a line for every recorded phase exactly when no append failed.\<close>

lemma appended_iff: "appended_lines h = recorded_phases h \<longleftrightarrow> \<not> list_ex append_failed h"
proof
  assume "appended_lines h = recorded_phases h"
  with appended_count [of h] have "filter append_failed h = []" by simp
  then show "\<not> list_ex append_failed h" by (simp add: filter_empty_conv list_ex_iff)
qed (rule appended_all)

definition phases_of_model :: "string \<Rightarrow> usage list \<Rightarrow> usage list" where
  "phases_of_model k us = filter (\<lambda>u. model_key u = k) us"

text \<open>
  The totals of a state are the folds of its recorded phases: all of them for the run total, the
  phases of a model for that model's entry, and a model without a phase has no entry.
\<close>

definition ledger_inv :: "run_state \<Rightarrow> bool" where
  "ledger_inv s \<longleftrightarrow>
     (let us = recorded_phases (hist s)
      in run_usage s = foldl add_tokens usage_default us \<and>
         run_usage_by_model s =
           (\<lambda>k. if phases_of_model k us = [] then None
                else Some (foldl add_tokens usage_default (phases_of_model k us))) \<and>
         invocations s = of_nat (length us))"

lemma recorded_phases_simps [simp]:
  "recorded_phases [] = []"
  "recorded_phases (e # h) = recorded_phase e @ recorded_phases h"
  "recorded_phases (h @ h') = recorded_phases h @ recorded_phases h'"
  by (simp_all add: recorded_phases_def)

lemma recorded_phase_passive: "\<not> active e \<Longrightarrow> recorded_phase e = []"
  by (cases e) simp_all

lemma ledger_inv_event: "recorded_phase e = [] \<Longrightarrow> ledger_inv s \<Longrightarrow> ledger_inv (push_event e s)"
  by (simp add: ledger_inv_def Let_def)

lemma record_phase_inv:
  "ledger_inv s \<Longrightarrow> wp (record_phase cx n ph oc u sid) (\<lambda>_. ledger_inv) s"
  by (auto simp: record_phase_def wp_simps Let_def ledger_inv_def phases_of_model_def
      accumulate_by_model_def fun_eq_iff)

section \<open>Disciplines that account for ledger lines\<close>

locale ledger_discipline = run_discipline +
  assumes within_record_phase: "within R (record_phase cx n ph oc u sid)"
begin

lemma within_record_phase_if_used: "within R (record_phase_if_used cx n ph oc u sid)"
  by (simp add: record_phase_if_used_def within_record_phase)

end

text \<open>\<open>record_phase\<close> changes no result, and adds a ledger line among quiet events only.\<close>

lemma record_phase_adds:
  assumes "\<And>e. quiet e \<Longrightarrow> P e" and "\<And>r a. P (EvLedger r a)"
  shows "within (adds P) (record_phase cx n ph oc u sid)"
  using assms by (auto simp: within_def record_phase_def wp_simps Let_def adds_def)

text \<open>Every discipline of the form "only these events are added" accounts for the ledger.\<close>

lemma adds_ledger_discipline:
  assumes "\<And>e. quiet e \<Longrightarrow> P e" and "\<And>r a. P (EvLedger r a)"
  shows "ledger_discipline (adds P) P"
  by unfold_locales (use assms in \<open>auto intro: adds_trans record_phase_adds\<close>)

end
