(* ===== verification/Prepare.thy ===== *)
theory Prepare
  imports World Blocked
begin

text \<open>
  The gates before an issue is touched and the staging of an issue: the label predicates of
  \<^verbatim>\<open>runner.rs\<close> and \<^verbatim>\<open>runner/branch.rs\<close>, \<^verbatim>\<open>open_blockers\<close> and \<^verbatim>\<open>prepare_issue\<close> of \<^verbatim>\<open>runner/phases.rs\<close>, and the
  scratch files of \<^verbatim>\<open>runner/artifacts.rs\<close>.
\<close>

section \<open>Labels\<close>

definition STOP_BEFORE_LABEL :: string where "STOP_BEFORE_LABEL = ''stop-before''"
definition NEEDS_SPLIT_LABEL :: string where "NEEDS_SPLIT_LABEL = ''needs-split''"
definition NEEDS_HUMAN_REVIEW_LABEL :: string where "NEEDS_HUMAN_REVIEW_LABEL = ''needs-human-review''"
definition HUMAN_GATE_LABELS :: "string list" where
  "HUMAN_GATE_LABELS = [''ready-for-human'', ''HITL'']"

definition is_stop_before :: "issue_no list \<Rightarrow> issue \<Rightarrow> bool" where
  "is_stop_before forced i \<longleftrightarrow>
     issue_number i \<notin> set forced \<and> STOP_BEFORE_LABEL \<in> set (issue_labels i)"

definition first_stop_before :: "issue list \<Rightarrow> issue_no list \<Rightarrow> issue_no option" where
  "first_stop_before queue forced = map_option issue_number (find (is_stop_before forced) queue)"

definition human_return_label :: "issue \<Rightarrow> string list \<Rightarrow> string option" where
  "human_return_label i hrl = find (\<lambda>l. l \<in> set hrl) (issue_labels i)"

definition is_human_gate :: "string list \<Rightarrow> bool" where
  "is_human_gate labels \<longleftrightarrow> list_ex (\<lambda>l. l \<in> set HUMAN_GATE_LABELS) labels"

section \<open>The blocked-by gate\<close>

record open_blockers_rec =
  ob_open :: "issue_no list"
  ob_closed :: "issue_no list"
  ob_human :: "issue_no list"

text \<open>The loop over the declared blockers: open ones, and open children of a retired bundle.\<close>

fun classify_refs :: "ctx \<Rightarrow> issue_no \<Rightarrow> issue_no list \<Rightarrow> issue_no list \<Rightarrow> issue_no list
    \<Rightarrow> (error + (issue_no list \<times> issue_no list)) run" where
  "classify_refs cx self [] opn closed = okE (opn, closed)"
| "classify_refs cx self (n # ns) opn closed =
     bindE (ask (\<lambda>h. e_is_closed (cx_env cx) h n) (EvIsClosed n)) (\<lambda>c.
       if c then
         bindE (ask (\<lambda>h. e_open_children (cx_env cx) h n) (EvOpenChildren n)) (\<lambda>cs.
           let children = filter (\<lambda>c. c \<noteq> self) cs
           in if children = [] then classify_refs cx self ns opn (closed @ [n])
              else classify_refs cx self ns (opn @ children) closed)
       else classify_refs cx self ns (opn @ [n]) closed)"

text \<open>The loop over the open blockers; a label fetch that fails counts as agent work.\<close>

fun human_gates :: "ctx \<Rightarrow> issue_no list \<Rightarrow> issue_no list \<Rightarrow> issue_no list run" where
  "human_gates cx [] human = State_Monad.return human"
| "human_gates cx (n # ns) human = do {
     r \<leftarrow> ask (\<lambda>h. e_labels (cx_env cx) h n) (EvLabels n);
     case r of
       Inr labels \<Rightarrow> human_gates cx ns (if is_human_gate labels then human @ [n] else human)
     | Inl _ \<Rightarrow> human_gates cx ns human
   }"

definition open_blockers :: "ctx \<Rightarrow> issue \<Rightarrow> (error + open_blockers_rec) run" where
  "open_blockers cx i =
     (let refs = filter (\<lambda>n. n \<noteq> issue_number i)
                   (parse_blocked_by_all (e_rx (cx_env cx)) (issue_body i) (issue_comments i))
      in bindE (classify_refs cx (issue_number i) refs [] []) (\<lambda>(opn, closed). do {
           human \<leftarrow> human_gates cx opn [];
           okE \<lparr>ob_open = opn, ob_closed = closed, ob_human = human\<rparr>
         }))"

section \<open>Scratch files\<close>

definition clear_file :: "ctx \<Rightarrow> ralphy_file \<Rightarrow> unit run" where
  "clear_file cx f = do {
     exists \<leftarrow> ask (\<lambda>h. e_exists (cx_env cx) h f) (EvExists f);
     if exists then best_effort (remove_file cx f) else State_Monad.return ()
   }"

definition clear_verify_failure :: "ctx \<Rightarrow> unit run" where
  "clear_verify_failure cx = clear_file cx VerifyFailureFile"

definition clear_protocol_failure :: "ctx \<Rightarrow> unit run" where
  "clear_protocol_failure cx = clear_file cx ProtocolFailureFile"

definition write_verify_failure :: "ctx \<Rightarrow> verify_report \<Rightarrow> unit run" where
  "write_verify_failure cx r =
     best_effort (write_file cx VerifyFailureFile
       (repair_brief (qc_stamp (cx_cfg cx)) r (qc_done_signal (cx_cfg cx))))"

definition write_protocol_failure :: "ctx \<Rightarrow> protocol_report \<Rightarrow> unit run" where
  "write_protocol_failure cx r =
     best_effort (write_file cx ProtocolFailureFile
       (failure_brief (qc_stamp (cx_cfg cx)) r (qc_done_signal (cx_cfg cx))))"

text \<open>A scratch file is refreshed with its new content, or removed when there is none.\<close>

definition refresh_file :: "ctx \<Rightarrow> ralphy_file \<Rightarrow> string option \<Rightarrow> unit run" where
  "refresh_file cx f content =
     (case content of
        Some c \<Rightarrow> best_effort (write_file cx f c)
      | None \<Rightarrow> best_effort (remove_file cx f))"

fun collect_handoffs :: "ctx \<Rightarrow> issue_no list \<Rightarrow> (issue_no \<times> string) list
    \<Rightarrow> (issue_no \<times> string) list run" where
  "collect_handoffs cx [] entries = State_Monad.return entries"
| "collect_handoffs cx (n # ns) entries = do {
     r \<leftarrow> ask (\<lambda>h. e_handoff (cx_env cx) h n) (EvHandoff n);
     collect_handoffs cx ns
       (case r of Inr (Some h) \<Rightarrow> entries @ [(n, h)] | _ \<Rightarrow> entries)
   }"

definition write_handoffs :: "ctx \<Rightarrow> issue_no list \<Rightarrow> unit run" where
  "write_handoffs cx closed_blockers = do {
     entries \<leftarrow> collect_handoffs cx closed_blockers [];
     refresh_file cx HandoffsFile (render_handoffs_file entries)
   }"

fun collect_references :: "ctx \<Rightarrow> issue_no list \<Rightarrow> reference list \<Rightarrow> reference list run" where
  "collect_references cx [] entries = State_Monad.return entries"
| "collect_references cx (n # ns) entries = do {
     r \<leftarrow> ask (\<lambda>h. e_reference (cx_env cx) h n) (EvReference n);
     collect_references cx ns (case r of Inr (Some x) \<Rightarrow> entries @ [x] | _ \<Rightarrow> entries)
   }"

definition write_references :: "ctx \<Rightarrow> issue \<Rightarrow> unit run" where
  "write_references cx i = do {
     entries \<leftarrow> collect_references cx
       (referenced_issues (e_rx (cx_env cx)) (issue_body i) (issue_number i)) [];
     refresh_file cx ReferencesFile (render_references_file entries)
   }"

definition write_issue_json :: "ctx \<Rightarrow> issue \<Rightarrow> (error + unit) run" where
  "write_issue_json cx i = ask (\<lambda>h. e_stage_issue (cx_env cx) h i) (EvStageIssue i)"

section \<open>Preparing an issue\<close>

datatype prepared = Ready issue | BlockedBy "issue_no list" "issue_no list"

definition attach_comments :: "ctx \<Rightarrow> issue \<Rightarrow> issue run" where
  "attach_comments cx i = do {
     r \<leftarrow> ask (\<lambda>h. e_comments (cx_env cx) h (issue_number i)) (EvComments (issue_number i));
     State_Monad.return (case r of Inr cs \<Rightarrow> i\<lparr>issue_comments := cs\<rparr> | Inl _ \<Rightarrow> i)
   }"

definition prepare_issue :: "ctx \<Rightarrow> issue \<Rightarrow> (error + prepared) run" where
  "prepare_issue cx i0 = do {
     i \<leftarrow> attach_comments cx i0;
     bindE (open_blockers cx i) (\<lambda>ob.
       if ob_open ob \<noteq> [] then do {
         emit (if ob_human ob = [] then BlockedByOpen (issue_number i) (ob_open ob)
               else BlockedWaitingHuman (issue_number i) (ob_open ob) (ob_human ob));
         okE (BlockedBy (ob_open ob) (ob_human ob))
       }
       else do {
         emit (IssueStarted (issue_number i) (issue_title i));
         bindE (write_issue_json cx i) (\<lambda>_. do {
           write_handoffs cx (ob_closed ob);
           write_references cx i;
           okE (Ready i)
         })
       })
   }"

section \<open>Preparation only reads and stages\<close>

lemma attach_comments_number:
  "wp (attach_comments cx i) (\<lambda>j _. issue_number j = issue_number i) s"
  by (auto simp: attach_comments_def wp_simps split: sum.splits)

context run_discipline
begin

lemma within_classify_refs: "within R (classify_refs cx self ns opn closed)"
  by (induction ns arbitrary: opn closed)
    (auto intro!: phase_intros simp: Let_def)

lemma within_human_gates: "within R (human_gates cx ns human)"
  by (induction ns arbitrary: human)
    (auto intro!: phase_intros split: sum.splits)

lemma within_open_blockers: "within R (open_blockers cx i)"
  by (auto simp: open_blockers_def Let_def
      intro!: phase_intros within_classify_refs within_human_gates split: prod.splits)

lemma within_scratch [simp]:
  "within R (clear_verify_failure cx)" "within R (clear_protocol_failure cx)"
  "within R (write_verify_failure cx r)" "within R (write_protocol_failure cx pr)"
  "within R (refresh_file cx f c)"
  by (auto simp: clear_verify_failure_def clear_protocol_failure_def clear_file_def
      write_verify_failure_def write_protocol_failure_def refresh_file_def
      intro!: phase_intros split: option.splits)

lemma within_collect:
  "within R (collect_handoffs cx ns entries)" "within R (collect_references cx ns refs)"
  by (induction ns arbitrary: entries refs) (auto intro!: phase_intros)

lemma within_attach_comments: "within R (attach_comments cx i)"
  by (auto simp: attach_comments_def intro!: phase_intros)

lemma within_prepare_issue:
  assumes "speaks_for allowed (issue_number i)"
  shows "within R (prepare_issue cx i)"
  unfolding prepare_issue_def
proof (rule within_bind_post [OF within_attach_comments attach_comments_number])
  fix j :: issue assume "issue_number j = issue_number i"
  with assms have "speaks_for allowed (issue_number j)" by simp
  note own = within_emit [OF this]
  show "within R (bindE (open_blockers cx j) (\<lambda>ob.
       if ob_open ob \<noteq> [] then do {
         emit (if ob_human ob = [] then BlockedByOpen (issue_number j) (ob_open ob)
               else BlockedWaitingHuman (issue_number j) (ob_open ob) (ob_human ob));
         okE (BlockedBy (ob_open ob) (ob_human ob))
       }
       else do {
         emit (IssueStarted (issue_number j) (issue_title j));
         bindE (write_issue_json cx j) (\<lambda>_. do {
           write_handoffs cx (ob_closed ob);
           write_references cx j;
           okE (Ready j)
         })
       }))"
    by (auto simp: write_issue_json_def write_handoffs_def write_references_def
        intro!: phase_intros within_open_blockers within_collect own)
qed

end

end
