(* ===== verification/Plan_Execute.thy ===== *)
theory Plan_Execute
  imports Ledger Prepare
begin

text \<open>
  The plan phase and the execute phase (\<^verbatim>\<open>runner/phases/plan.rs\<close>, \<^verbatim>\<open>runner/phases/execute.rs\<close>).  Both wait
  out usage limits in a loop the source leaves unbounded, so both take fuel, one unit per
  session of the vendor; running out is the extra result \<open>PlanOutOfFuel\<close> or \<open>ExecOutOfFuel\<close>.  The
  section on termination says how much fuel is enough.
\<close>

section \<open>Waiting for a reset\<close>

definition wait_for_reset :: "ctx \<Rightarrow> reset_at \<Rightarrow> wait_outcome run" where
  "wait_for_reset cx r = ask (\<lambda>h. e_wait (cx_env cx) h r) (EvWait r)"

definition synthetic_reset_at :: "ctx \<Rightarrow> reset_at run" where
  "synthetic_reset_at cx = do {
     t \<leftarrow> ask (e_synthetic (cx_env cx)) EvSynthetic;
     State_Monad.return \<lparr>ra_text = t, ra_at = None\<rparr>
   }"

section \<open>The plan phase\<close>

definition MAX_PLAN_LIMIT_RESUMES :: u32 where "MAX_PLAN_LIMIT_RESUMES = 2"

datatype plan_phase =
    Planned plan
  | Executed plan
  | Infeasible bool
  | PlanStopLimit "reset_at option"
  | PlanStopDeadline
  | PlanOutOfFuel

definition wait_out_plan_limit :: "ctx \<Rightarrow> reset_at option \<Rightarrow> u32 \<Rightarrow> plan_phase option run" where
  "wait_out_plan_limit cx lim streak =
     (let capped = streak > MAX_PLAN_LIMIT_RESUMES;
          synthetic = (lim = None)
      in if qc_stop_on_limit_plan (cx_cfg cx) \<or> (\<not> synthetic \<and> capped)
         then State_Monad.return (Some (PlanStopLimit lim))
         else do {
           reset \<leftarrow> (case lim of Some r \<Rightarrow> State_Monad.return r | None \<Rightarrow> synthetic_reset_at cx);
           w \<leftarrow> wait_for_reset cx reset;
           State_Monad.return (if w = DeadlinePassed then Some PlanStopDeadline else None)
         })"

text \<open>The replanning loop: the plan, or the phase result that stops the run.\<close>

fun plan_loop :: "nat \<Rightarrow> ctx \<Rightarrow> issue \<Rightarrow> u32 \<Rightarrow> (error + (plan_phase + plan)) run" where
  "plan_loop 0 cx i streak = okE (Inl PlanOutOfFuel)"
| "plan_loop (Suc fuel) cx i streak = do {
     r \<leftarrow> ask (\<lambda>h. e_plan (cx_env cx) h i) (EvPlan i);
     case r of
       Inr p \<Rightarrow> okE (Inr p)
     | Inl (PlanLimit lim) \<Rightarrow> do {
         w \<leftarrow> wait_out_plan_limit cx lim (streak + 1);
         case w of
           Some stop \<Rightarrow> okE (Inl stop)
         | None \<Rightarrow> plan_loop fuel cx i (streak + 1)
       }
     | Inl e \<Rightarrow> errE e
   }"

definition emit_plan_written :: "issue \<Rightarrow> plan \<Rightarrow> string \<Rightarrow> unit run" where
  "emit_plan_written i p plan_md = do {
     emit (PlanWritten (issue_number i) (plan_open_steps p) (plan_usage p) (parse_plan_steps plan_md));
     emit (PlanOpened (issue_number i) plan_md)
   }"

definition post_bundle_verdict :: "ctx \<Rightarrow> issue \<Rightarrow> string \<Rightarrow> unit run" where
  "post_bundle_verdict cx i reason = do {
     emit (NeedsSplit (issue_number i));
     best_effort (add_label cx (issue_number i) NEEDS_SPLIT_LABEL);
     best_effort (post_comment cx (issue_number i) (bundle_comment (qc_stamp (cx_cfg cx)) reason))
   }"

definition post_infeasible_verdict :: "ctx \<Rightarrow> issue \<Rightarrow> bool run" where
  "post_infeasible_verdict cx i = do {
     md \<leftarrow> read_plan cx;
     case md of
       None \<Rightarrow> State_Monad.return False
     | Some plan_md \<Rightarrow>
         (case infeasible_reason (e_rx (cx_env cx)) plan_md of
            None \<Rightarrow> State_Monad.return False
          | Some reason \<Rightarrow>
              if is_bundle_verdict (e_rx (cx_env cx)) plan_md then do {
                post_bundle_verdict cx i reason;
                State_Monad.return True
              }
              else do {
                best_effort (post_comment cx (issue_number i)
                  (infeasible_comment (qc_stamp (cx_cfg cx)) reason));
                State_Monad.return False
              })
   }"

definition or_empty :: "string option \<Rightarrow> string" where
  "or_empty md = (case md of Some s \<Rightarrow> s | None \<Rightarrow> [])"

definition plan_phase :: "nat \<Rightarrow> ctx \<Rightarrow> issue \<Rightarrow> (error + plan_phase) run" where
  "plan_phase fuel cx i =
     bindE (plan_loop fuel cx i 0) (\<lambda>r. case r of
       Inl stop \<Rightarrow> okE stop
     | Inr p \<Rightarrow> do {
         md \<leftarrow> read_plan cx;
         let plan_md = or_empty md;
         emit_plan_written i p plan_md;
         record_phase cx (issue_number i) ''plan'' ''ok'' (plan_usage p) (plan_session_id p);
         if \<not> is_feasible p \<and> is_executed plan_md then okE (Executed p)
         else if \<not> is_feasible p then do {
           needs_split \<leftarrow> post_infeasible_verdict cx i;
           okE (Infeasible needs_split)
         }
         else okE (Planned p)
       })"

section \<open>The execute phase\<close>

fun outcome_label :: "outcome \<Rightarrow> string" where
  "outcome_label Done = ''done''"
| "outcome_label (Blocked _) = ''blocked''"
| "outcome_label Timeout = ''timeout''"
| "outcome_label Stuck = ''stuck''"
| "outcome_label (Limit _) = ''limit''"

datatype exec_phase = ExecDone usage | ExecNonGreen outcome bool | ExecOutOfFuel

definition advance_streak :: "u32 \<Rightarrow> string option \<Rightarrow> string option \<Rightarrow> u32" where
  "advance_streak streak before_sha after_sha =
     (case (before_sha, after_sha) of
        (Some b, Some a) \<Rightarrow> if b \<noteq> a then 0 else streak + 1
      | _ \<Rightarrow> streak)"

text \<open>The local variables \<^verbatim>\<open>execute_once\<close> updates through its \<^verbatim>\<open>&mut\<close> parameters.\<close>

record exec_acc =
  xa_attempts :: "usage list"
  xa_session :: "string option"
  xa_streak :: u32

definition exec_acc_start :: exec_acc where
  "exec_acc_start = \<lparr>xa_attempts = [], xa_session = None, xa_streak = 0\<rparr>"

definition head_sha :: "ctx \<Rightarrow> (error + string) run" where
  "head_sha cx = ask (e_head_sha (cx_env cx)) EvHeadSha"

definition keep_session :: "string option \<Rightarrow> string option \<Rightarrow> string option" where
  "keep_session old new = (case new of Some sid \<Rightarrow> if sid \<noteq> [] then Some sid else old | None \<Rightarrow> old)"

definition execute_once :: "ctx \<Rightarrow> plan \<Rightarrow> exec_acc \<Rightarrow> (error + (outcome \<times> exec_acc)) run" where
  "execute_once cx p acc = do {
     before_sha \<leftarrow> head_sha cx;
     bindE (agent_execute cx p) (\<lambda>ex. do {
       after_sha \<leftarrow> head_sha cx;
       okE (ex_outcome ex,
         \<lparr>xa_attempts = xa_attempts acc @ [ex_usage ex],
          xa_session = keep_session (xa_session acc) (ex_session_id ex),
          xa_streak = advance_streak (xa_streak acc) (ok_of before_sha) (ok_of after_sha)\<rparr>)
     })
   }"

definition resume_target :: "ctx \<Rightarrow> outcome \<Rightarrow> bool \<Rightarrow> (reset_at \<times> bool) option run" where
  "resume_target cx oc stop_on_limit_exec =
     (case oc of
        Limit (Some r) \<Rightarrow>
          State_Monad.return (if \<not> stop_on_limit_exec then Some (r, False) else None)
      | Limit None \<Rightarrow>
          if \<not> stop_on_limit_exec then do {
            r \<leftarrow> synthetic_reset_at cx;
            State_Monad.return (Some (r, True))
          }
          else State_Monad.return None
      | _ \<Rightarrow> State_Monad.return None)"

datatype resume = Again | Abandon | DeadlineCut

definition keep_resuming :: "ctx \<Rightarrow> reset_at \<Rightarrow> bool \<Rightarrow> u32 \<Rightarrow> resume run" where
  "keep_resuming cx reset synthetic streak =
     (if \<not> synthetic \<and> streak \<ge> 2 then State_Monad.return Abandon
      else do {
        w \<leftarrow> wait_for_reset cx reset;
        State_Monad.return (if w = DeadlinePassed then DeadlineCut else Again)
      })"

text \<open>
  The resume loop: the terminal outcome, whether the deadline cut it and the accumulated
  variables; \<open>None\<close> when the fuel is spent.
\<close>

fun exec_loop :: "nat \<Rightarrow> ctx \<Rightarrow> plan \<Rightarrow> exec_acc
    \<Rightarrow> (error + (outcome \<times> bool \<times> exec_acc) option) run" where
  "exec_loop 0 cx p acc = okE None"
| "exec_loop (Suc fuel) cx p acc =
     bindE (execute_once cx p acc) (\<lambda>(oc, acc'). do {
       stopped \<leftarrow> stop_requested cx;
       if stopped then okE (Some (oc, False, acc'))
       else do {
         target \<leftarrow> resume_target cx oc (qc_stop_on_limit_exec (cx_cfg cx));
         case target of
           None \<Rightarrow> okE (Some (oc, False, acc'))
         | Some (reset, synthetic) \<Rightarrow> do {
             k \<leftarrow> keep_resuming cx reset synthetic (xa_streak acc');
             case k of
               Again \<Rightarrow> exec_loop fuel cx p acc'
             | Abandon \<Rightarrow> okE (Some (oc, False, acc'))
             | DeadlineCut \<Rightarrow> okE (Some (oc, True, acc'))
           }
       }
     })"

definition execute_phase :: "nat \<Rightarrow> ctx \<Rightarrow> issue \<Rightarrow> plan \<Rightarrow> (error + exec_phase) run" where
  "execute_phase fuel cx i p = do {
     clear_verify_failure cx;
     clear_protocol_failure cx;
     bindE (exec_loop fuel cx p exec_acc_start) (\<lambda>r. case r of
       None \<Rightarrow> okE ExecOutOfFuel
     | Some (oc, deadline_cut, acc) \<Rightarrow> do {
         let exec_usage = fold_usage (xa_attempts acc) None;
         record_phase cx (issue_number i) ''execute'' (outcome_label oc) exec_usage (xa_session acc);
         okE (if oc = Done then ExecDone exec_usage else ExecNonGreen oc deadline_cut)
       })
   }"

section \<open>Effects of the phases\<close>

text \<open>The disciplines under which a usage limit may be waited out and a vendor session started.\<close>

locale plan_discipline = ledger_discipline +
  fixes cx :: ctx
  assumes plan_allowed: "allowed (EvPlan i r)"
    and within_wait: "within R (wait_for_reset cx t)"
begin

lemma within_synthetic: "within R (synthetic_reset_at cx)"
  by (auto simp: synthetic_reset_at_def intro!: phase_intros)

lemmas within_waits = within_wait within_synthetic

lemma within_wait_out_plan_limit: "within R (wait_out_plan_limit cx lim streak)"
  by (auto simp: wait_out_plan_limit_def Let_def intro!: phase_intros within_waits
      split: option.splits)

lemma within_plan_loop: "within R (plan_loop fuel cx i streak)"
  by (induction fuel arbitrary: streak)
    (auto simp: plan_allowed intro!: phase_intros within_ask within_wait_out_plan_limit
      split: sum.splits error.splits option.splits)

lemma within_post_infeasible_verdict:
  assumes "speaks_for allowed (issue_number i)"
  shows "within R (post_infeasible_verdict cx i)"
  by (auto simp: post_infeasible_verdict_def post_bundle_verdict_def
      intro!: phase_intros within_emit [OF assms] split: option.splits)

lemma within_plan_phase:
  assumes "speaks_for allowed (issue_number i)"
  shows "within R (plan_phase fuel cx i)"
  by (auto simp: plan_phase_def emit_plan_written_def Let_def
      intro!: phase_intros within_plan_loop within_record_phase within_emit [OF assms]
        within_post_infeasible_verdict [OF assms] split: sum.splits)

end

locale session_discipline = plan_discipline +
  assumes execute_allowed: "allowed (EvExecute p r)"
begin

lemma within_agent_execute [simp]: "within R (agent_execute cx p)"
  by (simp add: agent_execute_def within_ask execute_allowed)

lemma within_execute_once: "within R (execute_once cx p acc)"
  by (auto simp: execute_once_def head_sha_def intro!: phase_intros)

lemma within_resume:
  "within R (resume_target cx oc b)" "within R (keep_resuming cx reset synthetic streak)"
  by (auto simp: resume_target_def keep_resuming_def intro!: phase_intros within_waits
      split: outcome.splits option.splits)

end

text \<open>The execute phase itself also reads the operator's stop flag.\<close>

locale execute_discipline = session_discipline R allowed cx + stop_reader R allowed cx
  for R :: "run_state \<Rightarrow> run_state \<Rightarrow> bool" and allowed and cx
begin

lemma within_exec_loop: "within R (exec_loop fuel cx p acc)"
  by (induction fuel arbitrary: acc)
    (auto intro!: phase_intros within_stop within_execute_once within_resume
      split: option.splits resume.splits)

lemma within_execute_phase: "within R (execute_phase fuel cx i p)"
  by (auto simp: execute_phase_def Let_def
      intro!: phase_intros within_exec_loop within_record_phase split: option.splits)

end

section \<open>Termination\<close>

text \<open>
  The resumed waits of a history.  A clock whose waits end is one that resumes at most \<open>k\<close> times:
  the deadline, or the operator's stop, answers every later wait.
\<close>

fun resumed :: "event \<Rightarrow> nat" where
  "resumed (EvWait _ Resumed) = 1"
| "resumed _ = 0"

definition resumes :: "history \<Rightarrow> nat" where
  "resumes h = sum_list (map resumed h)"

definition resumes_at_most :: "nat \<Rightarrow> env \<Rightarrow> bool" where
  "resumes_at_most k env \<longleftrightarrow> (\<forall>h r. k \<le> resumes h \<longrightarrow> e_wait env h r = DeadlinePassed)"

lemma resumes_simps [simp]:
  "resumes [] = 0"
  "resumes (e # h) = resumed e + resumes h"
  "resumes (h @ h') = resumes h + resumes h'"
  by (simp_all add: resumes_def)

lemma not_DeadlinePassed [simp]: "w \<noteq> DeadlinePassed \<longleftrightarrow> w = Resumed"
  by (cases w) auto

lemma resumed_within_budget:
  "resumes_at_most k env \<Longrightarrow> e_wait env h r = Resumed \<Longrightarrow> resumes h < k"
  unfolding resumes_at_most_def by (metis not_le wait_outcome.distinct(1))

text \<open>The budget of resumed waits is kept by every step, so it is a discipline of the phases.\<close>

definition keeps_budget :: "nat \<Rightarrow> run_state \<Rightarrow> run_state \<Rightarrow> bool" where
  "keeps_budget k s s' \<longleftrightarrow> resumes (hist s) \<le> k \<longrightarrow> resumes (hist s') \<le> k"

fun no_wait :: "event \<Rightarrow> bool" where
  "no_wait (EvWait _ _) = False"
| "no_wait _ = True"

lemma no_wait_resumes: "no_wait e \<Longrightarrow> resumed e = 0"
  by (cases e) auto

lemma passive_no_wait: "\<not> active e \<Longrightarrow> no_wait e"
  by (cases e) auto

lemma budget_discipline:
  assumes "resumes_at_most k (cx_env cx)"
  shows "execute_discipline (keeps_budget k) no_wait cx"
proof
  fix s t u :: run_state and e :: event
  show "keeps_budget k s s" by (simp add: keeps_budget_def)
  show "keeps_budget k s t \<Longrightarrow> keeps_budget k t u \<Longrightarrow> keeps_budget k s u"
    by (simp add: keeps_budget_def)
  show "quiet e \<Longrightarrow> no_wait e" by (rule passive_no_wait [OF quiet_not_active])
  show "no_wait e \<Longrightarrow> keeps_budget k s (push_event e s)"
    by (simp add: keeps_budget_def no_wait_resumes)
next
  fix c n ph oc u sid
  show "within (keeps_budget k) (record_phase c n ph oc u sid)"
    by (simp add: within_def record_phase_def wp_simps Let_def keeps_budget_def)
next
  show "within (keeps_budget k) (stop_requested cx)"
    by (simp add: within_def stop_requested_def wp_simps keeps_budget_def)
next
  fix r
  show "within (keeps_budget k) (wait_for_reset cx r)"
    unfolding within_def wait_for_reset_def wp_simps keeps_budget_def
  proof
    fix s
    show "resumes (hist s) \<le> k \<longrightarrow>
        resumes (hist (push_event (EvWait r (e_wait (cx_env cx) (hist s) r)) s)) \<le> k"
      by (cases "e_wait (cx_env cx) (hist s) r") (auto simp: Suc_le_eq resumed_within_budget [OF assms])
  qed
qed simp_all

text \<open>A wait that lets the loop go on spends one unit of the budget.\<close>

lemma wait_out_plan_limit_budget:
  assumes "resumes_at_most k (cx_env cx)"
  shows "wp (wait_out_plan_limit cx lim streak)
     (\<lambda>w s'. w \<noteq> Some PlanOutOfFuel \<and>
        (w = None \<longrightarrow> resumes (hist s') = Suc (resumes (hist s)) \<and> resumes (hist s) < k)) s"
  by (auto simp: wait_out_plan_limit_def Let_def wp_simps synthetic_reset_at_def wait_for_reset_def
      split: option.splits dest: resumed_within_budget [OF assms])

text \<open>Fuel beyond the remaining budget is never used up.\<close>

lemma plan_loop_fuel:
  assumes k: "resumes_at_most k (cx_env cx)"
    and "resumes (hist s) \<le> k" "k < resumes (hist s) + fuel"
  shows "wp (plan_loop fuel cx i streak) (\<lambda>r _. r \<noteq> Inr (Inl PlanOutOfFuel)) s"
  using assms(2,3)
proof (induction fuel arbitrary: streak s)
  case 0
  then show ?case by simp
next
  case (Suc fuel)
  have "wp (wait_out_plan_limit cx lim (streak + 1))
     (\<lambda>w s'. w \<noteq> Some PlanOutOfFuel \<and>
        (w = None \<longrightarrow> resumes (hist s') = Suc (resumes (hist s)) \<and> resumes (hist s) < k))
     (push_event (EvPlan i (Inl (PlanLimit lim))) s)" for lim
    using wait_out_plan_limit_budget [OF k, of lim "streak + 1" "push_event (EvPlan i (Inl (PlanLimit lim))) s"]
    by simp
  then have "wp (wait_out_plan_limit cx lim (streak + 1))
      (\<lambda>w. wp (case w of None \<Rightarrow> plan_loop fuel cx i (streak + 1) | Some stop \<Rightarrow> okE (Inl stop))
         (\<lambda>r _. r \<noteq> Inr (Inl PlanOutOfFuel)))
      (push_event (EvPlan i (Inl (PlanLimit lim))) s)" for lim
    by (rule wp_mono) (use Suc in \<open>auto simp: wp_simps split: option.splits\<close>)
  then show ?case
    by (auto simp: wp_simps split: sum.splits error.splits)
qed

lemma execute_once_budget:
  "wp (execute_once cx p acc) (\<lambda>_ s'. resumes (hist s') = resumes (hist s)) s"
  by (auto simp: execute_once_def head_sha_def agent_execute_def wp_simps split: sum.splits)

lemma resume_target_budget:
  "wp (resume_target cx oc b) (\<lambda>_ s'. resumes (hist s') = resumes (hist s)) s"
  by (auto simp: resume_target_def synthetic_reset_at_def wp_simps split: outcome.splits option.splits)

lemma keep_resuming_budget:
  assumes "resumes_at_most k (cx_env cx)"
  shows "wp (keep_resuming cx reset synthetic streak)
     (\<lambda>a s'. a = Again \<longrightarrow> resumes (hist s') = Suc (resumes (hist s)) \<and> resumes (hist s) < k) s"
  by (auto simp: keep_resuming_def wait_for_reset_def wp_simps dest: resumed_within_budget [OF assms])

lemma exec_loop_fuel:
  assumes k: "resumes_at_most k (cx_env cx)"
    and "resumes (hist s) \<le> k" "k < resumes (hist s) + fuel"
  shows "wp (exec_loop fuel cx p acc) (\<lambda>r _. r \<noteq> Inr None) s"
  using assms(2,3)
proof (induction fuel arbitrary: acc s)
  case 0
  then show ?case by simp
next
  case (Suc fuel)
  let ?Q = "\<lambda>r _. r \<noteq> Inr None"
  have resumed: "wp (keep_resuming cx reset synthetic (xa_streak acc'))
      (\<lambda>a. wp (case a of Again \<Rightarrow> exec_loop fuel cx p acc'
                | Abandon \<Rightarrow> okE (Some (oc, False, acc'))
                | DeadlineCut \<Rightarrow> okE (Some (oc, True, acc'))) ?Q) t"
    if "resumes (hist t) = resumes (hist s)" for reset synthetic acc' oc t
    by (rule wp_mono [OF keep_resuming_budget [OF k]])
      (use Suc that in \<open>auto simp: wp_simps split: resume.splits\<close>)
  have targeted: "wp (resume_target cx oc b)
      (\<lambda>a. wp (case a of None \<Rightarrow> okE (Some (oc, False, acc'))
                | Some (reset, synthetic) \<Rightarrow>
                    State_Monad.bind (keep_resuming cx reset synthetic (xa_streak acc'))
                      (\<lambda>a. case a of Again \<Rightarrow> exec_loop fuel cx p acc'
                        | Abandon \<Rightarrow> okE (Some (oc, False, acc'))
                        | DeadlineCut \<Rightarrow> okE (Some (oc, True, acc')))) ?Q) t"
    if "resumes (hist t) = resumes (hist s)" for oc b acc' t
    by (rule wp_mono [OF resume_target_budget])
      (use resumed that in \<open>auto simp: wp_simps split: option.splits prod.splits\<close>)
  show ?case
    unfolding exec_loop.simps wp_bindE
    by (rule wp_mono [OF execute_once_budget])
      (auto simp: wp_simps stop_requested_def targeted split: sum.splits prod.splits)
qed

text \<open>A phase that ends with the wait budget intact has not run out of fuel.\<close>

lemma plan_phase_fuel:
  assumes "resumes_at_most k (cx_env cx)" "resumes (hist s) \<le> k" "k < fuel"
  shows "wp (plan_phase fuel cx i) (\<lambda>r _. r \<noteq> Inr PlanOutOfFuel) s"
  unfolding plan_phase_def wp_bindE
  by (rule wp_mono [OF plan_loop_fuel [OF assms(1,2)]])
    (use assms in \<open>auto simp: wp_simps Let_def emit_plan_written_def read_plan_def record_phase_def
       post_infeasible_verdict_def post_bundle_verdict_def call_defs
       split: sum.splits option.splits\<close>)

lemma execute_phase_fuel:
  assumes "resumes_at_most k (cx_env cx)" "resumes (hist s) \<le> k" "k < fuel"
  shows "wp (execute_phase fuel cx i p) (\<lambda>r _. r \<noteq> Inr ExecOutOfFuel) s"
proof -
  have clear: "wp (clear_file cx f) (\<lambda>_ s'. resumes (hist s') = resumes (hist s)) s" for f s
    by (auto simp: clear_file_def call_defs wp_simps)
  have loop: "wp (exec_loop fuel cx p exec_acc_start) (\<lambda>r _. r \<noteq> Inr None) t"
    if "resumes (hist t) = resumes (hist s)" for t
    by (rule exec_loop_fuel [OF assms(1)]) (use assms that in auto)
  show ?thesis
    unfolding execute_phase_def wp_bind wp_bindE clear_verify_failure_def clear_protocol_failure_def
    apply (rule wp_mono [OF clear])
    apply (rule wp_mono [OF clear])
    apply (rule wp_mono [OF loop])
    by (auto simp: wp_simps Let_def record_phase_def split: sum.splits option.splits)
qed

end
