(* ===== verification/Gates.thy ===== *)
theory Gates
  imports Plan_Execute
begin

text \<open>
  The protocol gate, the verify gate with its repair loop, and the close
  (\<^verbatim>\<open>runner/phases/protocol.rs\<close>, \<^verbatim>\<open>runner/phases/verify.rs\<close>, \<^verbatim>\<open>runner/phases/close.rs\<close>).
\<close>

section \<open>The protocol gate\<close>

datatype protocol_gate =
    Settled protocol_report string usage
  | ProtocolStopLimit "reset_at option"

text \<open>
  The local variables of the gate after the bounce: the lint, the plan, the usage, the session and
  the usage limit the bounce hit, if it hit one.
\<close>

definition protocol_bounce :: "ctx \<Rightarrow> plan \<Rightarrow> protocol_report \<Rightarrow> string
    \<Rightarrow> (error + (protocol_report \<times> string \<times> usage \<times> string option \<times> reset_at option option)) run" where
  "protocol_bounce cx p lint0 plan_md = do {
     write_protocol_failure cx lint0;
     bindE (agent_execute cx p) (\<lambda>ex.
       case ex_outcome ex of
         Limit reset \<Rightarrow> okE (lint0, plan_md, ex_usage ex, ex_session_id ex, Some reset)
       | _ \<Rightarrow> do {
           md \<leftarrow> read_plan cx;
           let plan_md' = or_empty md;
           okE (lint (e_rx (cx_env cx)) plan_md', plan_md', ex_usage ex, ex_session_id ex, None)
         })
   }"

definition protocol_gate :: "ctx \<Rightarrow> issue \<Rightarrow> plan \<Rightarrow> (error + protocol_gate) run" where
  "protocol_gate cx i p = do {
     md \<leftarrow> read_plan cx;
     let plan_md = or_empty md;
     let lint0 = lint (e_rx (cx_env cx)) plan_md;
     bindE (if \<not> pr_passed lint0 then protocol_bounce cx p lint0 plan_md
            else okE (lint0, plan_md, usage_default, None, None))
       (\<lambda>(lnt, plan_md', u, sid, lim). do {
          clear_protocol_failure cx;
          record_phase_if_used cx (issue_number i) ''protocol-repair''
            (if pr_passed lnt then ''done'' else ''protocol-failed'') u sid;
          okE (case lim of
                 Some reset \<Rightarrow> ProtocolStopLimit reset
               | None \<Rightarrow> Settled lnt plan_md' u)
        })
   }"

section \<open>The verify gate\<close>

definition VERIFY_MAX_REPAIRS :: u32 where "VERIFY_MAX_REPAIRS = 2"

datatype verify_plan = RunGate "string list list" | OptedOut | InvalidGate string | NoGate

definition resolve_verify :: "regex_engine \<Rightarrow> string \<Rightarrow> string list list option \<Rightarrow> verify_plan" where
  "resolve_verify rx plan_md fallback =
     (case parse_verify rx plan_md of
        Commands commands \<Rightarrow> RunGate commands
      | VsNone \<Rightarrow> OptedOut
      | Invalid err \<Rightarrow> InvalidGate err
      | Unspecified \<Rightarrow>
          (case fallback of
             Some commands \<Rightarrow> if commands \<noteq> [] then RunGate commands else NoGate
           | None \<Rightarrow> NoGate))"

datatype gate_decision = Green | GateFailed string | GateNeedsHuman

datatype verify_gate =
    GreenGate usage
  | FailedGate string
  | VerifyStopLimit "reset_at option"
  | NeedsHuman

record repairs =
  rp_usages :: "usage list"
  rp_session_id :: "string option"
  rp_limit :: "outcome option"

definition repairs_default :: repairs where
  "repairs_default = \<lparr>rp_usages = [], rp_session_id = None, rp_limit = None\<rparr>"

definition post_verify_artifact :: "ctx \<Rightarrow> issue \<Rightarrow> string \<Rightarrow> unit run" where
  "post_verify_artifact cx i body = best_effort (post_comment cx (issue_number i) body)"

definition spawn_call :: "ctx \<Rightarrow> string list \<Rightarrow> run_state \<Rightarrow> spawn_result \<times> run_state" where
  "spawn_call cx argv = run_state (ask (\<lambda>h. e_spawn (cx_env cx) h argv) (EvSpawn argv))"

definition run_commands :: "ctx \<Rightarrow> string list list \<Rightarrow> verify_report run" where
  "run_commands cx commands = do {
     report \<leftarrow> State (run (run_one (spawn_call cx)) commands);
     tell (EvGateCosts (map (\<lambda>c. (co_argv c, co_secs c)) (vr_commands report)));
     State_Monad.return report
   }"

definition spawn_failed_gate :: "ctx \<Rightarrow> issue \<Rightarrow> verify_report \<Rightarrow> gate_decision run" where
  "spawn_failed_gate cx i report = do {
     post_verify_artifact cx i (spawn_failure_comment (qc_stamp (cx_cfg cx)) report);
     State_Monad.return (GateFailed (verify_spawn_failure_summary report))
   }"

definition invalid_gate :: "ctx \<Rightarrow> issue \<Rightarrow> string \<Rightarrow> gate_decision run" where
  "invalid_gate cx i err = do {
     post_verify_artifact cx i (invalid_comment (qc_stamp (cx_cfg cx)) err);
     State_Monad.return (GateFailed err)
   }"

text \<open>One repair: whether it hit a usage limit, and the updated record of the repairs.\<close>

definition repair :: "ctx \<Rightarrow> plan \<Rightarrow> verify_report \<Rightarrow> repairs \<Rightarrow> (error + (bool \<times> repairs)) run" where
  "repair cx p report rps = do {
     write_verify_failure cx report;
     bindE (agent_execute cx p) (\<lambda>ex.
       let rps' = rps\<lparr>rp_usages := rp_usages rps @ [ex_usage ex],
                      rp_session_id := (case ex_session_id ex of Some s \<Rightarrow> Some s
                                        | None \<Rightarrow> rp_session_id rps)\<rparr>
       in case ex_outcome ex of
            Limit reset \<Rightarrow> okE (True, rps'\<lparr>rp_limit := Some (Limit reset)\<rparr>)
          | _ \<Rightarrow> okE (False, rps'))
   }"

definition repairs_left :: "u32 \<Rightarrow> nat" where
  "repairs_left attempt = unat (VERIFY_MAX_REPAIRS - attempt)"

lemma attempt_cases:
  assumes "\<not> VERIFY_MAX_REPAIRS \<le> attempt"
  obtains "attempt = 0" | "attempt = 1"
proof -
  from assms have "unat attempt < 2"
    by (simp add: VERIFY_MAX_REPAIRS_def word_le_nat_alt)
  then have "unat attempt = unat (0::u32) \<or> unat attempt = unat (1::u32)" by simp linarith
  then show thesis using that by (auto simp: word_unat_eq_iff)
qed

lemma repairs_left_less:
  "\<not> VERIFY_MAX_REPAIRS \<le> attempt \<Longrightarrow> repairs_left (attempt + 1) < repairs_left attempt"
  by (erule attempt_cases) (simp_all add: repairs_left_def VERIFY_MAX_REPAIRS_def)

text \<open>
  The loop \<^verbatim>\<open>run_with_repairs\<close>: its counter starts at 0 and a run that fails at
  \<open>VERIFY_MAX_REPAIRS\<close> ends it, so the recursion is on the repairs that are left.
\<close>

function run_with_repairs_from :: "u32 \<Rightarrow> ctx \<Rightarrow> issue \<Rightarrow> plan \<Rightarrow> string list list \<Rightarrow> repairs
    \<Rightarrow> (error + (gate_decision \<times> repairs)) run" where
  "run_with_repairs_from attempt cx i p commands rps = do {
     report \<leftarrow> run_commands cx commands;
     if vr_spawn_failed report then do {
       g \<leftarrow> spawn_failed_gate cx i report;
       okE (g, rps)
     }
     else do {
       post_verify_artifact cx i (gate_comment (qc_stamp (cx_cfg cx)) report);
       if vr_passed report then do {
         clear_verify_failure cx;
         okE (Green, rps)
       }
       else if attempt \<ge> VERIFY_MAX_REPAIRS then
         okE (GateFailed (verify_failure_summary report), rps)
       else
         bindE (repair cx p report rps) (\<lambda>(limited, rps').
           if limited then okE (GateFailed (verify_failure_summary report), rps')
           else run_with_repairs_from (attempt + 1) cx i p commands rps')
     }
   }"
  by pat_completeness auto
termination
  by (relation "measure (\<lambda>(attempt, _). repairs_left attempt)") (auto intro: repairs_left_less)

declare run_with_repairs_from.simps [simp del]

definition run_with_repairs :: "ctx \<Rightarrow> issue \<Rightarrow> plan \<Rightarrow> string list list \<Rightarrow> repairs
    \<Rightarrow> (error + (gate_decision \<times> repairs)) run" where
  "run_with_repairs cx i p commands rps = run_with_repairs_from 0 cx i p commands rps"

definition verify_gate :: "ctx \<Rightarrow> issue \<Rightarrow> plan \<Rightarrow> string \<Rightarrow> (error + verify_gate) run" where
  "verify_gate cx i p plan_md =
     bindE (case resolve_verify (e_rx (cx_env cx)) plan_md (qc_verify_fallback (cx_cfg cx)) of
              RunGate commands \<Rightarrow> run_with_repairs cx i p commands repairs_default
            | OptedOut \<Rightarrow> okE (Green, repairs_default)
            | InvalidGate err \<Rightarrow> do {
                g \<leftarrow> invalid_gate cx i err;
                okE (g, repairs_default)
              }
            | NoGate \<Rightarrow>
                okE (if qc_require_verify_gate (cx_cfg cx) then GateNeedsHuman else Green,
                     repairs_default))
       (\<lambda>(gate, rps). do {
          let repair_usage = fold_usage (rp_usages rps) None;
          record_phase_if_used cx (issue_number i) ''repair''
            (case gate of GateFailed _ \<Rightarrow> ''verify-failed'' | _ \<Rightarrow> ''done'')
            repair_usage (rp_session_id rps);
          okE (case gate of
                 GateFailed summary \<Rightarrow>
                   (case rp_limit rps of
                      Some (Limit reset) \<Rightarrow> VerifyStopLimit reset
                    | _ \<Rightarrow> FailedGate summary)
               | GateNeedsHuman \<Rightarrow> NeedsHuman
               | Green \<Rightarrow> GreenGate repair_usage)
        })"

section \<open>The close\<close>

definition write_knowledge :: "ctx \<Rightarrow> issue \<Rightarrow> string \<Rightarrow> unit run" where
  "write_knowledge cx i note = do {
     dir \<leftarrow> ask (e_knowledge_dir (cx_env cx)) EvKnowledgeDir;
     case dir of
       Inl _ \<Rightarrow> State_Monad.return ()
     | Inr _ \<Rightarrow> do {
         date \<leftarrow> ask (e_today (cx_env cx)) EvToday;
         best_effort (write_file cx (KnowledgeFile (issue_number i))
           (''# Knowledge from #'' @ show_nat (issue_number i) @ '': '' @ issue_title i @ [nl, nl] @
            ''Extracted '' @ date @ '' (run '' @ qc_stamp (cx_cfg cx) @ '') from the session'' @ [squote] @
            ''s handoff at close. Leads, not truths '' @ em_dash @
            '' verify before relying on one.'' @ [nl, nl] @ trim_end note @ [nl]))
       }
   }"

definition record_citations :: "ctx \<Rightarrow> issue \<Rightarrow> string list \<Rightarrow> unit run" where
  "record_citations cx i citations = do {
     date \<leftarrow> ask (e_today (cx_env cx)) EvToday;
     let entry = \<lparr>ce_issue = issue_number i, ce_stamp = qc_stamp (cx_cfg cx), ce_date = date,
                  ce_citations = citations\<rparr>;
     best_effort (ask (\<lambda>h. e_cite (cx_env cx) h entry) (EvCite entry))
   }"

definition record_knowledge :: "ctx \<Rightarrow> issue \<Rightarrow> string \<Rightarrow> unit run" where
  "record_knowledge cx i plan_md = do {
     (case knowledge_note (e_rx (cx_env cx)) plan_md of
        Some note \<Rightarrow> write_knowledge cx i note
      | None \<Rightarrow> State_Monad.return ());
     case knowledge_used (e_rx (cx_env cx)) plan_md of
       Some citations \<Rightarrow> record_citations cx i citations
     | None \<Rightarrow> State_Monad.return ()
   }"

definition publish_plan_record :: "ctx \<Rightarrow> issue \<Rightarrow> string \<Rightarrow> verdict list \<Rightarrow> (error + unit) run" where
  "publish_plan_record cx i plan_md verdicts = do {
     emit (PlanClosed (issue_number i) plan_md);
     bindE (if verdicts \<noteq> []
            then ask (\<lambda>h. e_evidence (cx_env cx) h (issue_number i) (issue_body i) verdicts)
                   (EvEvidence (issue_number i) (issue_body i) verdicts)
            else okE ()) (\<lambda>_.
       bindE (case close_report (e_rx (cx_env cx)) plan_md of
                Some report \<Rightarrow> post_comment cx (issue_number i) report
              | None \<Rightarrow> okE ()) (\<lambda>_. do {
         record_knowledge cx i plan_md;
         okE ()
       }))
   }"

definition review_only_count :: "verdict list \<Rightarrow> nat" where
  "review_only_count vs = length (filter (\<lambda>v. v_kind v = ReviewOnly) vs)"

definition close_issue :: "ctx \<Rightarrow> issue_no \<Rightarrow> string \<Rightarrow> (error + unit) run" where
  "close_issue cx n body = ask (\<lambda>h. e_close (cx_env cx) h n body) (EvClose n body)"

definition close_and_record :: "ctx \<Rightarrow> issue \<Rightarrow> plan \<Rightarrow> protocol_report \<Rightarrow> usage \<Rightarrow> usage \<Rightarrow> usage
    \<Rightarrow> (error + unit) run" where
  "close_and_record cx i p lnt exec_usage protocol_usage repair_usage =
     bindE (close_issue cx (issue_number i)
              (close_comment (qc_stamp (cx_cfg cx)) (cx_branch cx) lnt)) (\<lambda>_. do {
       let issue_total =
         total (plan_usage p) + total exec_usage + total protocol_usage + total repair_usage;
       let invocations =
         2 + (if total protocol_usage > 0 then 1 else 0) + (if total repair_usage > 0 then 1 else 0);
       emit (IssueClosed (issue_number i) issue_total invocations exec_usage);
       md \<leftarrow> read_plan cx;
       let verdicts = (case md of Some plan_md \<Rightarrow> parse_ledger (e_rx (cx_env cx)) plan_md | None \<Rightarrow> []);
       let review_only = review_only_count verdicts;
       push_worked \<lparr>ir_number = issue_number i, ir_outcome = Some Done, ir_closed = True,
                    ir_blocked_by = [], ir_human_blockers = [], ir_status = StDone, ir_skip = None,
                    ir_review_only = review_only\<rparr>;
       (if review_only > 0 then best_effort (add_label cx (issue_number i) NEEDS_HUMAN_REVIEW_LABEL)
        else State_Monad.return ());
       case md of
         Some plan_md \<Rightarrow> publish_plan_record cx i plan_md verdicts
       | None \<Rightarrow> okE ()
     })"

section \<open>Effects of the gates\<close>

locale gate_discipline = session_discipline +
  assumes spawn_allowed: "allowed (EvSpawn argv r)"
begin

lemma run_loop_within:
  "run_loop (run_one (spawn_call cx)) cmds outs s = (r, s') \<Longrightarrow> R s s'"
proof (induction cmds arbitrary: outs s)
  case Nil
  then show ?case by (simp add: R_refl)
next
  case (Cons argv rest)
  obtain oc t where one: "run_one (spawn_call cx) argv s = (oc, t)" by fastforce
  then have "R s t"
    by (auto simp: run_one_def spawn_call_def ask_def Let_def allowed_step spawn_allowed R_refl
        split: list.splits spawn_result.splits prod.splits)
  with Cons one show ?case
    by (auto intro: R_trans split: if_splits)
qed

lemma within_run_commands: "within R (run_commands cx cmds)"
proof -
  have "within R (State (run (run_one (spawn_call cx)) cmds))"
    by (auto simp: within_def wp_simps run_def split: prod.splits dest: run_loop_within)
  then show ?thesis by (auto simp: run_commands_def intro!: phase_intros)
qed

lemma within_artifacts [simp]:
  "within R (post_verify_artifact cx i b)" "within R (spawn_failed_gate cx i rep)"
  "within R (invalid_gate cx i e)"
  by (auto simp: post_verify_artifact_def spawn_failed_gate_def invalid_gate_def intro!: phase_intros)

lemma within_protocol_gate: "within R (protocol_gate cx i p)"
  by (auto simp: protocol_gate_def protocol_bounce_def Let_def
      intro!: phase_intros within_record_phase_if_used split: outcome.splits prod.splits)

lemma within_repair: "within R (repair cx p rep rps)"
  by (auto simp: repair_def Let_def intro!: phase_intros split: outcome.splits)

lemma within_run_with_repairs_from: "within R (run_with_repairs_from attempt cx i p cmds rps)"
proof (induction attempt arbitrary: rps rule: measure_induct_rule [of repairs_left])
  case (less attempt)
  show ?case
    by (subst run_with_repairs_from.simps)
      (auto intro!: phase_intros within_run_commands within_repair less.IH repairs_left_less
        split: prod.splits)
qed

lemma within_verify_gate: "within R (verify_gate cx i p plan_md)"
  by (auto simp: verify_gate_def run_with_repairs_def Let_def
      intro!: phase_intros within_run_with_repairs_from within_record_phase_if_used
      split: verify_plan.splits prod.splits)

lemma within_publish_plan_record:
  assumes "speaks_for allowed (issue_number i)"
  shows "within R (publish_plan_record cx i plan_md vs)"
  by (auto simp: publish_plan_record_def record_knowledge_def write_knowledge_def record_citations_def
      Let_def intro!: phase_intros within_emit [OF assms] split: option.splits sum.splits)

end

end
