(* ===== verification/Runner.thy ===== *)
theory Runner
  imports Gates
begin

text \<open>
  The queue loop: \<^verbatim>\<open>runner/queue_run.rs\<close> (one issue), \<^verbatim>\<open>runner/branch.rs\<close> and \<^verbatim>\<open>gitignore.rs\<close> (the
  branch a run works on) and \<^verbatim>\<open>runner.rs\<close> (the whole run and its teardown).
\<close>

section \<open>One issue\<close>

datatype early = Next | Stop stop_reason | Fail error | OutOfFuel

definition result :: "issue_no \<Rightarrow> result_status \<Rightarrow> issue_result" where
  "result n st = \<lparr>ir_number = n, ir_outcome = None, ir_closed = False, ir_blocked_by = [],
     ir_human_blockers = [], ir_status = st, ir_skip = None, ir_review_only = 0\<rparr>"

definition non_green_stop :: "ctx \<Rightarrow> issue_no \<Rightarrow> outcome \<Rightarrow> bool \<Rightarrow> stop_reason run" where
  "non_green_stop cx n oc deadline_cut = do {
     stopped \<leftarrow> stop_requested cx;
     State_Monad.return
       (if stopped then SrStopped (Some n)
        else if deadline_cut then SrDeadline
        else case oc of Limit reset \<Rightarrow> SrLimit n reset | _ \<Rightarrow> SrNonGreen n oc)
   }"

text \<open>\<^verbatim>\<open>restore\<close> of \<^verbatim>\<open>runner.rs\<close>: back to the original branch, and drop an empty run branch.\<close>

definition checkout_force :: "env \<Rightarrow> string \<Rightarrow> (error + unit) run" where
  "checkout_force env b = ask (\<lambda>h. e_checkout_force env h b) (EvCheckoutForce b)"

definition rev_list_count :: "env \<Rightarrow> string \<Rightarrow> (error + nat) run" where
  "rev_list_count env span = ask (\<lambda>h. e_rev_count env h span) (EvRevCount span)"

definition restore :: "env \<Rightarrow> string \<Rightarrow> string \<Rightarrow> string \<Rightarrow> branch_mode \<Rightarrow> unit run" where
  "restore env orig branch base mode =
     (if mode = CurrentBranch then State_Monad.return ()
      else do {
        r \<leftarrow> checkout_force env orig;
        case r of
          Inl _ \<Rightarrow> State_Monad.return ()
        | Inr _ \<Rightarrow> do {
            n \<leftarrow> rev_list_count env (base @ ''..'' @ branch);
            if (case n of Inr c \<Rightarrow> c | Inl _ \<Rightarrow> 1) = 0
            then best_effort (ask (\<lambda>h. e_delete_branch env h branch) (EvDeleteBranch branch))
            else State_Monad.return ()
          }
      })"

definition fail :: "ctx \<Rightarrow> error \<Rightarrow> early run" where
  "fail cx e = do {
     restore (cx_env cx) (cx_orig cx) (cx_branch cx) (qc_base_branch (cx_cfg cx))
       (qc_branch_mode (cx_cfg cx));
     State_Monad.return (Fail e)
   }"

text \<open>A step that ends the issue with the answer another step computes.\<close>

definition throw :: "early run \<Rightarrow> (early + 'a) run" where
  "throw m = State_Monad.bind m errE"

definition preflight :: "ctx \<Rightarrow> issue \<Rightarrow> (early + unit) run" where
  "preflight cx i = do {
     stopped \<leftarrow> stop_requested cx;
     if stopped then do {
       emit (RunStopped None);
       errE (Stop (SrStopped None))
     }
     else do {
       passed \<leftarrow> ask (e_deadline (cx_env cx)) EvDeadline;
       if passed then do {
         emit (EmDeadlinePassed (issue_number i));
         errE (Stop SrDeadline)
       }
       else if first_stop_before [i] (qc_forced_issues (cx_cfg cx)) \<noteq> None then do {
         emit (StopBeforeLabel (issue_number i));
         errE (Stop (SrStopBefore (issue_number i)))
       }
       else case human_return_label i (qc_human_return_labels (cx_cfg cx)) of
         Some label \<Rightarrow> do {
           emit (HumanReturnLabel (issue_number i) label);
           push_worked ((result (issue_number i) StSkipped)\<lparr>ir_skip := Some SkHumanReturn\<rparr>);
           errE Next
         }
       | None \<Rightarrow> okE ()
     }
   }"

definition prepare :: "ctx \<Rightarrow> issue \<Rightarrow> (early + issue) run" where
  "prepare cx i = do {
     r \<leftarrow> prepare_issue cx i;
     case r of
       Inr (Ready enriched) \<Rightarrow> okE enriched
     | Inr (BlockedBy opn human) \<Rightarrow> do {
         let status = (if human = [] then StSkipped else StHitl);
         push_worked ((result (issue_number i) status)\<lparr>ir_blocked_by := opn,
           ir_human_blockers := human,
           ir_skip := (if status = StSkipped then Some SkBlockedBy else None)\<rparr>);
         errE Next
       }
     | Inl e \<Rightarrow> throw (fail cx e)
   }"

definition record_stop :: "issue_no \<Rightarrow> stop_reason run" where
  "record_stop n = do {
     emit (RunStopped (Some n));
     push_worked (result n StNonGreen);
     State_Monad.return (SrStopped (Some n))
   }"

definition limit_stop :: "issue_no \<Rightarrow> reset_at option \<Rightarrow> early run" where
  "limit_stop n reset = do {
     push_worked ((result n StNonGreen)\<lparr>ir_outcome := Some (Limit reset)\<rparr>);
     State_Monad.return (Stop (SrLimit n reset))
   }"

definition run_plan :: "nat \<Rightarrow> ctx \<Rightarrow> issue \<Rightarrow> (early + (plan \<times> bool)) run" where
  "run_plan fuel cx i = do {
     planned \<leftarrow> plan_phase fuel cx i;
     if planned = Inr PlanOutOfFuel then errE OutOfFuel
     else do {
       stopped \<leftarrow> stop_requested cx;
       if stopped then do {
         reason \<leftarrow> record_stop (issue_number i);
         errE (Stop reason)
       }
       else case planned of
         Inr (Planned p) \<Rightarrow> okE (p, False)
       | Inr (Executed p) \<Rightarrow> okE (p, True)
       | Inr (Infeasible needs_split) \<Rightarrow> do {
           push_worked (result (issue_number i) (if needs_split then StNeedsSplit else StInfeasible));
           errE Next
         }
       | Inr (PlanStopLimit reset) \<Rightarrow> throw (limit_stop (issue_number i) reset)
       | Inr PlanStopDeadline \<Rightarrow> errE (Stop SrDeadline)
       | Inr PlanOutOfFuel \<Rightarrow> errE OutOfFuel
       | Inl e \<Rightarrow> throw (fail cx e)
     }
   }"

definition non_green :: "ctx \<Rightarrow> issue_no \<Rightarrow> outcome \<Rightarrow> bool \<Rightarrow> early run" where
  "non_green cx n oc deadline_cut = do {
     stopped \<leftarrow> stop_requested cx;
     emit (if stopped then RunStopped (Some n) else EmNonGreen n oc);
     push_worked ((result n (case oc of Blocked _ \<Rightarrow> StBlocked | _ \<Rightarrow> StNonGreen))
       \<lparr>ir_outcome := Some oc\<rparr>);
     reason \<leftarrow> non_green_stop cx n oc deadline_cut;
     State_Monad.return (Stop reason)
   }"

definition run_execute :: "nat \<Rightarrow> ctx \<Rightarrow> issue \<Rightarrow> plan \<Rightarrow> bool \<Rightarrow> (early + usage) run" where
  "run_execute fuel cx i p executed = do {
     r \<leftarrow> (if executed then do {
              clear_verify_failure cx;
              clear_protocol_failure cx;
              okE (ExecDone usage_default)
            }
            else execute_phase fuel cx i p);
     case r of
       Inl (HooksUnproven e) \<Rightarrow> throw (fail cx (HooksUnproven e))
     | Inl e \<Rightarrow> errE (Fail e)
     | Inr (ExecDone exec_usage) \<Rightarrow> okE exec_usage
     | Inr (ExecNonGreen oc deadline_cut) \<Rightarrow> throw (non_green cx (issue_number i) oc deadline_cut)
     | Inr ExecOutOfFuel \<Rightarrow> errE OutOfFuel
   }"

definition stop_if_requested :: "ctx \<Rightarrow> issue_no \<Rightarrow> (early + unit) run" where
  "stop_if_requested cx n = do {
     stopped \<leftarrow> stop_requested cx;
     if stopped then do {
       reason \<leftarrow> record_stop n;
       errE (Stop reason)
     }
     else okE ()
   }"

definition run_protocol :: "ctx \<Rightarrow> issue \<Rightarrow> plan \<Rightarrow> (early + (protocol_report \<times> string \<times> usage)) run" where
  "run_protocol cx i p =
     bindE (map_err Fail (protocol_gate cx i p)) (\<lambda>g.
       case g of
         Settled lnt plan_md u \<Rightarrow> okE (lnt, plan_md, u)
       | ProtocolStopLimit reset \<Rightarrow> throw (limit_stop (issue_number i) reset))"

definition park_for_human :: "ctx \<Rightarrow> issue_no \<Rightarrow> unit run" where
  "park_for_human cx n = do {
     best_effort (add_label cx n (HUMAN_GATE_LABELS ! 0));
     best_effort (post_comment cx n (no_gate_comment (qc_stamp (cx_cfg cx)) (cx_branch cx)));
     push_worked ((result n StDone)\<lparr>ir_outcome := Some Done\<rparr>)
   }"

definition run_verify :: "ctx \<Rightarrow> issue \<Rightarrow> plan \<Rightarrow> string \<Rightarrow> (early + usage) run" where
  "run_verify cx i p plan_md =
     bindE (map_err Fail (verify_gate cx i p plan_md)) (\<lambda>g.
       case g of
         GreenGate repair_usage \<Rightarrow> okE repair_usage
       | VerifyStopLimit reset \<Rightarrow> throw (limit_stop (issue_number i) reset)
       | FailedGate summary \<Rightarrow> do {
           emit (VerifyGateFailed (issue_number i) summary);
           push_worked ((result (issue_number i) StSkipped)\<lparr>ir_skip := Some SkVerifyFailed\<rparr>);
           errE Next
         }
       | NeedsHuman \<Rightarrow> do {
           park_for_human cx (issue_number i);
           errE Next
         })"

definition run_issue :: "nat \<Rightarrow> ctx \<Rightarrow> issue \<Rightarrow> (early + unit) run" where
  "run_issue fuel cx i0 =
     bindE (preflight cx i0) (\<lambda>_.
     bindE (prepare cx i0) (\<lambda>i.
     bindE (run_plan fuel cx i) (\<lambda>(p, executed).
       if qc_dry_run (cx_cfg cx) then do {
         push_worked (result (issue_number i) StPlanned);
         okE ()
       }
       else
         bindE (run_execute fuel cx i p executed) (\<lambda>exec_usage.
         bindE (stop_if_requested cx (issue_number i)) (\<lambda>_.
         bindE (run_protocol cx i p) (\<lambda>(lnt, plan_md, protocol_usage).
         bindE (run_verify cx i p plan_md) (\<lambda>repair_usage.
           map_err Fail (close_and_record cx i p lnt exec_usage protocol_usage repair_usage))))))))"

section \<open>The branch of a run\<close>

definition ralphy_ignore_re :: string where
  "ralphy_ignore_re = ''(?m)^'' @ [bslash] @ ''s*'' @ [bslash] @ ''.ralphy/?'' @ [bslash] @ ''s*$''"

definition ensure_ralphy_ignored :: "env \<Rightarrow> (error + bool) run" where
  "ensure_ralphy_ignored env =
     bindE (ask (e_read_ignore env) EvReadIgnore) (\<lambda>existing.
       let txt = or_empty existing
       in if is_match (e_rx env) ralphy_ignore_re txt then okE False
          else
            let txt' = (if txt \<noteq> [] \<and> \<not> ends_with_nl txt then txt @ [nl] else txt) @
                  ''# Ralphy run artifacts (scratch, logs, per-run plans)'' @ [nl] @ ''.ralphy/'' @ [nl]
            in bindE (ask (\<lambda>h. e_write_ignore env h txt') (EvWriteIgnore txt')) (\<lambda>_. okE True))"

definition prepare_branch :: "env \<Rightarrow> queue_config \<Rightarrow> (error + (string \<times> string \<times> string)) run" where
  "prepare_branch env cfg = do {
     _ \<leftarrow> ask (e_fetch env) EvFetch;
     bindE (ask (e_is_clean env) EvIsClean) (\<lambda>clean.
       if \<not> clean then
         errE (Other (''working tree at '' @ qc_repo_root cfg @ '' is not clean '' @ em_dash @
                      '' commit or stash first''))
       else
         bindE (ask (e_current_branch env) EvCurrentBranch) (\<lambda>orig.
           if orig = ''HEAD'' then
             errE (Other (''repo at '' @ qc_repo_root cfg @ '' is in detached HEAD '' @ em_dash @
                          '' checkout a branch first''))
           else
             bindE (case qc_branch_mode cfg of
                      CurrentBranch \<Rightarrow>
                        bindE (ask (e_head_sha env) EvHeadSha) (\<lambda>sha. okE (orig, orig, sha))
                    | NewBranch \<Rightarrow> do {
                        exists \<leftarrow> ask (\<lambda>h. e_commitish env h (qc_base_branch cfg))
                                   (EvCommitish (qc_base_branch cfg));
                        if \<not> exists then
                          errE (Other (''base branch '' @ [squote] @ qc_base_branch cfg @ [squote] @
                                       '' not found''))
                        else
                          let branch = ''afk/run-'' @ qc_stamp cfg
                          in bindE (ask (\<lambda>h. e_new_branch env h branch (qc_base_branch cfg))
                                      (EvNewBranch branch (qc_base_branch cfg)))
                               (\<lambda>_. okE (orig, branch, qc_base_branch cfg))
                      })
               (\<lambda>prepared. bindE (ensure_ralphy_ignored env) (\<lambda>_. okE prepared))))
   }"

section \<open>The run\<close>

definition create_undo_tag :: "env \<Rightarrow> string \<Rightarrow> string \<Rightarrow> string option run" where
  "create_undo_tag env stamp compare_ref = do {
     let name = ''ralphy/pre-run-'' @ stamp;
     r \<leftarrow> ask (\<lambda>h. e_tag env h name compare_ref) (EvTag name compare_ref);
     State_Monad.return (case r of Inr _ \<Rightarrow> Some name | Inl _ \<Rightarrow> None)
   }"

text \<open>\<^verbatim>\<open>undo_tag.take()\<close> leaves \<open>None\<close> whether or not the tag could be deleted.\<close>

definition drop_undo_tag :: "env \<Rightarrow> string option \<Rightarrow> string option run" where
  "drop_undo_tag env undo_tag =
     (case undo_tag of
        None \<Rightarrow> State_Monad.return None
      | Some tag \<Rightarrow> do {
          _ \<leftarrow> ask (\<lambda>h. e_delete_tag env h tag) (EvDeleteTag tag);
          State_Monad.return None
        })"

definition close_branch :: "env \<Rightarrow> queue_config \<Rightarrow> string \<Rightarrow> string \<Rightarrow> bool \<Rightarrow> unit run" where
  "close_branch env cfg orig branch clean =
     (case qc_branch_mode cfg of
        CurrentBranch \<Rightarrow> State_Monad.return ()
      | NewBranch \<Rightarrow>
          if qc_dry_run cfg then restore env orig branch (qc_base_branch cfg) (qc_branch_mode cfg)
          else if clean then best_effort (checkout_force env orig)
          else State_Monad.return ())"

text \<open>The loop over the queue: \<open>Inl\<close> is a fatal error, \<open>Inr\<close> the reason the run halted, if any.\<close>

fun queue_loop :: "nat \<Rightarrow> ctx \<Rightarrow> issue list \<Rightarrow> (early + stop_reason option) run" where
  "queue_loop fuel cx [] = okE None"
| "queue_loop fuel cx (i # rest) = do {
     r \<leftarrow> run_issue fuel cx i;
     case r of
       Inr _ \<Rightarrow> queue_loop fuel cx rest
     | Inl Next \<Rightarrow> queue_loop fuel cx rest
     | Inl (Stop reason) \<Rightarrow> okE (Some reason)
     | Inl e \<Rightarrow> errE e
   }"

record queue_report =
  qr_branch :: string
  qr_orig_branch :: string
  qr_worked :: "issue_result list"
  qr_stop :: "stop_reason option"
  qr_commits :: nat
  qr_undo_tag :: "string option"
  qr_oneline :: "string list"
  qr_run_usage :: usage
  qr_run_usage_by_model :: "string \<rightharpoonup> usage"
  qr_invocations :: u64

definition finish_run :: "ctx \<Rightarrow> string \<Rightarrow> string option \<Rightarrow> stop_reason option \<Rightarrow> queue_report run" where
  "finish_run cx compare_ref undo_tag stop = do {
     let span = compare_ref @ ''..'' @ cx_branch cx;
     c \<leftarrow> rev_list_count (cx_env cx) span;
     let commits = (case c of Inr n \<Rightarrow> n | Inl _ \<Rightarrow> 0);
     l \<leftarrow> ask (\<lambda>h. e_log_oneline (cx_env cx) h span) (EvLogOneline span);
     let oneline = (case l of Inr ls \<Rightarrow> ls | Inl _ \<Rightarrow> []);
     undo_tag' \<leftarrow> (if commits = 0 then drop_undo_tag (cx_env cx) undo_tag
                   else State_Monad.return undo_tag);
     close_branch (cx_env cx) (cx_cfg cx) (cx_orig cx) (cx_branch cx) (stop = None);
     s \<leftarrow> State_Monad.get;
     State_Monad.return
       \<lparr>qr_branch = cx_branch cx, qr_orig_branch = cx_orig cx, qr_worked = worked s, qr_stop = stop,
        qr_commits = commits, qr_undo_tag = undo_tag', qr_oneline = oneline,
        qr_run_usage = run_usage s, qr_run_usage_by_model = run_usage_by_model s,
        qr_invocations = invocations s\<rparr>
   }"

definition run_queue_with :: "nat \<Rightarrow> env \<Rightarrow> queue_config \<Rightarrow> issue list \<Rightarrow> (early + queue_report) run" where
  "run_queue_with fuel env cfg queue =
     bindE (map_err Fail (ask (e_ralphy_dir env) EvRalphyDir)) (\<lambda>_. do {
       tell EvEnsureBrief;
       bindE (map_err Fail (prepare_branch env cfg)) (\<lambda>(orig, branch, compare_ref). do {
         undo_tag \<leftarrow> create_undo_tag env (qc_stamp cfg) compare_ref;
         (project, email, name) \<leftarrow> ask (e_identity env) EvIdentity;
         let cx = \<lparr>cx_cfg = cfg, cx_env = env, cx_branch = branch, cx_orig = orig,
                   cx_project = project, cx_actor_email = or_empty email,
                   cx_actor_name = or_empty name\<rparr>;
         bindE (queue_loop fuel cx queue) (\<lambda>stop. do {
           report \<leftarrow> finish_run cx compare_ref undo_tag stop;
           okE report
         })
       })
     })"

definition start_state :: run_state where
  "start_state = \<lparr>hist = [], worked = [], run_usage = usage_default,
     run_usage_by_model = Map.empty, invocations = 0\<rparr>"

definition run_queue :: "nat \<Rightarrow> env \<Rightarrow> queue_config \<Rightarrow> issue list \<Rightarrow> (early + queue_report) \<times> run_state" where
  "run_queue fuel env cfg queue = run_state (run_queue_with fuel env cfg queue) start_state"

end
