(* ===== verification/Run_Discipline.thy ===== *)
theory Run_Discipline
  imports Runner
begin

text \<open>
  What a whole run does to the world, for any relation on states the phases respect.  The locale
  \<open>issue_discipline\<close> lifts the disciplines of the phases to the steps of a dry run,
  \<open>steps_discipline\<close> to every step before the close, and \<open>full_discipline\<close> to a whole run.  A step may end the run with a fatal error
  after putting the repository back, so the lifted judgement \<open>promises P R m\<close> asks \<open>R\<close> of \<open>m\<close> only
  when \<open>m\<close> returns, or ends with an answer that satisfies \<open>P\<close>.
\<close>

definition promises :: "('e \<Rightarrow> bool) \<Rightarrow> ('s \<Rightarrow> 's \<Rightarrow> bool) \<Rightarrow> ('s, 'e + 'a) state \<Rightarrow> bool" where
  "promises P R m \<longleftrightarrow> (\<forall>s. wp m (\<lambda>r s'. (\<forall>e. r = Inl e \<longrightarrow> P e) \<longrightarrow> R s s') s)"

lemma promisesD:
  "promises P R m \<Longrightarrow> run_state m s = (r, s') \<Longrightarrow> (\<And>e. r = Inl e \<Longrightarrow> P e) \<Longrightarrow> R s s'"
  by (auto simp: promises_def dest: spec [of _ s] wp_run)

context state_preorder
begin

lemma promises_within: "within R m \<Longrightarrow> promises P R m"
  unfolding promises_def within_def by (auto elim: wp_mono)

lemma promises_bind:
  assumes "within R m" and "\<And>a. promises P R (f a)"
  shows "promises P R (State_Monad.bind m f)"
  unfolding promises_def wp_bind
proof
  fix s
  have "wp m (\<lambda>_ t. R s t) s" using assms(1) by (simp add: within_def)
  then show "wp m (\<lambda>a. wp (f a) (\<lambda>r u. (\<forall>e. r = Inl e \<longrightarrow> P e) \<longrightarrow> R s u)) s"
  proof (rule wp_mono)
    fix a t assume "R s t"
    moreover have "wp (f a) (\<lambda>r u. (\<forall>e. r = Inl e \<longrightarrow> P e) \<longrightarrow> R t u) t"
      using assms(2) by (simp add: promises_def)
    ultimately show "wp (f a) (\<lambda>r u. (\<forall>e. r = Inl e \<longrightarrow> P e) \<longrightarrow> R s u) t"
      by (auto elim: wp_mono intro: R_trans)
  qed
qed

lemma promises_bindE:
  fixes m :: "('s, 'e + 'a) state" and f :: "'a \<Rightarrow> ('s, 'e + 'b) state"
  assumes "promises P R m" and "\<And>a. promises P R (f a)"
  shows "promises P R (bindE m f)"
  unfolding promises_def wp_bindE
proof
  fix s
  let ?Q = "\<lambda>(r :: 'e + 'b) u. (\<forall>e. r = Inl e \<longrightarrow> P e) \<longrightarrow> R s u"
  have "wp m (\<lambda>r t. (\<forall>e. r = Inl e \<longrightarrow> P e) \<longrightarrow> R s t) s" using assms(1) by (simp add: promises_def)
  then show "wp m (\<lambda>r. case r of Inl e \<Rightarrow> ?Q (Inl e) | Inr a \<Rightarrow> wp (f a) ?Q) s"
  proof (rule wp_mono)
    fix r :: "'e + 'a" and t assume rt: "(\<forall>e. r = Inl e \<longrightarrow> P e) \<longrightarrow> R s t"
    show "(case r of Inl e \<Rightarrow> ?Q (Inl e) | Inr a \<Rightarrow> wp (f a) ?Q) t"
    proof (cases r)
      case (Inl e)
      with rt show ?thesis by simp
    next
      case (Inr a)
      have "wp (f a) (\<lambda>r u. (\<forall>e. r = Inl e \<longrightarrow> P e) \<longrightarrow> R t u) t"
        using assms(2) by (simp add: promises_def)
      with Inr rt show ?thesis by (auto elim: wp_mono intro: R_trans)
    qed
  qed
qed

lemma promises_errE [simp]: "promises P R (errE e)"
  by (simp add: promises_within)

lemma promises_okE [simp]: "promises P R (okE a)"
  by (simp add: promises_within)

lemma promises_if: "promises P R m \<Longrightarrow> promises P R n \<Longrightarrow> promises P R (if b then m else n)"
  by simp

end

section \<open>The steps of the queue loop\<close>

locale issue_discipline = plan_discipline R allowed cx + stop_reader R allowed cx
  for R :: "run_state \<Rightarrow> run_state \<Rightarrow> bool" and allowed and cx +
  fixes P :: "early \<Rightarrow> bool"
  assumes promised: "P Next" "P (Stop reason)" "P OutOfFuel"
    and within_push: "within R (push_worked r)"
    and within_restore: "P (Fail e) \<Longrightarrow>
      within R (restore (cx_env cx) (cx_orig cx) (cx_branch cx) (qc_base_branch (cx_cfg cx))
                  (qc_branch_mode (cx_cfg cx)))"
begin

lemma within_preflight:
  assumes "speaks_for allowed (issue_number i)"
  shows "within R (preflight cx i)"
  by (auto simp: preflight_def intro!: phase_intros within_stop within_push within_emit [OF assms]
      split: option.splits)

lemma within_record_stop:
  assumes "speaks_for allowed n"
  shows "within R (record_stop n)"
  by (auto simp: record_stop_def intro!: phase_intros within_push within_emit [OF assms])

lemma within_limit_stop: "within R (limit_stop n reset)"
  by (auto simp: limit_stop_def intro!: phase_intros within_push)

lemma within_throw: "within R m \<Longrightarrow> within R (throw m)"
  by (auto simp: throw_def intro!: phase_intros)

lemma promises_fail: "promises P R (throw (fail cx e))"
proof (cases "P (Fail e)")
  case True
  then show ?thesis
    by (intro promises_within within_throw) (auto simp: fail_def intro!: phase_intros within_restore)
next
  case False
  have "wp m (\<lambda>_ _. True) s" for m :: "unit run" and s
    by (simp add: wp_def split: prod.splits)
  with False show ?thesis
    by (auto simp: promises_def throw_def fail_def wp_simps elim!: wp_mono)
qed

lemmas promise_intros = promises_bindE promises_bind promises_fail

lemma promises_prepare:
  assumes "speaks_for allowed (issue_number i)"
  shows "promises P R (prepare cx i)"
  using within_prepare_issue [OF assms]
  by (auto simp: prepare_def Let_def intro!: promise_intros within_push
      split: sum.splits prepared.splits)

lemma promises_run_plan:
  assumes "speaks_for allowed (issue_number i)"
  shows "promises P R (run_plan fuel cx i)"
  using within_plan_phase [OF assms] within_record_stop [OF assms]
  by (auto simp: run_plan_def intro!: promise_intros within_stop within_push
      promises_within [OF within_throw [OF within_limit_stop]] split: sum.splits plan_phase.splits)

lemma promises_dry_issue:
  assumes "qc_dry_run (cx_cfg cx)" "\<And>n. speaks_for allowed n"
  shows "promises P R (run_issue fuel cx i)"
  using assms
  by (auto simp: run_issue_def intro!: promise_intros promises_prepare promises_run_plan within_push
      promises_within [OF within_preflight] split: prod.splits)

lemma promises_loop:
  assumes "\<And>i. promises P R (run_issue fuel cx i)"
  shows "promises P R (queue_loop fuel cx q)"
proof (induction q)
  case Nil
  then show ?case by simp
next
  case (Cons i q)
  show ?case
    unfolding promises_def queue_loop.simps wp_bind
  proof
    fix s
    let ?Q = "\<lambda>r u. (\<forall>e. r = Inl e \<longrightarrow> P e) \<longrightarrow> R s u"
    have "wp (run_issue fuel cx i) (\<lambda>r t. (\<forall>e. r = Inl e \<longrightarrow> P e) \<longrightarrow> R s t) s"
      using assms by (simp add: promises_def)
    then show "wp (run_issue fuel cx i) (\<lambda>r. wp (case r of Inr _ \<Rightarrow> queue_loop fuel cx q
         | Inl Next \<Rightarrow> queue_loop fuel cx q
         | Inl (Stop reason) \<Rightarrow> okE (Some reason)
         | Inl e \<Rightarrow> errE e) ?Q) s"
    proof (rule wp_mono)
      fix r t assume rt: "(\<forall>e. r = Inl e \<longrightarrow> P e) \<longrightarrow> R s t"
      have "wp (queue_loop fuel cx q) (\<lambda>r u. (\<forall>e. r = Inl e \<longrightarrow> P e) \<longrightarrow> R t u) t"
        using Cons.IH unfolding promises_def by blast
      then have rest: "R s t \<Longrightarrow> wp (queue_loop fuel cx q) ?Q t"
        by (auto elim!: wp_mono intro: R_trans)
      from rt rest show "wp (case r of Inr _ \<Rightarrow> queue_loop fuel cx q
         | Inl Next \<Rightarrow> queue_loop fuel cx q
         | Inl (Stop reason) \<Rightarrow> okE (Some reason)
         | Inl e \<Rightarrow> errE e) ?Q t"
        by (auto simp: wp_simps promised split: sum.splits early.splits)
    qed
  qed
qed

end

locale steps_discipline =
  issue_discipline R allowed cx P + gate_discipline R allowed cx + execute_discipline R allowed cx
  for R :: "run_state \<Rightarrow> run_state \<Rightarrow> bool" and allowed and cx and P
begin

lemma within_non_green:
  assumes "speaks_for allowed n"
  shows "within R (non_green cx n oc b)"
  by (auto simp: non_green_def non_green_stop_def
      intro!: phase_intros within_stop within_push within_emit [OF assms])

lemma promises_run_execute:
  assumes "speaks_for allowed (issue_number i)"
  shows "promises P R (run_execute fuel cx i p executed)"
  by (auto simp: run_execute_def intro!: promise_intros within_execute_phase phase_intros
      promises_within [OF within_throw [OF within_non_green [OF assms]]]
      split: sum.splits error.splits exec_phase.splits)

lemma within_stop_if_requested:
  assumes "speaks_for allowed n"
  shows "within R (stop_if_requested cx n)"
  by (auto simp: stop_if_requested_def intro!: phase_intros within_stop within_record_stop [OF assms])

lemma within_run_protocol: "within R (run_protocol cx i p)"
  by (auto simp: run_protocol_def intro!: phase_intros within_protocol_gate within_throw
      within_limit_stop split: protocol_gate.splits)

lemma within_run_verify:
  assumes "speaks_for allowed (issue_number i)"
  shows "within R (run_verify cx i p md)"
  by (auto simp: run_verify_def park_for_human_def intro!: phase_intros within_verify_gate
      within_throw within_limit_stop within_push within_emit [OF assms] split: verify_gate.splits)

end

locale full_discipline = steps_discipline +
  assumes within_close: "within R (close_issue cx n b)"
    and speaks: "speaks_for allowed n"
begin

lemma within_close_and_record: "within R (close_and_record cx i p lnt u1 u2 u3)"
  using within_emit [OF speaks]
  by (auto simp: close_and_record_def Let_def intro!: phase_intros within_close within_push
      within_publish_plan_record speaks split: option.splits)

lemma promises_issue: "promises P R (run_issue fuel cx i)"
  by (auto simp: run_issue_def intro!: promise_intros promises_prepare promises_run_plan
      promises_run_execute within_push promises_within [OF within_preflight]
      promises_within [OF within_stop_if_requested] promises_within [OF within_run_protocol]
      promises_within [OF within_run_verify] speaks
      promises_within [OF within_map_err [OF within_close_and_record]] split: prod.splits)

lemmas promises_queue = promises_loop [OF promises_issue]

end

end
