(* ===== verification/Example_Run.thy ===== *)
theory Example_Run
  imports Runner
begin

text \<open>
  A concrete world for the witnesses: an agent that plans one step and reports it done, a tracker
  and a repository that answer every call with success, and a verify command that passes.
\<close>

definition sample_engine :: regex_engine where
  "sample_engine = \<lparr>rx_find = (\<lambda>_ _. None), rx_find_iter = (\<lambda>_ _. []), rx_captures = (\<lambda>_ _. []),
     rx_escape = (\<lambda>s. s)\<rparr>"

definition sample_usage :: usage where
  "sample_usage = \<lparr>u_input = 10, u_output = 2, u_cache_read = 0, u_cache_creation = 0, u_model = Some ''m''\<rparr>"

definition sample_plan :: plan where
  "sample_plan = \<lparr>plan_path = ''plan.md'', plan_open_steps = 1, plan_recommended_model = None,
     plan_usage = sample_usage, plan_session_id = None\<rparr>"

definition sample_execution :: execution where
  "sample_execution = \<lparr>ex_outcome = Done, ex_usage = sample_usage, ex_session_id = Some ''s''\<rparr>"

definition sample_env :: env where
  "sample_env = \<lparr>
     e_rx = sample_engine, e_agent_name = ''agent'', e_version = ''1'',
     e_stop = (\<lambda>_. False), e_deadline = (\<lambda>_. False), e_wait = (\<lambda>_ _. DeadlinePassed),
     e_synthetic = (\<lambda>_. ''later''), e_plan = (\<lambda>_ _. Inr sample_plan),
     e_execute = (\<lambda>_ _. Inr sample_execution), e_is_closed = (\<lambda>_ _. Inr True),
     e_open_children = (\<lambda>_ _. Inr []), e_labels = (\<lambda>_ _. Inr []), e_comments = (\<lambda>_ _. Inr []),
     e_handoff = (\<lambda>_ _. Inr None), e_reference = (\<lambda>_ _. Inr None), e_close = (\<lambda>_ _ _. Inr ()),
     e_comment = (\<lambda>_ _ _. Inr ()), e_add_label = (\<lambda>_ _ _. Inr ()),
     e_evidence = (\<lambda>_ _ _ _. Inr ()), e_head_sha = (\<lambda>_. Inr ''sha''),
     e_checkout_force = (\<lambda>_ _. Inr ()), e_delete_branch = (\<lambda>_ _. Inr ()),
     e_tag = (\<lambda>_ _ _. Inr ()), e_delete_tag = (\<lambda>_ _. Inr ()), e_rev_count = (\<lambda>_ _. Inr 1),
     e_log_oneline = (\<lambda>_ _. Inr []), e_fetch = (\<lambda>_. Inr ()), e_is_clean = (\<lambda>_. Inr True),
     e_current_branch = (\<lambda>_. Inr ''main''), e_commitish = (\<lambda>_ _. True),
     e_new_branch = (\<lambda>_ _ _. Inr ()), e_read_ignore = (\<lambda>_. Inr None),
     e_write_ignore = (\<lambda>_ _. Inr ()), e_spawn = (\<lambda>_ _. Ran (ChildExited (Some 0)) [] 1),
     e_read_plan = (\<lambda>_. Some []), e_stage_issue = (\<lambda>_ _. Inr ()), e_exists = (\<lambda>_ _. False),
     e_write = (\<lambda>_ _ _. Inr ()), e_remove = (\<lambda>_ _. Inr ()), e_knowledge_dir = (\<lambda>_. Inr ()),
     e_today = (\<lambda>_. []), e_now = (\<lambda>_. []), e_cite = (\<lambda>_ _. Inr ()), e_ledger = (\<lambda>_ _. Inr ()),
     e_ralphy_dir = (\<lambda>_. Inr ()), e_identity = (\<lambda>_. (''p'', None, None))\<rparr>"

definition sample_cfg :: queue_config where
  "sample_cfg = \<lparr>qc_repo_root = ''/r'', qc_base_branch = ''main'', qc_dry_run = False, qc_stamp = ''t'',
     qc_branch_mode = NewBranch, qc_forced_issues = [], qc_human_return_labels = [],
     qc_stop_on_limit_plan = False, qc_stop_on_limit_exec = False,
     qc_verify_fallback = Some [[''true'']], qc_verify_timeout = 60, qc_require_verify_gate = False,
     qc_done_signal = ''DONE''\<rparr>"

definition sample_issue :: "issue_no \<Rightarrow> issue" where
  "sample_issue n = \<lparr>issue_number = n, issue_title = [], issue_body = [], issue_labels = [],
     issue_comments = []\<rparr>"

section \<open>Evaluating a run\<close>

text \<open>
  A run is evaluated forwards by the rules of \<open>wp\<close>: the congruence rule keeps the simplifier out of
  the continuation until the computation before it has an answer.
\<close>

lemma wp_weak_cong: "m = m' \<Longrightarrow> s = s' \<Longrightarrow> wp m Q s = wp m' Q s'"
  by simp

lemma spawn_call_eval:
  "spawn_call cx argv s =
     (e_spawn (cx_env cx) (hist s) argv, push_event (EvSpawn argv (e_spawn (cx_env cx) (hist s) argv)) s)"
  by (simp add: spawn_call_def ask_def Let_def)

lemmas wp_repairs = arg_cong [OF run_with_repairs_from.simps, of "\<lambda>m. wp m Q" for Q]

lemmas step_eval = wp_simps Let_def call_defs throw_def run_queue_with_def prepare_branch_def
  ensure_ralphy_ignored_def create_undo_tag_def run_issue_def preflight_def prepare_def
  prepare_issue_def attach_comments_def open_blockers_def write_issue_json_def write_handoffs_def
  write_references_def run_plan_def plan_phase_def emit_plan_written_def record_phase_def
  finish_run_def drop_undo_tag_def close_branch_def restore_def checkout_force_def
  rev_list_count_def refresh_file_def run_execute_def execute_phase_def exec_acc_start_def
  execute_once_def head_sha_def resume_target_def stop_if_requested_def run_protocol_def
  protocol_gate_def protocol_bounce_def write_protocol_failure_def clear_protocol_failure_def
  clear_verify_failure_def clear_file_def record_phase_if_used_def run_verify_def verify_gate_def
  run_with_repairs_def wp_repairs run_commands_def run_def run_one_def spawn_call_eval
  post_verify_artifact_def close_and_record_def close_issue_def publish_plan_record_def
  record_knowledge_def record_stop_def

lemmas pure_eval = first_stop_before_def is_stop_before_def human_return_label_def
  STOP_BEFORE_LABEL_def parse_blocked_by_all_def parse_blocked_by_def section_after_heading_def
  find_consolidated_spec_def referenced_issues_def parse_parent_def parse_body_refs_def
  captured_numbers_def is_match_def render_handoffs_file_def render_references_file_def
  is_feasible_def or_empty_def parse_plan_steps_def lint_def pr_passed_def resolve_verify_def
  parse_verify_def verify_lines_def co_passed_def vr_spawn_failed_def first_failure_def
  fold_usage_def add_tokens_def usage_default_def total_def keep_session_def parse_ledger_def
  review_only_count_def close_report_def knowledge_note_def knowledge_used_def plan_section_def
  repairs_default_def

lemmas world_eval = sample_env_def sample_cfg_def sample_issue_def sample_engine_def sample_plan_def sample_usage_def
  sample_execution_def

text \<open>The stopped world: the operator asked the run to stop before it started.\<close>

definition stopped_env :: env where
  "stopped_env = sample_env\<lparr>e_stop := \<lambda>_. True\<rparr>"

lemma stopped_run:
  "\<exists>rep s'. run_queue 1 stopped_env sample_cfg [sample_issue 7] = (Inr rep, s') \<and>
     qr_stop rep = Some (SrStopped None)"
proof -
  have "wp (run_queue_with 1 stopped_env sample_cfg [sample_issue 7])
      (\<lambda>r _. \<exists>rep. r = Inr rep \<and> qr_stop rep = Some (SrStopped None)) start_state"
    by (simp add: stopped_env_def step_eval world_eval pure_eval cong: wp_weak_cong)
  then show ?thesis by (auto simp: wp_def run_queue_def split: prod.splits)
qed

text \<open>The sample run returns a report; its only issue is closed on a green gate.\<close>

lemma sample_dry_run:
  "\<exists>rep s'. run_queue 1 sample_env (sample_cfg\<lparr>qc_dry_run := True\<rparr>) [sample_issue 7] = (Inr rep, s')"
proof -
  have "wp (run_queue_with 1 sample_env (sample_cfg\<lparr>qc_dry_run := True\<rparr>) [sample_issue 7])
      (\<lambda>r _. \<exists>rep. r = Inr rep) start_state"
    by (simp add: step_eval world_eval pure_eval cong: wp_weak_cong)
  then show ?thesis by (auto simp: wp_def run_queue_def split: prod.splits)
qed

end
