(* ===== verification/Runner_Props.thy ===== *)
theory Runner_Props
  imports Run_Discipline Example_Run
begin

text \<open>
  Properties of a whole run that follow from the disciplines of its steps: the ledger totals, the
  branches a run may touch, and what a dry run may do.
\<close>

section \<open>From the queue loop to the run\<close>

text \<open>The context a run works its queue in, once the branch is prepared.\<close>

definition run_ctx :: "env \<Rightarrow> queue_config \<Rightarrow> string \<Rightarrow> string \<Rightarrow> string \<times> string option \<times> string option \<Rightarrow> ctx" where
  "run_ctx env cfg orig branch ident =
     \<lparr>cx_cfg = cfg, cx_env = env, cx_branch = branch, cx_orig = orig, cx_project = fst ident,
      cx_actor_email = or_empty (fst (snd ident)), cx_actor_name = or_empty (snd (snd ident))\<rparr>"

lemma run_ctx_simps [simp]:
  "cx_cfg (run_ctx env cfg orig branch ident) = cfg"
  "cx_env (run_ctx env cfg orig branch ident) = env"
  "cx_branch (run_ctx env cfg orig branch ident) = branch"
  "cx_orig (run_ctx env cfg orig branch ident) = orig"
  by (simp_all add: run_ctx_def)

text \<open>The part of a run before the queue loop.\<close>

definition open_run :: "env \<Rightarrow> queue_config \<Rightarrow> (early + (ctx \<times> string \<times> string option)) run" where
  "open_run env cfg =
     bindE (map_err Fail (ask (e_ralphy_dir env) EvRalphyDir)) (\<lambda>_. do {
       tell EvEnsureBrief;
       bindE (map_err Fail (prepare_branch env cfg)) (\<lambda>(orig, branch, compare_ref). do {
         undo_tag \<leftarrow> create_undo_tag env (qc_stamp cfg) compare_ref;
         ident \<leftarrow> ask (e_identity env) EvIdentity;
         okE (run_ctx env cfg orig branch ident, compare_ref, undo_tag)
       })
     })"

lemma wp_run_queue_with:
  "wp (run_queue_with fuel env cfg queue) Q =
     wp (open_run env cfg) (\<lambda>r. case r of
       Inl e \<Rightarrow> Q (Inl e)
     | Inr (cx, compare_ref, undo_tag) \<Rightarrow>
         wp (queue_loop fuel cx queue) (\<lambda>r. case r of
           Inl e \<Rightarrow> Q (Inl e)
         | Inr stop \<Rightarrow> wp (finish_run cx compare_ref undo_tag stop) (\<lambda>rep. Q (Inr rep))))"
  unfolding run_queue_with_def open_run_def
  by (simp add: wp_simps run_ctx_def Let_def split_def cong: sum.case_cong)

text \<open>Only the history grows, and only by events of a kind.\<close>

definition extends :: "(event \<Rightarrow> bool) \<Rightarrow> run_state \<Rightarrow> run_state \<Rightarrow> bool" where
  "extends P s s' \<longleftrightarrow> (\<exists>es. s' = s\<lparr>hist := hist s @ es\<rparr> \<and> list_all P es)"

lemma extends_discipline:
  assumes "\<And>e. quiet e \<Longrightarrow> P e"
  shows "run_discipline (extends P) P"
proof
  fix s t u :: run_state and e
  show "extends P s s" by (auto simp: extends_def intro!: exI [of _ "[]"])
  show "extends P s t \<Longrightarrow> extends P t u \<Longrightarrow> extends P s u"
    by (auto simp: extends_def)
  show "quiet e \<Longrightarrow> P e" by (rule assms)
  show "P e \<Longrightarrow> extends P s (push_event e s)"
    by (auto simp: extends_def push_event_def intro!: exI [of _ "[e]"])
qed

lemma extends_simps:
  assumes "extends P s s'"
  shows "worked s' = worked s" "run_usage s' = run_usage s"
    "run_usage_by_model s' = run_usage_by_model s" "invocations s' = invocations s" "adds P s s'"
  using assms by (auto simp: extends_def adds_def)

text \<open>The only active event before the queue loop is the creation of the run branch.\<close>

fun opens_run :: "branch_mode \<Rightarrow> event \<Rightarrow> bool" where
  "opens_run m (EvNewBranch _ _ _) = (m = NewBranch)"
| "opens_run m e = quiet e"

lemma opens_run_quiet: "quiet e \<Longrightarrow> opens_run m e"
  by (cases e) auto

context run_discipline
begin

lemma within_ensure_ralphy_ignored: "within R (ensure_ralphy_ignored env)"
  by (auto simp: ensure_ralphy_ignored_def Let_def intro!: phase_intros)

lemma within_prepare_branch:
  assumes "\<And>b base r. qc_branch_mode cfg = NewBranch \<Longrightarrow> allowed (EvNewBranch b base r)"
  shows "within R (prepare_branch env cfg)"
  using assms
  by (auto simp: prepare_branch_def Let_def
      intro!: phase_intros within_ensure_ralphy_ignored within_ask split: branch_mode.splits
      simp: quiet_allowed)

lemma within_open_run:
  assumes "\<And>b base r. qc_branch_mode cfg = NewBranch \<Longrightarrow> allowed (EvNewBranch b base r)"
  shows "within R (open_run env cfg)"
  using within_prepare_branch [OF assms]
  by (auto simp: open_run_def create_undo_tag_def Let_def intro!: phase_intros split: prod.splits)

lemma within_finish_run:
  assumes "within R (close_branch (cx_env cx) (cx_cfg cx) (cx_orig cx) (cx_branch cx) (stop = None))"
  shows "within R (finish_run cx compare_ref undo_tag stop)"
proof -
  have "within R State_Monad.get" by (simp add: within_def wp_simps R_refl)
  with assms show ?thesis
    by (auto simp: finish_run_def rev_list_count_def drop_undo_tag_def Let_def intro!: phase_intros
        split: option.splits)
qed

end

lemma open_run_extends: "wp (open_run env cfg) (\<lambda>_. extends (opens_run (qc_branch_mode cfg)) s) s"
proof -
  have "within (extends (opens_run (qc_branch_mode cfg))) (open_run env cfg)"
    by (rule run_discipline.within_open_run [OF extends_discipline]) (simp_all add: opens_run_quiet)
  then show ?thesis by (simp add: within_def)
qed

lemma open_run_ctx:
  "wp (open_run env cfg) (\<lambda>r _. \<forall>cx cref ut. r = Inr (cx, cref, ut) \<longrightarrow> cx_cfg cx = cfg \<and> cx_env cx = env) s"
  unfolding open_run_def wp_simps
  by (auto simp: wp_simps split: sum.splits prod.splits intro!: wp_mono [OF wp_True])

lemmas open_run_effect = wp_conj [OF open_run_extends open_run_ctx]

text \<open>A run fails while it opens, fails in its queue loop, or is torn down.\<close>

lemma run_queue_cases:
  assumes "run_queue fuel env cfg queue = (r, s')"
  obtains (opening_failed) e where "r = Inl (Fail e)"
      "extends (opens_run (qc_branch_mode cfg)) start_state s'"
    | (loop_failed) cx s1 e where "r = Inl e" "cx_cfg cx = cfg" "cx_env cx = env"
      "extends (opens_run (qc_branch_mode cfg)) start_state s1"
      "run_state (queue_loop fuel cx queue) s1 = (Inl e, s')"
    | (finished) cx cref ut s1 stop s2 rep where "r = Inr rep" "cx_cfg cx = cfg" "cx_env cx = env"
      "extends (opens_run (qc_branch_mode cfg)) start_state s1"
      "run_state (queue_loop fuel cx queue) s1 = (Inr stop, s2)"
      "run_state (finish_run cx cref ut stop) s2 = (rep, s')"
proof -
  have fails: "wp (open_run env cfg) (\<lambda>r _. \<forall>x. r = Inl x \<longrightarrow> (\<exists>e. x = Fail e)) start_state"
    unfolding open_run_def wp_simps
    by (auto simp: wp_simps split: sum.splits prod.splits intro!: wp_mono [OF wp_True])
  obtain r0 s1 where o: "run_state (open_run env cfg) start_state = (r0, s1)" by fastforce
  note open_facts = wp_run [OF open_run_effect o] wp_run [OF fails o]
  have "wp (run_queue_with fuel env cfg queue) (\<lambda>r1 t. r1 = r \<and> t = s') start_state"
    using assms by (simp add: wp_def run_queue_def)
  note run = this [unfolded wp_run_queue_with, unfolded wp_def [of "open_run env cfg"] o, simplified]
  show thesis
  proof (cases r0)
    case (Inl x)
    with run open_facts show thesis by (auto intro: opening_failed)
  next
    case (Inr a)
    then obtain cx cref ut where r0: "r0 = Inr (cx, cref, ut)" by (cases a) auto
    obtain r1 s2 where l: "run_state (queue_loop fuel cx queue) s1 = (r1, s2)" by fastforce
    show thesis
    proof (cases r1)
      case (Inl x)
      with run open_facts r0 l show thesis by (intro loop_failed) (auto simp: wp_def)
    next
      case (Inr stop)
      obtain rep t where "run_state (finish_run cx cref ut stop) s2 = (rep, t)" by fastforce
      with run open_facts r0 l Inr show thesis by (intro finished) (auto simp: wp_def)
    qed
  qed
qed

section \<open>The ledger\<close>

definition keeps_ledger :: "run_state \<Rightarrow> run_state \<Rightarrow> bool" where
  "keeps_ledger s s' \<longleftrightarrow> ledger_inv s \<longrightarrow> ledger_inv s'"

context run_discipline
begin

lemma within_restore_allowed:
  assumes "\<And>b r. allowed (EvCheckoutForce b r)" "\<And>b r. allowed (EvDeleteBranch b r)"
  shows "within R (restore env orig branch base mode)"
  using assms
  by (auto simp: restore_def checkout_force_def rev_list_count_def quiet_allowed
      intro!: phase_intros within_ask split: sum.splits)

lemma within_close_branch_allowed:
  assumes "\<And>b r. allowed (EvCheckoutForce b r)" "\<And>b r. allowed (EvDeleteBranch b r)"
  shows "within R (close_branch env cfg orig branch clean)"
  using within_restore_allowed [OF assms] assms
  by (auto simp: close_branch_def checkout_force_def intro!: phase_intros within_ask
      split: branch_mode.splits)

end

interpretation ledger_keeper: run_discipline keeps_ledger "\<lambda>e. recorded_phase e = []"
  by unfold_locales (auto simp: keeps_ledger_def recorded_phase_passive ledger_inv_event)

interpretation ledger_run: full_discipline keeps_ledger "\<lambda>e. recorded_phase e = []" cx "\<lambda>_. True" for cx
proof unfold_locales
  show "within keeps_ledger (record_phase c n ph oc u sid)" for c n ph oc u sid
    by (simp add: within_def keeps_ledger_def wp_imp record_phase_inv)
  show "within keeps_ledger (wait_for_reset cx t)" for t
    by (simp add: wait_for_reset_def ledger_keeper.within_ask)
  show "within keeps_ledger (push_worked r)" for r
    by (simp add: within_def wp_simps keeps_ledger_def ledger_inv_def)
  show "within keeps_ledger (restore (cx_env cx) (cx_orig cx) (cx_branch cx)
      (qc_base_branch (cx_cfg cx)) (qc_branch_mode (cx_cfg cx)))"
    by (rule ledger_keeper.within_restore_allowed) simp_all
  show "within keeps_ledger (close_issue cx n b)" for n b
    by (simp add: close_issue_def ledger_keeper.within_ask)
  show "within keeps_ledger (stop_requested cx)"
    by (simp add: stop_requested_def ledger_keeper.within_ask)
qed simp_all

lemma ledger_inv_start: "ledger_inv start_state"
  by (simp add: ledger_inv_def start_state_def phases_of_model_def fun_eq_iff)

lemma ledger_inv_opened:
  assumes "extends (opens_run m) start_state s"
  shows "ledger_inv s"
proof -
  from assms obtain es where es: "s = start_state\<lparr>hist := es\<rparr>" "list_all (opens_run m) es"
    by (auto simp: extends_def start_state_def)
  have "opens_run m e \<Longrightarrow> recorded_phase e = []" for e by (cases e) auto
  then have "list_all (opens_run m) es \<Longrightarrow> recorded_phases es = []" by (induction es) auto
  with es show ?thesis using ledger_inv_start by (simp add: ledger_inv_def start_state_def)
qed

lemma finish_run_report:
  "wp (finish_run cx cref ut stop) (\<lambda>rep s'. qr_worked rep = worked s' \<and> qr_stop rep = stop \<and>
     qr_run_usage rep = run_usage s' \<and> qr_run_usage_by_model rep = run_usage_by_model s' \<and>
     qr_invocations rep = invocations s') s"
  by (auto simp: finish_run_def wp_simps Let_def intro!: wp_mono [OF wp_True])

lemma ledger_inv_run:
  assumes "run_queue fuel env cfg queue = (r, s')"
  shows "ledger_inv s'"
  using assms
proof (cases rule: run_queue_cases)
  case (opening_failed e)
  then show ?thesis by (auto intro: ledger_inv_opened)
next
  case (loop_failed cx s1 e)
  then show ?thesis
    using promisesD [OF ledger_run.promises_queue] ledger_inv_opened by (auto simp: keeps_ledger_def)
next
  case (finished cx cref ut s1 stop s2 rep)
  have "ledger_inv s2"
    using promisesD [OF ledger_run.promises_queue finished(5)] ledger_inv_opened [OF finished(4)]
    by (auto simp: keeps_ledger_def)
  have "within keeps_ledger (finish_run cx cref ut stop)"
    by (rule ledger_keeper.within_finish_run) (simp add: ledger_keeper.within_close_branch_allowed)
  from withinD [OF this finished(6)] \<open>ledger_inv s2\<close> show ?thesis by (simp add: keeps_ledger_def)
qed

text \<open>
  C1. The token totals a finished run reports are exactly the word sums over the phases it recorded: the
  run total over all of them, a model's entry over the phases of that model (a model without a phase has
  no entry), and the number of invocations is their number.  Each recorded phase was offered to the usage
  ledger once; the lines the ledger took are those phases exactly when no append failed, and otherwise
  there are fewer of them, by the number of failed appends.
\<close>

theorem run_totals_match_ledger:
  assumes "run_queue fuel env cfg queue = (Inr rep, s')"
  defines "ls \<equiv> recorded_phases (hist s')"
  shows "qr_run_usage rep = foldl add_tokens usage_default ls \<and>
         total (qr_run_usage rep) = sum_list (map total ls) \<and>
         (\<forall>k. qr_run_usage_by_model rep k =
            (if phases_of_model k ls = [] then None
             else Some (foldl add_tokens usage_default (phases_of_model k ls)))) \<and>
         qr_invocations rep = of_nat (length ls) \<and>
         (appended_lines (hist s') = ls \<longleftrightarrow> \<not> list_ex append_failed (hist s')) \<and>
         length (appended_lines (hist s')) + length (filter append_failed (hist s')) = length ls"
proof -
  from assms(1) obtain cx cref ut stop s2 where "run_state (finish_run cx cref ut stop) s2 = (rep, s')"
    by (cases rule: run_queue_cases) auto
  from wp_run [OF finish_run_report this] ledger_inv_run [OF assms(1)] show ?thesis
    by (simp add: ledger_inv_def ls_def Let_def total_foldl_add_tokens appended_iff appended_count)
qed

theorem run_totals_match_ledger_witness:
  "\<exists>rep s'. run_queue 1 sample_env (sample_cfg\<lparr>qc_dry_run := True\<rparr>) [sample_issue 7] = (Inr rep, s') \<and>
     total (qr_run_usage rep) = sum_list (map total (recorded_phases (hist s')))"
  using sample_dry_run run_totals_match_ledger by blast

section \<open>Branches\<close>

fun moves_branch :: "event \<Rightarrow> bool" where
  "moves_branch (EvCheckoutForce _ _) = True"
| "moves_branch (EvDeleteBranch _ _) = True"
| "moves_branch (EvNewBranch _ _ _) = True"
| "moves_branch _ = False"

fun returns_branch :: "event \<Rightarrow> bool" where
  "returns_branch (EvCheckoutForce _ _) = True"
| "returns_branch (EvDeleteBranch _ _) = True"
| "returns_branch _ = False"

lemma branch_events_active:
  "\<not> active e \<Longrightarrow> \<not> moves_branch e" "\<not> active e \<Longrightarrow> \<not> returns_branch e"
  "opens_run m e \<Longrightarrow> \<not> returns_branch e" "opens_run CurrentBranch e \<Longrightarrow> \<not> moves_branch e"
  by (cases e; simp)+

lemma adds_run_discipline: "(\<And>e. quiet e \<Longrightarrow> P e) \<Longrightarrow> run_discipline (adds P) P"
  by unfold_locales (auto intro: adds_trans)

text \<open>
  A predicate on events is a discipline of the whole run when it holds of every event but the
  returns to the original branch, and of those where the run promises it.
\<close>

lemma adds_full_discipline:
  assumes "\<And>e. \<not> moves_branch e \<Longrightarrow> P e"
    and "\<And>e. p (Fail e) \<Longrightarrow> qc_branch_mode (cx_cfg cx) = CurrentBranch"
    and "p Next" "\<And>r. p (Stop r)" "p OutOfFuel"
  shows "full_discipline (adds P) P cx p"
proof -
  have free: "quiet e \<Longrightarrow> P e" for e using assms(1) branch_events_active(1) quiet_not_active by blast
  show ?thesis
  proof unfold_locales
    show "quiet e \<Longrightarrow> P e" for e by (rule free)
    show "within (adds P) (record_phase c n ph oc u sid)" for c n ph oc u sid
      by (rule record_phase_adds) (simp_all add: free assms(1))
    show "within (adds P) (wait_for_reset cx t)" for t
      by (simp add: within_def wait_for_reset_def wp_simps assms(1))
    show "within (adds P) (push_worked r)" for r
      by (simp add: within_def wp_simps adds_def)
    show "p (Fail e) \<Longrightarrow> within (adds P) (restore (cx_env cx) (cx_orig cx) (cx_branch cx)
        (qc_base_branch (cx_cfg cx)) (qc_branch_mode (cx_cfg cx)))" for e
      using assms(2) by (simp add: restore_def within_def wp_simps)
    show "within (adds P) (close_issue cx n b)" for n b
      by (simp add: within_def close_issue_def wp_simps assms(1))
    show "within (adds P) (stop_requested cx)"
      by (simp add: within_def stop_requested_def wp_simps assms(1))
  qed (use assms in \<open>auto intro: adds_trans\<close>)
qed

lemma adds_start: "adds P start_state s \<Longrightarrow> list_all P (hist s)"
  by (auto simp: adds_def start_state_def)

lemma adds_weaken: "adds P s t \<Longrightarrow> (\<And>e. P e \<Longrightarrow> Q e) \<Longrightarrow> adds Q s t"
  by (auto simp: adds_def list_all_iff)

lemma extends_adds: "extends P s t \<Longrightarrow> (\<And>e. P e \<Longrightarrow> Q e) \<Longrightarrow> adds Q s t"
  by (blast intro: extends_simps(5) adds_weaken)

text \<open>
  C8. A run in \<^verbatim>\<open>Current\<close> mode never checks a branch out, never creates one and never deletes one,
  whatever the agent, the tracker and the repository answer and however the run ends.
\<close>

theorem current_mode_never_moves:
  assumes "qc_branch_mode cfg = CurrentBranch" "run_queue fuel env cfg queue = (r, s')"
  shows "list_all (\<lambda>e. \<not> moves_branch e) (hist s')"
proof -
  let ?P = "\<lambda>e. \<not> moves_branch e"
  have loop: "adds ?P s1 s2"
    if "cx_cfg cx = cfg" "run_state (queue_loop fuel cx queue) s1 = (x, s2)" for cx s1 s2 x
    using promisesD [OF full_discipline.promises_queue [OF adds_full_discipline [of ?P "\<lambda>_. True" cx]]]
      that assms(1) by auto
  have opened: "extends (opens_run CurrentBranch) start_state s1 \<Longrightarrow> adds ?P start_state s1" for s1
    by (erule extends_adds) (rule branch_events_active(4))
  have finish: "within (adds ?P) (finish_run cx cref ut stop)" if "cx_cfg cx = cfg" for cx cref ut stop
    using that assms(1)
    by (intro run_discipline.within_finish_run [OF adds_run_discipline])
      (auto simp: branch_events_active close_branch_def within_def wp_simps dest!: quiet_not_active dest: branch_events_active(1))
  from assms(2) have "adds ?P start_state s'"
  proof (cases rule: run_queue_cases)
    case (opening_failed e)
    with assms opened show ?thesis by auto
  next
    case (loop_failed cx s1 e)
    with assms opened loop show ?thesis by (metis adds_trans)
  next
    case (finished cx cref ut s1 stop s2 rep)
    with assms opened loop finish show ?thesis by (metis adds_trans withinD)
  qed
  then show ?thesis by (rule adds_start)
qed

theorem current_mode_never_moves_witness:
  "list_all (\<lambda>e. \<not> moves_branch e)
     (hist (snd (run_queue 1 sample_env (sample_cfg\<lparr>qc_branch_mode := CurrentBranch\<rparr>) [sample_issue 7])))"
  by (rule current_mode_never_moves
        [of "sample_cfg\<lparr>qc_branch_mode := CurrentBranch\<rparr>" 1 sample_env "[sample_issue 7]"
         "fst (run_queue 1 sample_env (sample_cfg\<lparr>qc_branch_mode := CurrentBranch\<rparr>) [sample_issue 7])"])
    simp_all

text \<open>
  C2. A run that does real work and stops for a reason hands the branch back untouched: it never
  force-checks-out the original branch and never deletes the run branch, so no work in flight is
  discarded.
\<close>

theorem stopped_run_keeps_branch:
  assumes "\<not> qc_dry_run cfg" "run_queue fuel env cfg queue = (Inr rep, s')" "qr_stop rep \<noteq> None"
  shows "list_all (\<lambda>e. \<not> returns_branch e) (hist s')"
proof -
  let ?P = "\<lambda>e. \<not> returns_branch e"
  let ?p = "\<lambda>x. \<forall>e. x \<noteq> Fail e"
  from assms(2) obtain cx cref ut s1 stop s2 where
    st: "cx_cfg cx = cfg" "extends (opens_run (qc_branch_mode cfg)) start_state s1"
      "run_state (queue_loop fuel cx queue) s1 = (Inr stop, s2)"
      "run_state (finish_run cx cref ut stop) s2 = (rep, s')"
    by (cases rule: run_queue_cases) auto
  have "adds ?P start_state s1" by (rule extends_adds [OF st(2)]) (rule branch_events_active(3))
  moreover have "full_discipline (adds ?P) ?P cx ?p"
    by (rule adds_full_discipline) (auto elim: returns_branch.elims)
  then have "adds ?P s1 s2"
    using promisesD [OF full_discipline.promises_queue st(3)] by blast
  moreover have "stop \<noteq> None" using wp_run [OF finish_run_report st(4)] assms(3) by simp
  then have "within (adds ?P) (finish_run cx cref ut stop)"
    using st(1) assms(1)
    by (intro run_discipline.within_finish_run [OF adds_run_discipline])
      (auto simp: branch_events_active close_branch_def within_def wp_simps split: branch_mode.splits)
  then have "adds ?P s2 s'" using st(4) by (rule withinD)
  ultimately show ?thesis by (metis adds_start adds_trans)
qed

theorem stopped_run_keeps_branch_witness:
  "\<exists>rep s'. run_queue 1 stopped_env sample_cfg [sample_issue 7] = (Inr rep, s') \<and>
     qr_stop rep \<noteq> None \<and> list_all (\<lambda>e. \<not> returns_branch e) (hist s')"
proof -
  obtain rep s' where run: "run_queue 1 stopped_env sample_cfg [sample_issue 7] = (Inr rep, s')"
      "qr_stop rep = Some (SrStopped None)"
    using stopped_run by blast
  moreover have "\<not> qc_dry_run sample_cfg" by (simp add: sample_cfg_def)
  ultimately show ?thesis using stopped_run_keeps_branch by fastforce
qed

section \<open>Dry runs\<close>

fun works :: "event \<Rightarrow> bool" where
  "works (EvExecute _ _) = True"
| "works (EvSpawn _ _) = True"
| "works (EvClose _ _ _) = True"
| "works _ = False"

lemma works_active: "\<not> active e \<Longrightarrow> \<not> works e" "opens_run m e \<Longrightarrow> \<not> works e"
  by (cases e; simp)+

lemma idle_discipline: "run_discipline (adds (\<lambda>e. \<not> works e)) (\<lambda>e. \<not> works e)"
  by (rule adds_run_discipline) (rule works_active(1) [OF quiet_not_active])

lemma dry_discipline: "issue_discipline (adds (\<lambda>e. \<not> works e)) (\<lambda>e. \<not> works e) cx (\<lambda>_. True)"
proof unfold_locales
  let ?P = "\<lambda>e. \<not> works e"
  show "within (adds ?P) (record_phase c n ph oc u sid)" for c n ph oc u sid
    by (rule record_phase_adds) (simp_all add: works_active)
  show "within (adds ?P) (wait_for_reset cx t)" for t
    by (simp add: within_def wait_for_reset_def wp_simps)
  show "within (adds ?P) (push_worked r)" for r
    by (simp add: within_def wp_simps adds_def)
  show "within (adds ?P) (restore (cx_env cx) (cx_orig cx) (cx_branch cx)
      (qc_base_branch (cx_cfg cx)) (qc_branch_mode (cx_cfg cx)))"
    by (rule run_discipline.within_restore_allowed [OF idle_discipline]) simp_all
  show "within (adds ?P) (stop_requested cx)"
    by (simp add: within_def stop_requested_def wp_simps)
qed (auto intro: adds_trans dest: works_active(1) [OF quiet_not_active])

text \<open>
  C7. A dry run never starts an execute session, never runs a verify command and never closes an
  issue, however it ends.
\<close>

theorem dry_run_only_plans:
  assumes "qc_dry_run cfg" "run_queue fuel env cfg queue = (r, s')"
  shows "list_all (\<lambda>e. \<not> works e) (hist s')"
proof -
  let ?P = "\<lambda>e. \<not> works e"
  have loop: "adds ?P s1 s2"
    if "cx_cfg cx = cfg" "run_state (queue_loop fuel cx queue) s1 = (x, s2)" for cx s1 s2 x
    using promisesD [OF issue_discipline.promises_loop [OF dry_discipline
          issue_discipline.promises_dry_issue [OF dry_discipline]] that(2)] that(1) assms(1)
    by auto
  have opened: "extends (opens_run m) start_state s1 \<Longrightarrow> adds ?P start_state s1" for s1 m
    by (erule extends_adds) (rule works_active(2))
  have finish: "within (adds ?P) (finish_run cx cref ut stop)" for cx cref ut stop
    by (intro run_discipline.within_finish_run [OF idle_discipline]
        run_discipline.within_close_branch_allowed [OF idle_discipline]) simp_all
  from assms(2) have "adds ?P start_state s'"
  proof (cases rule: run_queue_cases)
    case (opening_failed e)
    with opened show ?thesis by auto
  next
    case (loop_failed cx s1 e)
    with opened loop show ?thesis by (metis adds_trans)
  next
    case (finished cx cref ut s1 stop s2 rep)
    with opened loop finish show ?thesis by (metis adds_trans withinD)
  qed
  then show ?thesis by (rule adds_start)
qed

theorem dry_run_only_plans_witness:
  "list_all (\<lambda>e. \<not> works e)
     (hist (snd (run_queue 1 sample_env (sample_cfg\<lparr>qc_dry_run := True\<rparr>) [sample_issue 7])))"
  by (rule dry_run_only_plans
        [of "sample_cfg\<lparr>qc_dry_run := True\<rparr>" 1 sample_env "[sample_issue 7]"
         "fst (run_queue 1 sample_env (sample_cfg\<lparr>qc_dry_run := True\<rparr>) [sample_issue 7])"])
    simp_all

section \<open>Termination\<close>

text \<open>A step that keeps the budget of waits and does not run out of fuel.\<close>

definition ends_within :: "nat \<Rightarrow> (early + 'a) run \<Rightarrow> bool" where
  "ends_within k m \<longleftrightarrow> (\<forall>s. resumes (hist s) \<le> k \<longrightarrow>
     wp m (\<lambda>r s'. r \<noteq> Inl OutOfFuel \<and> resumes (hist s') \<le> k) s)"

lemma ends_within_bindE:
  assumes "ends_within k m" "\<And>a. ends_within k (f a)"
  shows "ends_within k (bindE m f)"
  unfolding ends_within_def wp_bindE
proof (intro allI impI)
  fix s :: run_state assume "resumes (hist s) \<le> k"
  with assms(1) have "wp m (\<lambda>r s'. r \<noteq> Inl OutOfFuel \<and> resumes (hist s') \<le> k) s"
    by (simp add: ends_within_def)
  then show "wp m (\<lambda>r. case r of Inl e \<Rightarrow> (\<lambda>s'. Inl e \<noteq> Inl OutOfFuel \<and> resumes (hist s') \<le> k)
       | Inr a \<Rightarrow> wp (f a) (\<lambda>r s'. r \<noteq> Inl OutOfFuel \<and> resumes (hist s') \<le> k)) s"
    by (rule wp_mono) (use assms(2) in \<open>auto simp: ends_within_def split: sum.splits\<close>)
qed

lemma budget_full_discipline:
  assumes "resumes_at_most k (cx_env cx)"
  shows "full_discipline (keeps_budget k) no_wait cx (\<lambda>_. True)"
proof -
  have d: "execute_discipline (keeps_budget k) no_wait cx"
    by (rule budget_discipline [OF assms])
  then have r: "run_discipline (keeps_budget k) no_wait"
    by (simp add: execute_discipline_def stop_reader_def)
  have "within (keeps_budget k) (push_worked x)" for x
    by (simp add: within_def wp_simps keeps_budget_def)
  moreover have "within (keeps_budget k) (restore env orig b base mode)" for env orig b base mode
    by (rule run_discipline.within_restore_allowed [OF r]) simp_all
  moreover have "within (keeps_budget k) (close_issue cx n b)" for n b
    by (simp add: within_def close_issue_def wp_simps keeps_budget_def)
  ultimately show ?thesis
    using d by (simp add: full_discipline_def steps_discipline_def issue_discipline_def full_discipline_axioms_def
      issue_discipline_axioms_def gate_discipline_def gate_discipline_axioms_def execute_discipline_def
      session_discipline_def)
qed

text \<open>A step within the budget whose answers never include \<open>OutOfFuel\<close> ends.\<close>

lemma ends_within_step:
  assumes "promises (\<lambda>_. True) (keeps_budget k) m" "\<And>s. resumes (hist s) \<le> k \<Longrightarrow> wp m (\<lambda>r _. r \<noteq> Inl OutOfFuel) s"
  shows "ends_within k m"
  unfolding ends_within_def
proof (intro allI impI wp_conj)
  fix s :: run_state assume "resumes (hist s) \<le> k"
  then show "wp m (\<lambda>_ s'. resumes (hist s') \<le> k) s"
    using assms(1) by (auto simp: promises_def keeps_budget_def elim!: wp_mono dest!: spec [of _ s])
qed (rule assms(2))

lemma throw_not_fuel:
  "wp m (\<lambda>x _. x \<noteq> OutOfFuel) s \<Longrightarrow> wp (throw m) (\<lambda>r _. r \<noteq> Inl OutOfFuel) s"
  by (simp add: throw_def wp_simps)

lemma answers_not_fuel:
  "wp (fail cx e) (\<lambda>x _. x \<noteq> OutOfFuel) s"
  "wp (limit_stop n reset) (\<lambda>x _. x \<noteq> OutOfFuel) s"
  "wp (non_green cx n oc b) (\<lambda>x _. x \<noteq> OutOfFuel) s"
  by (auto simp: fail_def limit_stop_def non_green_def wp_simps intro!: wp_mono [OF wp_True])

lemmas not_fuel = throw_not_fuel answers_not_fuel wp_mono [OF wp_True]

lemma steps_not_fuel:
  "wp (preflight cx i) (\<lambda>r _. r \<noteq> Inl OutOfFuel) s"
  "wp (stop_if_requested cx n) (\<lambda>r _. r \<noteq> Inl OutOfFuel) s"
  by (auto simp: preflight_def stop_if_requested_def wp_simps intro!: not_fuel
      split: option.splits)

lemma prepare_not_fuel: "wp (prepare cx i) (\<lambda>r _. r \<noteq> Inl OutOfFuel) s"
  unfolding prepare_def wp_bind
  by (rule wp_mono [OF wp_True])
    (auto simp: wp_simps Let_def intro!: throw_not_fuel answers_not_fuel
      split: sum.splits prepared.splits)

lemma gates_not_fuel:
  "wp (run_protocol cx i p) (\<lambda>r _. r \<noteq> Inl OutOfFuel) s"
  "wp (run_verify cx i p md) (\<lambda>r _. r \<noteq> Inl OutOfFuel) s"
  unfolding run_protocol_def run_verify_def wp_bindE wp_map_err
  by (rule wp_mono [OF wp_True],
      auto simp: wp_simps park_for_human_def call_defs intro!: throw_not_fuel answers_not_fuel
        split: sum.splits protocol_gate.splits verify_gate.splits)+

lemma run_plan_not_fuel:
  assumes "resumes_at_most k (cx_env cx)" "resumes (hist s) \<le> k" "k < fuel"
  shows "wp (run_plan fuel cx i) (\<lambda>r _. r \<noteq> Inl OutOfFuel) s"
  unfolding run_plan_def wp_bind
  by (rule wp_mono [OF plan_phase_fuel [OF assms]])
    (auto simp: wp_simps record_stop_def stop_requested_def intro!: throw_not_fuel answers_not_fuel
      split: sum.splits plan_phase.splits)

lemma run_execute_not_fuel:
  assumes "resumes_at_most k (cx_env cx)" "resumes (hist s) \<le> k" "k < fuel"
  shows "wp (run_execute fuel cx i p executed) (\<lambda>r _. r \<noteq> Inl OutOfFuel) s"
proof -
  have "wp (if executed then do {
              clear_verify_failure cx;
              clear_protocol_failure cx;
              okE (ExecDone usage_default)
            }
            else execute_phase fuel cx i p) (\<lambda>r _. r \<noteq> Inr ExecOutOfFuel) s"
    using execute_phase_fuel [OF assms] by (auto simp: wp_simps intro!: wp_mono [OF wp_True])
  then show ?thesis
    unfolding run_execute_def wp_bind
    by (rule wp_mono)
      (auto simp: wp_simps intro!: throw_not_fuel answers_not_fuel
        split: sum.splits error.splits exec_phase.splits)
qed

lemma run_issue_ends:
  assumes "resumes_at_most k (cx_env cx)" "k < fuel"
  shows "ends_within k (run_issue fuel cx i)"
proof -
  note d = budget_full_discipline [OF assms(1)]
  note st = full_discipline.axioms(1) [OF d]
  note i = steps_discipline.axioms(1) [OF st]
  have own: "speaks_for no_wait n" for n by simp
  have pre: "state_preorder (keeps_budget k)"
    by unfold_locales (auto simp: keeps_budget_def)
  note w = state_preorder.promises_within [OF pre]
  have close: "promises (\<lambda>_. True) (keeps_budget k)
      (map_err Fail (close_and_record cx j p lnt u1 u2 u3))" for j p lnt u1 u2 u3
    by (rule w, rule state_preorder.within_map_err [OF pre])
      (rule full_discipline.within_close_and_record [OF d])
  have dry: "ends_within k (State_Monad.bind (push_worked x) okE)" for x
    by (simp add: ends_within_def wp_simps)
  have closes: "ends_within k (map_err Fail (close_and_record cx j p lnt u1 u2 u3))"
    for j p lnt u1 u2 u3
    by (rule ends_within_step [OF close]) (auto simp: wp_simps intro!: wp_mono [OF wp_True])
  have steps: "ends_within k (preflight cx j)" "ends_within k (prepare cx j)"
      "ends_within k (run_plan fuel cx j)" "ends_within k (run_execute fuel cx j p b)"
      "ends_within k (stop_if_requested cx n)" "ends_within k (run_protocol cx j p)"
      "ends_within k (run_verify cx j p md)" for j p b n md
    by (rule ends_within_step [OF w [OF issue_discipline.within_preflight [OF i own]] steps_not_fuel(1)]
        ends_within_step [OF issue_discipline.promises_prepare [OF i own] prepare_not_fuel]
        ends_within_step [OF issue_discipline.promises_run_plan [OF i own] run_plan_not_fuel [OF assms(1) _ assms(2)]]
        ends_within_step [OF steps_discipline.promises_run_execute [OF st own] run_execute_not_fuel [OF assms(1) _ assms(2)]]
        ends_within_step [OF w [OF steps_discipline.within_stop_if_requested [OF st own]] steps_not_fuel(2)]
        ends_within_step [OF w [OF steps_discipline.within_run_protocol [OF st]] gates_not_fuel(1)]
        ends_within_step [OF w [OF steps_discipline.within_run_verify [OF st own]] gates_not_fuel(2)];
        assumption)+
  show ?thesis
    unfolding run_issue_def
    by (auto intro!: ends_within_bindE steps dry closes split: prod.splits)
qed

lemma queue_loop_ends:
  assumes "resumes_at_most k (cx_env cx)" "k < fuel"
  shows "ends_within k (queue_loop fuel cx queue)"
proof (induction queue)
  case Nil
  then show ?case by (simp add: ends_within_def wp_simps)
next
  case (Cons i queue)
  show ?case
    unfolding ends_within_def queue_loop.simps wp_bind
  proof (intro allI impI)
    fix s :: run_state assume "resumes (hist s) \<le> k"
    with run_issue_ends [OF assms]
    have "wp (run_issue fuel cx i) (\<lambda>r s'. r \<noteq> Inl OutOfFuel \<and> resumes (hist s') \<le> k) s"
      by (simp add: ends_within_def)
    then show "wp (run_issue fuel cx i) (\<lambda>r. wp (case r of Inr _ \<Rightarrow> queue_loop fuel cx queue
         | Inl Next \<Rightarrow> queue_loop fuel cx queue
         | Inl (Stop reason) \<Rightarrow> okE (Some reason)
         | Inl e \<Rightarrow> errE e) (\<lambda>r s'. r \<noteq> Inl OutOfFuel \<and> resumes (hist s') \<le> k)) s"
      by (rule wp_mono)
        (use Cons.IH in \<open>auto simp: ends_within_def wp_simps split: sum.splits early.splits\<close>)
  qed
qed

text \<open>
  C9. A run ends.  If the clock resumes at most \<open>k\<close> waits before the deadline or the operator's
  stop answers every later one, then \<open>k + 1\<close> units of fuel per phase are enough for the whole
  queue: the run returns a report or a fatal error, whatever the agent and the tracker do.
\<close>

theorem run_terminates:
  assumes "resumes_at_most k env" "k < fuel"
  shows "fst (run_queue fuel env cfg queue) \<noteq> Inl OutOfFuel"
proof -
  obtain r s' where run: "run_queue fuel env cfg queue = (r, s')" by fastforce
  then show ?thesis
  proof (cases rule: run_queue_cases)
    case (loop_failed cx s1 e)
    have "opens_run m e \<Longrightarrow> resumed e = 0" for e m by (cases e) auto
    then have "list_all (opens_run m) es \<Longrightarrow> resumes es = 0" for es m by (induction es) auto
    with loop_failed(4) have "resumes (hist s1) = 0"
      by (auto simp: extends_def start_state_def)
    with queue_loop_ends [of k cx fuel queue] assms loop_failed run show ?thesis
      by (auto simp: ends_within_def dest!: spec [of _ s1] dest: wp_run)
  qed (use run in auto)
qed

theorem run_terminates_witness:
  "resumes_at_most 0 sample_env \<and> fst (run_queue 1 sample_env sample_cfg [sample_issue 7]) \<noteq> Inl OutOfFuel"
proof -
  have "resumes_at_most 0 sample_env"
    by (simp add: resumes_at_most_def sample_env_def)
  then show ?thesis using run_terminates [of 0 sample_env 1] by simp
qed

end
