(* ===== verification/Run_Results.thy ===== *)
theory Run_Results
  imports Runner_Props
begin

text \<open>
  The per-issue results of a run: which issues have one, in which order, and the invariant every
  result satisfies.
\<close>

section \<open>The invariant of a result\<close>

text \<open>
  A result names its issue; only a skipped issue has a skip reason; only a delivered issue is
  closed; open blockers are listed for a blocked issue only, and the human gates among them make
  it a \<^verbatim>\<open>hitl\<close> issue; review debt is counted on closed issues only.
\<close>

definition result_ok :: "issue_no \<Rightarrow> issue_result \<Rightarrow> bool" where
  "result_ok n x \<longleftrightarrow>
     ir_number x = n \<and>
     (ir_skip x \<noteq> None \<longleftrightarrow> ir_status x = StSkipped) \<and>
     (ir_status x = StDone \<longleftrightarrow> ir_outcome x = Some Done) \<and>
     (if ir_closed x then ir_status x = StDone else ir_review_only x = 0) \<and>
     (ir_human_blockers x \<noteq> [] \<longleftrightarrow> ir_status x = StHitl) \<and>
     (ir_blocked_by x \<noteq> [] \<longleftrightarrow> ir_status x = StHitl \<or> ir_skip x = Some SkBlockedBy) \<and>
     set (ir_human_blockers x) \<subseteq> set (ir_blocked_by x)"

definition same_worked :: "run_state \<Rightarrow> run_state \<Rightarrow> bool" where
  "same_worked s s' \<longleftrightarrow> worked s' = worked s"

definition pushed :: "issue_no \<Rightarrow> run_state \<Rightarrow> run_state \<Rightarrow> bool" where
  "pushed n s s' \<longleftrightarrow> (\<exists>x. worked s' = worked s @ [x] \<and> result_ok n x)"

lemma pushed_same: "same_worked s t \<Longrightarrow> pushed n t u \<Longrightarrow> pushed n s u"
  "pushed n s t \<Longrightarrow> same_worked t u \<Longrightarrow> pushed n s u"
  by (simp_all add: same_worked_def pushed_def)

lemma same_worked_simps [simp]:
  "same_worked s s" "same_worked s (push_event e t) \<longleftrightarrow> same_worked s t"
  "same_worked (push_event e s) t \<longleftrightarrow> same_worked s t"
  by (simp_all add: same_worked_def)

interpretation worked_frame: run_discipline same_worked "\<lambda>_. True"
  by unfold_locales (auto simp: same_worked_def)

interpretation phases_frame: gate_discipline same_worked "\<lambda>_. True" cx for cx
proof unfold_locales
  show "within same_worked (record_phase c n ph oc u sid)" for c n ph oc u sid
    by (simp add: within_def same_worked_def record_phase_def wp_simps Let_def)
  show "within same_worked (wait_for_reset cx t)" for t
    by (simp add: wait_for_reset_def worked_frame.within_ask)
qed simp_all

interpretation exec_frame: execute_discipline same_worked "\<lambda>_. True" cx for cx
  by unfold_locales (simp add: stop_requested_def worked_frame.within_ask)

lemma speaks_true: "speaks_for (\<lambda>_. True) n"
  by simp

section \<open>What each step records\<close>

text \<open>How an answer relates the results before and after a step that has not recorded any yet.\<close>

fun records :: "issue_no \<Rightarrow> early + 'a \<Rightarrow> run_state \<Rightarrow> run_state \<Rightarrow> bool" where
  "records n (Inr _) s s' = same_worked s s'"
| "records n (Inl Next) s s' = pushed n s s'"
| "records n (Inl (Stop _)) s s' = (same_worked s s' \<or> pushed n s s')"
| "records n (Inl (Fail _)) s s' = same_worked s s'"
| "records n (Inl OutOfFuel) s s' = same_worked s s'"

lemma records_same: "same_worked s t \<Longrightarrow> records n r t u \<Longrightarrow> records n r s u"
  by (cases "(n, r, t, u)" rule: records.cases) (auto simp: same_worked_def pushed_def)

lemma wp_after_same:
  assumes "within same_worked m" "\<And>a t. same_worked s t \<Longrightarrow> wp (f a) Q t"
  shows "wp (State_Monad.bind m f) Q s"
  unfolding wp_bind
  by (rule wp_mono [of _ "\<lambda>_. same_worked s"]) (use assms in \<open>auto simp: within_def\<close>)

lemma records_bindE:
  fixes m :: "(early + 'a) run" and f :: "'a \<Rightarrow> (early + 'b) run"
  assumes "wp m (\<lambda>r s'. records n r s s' \<and> (\<forall>a. r = Inr a \<longrightarrow> P a)) s"
    and "\<And>a t. same_worked s t \<Longrightarrow> P a \<Longrightarrow> wp (f a) (\<lambda>r s'. records n r t s') t"
  shows "wp (bindE m f) (\<lambda>r s'. records n r s s') s"
  unfolding wp_bindE
proof (rule wp_mono [OF assms(1)])
  fix r :: "early + 'a" and t assume r: "records n r s t \<and> (\<forall>a. r = Inr a \<longrightarrow> P a)"
  show "(case r of Inl e \<Rightarrow> (\<lambda>s'. records n (Inl e :: early + 'b) s s')
         | Inr a \<Rightarrow> wp (f a) (\<lambda>r s'. records n r s s')) t"
  proof (cases r)
    case (Inl e)
    with r show ?thesis by (cases e) auto
  next
    case (Inr a)
    with r have "same_worked s t" "P a" by auto
    from assms(2) [OF this] this(1) Inr show ?thesis by (auto elim!: wp_mono intro: records_same)
  qed
qed

lemma wp_records_True: "wp m (\<lambda>r s'. records n r s s') s \<Longrightarrow>
  wp m (\<lambda>r s'. records n r s s' \<and> (\<forall>a. r = Inr a \<longrightarrow> True)) s"
  by simp

lemmas result_eval = result_def result_ok_def pushed_def same_worked_def wp_simps

lemma preflight_records: "wp (preflight cx i) (\<lambda>r s'. records (issue_number i) r s s') s"
  by (auto simp: preflight_def stop_requested_def result_eval split: option.splits)

lemma human_gates_subset: "wp (human_gates cx ns human) (\<lambda>r _. set r \<subseteq> set human \<union> set ns) s"
proof (induction ns arbitrary: human s)
  case Nil
  then show ?case by (simp add: wp_simps)
next
  case (Cons n ns)
  show ?case
    by (auto simp: wp_simps split: sum.splits intro!: wp_mono [OF Cons.IH])
qed

lemma open_blockers_human:
  "wp (open_blockers cx i) (\<lambda>r _. \<forall>ob. r = Inr ob \<longrightarrow> set (ob_human ob) \<subseteq> set (ob_open ob)) s"
proof -
  have "wp (human_gates cx opn []) (\<lambda>r _. set r \<subseteq> set opn) t" for opn t
    using human_gates_subset [of cx opn "[]" t] by simp
  then show ?thesis
    unfolding open_blockers_def Let_def wp_bindE
    by (auto simp: wp_simps split: sum.splits intro!: wp_mono [OF wp_True] elim!: wp_mono)
qed

text \<open>A prepared issue keeps its number; a blocked one has an open blocker.\<close>

lemma prepare_issue_answers:
  "wp (prepare_issue cx i) (\<lambda>r s'. same_worked s s' \<and>
     (\<forall>j. r = Inr (Ready j) \<longrightarrow> issue_number j = issue_number i) \<and>
     (\<forall>opn human. r = Inr (BlockedBy opn human) \<longrightarrow> opn \<noteq> [] \<and> set human \<subseteq> set opn)) s"
proof (rule wp_conj)
  show "wp (prepare_issue cx i) (\<lambda>_ s'. same_worked s s') s"
    using worked_frame.within_prepare_issue [OF speaks_true] by (simp add: within_def)
  have num: "wp (attach_comments cx i) (\<lambda>j _. issue_number j = issue_number i) s"
    by (simp add: attach_comments_def wp_simps split: sum.splits)
  show "wp (prepare_issue cx i) (\<lambda>r _. (\<forall>j. r = Inr (Ready j) \<longrightarrow> issue_number j = issue_number i) \<and>
     (\<forall>opn human. r = Inr (BlockedBy opn human) \<longrightarrow> opn \<noteq> [] \<and> set human \<subseteq> set opn)) s"
    unfolding prepare_issue_def wp_bind wp_bindE
    apply (rule wp_mono [OF num])
    apply (rule wp_mono [OF open_blockers_human])
    apply (auto simp: wp_simps write_issue_json_def split: sum.splits)
     apply (auto intro!: wp_mono [OF wp_True])
    done
qed

lemma restore_same: "within same_worked (restore env orig b base mode)"
  by (rule worked_frame.within_restore_allowed) simp_all

text \<open>The answers that end an issue, and what they record.\<close>

lemma throw_records:
  assumes "same_worked s t"
  shows "wp (throw (fail cx e)) (\<lambda>r s'. records n (r :: early + 'a) s s') t"
    and "wp (throw (limit_stop n reset)) (\<lambda>r s'. records n (r :: early + 'a) s s') t"
    and "oc \<noteq> Done \<Longrightarrow> wp (throw (non_green cx n oc b)) (\<lambda>r s'. records n (r :: early + 'a) s s') t"
proof -
  have "wp (restore env orig br base mode) (\<lambda>_ s'. same_worked t s') t" for env orig br base mode
    using restore_same by (simp add: within_def)
  then show "wp (throw (fail cx e)) (\<lambda>r s'. records n (r :: early + 'a) s s') t"
    using assms by (auto simp: throw_def fail_def wp_simps same_worked_def elim!: wp_mono)
  show "wp (throw (limit_stop n reset)) (\<lambda>r s'. records n (r :: early + 'a) s s') t"
    using assms by (simp add: throw_def limit_stop_def result_eval)
  show "oc \<noteq> Done \<Longrightarrow> wp (throw (non_green cx n oc b)) (\<lambda>r s'. records n (r :: early + 'a) s s') t"
    using assms
    by (auto simp: throw_def non_green_def non_green_stop_def stop_requested_def result_eval
        split: outcome.splits)
qed

lemma prepare_records:
  "wp (prepare cx i) (\<lambda>r s'. records (issue_number i) r s s' \<and>
     (\<forall>j. r = Inr j \<longrightarrow> issue_number j = issue_number i)) s"
  unfolding prepare_def wp_bind
proof (rule wp_mono [OF prepare_issue_answers])
  fix r :: "error + prepared" and t
  assume a: "same_worked s t \<and> (\<forall>j. r = Inr (Ready j) \<longrightarrow> issue_number j = issue_number i) \<and>
     (\<forall>opn human. r = Inr (BlockedBy opn human) \<longrightarrow> opn \<noteq> [] \<and> set human \<subseteq> set opn)"
  have failed: "wp (throw (fail cx e)) (\<lambda>r s'. records (issue_number i) r s s' \<and>
     (\<forall>j::issue. r = Inr j \<longrightarrow> issue_number j = issue_number i)) t" for e
  proof (rule wp_conj)
    show "wp (throw (fail cx e)) (\<lambda>(r :: early + issue) s'. records (issue_number i) r s s') t"
      using a by (blast intro: throw_records)
    show "wp (throw (fail cx e)) (\<lambda>r _. \<forall>j::issue. r = Inr j \<longrightarrow> issue_number j = issue_number i) t"
      by (simp add: throw_def wp_simps)
  qed
  show "wp (case r of Inr (Ready enriched) \<Rightarrow> okE enriched
     | Inr (BlockedBy opn human) \<Rightarrow> do {
         let status = (if human = [] then StSkipped else StHitl);
         push_worked ((result (issue_number i) status)\<lparr>ir_blocked_by := opn,
           ir_human_blockers := human,
           ir_skip := (if status = StSkipped then Some SkBlockedBy else None)\<rparr>);
         errE Next
       }
     | Inl e \<Rightarrow> throw (fail cx e)) (\<lambda>r s'. records (issue_number i) r s s' \<and>
     (\<forall>j. r = Inr j \<longrightarrow> issue_number j = issue_number i)) t"
  proof (cases r)
    case (Inl e)
    with failed show ?thesis by simp
  next
    case (Inr pr)
    with a show ?thesis by (cases pr) (auto simp: Let_def result_eval)
  qed
qed

text \<open>A phase that records nothing, followed by a step that answers for it.\<close>

lemma records_after:
  assumes "within same_worked m" "\<And>a t. wp (f a) (\<lambda>r s'. records n r t s') t"
  shows "wp (State_Monad.bind m f) (\<lambda>r s'. records n r s s') s"
proof (rule wp_after_same [OF assms(1)])
  fix a t assume "same_worked s t"
  with assms(2) [of a t] show "wp (f a) (\<lambda>r s'. records n r s s') t"
    by (auto elim!: wp_mono intro: records_same)
qed

lemma stop_records:
  "wp (record_stop n) (\<lambda>x s'. pushed n s s') s"
  by (simp add: record_stop_def result_eval)

lemma run_plan_records: "wp (run_plan fuel cx i) (\<lambda>r s'. records (issue_number i) r s s') s"
  unfolding run_plan_def
  by (rule records_after [OF phases_frame.within_plan_phase [OF speaks_true]])
    (auto simp: stop_requested_def record_stop_def result_eval
      intro!: throw_records split: sum.splits plan_phase.splits)

lemma execute_phase_not_done:
  "wp (execute_phase fuel cx i p) (\<lambda>r _. \<forall>oc b. r = Inr (ExecNonGreen oc b) \<longrightarrow> oc \<noteq> Done) s"
  unfolding execute_phase_def wp_simps
  by (intro wp_mono [OF wp_True] allI impI)
    (auto simp: wp_simps Let_def split: sum.splits option.splits intro!: wp_mono [OF wp_True])

lemma run_execute_records: "wp (run_execute fuel cx i p executed) (\<lambda>r s'. records (issue_number i) r s s') s"
proof -
  let ?m = "if executed then do {
              clear_verify_failure cx;
              clear_protocol_failure cx;
              okE (ExecDone usage_default)
            }
            else execute_phase fuel cx i p"
  have "within same_worked ?m"
    by (auto intro!: worked_frame.phase_intros exec_frame.within_execute_phase)
  moreover have "wp ?m (\<lambda>r _. \<forall>oc b. r = Inr (ExecNonGreen oc b) \<longrightarrow> oc \<noteq> Done) s"
    using execute_phase_not_done by (auto simp: wp_simps intro!: wp_mono [OF wp_True])
  ultimately have "wp ?m (\<lambda>r s'. same_worked s s' \<and> (\<forall>oc b. r = Inr (ExecNonGreen oc b) \<longrightarrow> oc \<noteq> Done)) s"
    by (intro wp_conj) (simp_all add: within_def)
  then show ?thesis
    unfolding run_execute_def wp_bind
    by (rule wp_mono)
      (auto simp: wp_simps intro!: throw_records split: sum.splits error.splits exec_phase.splits)
qed

lemma stop_if_requested_records: "wp (stop_if_requested cx n) (\<lambda>r s'. records n r s s') s"
  by (auto simp: stop_if_requested_def stop_requested_def record_stop_def result_eval)

lemma gate_records:
  "wp (run_protocol cx i p) (\<lambda>r s'. records (issue_number i) r s s') s"
  "wp (run_verify cx i p md) (\<lambda>r s'. records (issue_number i) r s s') s"
proof -
  have "wp (protocol_gate cx i p) (\<lambda>_. same_worked s) s" "wp (verify_gate cx i p md) (\<lambda>_. same_worked s) s"
    using phases_frame.within_protocol_gate phases_frame.within_verify_gate by (auto simp: within_def)
  note same = this
  show "wp (run_protocol cx i p) (\<lambda>r s'. records (issue_number i) r s s') s"
    unfolding run_protocol_def wp_bindE wp_map_err
    by (rule wp_mono [OF same(1)])
      (auto simp: wp_simps intro!: throw_records split: sum.splits protocol_gate.splits)
  show "wp (run_verify cx i p md) (\<lambda>r s'. records (issue_number i) r s s') s"
    unfolding run_verify_def wp_bindE wp_map_err
    by (rule wp_mono [OF same(2)])
      (auto simp: park_for_human_def call_defs result_eval intro!: throw_records
        split: sum.splits verify_gate.splits)
qed

text \<open>The close records its result before anything that may still fail.\<close>

definition closes :: "issue_no \<Rightarrow> early + unit \<Rightarrow> run_state \<Rightarrow> run_state \<Rightarrow> bool" where
  "closes n r s s' \<longleftrightarrow>
     (case r of Inr _ \<Rightarrow> pushed n s s'
      | Inl e \<Rightarrow> (\<exists>x. e = Fail x) \<and> (same_worked s s' \<or> pushed n s s'))"

lemma publish_same: "wp (publish_plan_record cx i md vs) (\<lambda>_. same_worked s) s"
  using phases_frame.within_publish_plan_record [OF speaks_true] by (simp add: within_def)

lemma close_records:
  "wp (map_err Fail (close_and_record cx i p lnt u1 u2 u3)) (\<lambda>r s'. closes (issue_number i) r s s') s"
proof -
  have published: "wp (publish_plan_record cx i md vs)
      (\<lambda>r s'. closes (issue_number i) (map_sum Fail id r) s s') t"
    if "pushed (issue_number i) s t" for md vs t
    by (rule wp_mono [OF publish_same])
      (use that in \<open>auto simp: closes_def intro: pushed_same split: sum.splits\<close>)
  have event: "pushed n s (push_event e t) \<longleftrightarrow> pushed n s t" for n e t
    by (simp add: pushed_def)
  have update: "pushed n s (t\<lparr>worked := worked s @ [x]\<rparr>) \<longleftrightarrow> result_ok n x" for n t x
    by (auto simp: pushed_def)
  have closed: "result_ok n \<lparr>ir_number = n, ir_outcome = Some Done, ir_closed = True, ir_blocked_by = [],
      ir_human_blockers = [], ir_status = StDone, ir_skip = None, ir_review_only = k\<rparr>" for n k
    by (simp add: result_ok_def)
  have returns: "closes (issue_number i) (Inr ()) s t \<longleftrightarrow> pushed (issue_number i) s t" for t
    by (simp add: closes_def)
  have refused: "closes (issue_number i) (Inl (Fail e)) s t" if "same_worked s t" for e t
    using that by (simp add: closes_def)
  show ?thesis
  proof (cases "e_close (cx_env cx) (hist s) (issue_number i)
      (close_comment (qc_stamp (cx_cfg cx)) (cx_branch cx) lnt)")
    case (Inl e)
    then show ?thesis by (simp add: close_and_record_def close_issue_def wp_simps refused)
  next
    case (Inr u)
    then show ?thesis
      by (simp add: close_and_record_def close_issue_def Let_def wp_simps read_plan_def add_label_def
          best_effort_def event update closed returns published split: option.split)
  qed
qed

text \<open>What one issue of the queue records.\<close>

fun issue_records :: "issue_no \<Rightarrow> early + unit \<Rightarrow> run_state \<Rightarrow> run_state \<Rightarrow> bool" where
  "issue_records n (Inr _) s s' = pushed n s s'"
| "issue_records n (Inl Next) s s' = pushed n s s'"
| "issue_records n (Inl OutOfFuel) s s' = same_worked s s'"
| "issue_records n (Inl _) s s' = (same_worked s s' \<or> pushed n s s')"

lemma issue_records_same: "same_worked s t \<Longrightarrow> issue_records n r t u \<Longrightarrow> issue_records n r s u"
  by (cases "(n, r, t, u)" rule: issue_records.cases) (auto simp: same_worked_def pushed_def)

lemma closes_issue_records: "closes n r s s' \<Longrightarrow> issue_records n r s s'"
  by (auto simp: closes_def split: sum.splits)

lemma issue_records_bindE:
  assumes "wp m (\<lambda>r s'. records n r s s' \<and> (\<forall>a. r = Inr a \<longrightarrow> P a)) s"
    and "\<And>a t. P a \<Longrightarrow> wp (f a) (\<lambda>r s'. issue_records n r t s') t"
  shows "wp (bindE m f) (\<lambda>r s'. issue_records n r s s') s"
  unfolding wp_bindE
proof (rule wp_mono [OF assms(1)])
  fix r t assume r: "records n r s t \<and> (\<forall>a. r = Inr a \<longrightarrow> P a)"
  show "(case r of Inl e \<Rightarrow> (\<lambda>s'. issue_records n (Inl e) s s')
         | Inr a \<Rightarrow> wp (f a) (\<lambda>r s'. issue_records n r s s')) t"
  proof (cases r)
    case (Inl e)
    with r show ?thesis by (cases e) auto
  next
    case (Inr a)
    with r have "same_worked s t" "P a" by auto
    with assms(2) [of a t] Inr show ?thesis by (auto elim!: wp_mono intro: issue_records_same)
  qed
qed

lemmas issue_records_step = issue_records_bindE [where P = "\<lambda>_. True", simplified]

lemma run_issue_records: "wp (run_issue fuel cx i) (\<lambda>r s'. issue_records (issue_number i) r s s') s"
  unfolding run_issue_def
proof (rule issue_records_step [OF preflight_records], rule issue_records_bindE [OF prepare_records])
  fix j :: issue and t assume j: "issue_number j = issue_number i"
  note steps = run_plan_records [of fuel cx j, unfolded j] run_execute_records [of fuel cx j, unfolded j]
    stop_if_requested_records gate_records [of cx j, unfolded j]
  have planned: "wp (State_Monad.bind (push_worked (result (issue_number i) StPlanned)) okE)
      (\<lambda>r s'. issue_records (issue_number i) r u s') u" for u
    by (simp add: result_eval)
  have closed: "wp (map_err Fail (close_and_record cx j p lnt u1 u2 u3))
      (\<lambda>r s'. issue_records (issue_number i) r u s') u" for p lnt u1 u2 u3 u
    using close_records [of cx j p lnt u1 u2 u3 u] unfolding j
    by (rule wp_mono) (rule closes_issue_records)
  show "wp (bindE (run_plan fuel cx j) (\<lambda>(p, executed).
       if qc_dry_run (cx_cfg cx) then do {
         push_worked (result (issue_number j) StPlanned);
         okE ()
       }
       else
         bindE (run_execute fuel cx j p executed) (\<lambda>exec_usage.
         bindE (stop_if_requested cx (issue_number j)) (\<lambda>_.
         bindE (run_protocol cx j p) (\<lambda>(lnt, plan_md, protocol_usage).
         bindE (run_verify cx j p plan_md) (\<lambda>repair_usage.
           map_err Fail (close_and_record cx j p lnt exec_usage protocol_usage repair_usage)))))))
     (\<lambda>r s'. issue_records (issue_number i) r t s') t"
    by (auto simp: j split: prod.splits intro!: issue_records_step steps closed planned)
qed

section \<open>The results of a run\<close>

lemma queue_loop_records:
  "wp (queue_loop fuel cx queue) (\<lambda>r s'. \<exists>xs. worked s' = worked s @ xs \<and>
     list_all2 result_ok (take (length xs) (map issue_number queue)) xs \<and>
     length xs \<le> length queue \<and> (r = Inr None \<longrightarrow> length xs = length queue)) s"
proof (induction queue arbitrary: s)
  case Nil
  then show ?case by (simp add: wp_simps)
next
  case (Cons i queue)
  let ?Q = "\<lambda>s r s'. \<exists>xs. worked s' = worked s @ xs \<and>
     list_all2 result_ok (take (length xs) (map issue_number (i # queue))) xs \<and>
     length xs \<le> length (i # queue) \<and> (r = Inr None \<longrightarrow> length xs = length (i # queue))"
  have rest: "wp (queue_loop fuel cx queue) (?Q s) t" if "pushed (issue_number i) s t" for t
  proof (rule wp_mono [OF Cons.IH])
    fix r u
    assume "\<exists>xs. worked u = worked t @ xs \<and>
      list_all2 result_ok (take (length xs) (map issue_number queue)) xs \<and>
      length xs \<le> length queue \<and> (r = Inr None \<longrightarrow> length xs = length queue)"
    then obtain xs where xs: "worked u = worked t @ xs"
        "list_all2 result_ok (take (length xs) (map issue_number queue)) xs"
        "length xs \<le> length queue" "r = Inr None \<longrightarrow> length xs = length queue"
      by blast
    from that obtain x where "worked t = worked s @ [x]" "result_ok (issue_number i) x"
      by (auto simp: pushed_def)
    with xs show "?Q s r u" by (intro exI [of _ "x # xs"]) auto
  qed
  have none: "?Q s (Inr (Some reason)) t" "?Q s (Inl e) t"
    if "same_worked s t \<or> pushed (issue_number i) s t" for t e reason
  proof -
    from that have "\<exists>xs. worked t = worked s @ xs \<and> length xs \<le> 1 \<and> list_all (result_ok (issue_number i)) xs"
    proof
      assume "same_worked s t"
      then show ?thesis by (intro exI [of _ "[]"]) (simp add: same_worked_def)
    next
      assume "pushed (issue_number i) s t"
      then obtain x where "worked t = worked s @ [x]" "result_ok (issue_number i) x"
        by (auto simp: pushed_def)
      then show ?thesis by (intro exI [of _ "[x]"]) simp
    qed
    then obtain xs where "worked t = worked s @ xs" "length xs \<le> 1" "list_all (result_ok (issue_number i)) xs"
      by blast
    then show "?Q s (Inr (Some reason)) t" "?Q s (Inl e) t"
      by (intro exI [of _ xs]; cases xs; simp)+
  qed
  show ?case
    unfolding queue_loop.simps wp_bind
  proof (rule wp_mono [OF run_issue_records])
    fix r t assume r: "issue_records (issue_number i) r s t"
    then show "wp (case r of Inr _ \<Rightarrow> queue_loop fuel cx queue
       | Inl Next \<Rightarrow> queue_loop fuel cx queue
       | Inl (Stop reason) \<Rightarrow> okE (Some reason)
       | Inl e \<Rightarrow> errE e) (?Q s) t"
      using none [of t] rest [of t]
      by (cases "(issue_number i, r, s, t)" rule: issue_records.cases) (simp_all add: wp_simps)
  qed
qed

text \<open>
  C5. The results of a finished run are those of the first issues of the queue, in queue order, one
  per issue: each satisfies the invariant of results, and when no stop reason is reported every
  issue of the queue has one.
\<close>

theorem results_follow_queue:
  assumes "run_queue fuel env cfg queue = (Inr rep, s')"
  shows "list_all2 result_ok (take (length (qr_worked rep)) (map issue_number queue)) (qr_worked rep) \<and>
         length (qr_worked rep) \<le> length queue \<and>
         (if qr_stop rep = None then length (qr_worked rep) = length queue else True)"
proof -
  from assms obtain cx cref ut s1 stop s2 where st:
      "extends (opens_run (qc_branch_mode cfg)) start_state s1"
      "run_state (queue_loop fuel cx queue) s1 = (Inr stop, s2)"
      "run_state (finish_run cx cref ut stop) s2 = (rep, s')"
    by (cases rule: run_queue_cases) auto
  have "worked s1 = []" using extends_simps(1) [OF st(1)] by (simp add: start_state_def)
  moreover have "worked s' = worked s2"
  proof -
    have "within same_worked (finish_run cx cref ut stop)"
      by (rule worked_frame.within_finish_run) (simp add: worked_frame.within_close_branch_allowed)
    from withinD [OF this st(3)] show ?thesis by (simp add: same_worked_def)
  qed
  ultimately show ?thesis
    using wp_run [OF queue_loop_records st(2)] wp_run [OF finish_run_report st(3)] by auto
qed

theorem results_follow_queue_witness:
  "\<exists>rep s'. run_queue 1 sample_env (sample_cfg\<lparr>qc_dry_run := True\<rparr>) [sample_issue 7] = (Inr rep, s') \<and>
     length (qr_worked rep) \<le> 1"
  using sample_dry_run results_follow_queue by fastforce

end
