(* ===== verification/Run_Safety.thy ===== *)
theory Run_Safety
  imports Run_Results
begin

text \<open>
  What stands behind a close: the gate that vouched for it, and the sessions a gate may spend.
\<close>

section \<open>A gate that passed\<close>

text \<open>The commands of a gate, each run to a zero exit, one after the other.\<close>

definition all_spawned_ok :: "string list list \<Rightarrow> event list \<Rightarrow> bool" where
  "all_spawned_ok cmds es \<longleftrightarrow>
     (\<exists>rs. length rs = length cmds \<and> list_all spawn_ok rs \<and> es = map2 EvSpawn cmds rs)"

lemma all_spawned_ok_Cons:
  assumes "spawn_ok r" "all_spawned_ok cmds es"
  shows "all_spawned_ok (argv # cmds) (EvSpawn argv r # es)"
proof -
  from assms(2) obtain rs where "length rs = length cmds" "list_all spawn_ok rs" "es = map2 EvSpawn cmds rs"
    by (auto simp: all_spawned_ok_def)
  with assms(1) show ?thesis unfolding all_spawned_ok_def by (intro exI [of _ "r # rs"]) simp
qed

lemma run_loop_spawns:
  "run_loop (run_one (spawn_call cx)) cmds outs s = (rep, t) \<Longrightarrow> vr_passed rep \<Longrightarrow>
   \<exists>es. hist t = hist s @ es \<and> all_spawned_ok cmds es"
proof (induction cmds arbitrary: outs s)
  case Nil
  then show ?case by (auto simp: all_spawned_ok_def)
next
  case (Cons argv cmds)
  obtain oc u where one: "run_one (spawn_call cx) argv s = (oc, u)" by fastforce
  with Cons.prems have passed: "co_passed oc"
    and rest: "run_loop (run_one (spawn_call cx)) cmds (outs @ [oc]) u = (rep, t)"
    by (auto split: if_splits)
  from Cons.IH [OF rest Cons.prems(2)] obtain es where
    es: "hist t = hist u @ es" "all_spawned_ok cmds es" by blast
  from one passed obtain r where "hist u = hist s @ [EvSpawn argv r]" "spawn_ok r"
    by (auto simp: run_one_def spawn_call_eval spawn_failure_def co_passed_def spawn_ok_Ran
        split: list.splits spawn_result.splits prod.splits)
  with es show ?case by (auto intro!: all_spawned_ok_Cons)
qed

text \<open>
  The events of a gate that let an issue through: the commands it resolved to all passed, with
  nothing but scratch files, comments and a ledger line after them; or the plan opted out; or no
  gate was resolved and none is required.
\<close>

fun after_gate :: "event \<Rightarrow> bool" where
  "after_gate (EvLedger _ _) = True"
| "after_gate e = (\<not> active e)"

definition gate_green :: "env \<Rightarrow> queue_config \<Rightarrow> string \<Rightarrow> event list \<Rightarrow> bool" where
  "gate_green env cfg plan_md es \<longleftrightarrow>
     (case resolve_verify (e_rx env) plan_md (qc_verify_fallback cfg) of
        RunGate cmds \<Rightarrow>
          (\<exists>pre runs post. es = pre @ runs @ post \<and> all_spawned_ok cmds runs \<and> list_all after_gate post)
      | OptedOut \<Rightarrow> True
      | NoGate \<Rightarrow> \<not> qc_require_verify_gate cfg
      | InvalidGate _ \<Rightarrow> False)"

lemma after_gate_passive: "\<not> active e \<Longrightarrow> after_gate e"
  by (cases e) auto

interpretation after_frame: ledger_discipline "adds after_gate" after_gate
  by (rule adds_ledger_discipline) (simp_all add: after_gate_passive)

interpretation gate_history: gate_discipline "adds (\<lambda>_. True)" "\<lambda>_. True" cx for cx
proof unfold_locales
  show "within (adds (\<lambda>_. True)) (record_phase c n ph oc u sid)" for c n ph oc u sid
    by (rule record_phase_adds) simp_all
  show "within (adds (\<lambda>_. True)) (wait_for_reset cx t)" for t
    by (simp add: within_def wait_for_reset_def wp_simps)
qed (auto intro: adds_trans)

definition green_tail :: "string list list \<Rightarrow> run_state \<Rightarrow> run_state \<Rightarrow> bool" where
  "green_tail cmds s s' \<longleftrightarrow>
     (\<exists>pre runs post. hist s' = hist s @ pre @ runs @ post \<and> all_spawned_ok cmds runs \<and>
        list_all after_gate post)"

lemma green_tailI: "hist s' = hist s @ es \<Longrightarrow> all_spawned_ok cmds es \<Longrightarrow> green_tail cmds s s'"
  unfolding green_tail_def by (intro exI [of _ "[]"] exI [of _ es]) simp

lemma green_tail_before: "adds P s t \<Longrightarrow> green_tail cmds t u \<Longrightarrow> green_tail cmds s u"
  by (auto simp: green_tail_def adds_def) (metis append.assoc)

lemma green_tail_after: "green_tail cmds s t \<Longrightarrow> adds after_gate t u \<Longrightarrow> green_tail cmds s u"
  by (auto simp: green_tail_def adds_def) (metis append.assoc list_all_append)

lemma run_commands_green:
  "wp (run_commands cx cmds) (\<lambda>rep s'. vr_passed rep \<longrightarrow> green_tail cmds s s') s"
proof -
  obtain rep t where run: "run (run_one (spawn_call cx)) cmds s = (rep, t)" by fastforce
  have "vr_passed rep \<longrightarrow> green_tail cmds s t"
    using run_loop_spawns [of cx cmds "[]" s rep t] run
    by (auto simp: run_def intro: green_tailI)
  with run show ?thesis
    by (auto simp: run_commands_def wp_simps intro: green_tail_after)
qed

lemma run_commands_effect:
  "wp (run_commands cx cmds)
     (\<lambda>rep s'. adds (\<lambda>_. True) s s' \<and> (vr_passed rep \<longrightarrow> green_tail cmds s s')) s"
  using gate_history.within_run_commands
  by (intro wp_conj run_commands_green) (auto simp: within_def)

lemma adds_trans_push: "adds P s t \<Longrightarrow> P e \<Longrightarrow> adds P s (push_event e t)"
  by (auto simp: adds_def)

lemma run_with_repairs_green:
  "wp (run_with_repairs_from attempt cx i p cmds rps)
     (\<lambda>r s'. (\<exists>rps'. r = Inr (Green, rps')) \<longrightarrow> green_tail cmds s s') s"
proof (induction attempt arbitrary: rps s rule: measure_induct_rule [of repairs_left])
  case (less attempt)
  let ?Q = "\<lambda>r s'. (\<exists>rps'. r = Inr (Green, rps')) \<longrightarrow> green_tail cmds s s'"
  have passed: "wp (clear_verify_failure cx) (\<lambda>_. green_tail cmds s) t" if "green_tail cmds s t" for t
  proof -
    have "wp (clear_verify_failure cx) (\<lambda>_. adds after_gate t) t"
      using after_frame.within_scratch(1) by (simp add: within_def)
    then show ?thesis by (rule wp_mono) (rule green_tail_after [OF that])
  qed
  have again: "wp (bindE (repair cx p rep rps) (\<lambda>(limited, rps').
         if limited then okE (GateFailed (verify_failure_summary rep), rps')
         else run_with_repairs_from (attempt + 1) cx i p cmds rps')) ?Q t"
    if "adds (\<lambda>_. True) s t" "\<not> VERIFY_MAX_REPAIRS \<le> attempt" for rep t
  proof -
    have "wp (repair cx p rep rps) (\<lambda>_. adds (\<lambda>_. True) t) t"
      using gate_history.within_repair by (simp add: within_def)
    then show ?thesis
      unfolding wp_bindE
    proof (rule wp_mono)
      fix r :: "error + bool \<times> repairs" and u assume "adds (\<lambda>_. True) t u"
      with that(1) have before: "adds (\<lambda>_. True) s u" by (rule adds_trans)
      have "wp (run_with_repairs_from (attempt + 1) cx i p cmds rps') ?Q u" for rps'
        by (rule wp_mono [OF less.IH [OF repairs_left_less [OF that(2)]]])
          (use before in \<open>blast intro: green_tail_before\<close>)
      then show "(case r of Inl e \<Rightarrow> ?Q (Inl e) | Inr a \<Rightarrow> wp (case a of (limited, rps') \<Rightarrow>
           if limited then okE (GateFailed (verify_failure_summary rep), rps')
           else run_with_repairs_from (attempt + 1) cx i p cmds rps') ?Q) u"
        by (auto simp: wp_simps split: sum.splits prod.splits)
    qed
  qed
  show ?case
    unfolding run_with_repairs_from.simps [of attempt] wp_bind
    by (rule wp_mono [OF run_commands_effect])
      (auto simp: wp_simps spawn_failed_gate_def post_verify_artifact_def call_defs adds_trans_push
        simp del: wp_bindE intro!: again passed elim: green_tail_after)
qed

lemma verify_gate_green:
  "wp (verify_gate cx i p md) (\<lambda>r s'. (\<exists>u. r = Inr (GreenGate u)) \<longrightarrow>
     (\<exists>es. hist s' = hist s @ es \<and> gate_green (cx_env cx) (cx_cfg cx) md es)) s"
proof -
  let ?rv = "resolve_verify (e_rx (cx_env cx)) md (qc_verify_fallback (cx_cfg cx))"
  let ?gate = "case ?rv of
      RunGate commands \<Rightarrow> run_with_repairs cx i p commands repairs_default
    | OptedOut \<Rightarrow> okE (Green, repairs_default)
    | InvalidGate err \<Rightarrow> do { g \<leftarrow> invalid_gate cx i err; okE (g, repairs_default) }
    | NoGate \<Rightarrow> okE (if qc_require_verify_gate (cx_cfg cx) then GateNeedsHuman else Green, repairs_default)"
  let ?ok = "\<lambda>s'. \<exists>es. hist s' = hist s @ es \<and> gate_green (cx_env cx) (cx_cfg cx) md es"
  have tail: "?ok t" if "?rv = RunGate cmds" "green_tail cmds s t" for cmds t
    using that by (auto simp: gate_green_def green_tail_def)
  have decided: "wp ?gate (\<lambda>r s'. (\<exists>rps. r = Inr (Green, rps)) \<longrightarrow> ?ok s') s"
  proof (cases ?rv)
    case (RunGate cmds)
    then show ?thesis
      by (auto simp: run_with_repairs_def intro!: wp_mono [OF run_with_repairs_green] tail)
  next
    case (InvalidGate err)
    then show ?thesis by (simp add: invalid_gate_def post_verify_artifact_def call_defs wp_simps)
  qed (simp_all add: wp_simps gate_green_def)
  have kept: "?ok t \<Longrightarrow> adds after_gate t u \<Longrightarrow> ?ok u" for t u
  proof -
    assume "?ok t" "adds after_gate t u"
    then obtain es fs where es: "hist t = hist s @ es" "gate_green (cx_env cx) (cx_cfg cx) md es"
        "hist u = hist t @ fs" "list_all after_gate fs"
      by (auto simp: adds_def)
    have "gate_green (cx_env cx) (cx_cfg cx) md (es @ fs)"
    proof (cases ?rv)
      case (RunGate cmds)
      with es(2) obtain pre runs post where "es = pre @ runs @ post" "all_spawned_ok cmds runs"
          "list_all after_gate post"
        by (auto simp: gate_green_def)
      with es(4) have "es @ fs = pre @ runs @ post @ fs" "list_all after_gate (post @ fs)" by auto
      with RunGate \<open>all_spawned_ok cmds runs\<close> show ?thesis
        by (simp only: gate_green_def verify_plan.case) blast
    qed (use es in \<open>auto simp: gate_green_def\<close>)
    with es show "?ok u" by auto
  qed
  have recorded: "wp (record_phase_if_used cx n ph oc u sid) (\<lambda>_. ?ok) t" if "?ok t" for n ph oc u sid t
  proof -
    have "wp (record_phase_if_used cx n ph oc u sid) (\<lambda>_. adds after_gate t) t"
      using after_frame.within_record_phase_if_used by (simp add: within_def)
    then show ?thesis by (rule wp_mono) (rule kept [OF that])
  qed
  show ?thesis
    unfolding verify_gate_def wp_bindE
  proof (rule wp_mono [OF decided], goal_cases)
    case (1 r t)
    show ?case
    proof (cases r)
      case (Inr a)
      obtain gate rps where a: "a = (gate, rps)" by fastforce
      show ?thesis
      proof (cases gate)
        case Green
        with 1 Inr a have "?ok t" by simp
        from recorded [OF this] show ?thesis
          by (simp add: Inr a Green wp_simps Let_def)
      qed (auto simp: Inr a wp_simps Let_def intro!: wp_mono [OF wp_True]
            split: option.splits outcome.splits)
    qed simp
  qed
qed

section \<open>The plan a gate is resolved from\<close>

fun read_of :: "string \<Rightarrow> event \<Rightarrow> string" where
  "read_of acc (EvReadPlan md) = or_empty md"
| "read_of acc _ = acc"

text \<open>The last plan a history read.\<close>

definition last_plan :: "history \<Rightarrow> string" where
  "last_plan h = foldl read_of [] h"

lemma last_plan_simps [simp]:
  "last_plan (h @ [EvReadPlan md]) = or_empty md"
  "last_plan (h @ h') = foldl read_of (last_plan h) h'"
  by (simp_all add: last_plan_def)

fun no_read :: "event \<Rightarrow> bool" where
  "no_read (EvReadPlan _) = False"
| "no_read _ = True"

lemma no_read_foldl: "list_all no_read es \<Longrightarrow> foldl read_of acc es = acc"
proof (induction es arbitrary: acc)
  case (Cons e es)
  then show ?case by (cases e) auto
qed simp

lemma adds_no_read: "adds no_read s t \<Longrightarrow> last_plan (hist t) = last_plan (hist s)"
  by (auto simp: adds_def no_read_foldl)

text \<open>The protocol gate hands the verify gate the plan it read last.\<close>

lemma clear_no_read: "wp (clear_protocol_failure cx) (\<lambda>_ s'. last_plan (hist s') = last_plan (hist s)) s"
  by (auto simp: clear_protocol_failure_def clear_file_def call_defs wp_simps)

lemma record_no_read:
  "wp (record_phase_if_used cx n ph oc u sid) (\<lambda>_ s'. last_plan (hist s') = last_plan (hist s)) s"
  by (simp add: record_phase_if_used_def record_phase_def Let_def wp_simps)

lemma protocol_gate_plan:
  "wp (protocol_gate cx i p) (\<lambda>r s'. \<forall>lnt md u. r = Inr (Settled lnt md u) \<longrightarrow> last_plan (hist s') = md) s"
proof -
  let ?m = "\<lambda>lint0 plan_md. if \<not> pr_passed lint0 then protocol_bounce cx p lint0 plan_md
            else okE (lint0, plan_md, usage_default, None, None)"
  have bounced: "wp (?m lint0 md) (\<lambda>r s'. \<forall>lnt md' u sid. r = Inr (lnt, md', u, sid, None) \<longrightarrow>
      last_plan (hist s') = md') t" if "last_plan (hist t) = md" for lint0 md t
    using that
    by (auto simp: protocol_bounce_def write_protocol_failure_def call_defs wp_simps Let_def
        split: sum.splits outcome.splits)
  have settled: "wp (do { clear_protocol_failure cx; record_phase_if_used cx n ph oc u sid; okE x })
      (\<lambda>r s'. r = Inr x \<and> last_plan (hist s') = last_plan (hist t)) t" for n ph oc u sid t and x :: protocol_gate
    unfolding wp_simps
    by (rule wp_mono [OF clear_no_read], rule wp_mono [OF record_no_read]) simp
  show ?thesis
    unfolding protocol_gate_def read_plan_def wp_bind wp_ask Let_def wp_bindE [of "?m _ _"]
    by (rule wp_mono [OF bounced])
      (auto simp del: wp_bind split: sum.splits prod.splits option.splits intro!: wp_mono [OF settled])
qed

text \<open>The protocol gate reads the plan at least once, and the verify gate never.\<close>

definition plan_reads :: "history \<Rightarrow> nat" where
  "plan_reads h = length (filter (\<lambda>e. \<not> no_read e) h)"

lemma plan_reads_simps [simp]:
  "plan_reads [] = 0" "plan_reads (h @ h') = plan_reads h + plan_reads h'"
  "plan_reads (e # h) = (if no_read e then 0 else 1) + plan_reads h"
  by (simp_all add: plan_reads_def)

lemma plan_reads_adds: "adds P s t \<Longrightarrow> plan_reads (hist s) \<le> plan_reads (hist t)"
  by (auto simp: adds_def)

lemma protocol_gate_reads:
  "wp (protocol_gate cx i p) (\<lambda>_ s'. plan_reads (hist s) < plan_reads (hist s')) s"
proof -
  let ?rest = "\<lambda>lint0 plan_md. bindE (if \<not> pr_passed lint0 then protocol_bounce cx p lint0 plan_md
            else okE (lint0, plan_md, usage_default, None, None))
       (\<lambda>(lnt, plan_md', u, sid, lim). do {
          clear_protocol_failure cx;
          record_phase_if_used cx (issue_number i) ''protocol-repair''
            (if pr_passed lnt then ''done'' else ''protocol-failed'') u sid;
          okE (case lim of
                 Some reset \<Rightarrow> ProtocolStopLimit reset
               | None \<Rightarrow> Settled lnt plan_md' u)
        })"
  have "within (adds (\<lambda>_. True)) (?rest lint0 plan_md)" for lint0 plan_md
    by (auto simp: protocol_bounce_def Let_def
        intro!: gate_history.phase_intros gate_history.within_record_phase_if_used
        split: outcome.splits prod.splits)
  then have rest: "wp (?rest lint0 plan_md) (\<lambda>_. adds (\<lambda>_. True) t) t" for lint0 plan_md t
    by (simp add: within_def)
  show ?thesis
    unfolding protocol_gate_def read_plan_def wp_bind wp_ask Let_def
    by (rule wp_mono [OF rest]) (auto dest!: plan_reads_adds)
qed

interpretation unread: state_preorder "adds no_read"
  by unfold_locales (auto intro: adds_trans)

lemma unread_run_loop:
  "run_loop (run_one (spawn_call cx)) cmds outs s = (rep, t) \<Longrightarrow> adds no_read s t"
proof (induction cmds arbitrary: outs s)
  case (Cons argv cmds)
  obtain oc u where one: "run_one (spawn_call cx) argv s = (oc, u)" by fastforce
  then have "adds no_read s u"
    by (auto simp: run_one_def spawn_call_eval adds_trans_push split: list.splits spawn_result.splits prod.splits)
  with Cons one show ?case by (auto intro: adds_trans split: if_splits)
qed simp

lemma unread_run_commands: "within (adds no_read) (run_commands cx cmds)"
proof -
  have "within (adds no_read) (State (run (run_one (spawn_call cx)) cmds))"
    by (auto simp: within_def wp_simps run_def split: prod.splits dest: unread_run_loop)
  then show ?thesis
    unfolding run_commands_def by (intro unread.within_bind) (simp_all add: within_def wp_simps adds_def)
qed

lemma unread_steps:
  "within (adds no_read) (post_verify_artifact cx i b)" "within (adds no_read) (clear_verify_failure cx)"
  "within (adds no_read) (write_verify_failure cx rep)" "within (adds no_read) (agent_execute cx p)"
  "within (adds no_read) (spawn_failed_gate cx i rep)" "within (adds no_read) (invalid_gate cx i err)"
  "within (adds no_read) (record_phase_if_used cx n ph oc u sid)"
  by (auto simp: within_def post_verify_artifact_def clear_verify_failure_def clear_file_def
      write_verify_failure_def agent_execute_def spawn_failed_gate_def invalid_gate_def
      record_phase_if_used_def record_phase_def call_defs wp_simps Let_def adds_def)

lemma unread_repair: "within (adds no_read) (repair cx p rep rps)"
  by (auto simp: repair_def Let_def intro!: unread.within_bind unread.within_bindE unread_steps split: outcome.splits)

lemma unread_repairs: "within (adds no_read) (run_with_repairs_from attempt cx i p cmds rps)"
proof (induction attempt arbitrary: rps rule: measure_induct_rule [of repairs_left])
  case (less attempt)
  show ?case
    by (subst run_with_repairs_from.simps)
      (auto intro!: unread.within_bind unread.within_bindE unread_steps unread_run_commands unread_repair less.IH repairs_left_less
        split: prod.splits)
qed

lemma unread_verify_gate: "within (adds no_read) (verify_gate cx i p md)"
  by (auto simp: verify_gate_def run_with_repairs_def Let_def
      intro!: unread.within_bind unread.within_bindE unread_steps unread_repairs split: verify_plan.splits prod.splits)

section \<open>Every close is vouched for\<close>

fun no_close :: "event \<Rightarrow> bool" where
  "no_close (EvClose _ _ _) = False"
| "no_close _ = True"

lemma no_close_passive: "\<not> active e \<Longrightarrow> no_close e" "opens_run m e \<Longrightarrow> no_close e"
  by (cases e; simp)+

interpretation close_free: run_discipline "adds no_close" no_close
  by (rule adds_run_discipline) (simp add: no_close_passive)

interpretation before_close: steps_discipline "adds no_close" no_close cx "\<lambda>_. True" for cx
proof unfold_locales
  show "within (adds no_close) (record_phase c n ph oc u sid)" for c n ph oc u sid
    by (rule record_phase_adds) (simp_all add: no_close_passive)
  show "within (adds no_close) (wait_for_reset cx t)" for t
    by (simp add: within_def wait_for_reset_def wp_simps)
  show "within (adds no_close) (push_worked r)" for r
    by (simp add: within_def wp_simps adds_def)
  show "within (adds no_close) (restore (cx_env cx) (cx_orig cx) (cx_branch cx)
      (qc_base_branch (cx_cfg cx)) (qc_branch_mode (cx_cfg cx)))"
    by (rule close_free.within_restore_allowed) simp_all
  show "within (adds no_close) (stop_requested cx)"
    by (simp add: within_def stop_requested_def wp_simps)
qed simp_all

lemma speaks_no_close: "speaks_for no_close n"
  by simp

text \<open>
  The events of the work on an issue before its close: they close nothing and announce nothing about
  another issue.
\<close>

fun own :: "issue_no \<Rightarrow> event \<Rightarrow> bool" where
  "own n (EvEmit m) = about n m"
| "own n (EvClose _ _ _) = False"
| "own n _ = True"

lemma own_quiet: "quiet e \<Longrightarrow> own n e"
  by (cases e) auto

lemma speaks_own [simp]: "speaks_for (own n) n"
  by (simp add: speaks_for_def)

interpretation own_events: run_discipline "adds (own n)" "own n" for n
  by (rule adds_run_discipline) (rule own_quiet)

interpretation own_work: steps_discipline "adds (own n)" "own n" cx "\<lambda>_. True" for n cx
proof unfold_locales
  show "within (adds (own n)) (record_phase c k ph oc u sid)" for c k ph oc u sid
    by (rule record_phase_adds) (simp_all add: own_quiet)
  show "within (adds (own n)) (wait_for_reset cx t)" for t
    by (simp add: within_def wait_for_reset_def wp_simps)
  show "within (adds (own n)) (push_worked r)" for r
    by (simp add: within_def wp_simps adds_def)
  show "within (adds (own n)) (restore (cx_env cx) (cx_orig cx) (cx_branch cx)
      (qc_base_branch (cx_cfg cx)) (qc_branch_mode (cx_cfg cx)))"
    by (rule own_events.within_restore_allowed) simp_all
  show "within (adds (own n)) (stop_requested cx)"
    by (simp add: within_def stop_requested_def wp_simps)
qed simp_all

text \<open>A history ends in the work on an issue that was planned.\<close>

definition working_on :: "issue_no \<Rightarrow> history \<Rightarrow> bool" where
  "working_on n h \<longleftrightarrow>
     (\<exists>earlier opn u steps work. h = earlier @ EvEmit (PlanWritten n opn u steps) # work \<and> list_all (own n) work)"

lemma working_on_start: "working_on n (h @ [EvEmit (PlanWritten n opn u steps)])"
  unfolding working_on_def by (intro exI conjI) auto

lemma working_on_append: "working_on n h \<Longrightarrow> list_all (own n) es \<Longrightarrow> working_on n (h @ es)"
  by (fastforce simp: working_on_def)

lemma working_on_adds: "working_on n (hist s) \<Longrightarrow> adds (own n) s t \<Longrightarrow> working_on n (hist t)"
  by (auto simp: adds_def working_on_append)

text \<open>The last plan of a history was read in the work on an issue.\<close>

definition read_for :: "issue_no \<Rightarrow> string \<Rightarrow> history \<Rightarrow> bool" where
  "read_for n md h \<longleftrightarrow>
     (\<exists>earlier rd es. h = earlier @ EvReadPlan rd # es \<and> working_on n earlier \<and>
        list_all (\<lambda>e. own n e \<and> no_read e) es \<and> md = or_empty rd)"

text \<open>
  What stands behind a close: a verify gate that let the issue through, resolved from the plan that was
  read last, in the work on the issue itself and after it was planned.
\<close>

definition vouches :: "env \<Rightarrow> queue_config \<Rightarrow> issue_no \<Rightarrow> history \<Rightarrow> bool" where
  "vouches env cfg n before \<longleftrightarrow>
     (\<exists>earlier rd gate. before = earlier @ EvReadPlan rd # gate \<and> working_on n earlier \<and>
        list_all (\<lambda>e. own n e \<and> no_read e) gate \<and> gate_green env cfg (or_empty rd) gate)"

definition vouched :: "env \<Rightarrow> queue_config \<Rightarrow> issue_no list \<Rightarrow> history \<Rightarrow> bool" where
  "vouched env cfg ns h \<longleftrightarrow>
     (\<forall>before n c a after. h = before @ EvClose n c a # after \<longrightarrow> n \<in> set ns \<and> vouches env cfg n before)"

lemma vouched_no_close:
  assumes "vouched env cfg ns h" "list_all no_close es"
  shows "vouched env cfg ns (h @ es)"
  unfolding vouched_def
proof (intro allI impI)
  fix before n c a after
  assume split: "h @ es = before @ EvClose n c a # after"
  have "EvClose n c a \<notin> set es" using assms(2) by (auto simp: list_all_iff)
  with split obtain rest where "h = before @ EvClose n c a # rest"
    by (auto simp: append_eq_append_conv2 append_eq_Cons_conv Cons_eq_append_conv)
  with assms(1) show "n \<in> set ns \<and> vouches env cfg n before"
    unfolding vouched_def by blast
qed

lemma vouched_close:
  assumes "vouched env cfg ns h" "n \<in> set ns" "vouches env cfg n h"
  shows "vouched env cfg ns (h @ [EvClose n c a])"
  unfolding vouched_def
proof (intro allI impI)
  fix before m d b after
  assume split: "h @ [EvClose n c a] = before @ EvClose m d b # after"
  show "m \<in> set ns \<and> vouches env cfg m before"
  proof (cases after rule: rev_cases)
    case Nil
    with split assms show ?thesis by auto
  next
    case (snoc rest e)
    with split have "h = before @ EvClose m d b # rest" by simp
    with assms(1) show ?thesis unfolding vouched_def by blast
  qed
qed

lemma vouched_adds: "vouched env cfg ns (hist s) \<Longrightarrow> adds no_close s t \<Longrightarrow> vouched env cfg ns (hist t)"
  by (auto simp: adds_def vouched_no_close)

lemma vouched_bindE:
  fixes f :: "'a \<Rightarrow> (early + 'b) run"
  assumes "wp m (\<lambda>r t. vouched env cfg ns (hist t) \<and> (\<forall>a. r = Inr a \<longrightarrow> P a t)) s"
    and "\<And>a t. vouched env cfg ns (hist t) \<Longrightarrow> P a t \<Longrightarrow> wp (f a) (\<lambda>_ u. vouched env cfg ns (hist u)) t"
  shows "wp (bindE m f) (\<lambda>_ u. vouched env cfg ns (hist u)) s"
  unfolding wp_bindE
  by (rule wp_mono [OF assms(1)]) (auto split: sum.splits intro: assms(2))

text \<open>A step that closes nothing.\<close>

lemma vouched_promise:
  assumes "promises (\<lambda>_. True) (adds no_close) m" "vouched env cfg ns (hist s)"
  shows "wp m (\<lambda>_ t. vouched env cfg ns (hist t)) s"
proof -
  have "wp m (\<lambda>_ t. adds no_close s t) s" using assms(1) by (simp add: promises_def)
  then show ?thesis by (rule wp_mono) (rule vouched_adds [OF assms(2)])
qed

lemmas vouched_steps =
  vouched_promise [OF close_free.promises_within [OF before_close.within_preflight [OF speaks_no_close]]]
  vouched_promise [OF before_close.promises_prepare [OF speaks_no_close]]
  vouched_promise [OF before_close.promises_run_plan [OF speaks_no_close]]
  vouched_promise [OF before_close.promises_run_execute [OF speaks_no_close]]
  vouched_promise [OF close_free.promises_within [OF before_close.within_stop_if_requested [OF speaks_no_close]]]
  vouched_promise [OF close_free.promises_within [OF before_close.within_run_protocol]]
  vouched_promise [OF close_free.promises_within [OF before_close.within_run_verify [OF speaks_no_close]]]

text \<open>The steps of the work on an issue.\<close>

lemma own_promise:
  assumes "promises (\<lambda>_. True) (adds (own n)) m" "working_on n (hist s)"
  shows "wp m (\<lambda>_ t. working_on n (hist t)) s"
proof -
  have "wp m (\<lambda>_ t. adds (own n) s t) s" using assms(1) by (simp add: promises_def)
  then show ?thesis by (rule wp_mono) (rule working_on_adds [OF assms(2)])
qed

lemma own_speaks: "issue_number i = n \<Longrightarrow> speaks_for (own n) (issue_number i)"
  by simp

lemmas own_steps =
  own_promise [OF own_work.promises_run_execute [OF own_speaks]]
  own_promise [OF own_events.promises_within [OF own_work.within_stop_if_requested [OF speaks_own]]]

fun halts_plan :: "plan_phase \<Rightarrow> bool" where
  "halts_plan (Planned _) = False"
| "halts_plan (Executed _) = False"
| "halts_plan _ = True"

lemma plan_loop_halts: "wp (plan_loop fuel cx i k) (\<lambda>r _. \<forall>stop. r = Inr (Inl stop) \<longrightarrow> halts_plan stop) s"
proof (induction fuel arbitrary: k s)
  case (Suc fuel)
  have waited: "wp (wait_out_plan_limit cx lim n) (\<lambda>w t. (\<forall>stop. w = Some stop \<longrightarrow> halts_plan stop)) t" for lim n t
    by (auto simp: wait_out_plan_limit_def Let_def wp_simps wait_for_reset_def synthetic_reset_at_def
        split: option.splits)
  show ?case
    using Suc.IH
    by (auto simp: wp_simps intro!: wp_mono [OF waited] split: sum.splits error.splits option.splits)
qed (simp add: wp_simps)

lemma plan_phase_works:
  "wp (plan_phase fuel cx i) (\<lambda>r t. \<forall>x. r = Inr x \<and> \<not> halts_plan x \<longrightarrow>
     working_on (issue_number i) (hist t)) s"
proof -
  have here: "working_on n (h @ EvReadPlan md # EvEmit (PlanWritten n opn u steps) # work)"
    if "list_all (own n) work" for n h md opn u steps work
  proof -
    have "h @ EvReadPlan md # EvEmit (PlanWritten n opn u steps) # work =
        (h @ [EvReadPlan md]) @ EvEmit (PlanWritten n opn u steps) # work" by simp
    with that show ?thesis unfolding working_on_def by blast
  qed
  show ?thesis
    unfolding plan_phase_def wp_bindE
    by (rule wp_mono [OF plan_loop_halts])
      (auto simp: wp_simps read_plan_def emit_plan_written_def record_phase_def Let_def
        intro!: here intro: wp_mono [OF wp_True] split: sum.splits)
qed

lemma run_plan_works:
  "wp (run_plan fuel cx i) (\<lambda>r t. \<forall>x. r = Inr x \<longrightarrow> working_on (issue_number i) (hist t)) s"
proof -
  have push: "working_on n h \<Longrightarrow> working_on n (h @ [EvStop b])" for n h b
    by (rule working_on_append) simp_all
  show ?thesis
    unfolding run_plan_def wp_bind
    by (rule wp_mono [OF plan_phase_works])
      (auto simp: wp_simps stop_requested_def record_stop_def throw_def limit_stop_def
        intro!: push intro: wp_mono [OF wp_True] split: sum.splits plan_phase.splits)
qed

lemma last_read_split:
  assumes "plan_reads es \<noteq> 0"
  obtains es1 rd es2 where "es = es1 @ EvReadPlan rd # es2" "list_all no_read es2"
proof -
  have "\<exists>e\<in>set es. \<not> no_read e"
    using assms by (auto simp: plan_reads_def filter_empty_conv)
  from split_list_last_prop [OF this] obtain es1 e es2 where "es = es1 @ e # es2" "\<not> no_read e"
    "\<forall>e\<in>set es2. no_read e" by blast
  then show thesis using that by (cases e) (auto simp: list_all_iff)
qed

lemma run_protocol_reads:
  assumes "working_on n (hist s)"
  shows "wp (run_protocol cx i p) (\<lambda>r t. \<forall>x. r = Inr x \<longrightarrow>
     (\<exists>lnt md u. x = (lnt, md, u) \<and> read_for n md (hist t))) s"
proof -
  have own: "wp (protocol_gate cx i p) (\<lambda>_. adds (own n) s) s"
    using own_work.within_protocol_gate by (simp add: within_def)
  have settled: "read_for n md (hist t)"
    if "adds (own n) s t" "plan_reads (hist s) < plan_reads (hist t)" "last_plan (hist t) = md" for t md
  proof -
    from that(1) obtain es where es: "hist t = hist s @ es" "list_all (own n) es" by (auto simp: adds_def)
    with that(2) obtain es1 rd es2 where split: "es = es1 @ EvReadPlan rd # es2" "list_all no_read es2"
      using last_read_split [of es] by auto
    have "hist t = (hist s @ es1) @ EvReadPlan rd # es2" by (simp add: es split)
    moreover have "working_on n (hist s @ es1)" using assms es split by (simp add: working_on_append)
    moreover have "list_all (\<lambda>e. own n e \<and> no_read e) es2" using es split by (simp add: list_all_iff)
    moreover have "md = or_empty rd"
      using that(3) by (simp add: es split no_read_foldl last_plan_def)
    ultimately show ?thesis unfolding read_for_def by blast
  qed
  show ?thesis
    unfolding run_protocol_def wp_bindE wp_map_err
    by (rule wp_mono [OF wp_conj [OF own wp_conj [OF protocol_gate_reads protocol_gate_plan]]])
      (auto simp: wp_simps throw_def limit_stop_def intro: settled split: sum.splits protocol_gate.splits)
qed

lemma gate_green_before: "gate_green env cfg md es \<Longrightarrow> gate_green env cfg md (fs @ es)"
proof (cases "resolve_verify (e_rx env) md (qc_verify_fallback cfg)")
  case (RunGate cmds)
  assume "gate_green env cfg md es"
  with RunGate obtain pre runs post where "es = pre @ runs @ post" "all_spawned_ok cmds runs"
    "list_all after_gate post" by (auto simp: gate_green_def)
  then have "fs @ es = (fs @ pre) @ runs @ post \<and> all_spawned_ok cmds runs \<and> list_all after_gate post" by simp
  with RunGate show ?thesis by (simp only: gate_green_def verify_plan.case) blast
qed (auto simp: gate_green_def)

lemma run_verify_vouches:
  assumes "read_for n md (hist s)" "issue_number i = n"
  shows "wp (run_verify cx i p md) (\<lambda>r t. \<forall>u. r = Inr u \<longrightarrow> vouches (cx_env cx) (cx_cfg cx) n (hist t)) s"
proof -
  have own: "wp (verify_gate cx i p md) (\<lambda>_. adds (own n) s) s"
    using own_work.within_verify_gate by (simp add: within_def)
  have unread: "wp (verify_gate cx i p md) (\<lambda>_. adds no_read s) s"
    using unread_verify_gate by (simp add: within_def)
  from assms(1) obtain earlier rd es where before: "hist s = earlier @ EvReadPlan rd # es"
    "working_on n earlier" "list_all (\<lambda>e. own n e \<and> no_read e) es" "md = or_empty rd"
    unfolding read_for_def by blast
  have vouch: "vouches (cx_env cx) (cx_cfg cx) n (hist t)"
    if "adds (own n) s t" "adds no_read s t" "hist t = hist s @ gate"
      "gate_green (cx_env cx) (cx_cfg cx) md gate" for t gate
  proof -
    from that(1-3) have "list_all (\<lambda>e. own n e \<and> no_read e) (es @ gate)"
      using before(3) by (auto simp: adds_def list_all_iff)
    moreover have "hist t = earlier @ EvReadPlan rd # es @ gate" by (simp add: that(3) before(1))
    ultimately show ?thesis
      unfolding vouches_def using before(2,4) gate_green_before [OF that(4), of es] by blast
  qed
  show ?thesis
    unfolding run_verify_def wp_bindE wp_map_err
    by (rule wp_mono [OF wp_conj [OF own wp_conj [OF unread verify_gate_green]]])
      (auto simp: wp_simps throw_def limit_stop_def park_for_human_def call_defs intro: vouch
        split: sum.splits verify_gate.splits)
qed

lemma close_vouched:
  assumes "vouched (cx_env cx) (cx_cfg cx) ns (hist s)" "issue_number i \<in> set ns"
    and "vouches (cx_env cx) (cx_cfg cx) (issue_number i) (hist s)"
  shows "wp (map_err Fail (close_and_record cx i p lnt u1 u2 u3))
     (\<lambda>_ t. vouched (cx_env cx) (cx_cfg cx) ns (hist t)) s"
proof -
  have closed: "vouched (cx_env cx) (cx_cfg cx) ns (hist s @ [EvClose (issue_number i) c a])" for c a
    using assms by (blast intro: vouched_close)
  have published: "wp (publish_plan_record cx i md vs) (\<lambda>_ t. vouched (cx_env cx) (cx_cfg cx) ns (hist t)) u"
    if "vouched (cx_env cx) (cx_cfg cx) ns (hist u)" for md vs u
    using vouched_promise [OF close_free.promises_within [OF before_close.within_publish_plan_record [OF speaks_no_close]] that] .
  have more: "list_all no_close es \<Longrightarrow>
      vouched (cx_env cx) (cx_cfg cx) ns (hist s @ EvClose (issue_number i) c a # es)" for c a es
    using vouched_no_close [OF closed] by fastforce
  show ?thesis
    by (cases "e_close (cx_env cx) (hist s) (issue_number i)
          (close_comment (qc_stamp (cx_cfg cx)) (cx_branch cx) lnt)")
      (simp_all add: close_and_record_def close_issue_def Let_def wp_simps read_plan_def add_label_def
        best_effort_def closed more published split: option.split)
qed

lemma run_issue_vouched:
  assumes "vouched (cx_env cx) (cx_cfg cx) ns (hist s)" "issue_number i \<in> set ns"
  shows "wp (run_issue fuel cx i) (\<lambda>_ t. vouched (cx_env cx) (cx_cfg cx) ns (hist t)) s"
proof -
  let ?V = "\<lambda>t. vouched (cx_env cx) (cx_cfg cx) ns (hist t)" and ?n = "issue_number i"
  have step: "wp m (\<lambda>r t. ?V t \<and> (\<forall>a. r = Inr a \<longrightarrow> True)) u" if "wp m (\<lambda>_. ?V) u"
    for m :: "(early + 'a) run" and u
    using that by simp
  have prepared: "wp (prepare cx i) (\<lambda>r t. ?V t \<and> (\<forall>j. r = Inr j \<longrightarrow> issue_number j = ?n \<and> ?V t)) u"
    if "?V u" for u
    using wp_conj [OF vouched_steps(2) [OF that] prepare_records] by (rule wp_mono) blast
  have planned: "wp (run_plan fuel cx j) (\<lambda>r t. ?V t \<and> (\<forall>x. r = Inr x \<longrightarrow> working_on ?n (hist t))) u"
    if "?V u" "issue_number j = ?n" for j u
    using wp_conj [OF vouched_steps(3) [OF that(1)] run_plan_works [of fuel cx j]] that(2)
    by (rule_tac wp_mono) auto
  have executed: "wp (run_execute fuel cx j p b) (\<lambda>r t. ?V t \<and> (\<forall>x. r = Inr x \<longrightarrow> working_on ?n (hist t))) u"
    if "?V u" "working_on ?n (hist u)" "issue_number j = ?n" for j p b u
    using wp_conj [OF vouched_steps(4) [OF that(1)] own_steps(1) [OF that(3,2)]]
    by (rule wp_mono) blast
  have checked: "wp (stop_if_requested cx ?n) (\<lambda>r t. ?V t \<and> (\<forall>x. r = Inr x \<longrightarrow> working_on ?n (hist t))) u"
    if "?V u" "working_on ?n (hist u)" for u
    using wp_conj [OF vouched_steps(5) [OF that(1)] own_steps(2) [OF that(2)]]
    by (rule wp_mono) blast
  have linted: "wp (run_protocol cx j p) (\<lambda>r t. ?V t \<and>
      (\<forall>x. r = Inr x \<longrightarrow> (\<exists>lnt md u. x = (lnt, md, u) \<and> read_for ?n md (hist t)))) u"
    if "?V u" "working_on ?n (hist u)" for j p u
    by (rule wp_conj [OF vouched_steps(6) [OF that(1)] run_protocol_reads [OF that(2)]])
  have verified: "wp (run_verify cx j p md) (\<lambda>r t. ?V t \<and>
      (\<forall>x. r = Inr x \<longrightarrow> vouches (cx_env cx) (cx_cfg cx) ?n (hist t))) u"
    if "?V u" "read_for ?n md (hist u)" "issue_number j = ?n" for j p md u
    by (rule wp_conj [OF vouched_steps(7) [OF that(1)] run_verify_vouches [OF that(2,3)]])
  have closed: "wp (map_err Fail (close_and_record cx j p lnt u1 u2 u3)) (\<lambda>_. ?V) u"
    if "?V u" "vouches (cx_env cx) (cx_cfg cx) ?n (hist u)" "issue_number j = ?n" for j p lnt u1 u2 u3 u
    using close_vouched [of cx ns u j] that assms(2) by simp
  show ?thesis
    unfolding run_issue_def
    apply (rule vouched_bindE [OF step [OF vouched_steps(1) [OF assms(1)]]])
    apply (rule vouched_bindE [OF prepared], assumption)
    apply (elim conjE)
    apply (rule vouched_bindE [OF planned], assumption, assumption)
    apply (simp add: wp_simps split: prod.splits if_splits del: wp_bindE)
    apply (intro conjI impI allI)
    apply (rule vouched_bindE [OF executed], assumption, assumption, assumption)
    apply (rule vouched_bindE [OF checked], assumption, assumption)
    apply (rule vouched_bindE [OF linted], assumption, assumption)
    apply (clarsimp)
    apply (rule vouched_bindE [OF verified], assumption, assumption, assumption)
    apply (rule closed, assumption+)
    done
qed

section \<open>Every close of a run\<close>

lemma queue_loop_vouched:
  assumes "vouched (cx_env cx) (cx_cfg cx) ns (hist s)" "set (map issue_number queue) \<subseteq> set ns"
  shows "wp (queue_loop fuel cx queue) (\<lambda>_ t. vouched (cx_env cx) (cx_cfg cx) ns (hist t)) s"
  using assms
proof (induction queue arbitrary: s)
  case Nil
  then show ?case by (simp add: wp_simps)
next
  case (Cons i queue)
  have "wp (run_issue fuel cx i) (\<lambda>_ t. vouched (cx_env cx) (cx_cfg cx) ns (hist t)) s"
    using Cons.prems by (intro run_issue_vouched) auto
  then show ?case
    unfolding queue_loop.simps wp_bind
    by (rule wp_mono) (use Cons in \<open>auto simp: wp_simps split: sum.splits early.splits\<close>)
qed

lemma vouched_opened:
  assumes "extends (opens_run m) start_state s"
  shows "vouched env cfg ns (hist s)"
proof -
  have "vouched env cfg ns (hist start_state)" by (simp add: vouched_def start_state_def)
  moreover have "adds no_close start_state s"
    using assms no_close_passive(2) by (fastforce simp: extends_def adds_def list_all_iff)
  ultimately show ?thesis by (rule vouched_adds)
qed

text \<open>
  C3. However a run ends, every issue it closed is an issue of its queue, and the close follows a verify
  gate that let the issue through.  The gate is the one of the last plan read before the close; that plan
  was read after the issue was planned, and nothing was closed nor announced about another issue in
  between.  Since that read every command of the gate ran to a zero exit, with nothing but scratch writes,
  comments and ledger lines after them; or the plan opted out; or it names no gate, none is configured and
  none is required.
\<close>

theorem closes_only_after_green:
  assumes "run_queue fuel env cfg queue = (r, s')"
  shows "vouched env cfg (map issue_number queue) (hist s')"
  using assms
proof (cases rule: run_queue_cases)
  case (opening_failed e)
  then show ?thesis by (auto intro: vouched_opened)
next
  case (loop_failed cx s1 e)
  then show ?thesis
    using wp_run [OF queue_loop_vouched loop_failed(5)] vouched_opened [OF loop_failed(4)] by auto
next
  case (finished cx cref ut s1 stop s2 rep)
  have "vouched env cfg (map issue_number queue) (hist s2)"
    using wp_run [OF queue_loop_vouched finished(5)] vouched_opened [OF finished(4)] finished(2,3) by auto
  have "within (adds no_close) (finish_run cx cref ut stop)"
    by (rule close_free.within_finish_run) (simp add: close_free.within_close_branch_allowed)
  then have "adds no_close s2 s'" by (rule withinD [OF _ finished(6)])
  with \<open>vouched env cfg (map issue_number queue) (hist s2)\<close> show ?thesis by (rule vouched_adds)
qed

text \<open>The sample run closes its issue.\<close>

fun closes_issue :: "issue_no \<Rightarrow> event \<Rightarrow> bool" where
  "closes_issue n (EvClose m _ _) = (m = n)"
| "closes_issue n _ = False"

lemma sample_close_run:
  "\<exists>r s'. run_queue 1 sample_env sample_cfg [sample_issue 7] = (r, s') \<and> list_ex (closes_issue 7) (hist s')"
proof -
  have "wp (run_queue_with 1 sample_env sample_cfg [sample_issue 7])
      (\<lambda>r s'. list_ex (closes_issue 7) (hist s')) start_state"
    by (simp add: step_eval world_eval pure_eval cong: wp_weak_cong)
  then show ?thesis by (auto simp: wp_def run_queue_def split: prod.splits)
qed

theorem closes_only_after_green_witness:
  "\<exists>r s'. run_queue 1 sample_env sample_cfg [sample_issue 7] = (r, s') \<and>
     list_ex (closes_issue 7) (hist s') \<and> vouched sample_env sample_cfg [7] (hist s')"
proof -
  obtain r s' where run: "run_queue 1 sample_env sample_cfg [sample_issue 7] = (r, s')"
      "list_ex (closes_issue 7) (hist s')"
    using sample_close_run by blast
  have "vouched sample_env sample_cfg (map issue_number [sample_issue 7]) (hist s')"
    by (rule closes_only_after_green [OF run(1)])
  with run show ?thesis by (auto simp: sample_issue_def)
qed

end
