(* ===== verification/Gate_Bounds.thy ===== *)
theory Gate_Bounds
  imports Run_Safety
begin

text \<open>
  What the two gates may spend: a weight on events, the cost of a computation as the weight of the
  events it adds, and the bounds on vendor sessions and on commands spawned.
\<close>

section \<open>Costs\<close>

definition weight :: "(event \<Rightarrow> nat) \<Rightarrow> run_state \<Rightarrow> nat" where
  "weight w s = sum_list (map w (hist s))"

definition costs :: "(event \<Rightarrow> nat) \<Rightarrow> nat \<Rightarrow> 'a run \<Rightarrow> bool" where
  "costs w k m \<longleftrightarrow> (\<forall>s. wp m (\<lambda>_ t. weight w t \<le> weight w s + k) s)"

lemma weight_push [simp]: "weight w (push_event e s) = weight w s + w e"
  by (simp add: weight_def)

lemma costsD: "costs w k m \<Longrightarrow> run_state m s = (r, t) \<Longrightarrow> weight w t \<le> weight w s + k"
  by (auto simp: costs_def dest: spec [of _ s] wp_run)

lemma costs_mono: "costs w j m \<Longrightarrow> j \<le> k \<Longrightarrow> costs w k m"
  unfolding costs_def by (force elim: wp_mono)

lemma costs_ask: "(\<And>a. w (ev a) \<le> k) \<Longrightarrow> costs w k (ask f ev)"
  by (simp add: costs_def wp_simps)

lemma costs_bind:
  assumes "costs w j m" "\<And>a. costs w k (f a)"
  shows "costs w (j + k) (State_Monad.bind m f)"
  unfolding costs_def wp_bind
proof
  fix s
  have "wp m (\<lambda>_ t. weight w t \<le> weight w s + j) s" using assms(1) by (simp add: costs_def)
  then show "wp m (\<lambda>a. wp (f a) (\<lambda>_ u. weight w u \<le> weight w s + (j + k))) s"
  proof (rule wp_mono)
    fix a t assume "weight w t \<le> weight w s + j"
    moreover have "wp (f a) (\<lambda>_ u. weight w u \<le> weight w t + k) t" using assms(2) by (simp add: costs_def)
    ultimately show "wp (f a) (\<lambda>_ u. weight w u \<le> weight w s + (j + k)) t"
      by (auto elim!: wp_mono)
  qed
qed

lemmas costs_free_bind = costs_bind [where j = 0, simplified]

lemma costs_return [simp]: "costs w k (State_Monad.return a)"
  by (simp add: costs_def wp_simps)

lemma costs_okE [simp]: "costs w k (okE a)"
  by (simp add: okE_def)

lemma costs_errE [simp]: "costs w k (errE e)"
  by (simp add: errE_def)

lemma costs_bindE:
  assumes "costs w j m" "\<And>a. costs w k (f a)"
  shows "costs w (j + k) (bindE m f)"
  unfolding bindE_def using assms by (intro costs_bind) (auto split: sum.splits)

lemma costs_free: "within (adds (\<lambda>e. w e = 0)) m \<Longrightarrow> costs w 0 m"
proof -
  have "weight w t = weight w s" if "adds (\<lambda>e. w e = 0) s t" for s t
  proof -
    from that obtain es where "hist t = hist s @ es" "list_all (\<lambda>e. w e = 0) es" by (auto simp: adds_def)
    moreover from this(2) have "sum_list (map w es) = 0" by (induction es) auto
    ultimately show ?thesis by (simp add: weight_def)
  qed
  then show "within (adds (\<lambda>e. w e = 0)) m \<Longrightarrow> costs w 0 m"
    unfolding within_def costs_def by (fastforce intro: wp_mono)
qed

section \<open>The gates under a weight\<close>

text \<open>
  A weight that only vendor sessions and spawned commands have.  The bounds below are over the two
  prices: \<open>x\<close> for a session and \<open>y\<close> for a command.
\<close>

locale gate_weight =
  fixes w :: "event \<Rightarrow> nat" and x y :: nat
  assumes session_weight: "w (EvExecute p a) = x"
    and spawn_weight: "w (EvSpawn argv b) = y"
    and scratch_weight: "after_gate e \<Longrightarrow> w e = 0"
begin

lemma free_after: "within (adds after_gate) m \<Longrightarrow> costs w 0 m"
proof (rule costs_free)
  assume "within (adds after_gate) m"
  moreover have "adds after_gate s t \<Longrightarrow> adds (\<lambda>e. w e = 0) s t" for s t
    by (auto simp: adds_def list_all_iff scratch_weight)
  ultimately show "within (adds (\<lambda>e. w e = 0)) m" unfolding within_def by (blast intro: wp_mono)
qed

lemmas costs_scratch =
  free_after [OF after_frame.within_scratch(1)] free_after [OF after_frame.within_scratch(2)]
  free_after [OF after_frame.within_scratch(3)] free_after [OF after_frame.within_scratch(4)]
  free_after [OF after_frame.within_record_phase_if_used] free_after [OF after_frame.within_calls(1)]

lemma costs_artifact: "costs w 0 (post_verify_artifact cx i b)"
proof (rule free_after)
  show "within (adds after_gate) (post_verify_artifact cx i b)"
    by (simp add: post_verify_artifact_def after_frame.within_best_effort)
qed

lemma costs_execute: "costs w x (agent_execute cx p)"
  by (simp add: agent_execute_def costs_ask session_weight)

lemma costs_repair: "costs w x (repair cx p rep rps)"
proof -
  have "costs w (0 + (x + 0)) (repair cx p rep rps)"
    unfolding repair_def Let_def
    by (rule costs_bind [OF costs_scratch(3)], rule costs_bindE [OF costs_execute])
      (auto split: outcome.splits)
  then show ?thesis by simp
qed

lemma weight_run_loop:
  "run_loop (run_one (spawn_call cx)) cmds outs s = (rep, t) \<Longrightarrow> weight w t \<le> weight w s + y * length cmds"
proof (induction cmds arbitrary: outs s)
  case (Cons argv cmds)
  obtain oc u where one: "run_one (spawn_call cx) argv s = (oc, u)" by fastforce
  then have "weight w u \<le> weight w s + y"
    by (auto simp: run_one_def spawn_call_eval spawn_weight split: list.splits spawn_result.splits prod.splits)
  with Cons one show ?case by (fastforce split: if_splits)
qed simp

lemma costs_run_commands: "costs w (y * length cmds) (run_commands cx cmds)"
  unfolding costs_def
  by (auto simp: run_commands_def wp_simps run_def scratch_weight split: prod.splits dest: weight_run_loop)

lemma costs_run_with_repairs:
  "costs w (y * length cmds + repairs_left attempt * (x + y * length cmds))
     (run_with_repairs_from attempt cx i p cmds rps)"
proof (induction attempt arbitrary: rps rule: measure_induct_rule [of repairs_left])
  case (less attempt)
  let ?c = "y * length cmds"
  let ?k = "repairs_left attempt * (x + ?c)"
  have again: "costs w ?k (bindE (repair cx p rep rps) (\<lambda>(limited, rps').
           if limited then okE (GateFailed (verify_failure_summary rep), rps')
           else run_with_repairs_from (attempt + 1) cx i p cmds rps'))"
    if "\<not> VERIFY_MAX_REPAIRS \<le> attempt" for rep
  proof -
    have left: "repairs_left attempt = Suc (repairs_left (attempt + 1))"
      using that by (rule attempt_cases) (simp_all add: repairs_left_def VERIFY_MAX_REPAIRS_def)
    have "costs w (x + (?c + repairs_left (attempt + 1) * (x + ?c))) (bindE (repair cx p rep rps)
        (\<lambda>(limited, rps'). if limited then okE (GateFailed (verify_failure_summary rep), rps')
           else run_with_repairs_from (attempt + 1) cx i p cmds rps'))"
      by (rule costs_bindE [OF costs_repair])
        (use less.IH [OF repairs_left_less [OF that]] in \<open>auto split: prod.splits\<close>)
    then show ?thesis by (simp add: left algebra_simps)
  qed
  have rest: "costs w ?k (if vr_spawn_failed rep then do { g \<leftarrow> spawn_failed_gate cx i rep; okE (g, rps) }
     else do {
       post_verify_artifact cx i (gate_comment (qc_stamp (cx_cfg cx)) rep);
       if vr_passed rep then do { clear_verify_failure cx; okE (Green, rps) }
       else if attempt \<ge> VERIFY_MAX_REPAIRS then okE (GateFailed (verify_failure_summary rep), rps)
       else bindE (repair cx p rep rps) (\<lambda>(limited, rps').
           if limited then okE (GateFailed (verify_failure_summary rep), rps')
           else run_with_repairs_from (attempt + 1) cx i p cmds rps')})" for rep
    using again [of rep]
    by (auto simp: spawn_failed_gate_def
        intro!: costs_free_bind costs_artifact costs_scratch)
  show ?case
    unfolding run_with_repairs_from.simps [of attempt]
    by (rule costs_bind [OF costs_run_commands rest])
qed

lemma costs_verify_gate:
  "costs w (case resolve_verify (e_rx (cx_env cx)) md (qc_verify_fallback (cx_cfg cx)) of
       RunGate cmds \<Rightarrow> y * length cmds + 2 * (x + y * length cmds)
     | _ \<Rightarrow> 0) (verify_gate cx i p md)"
proof -
  let ?rv = "resolve_verify (e_rx (cx_env cx)) md (qc_verify_fallback (cx_cfg cx))"
  have two: "repairs_left 0 = 2" by (simp add: repairs_left_def VERIFY_MAX_REPAIRS_def)
  have "costs w ((case ?rv of RunGate cmds \<Rightarrow> y * length cmds + 2 * (x + y * length cmds) | _ \<Rightarrow> 0) + 0)
      (verify_gate cx i p md)"
    unfolding verify_gate_def
  proof (rule costs_bindE)
    show "costs w (case ?rv of RunGate cmds \<Rightarrow> y * length cmds + 2 * (x + y * length cmds) | _ \<Rightarrow> 0)
       (case ?rv of
          RunGate commands \<Rightarrow> run_with_repairs cx i p commands repairs_default
        | OptedOut \<Rightarrow> okE (Green, repairs_default)
        | InvalidGate err \<Rightarrow> do { g \<leftarrow> invalid_gate cx i err; okE (g, repairs_default) }
        | NoGate \<Rightarrow> okE (if qc_require_verify_gate (cx_cfg cx) then GateNeedsHuman else Green,
                     repairs_default))"
      using costs_run_with_repairs [of _ 0 cx i p repairs_default]
      by (auto simp: run_with_repairs_def two invalid_gate_def
          intro!: costs_free_bind costs_artifact split: verify_plan.split)
  qed (auto simp: Let_def intro!: costs_free_bind costs_scratch split: prod.splits)
  then show ?thesis by simp
qed

lemma costs_protocol_gate: "costs w x (protocol_gate cx i p)"
proof -
  have bounce: "costs w x (protocol_bounce cx p lint0 md)" for lint0 md
  proof -
    have "costs w (0 + (x + 0)) (protocol_bounce cx p lint0 md)"
      unfolding protocol_bounce_def Let_def
      by (rule costs_bind [OF costs_scratch(4)], rule costs_bindE [OF costs_execute])
        (auto intro!: costs_free_bind costs_scratch split: outcome.splits)
    then show ?thesis by simp
  qed
  have "costs w (0 + (x + 0)) (protocol_gate cx i p)"
    unfolding protocol_gate_def Let_def
    by (rule costs_bind [OF costs_scratch(6)], rule costs_bindE)
      (auto intro!: bounce costs_free_bind costs_scratch split: prod.splits)
  then show ?thesis by simp
qed

end

section \<open>Sessions and commands\<close>

fun session_of :: "event \<Rightarrow> nat" where
  "session_of (EvExecute _ _) = 1"
| "session_of _ = 0"

fun spawn_of :: "event \<Rightarrow> nat" where
  "spawn_of (EvSpawn _ _) = 1"
| "spawn_of _ = 0"

interpretation sessions: gate_weight session_of 1 0
proof
  show "after_gate e \<Longrightarrow> session_of e = 0" for e by (cases e) auto
qed simp_all

interpretation spawns: gate_weight spawn_of 0 1
proof
  show "after_gate e \<Longrightarrow> spawn_of e = 0" for e by (cases e) auto
qed simp_all

text \<open>
  C6. Whatever the vendor, the tracker and the commands answer, the verify gate opens at most two
  vendor sessions and spawns at most three times the number of commands it resolved to, and neither
  when it resolves to no command; the protocol gate opens at most one session and spawns nothing.
\<close>

theorem gates_are_bounded:
  "let rv = resolve_verify (e_rx (cx_env cx)) md (qc_verify_fallback (cx_cfg cx));
       t = snd (run_state (verify_gate cx i p md) s);
       u = snd (run_state (protocol_gate cx i p) s)
   in weight session_of t \<le> weight session_of s + (case rv of RunGate _ \<Rightarrow> 2 | _ \<Rightarrow> 0) \<and>
      weight spawn_of t \<le> weight spawn_of s + (case rv of RunGate cmds \<Rightarrow> 3 * length cmds | _ \<Rightarrow> 0) \<and>
      weight session_of u \<le> weight session_of s + 1 \<and> weight spawn_of u \<le> weight spawn_of s"
proof -
  note bound = costsD [OF _ prod.collapse [symmetric], of _ _ _ s]
  from bound [OF sessions.costs_verify_gate [of cx md i p]] bound [OF spawns.costs_verify_gate [of cx md i p]]
    bound [OF sessions.costs_protocol_gate [of cx i p]] bound [OF spawns.costs_protocol_gate [of cx i p]]
  show ?thesis by (simp add: Let_def split: verify_plan.splits)
qed

end
