(* ===== verification/Stop_Safety.thy ===== *)
theory Stop_Safety
  imports Run_Results
begin

text \<open>
  The operator's stop (\<^verbatim>\<open>stop.rs\<close>): once a check of the run has read the flag it opens no session, runs
  no command, waits for nothing and closes nothing, and it reports a stop reason, so the branch is handed
  back as it stands.  The checks are those of \<^verbatim>\<open>queue_run.rs\<close> and \<^verbatim>\<open>execute.rs\<close>: before an issue, after its
  plan, after each execute session, before its gates and where an issue ends without a green outcome.  The
  verify gate polls the flag too, while a command of it runs; that poll only cuts the command
  (\<open>StopSeen\<close>), and \<open>cut_gate_opens_a_session\<close> shows the run working on after it.  The wait for a reset and
  the vendor's session poll it as well, inside the collaborators \<open>e_wait\<close>, \<open>e_plan\<close> and \<open>e_execute\<close>; a wait it
  ends answers \<open>DeadlinePassed\<close>.
\<close>

section \<open>Seeing the stop\<close>

text \<open>A run process never un-asks (\<^verbatim>\<open>stop.rs\<close>).\<close>

definition sticky_stop :: "env \<Rightarrow> bool" where
  "sticky_stop env \<longleftrightarrow> (\<forall>h es. e_stop env h \<longrightarrow> e_stop env (h @ es))"

fun labours :: "event \<Rightarrow> bool" where
  "labours (EvPlan _ _) = True"
| "labours (EvExecute _ _) = True"
| "labours (EvSpawn _ _) = True"
| "labours (EvClose _ _ _) = True"
| "labours (EvWait _ _) = True"
| "labours _ = False"

definition unseen :: "run_state \<Rightarrow> bool" where
  "unseen s \<longleftrightarrow> EvStop True \<notin> set (hist s)"

text \<open>Nothing of the work comes after the stop was seen.\<close>

definition heeds :: "history \<Rightarrow> bool" where
  "heeds h \<longleftrightarrow> (\<forall>before after. h = before @ EvStop True # after \<longrightarrow> list_all (\<lambda>e. \<not> labours e) after)"

lemma heeds_unseen: "EvStop True \<notin> set h \<Longrightarrow> heeds h"
  by (auto simp: heeds_def)

lemma heeds_snoc:
  assumes "heeds h" "\<not> labours e"
  shows "heeds (h @ [e])"
  unfolding heeds_def
proof (intro allI impI)
  fix before after assume split: "h @ [e] = before @ EvStop True # after"
  show "list_all (\<lambda>e. \<not> labours e) after"
  proof (cases after rule: rev_cases)
    case (snoc rest x)
    with split have "h = before @ EvStop True # rest" "x = e" by simp_all
    with assms snoc show ?thesis by (auto simp: heeds_def)
  qed simp
qed

lemma heeds_append: "heeds h \<Longrightarrow> list_all (\<lambda>e. \<not> labours e) es \<Longrightarrow> heeds (h @ es)"
proof (induction es rule: rev_induct)
  case (snoc e es)
  then show ?case using heeds_snoc [of "h @ es" e] by simp
qed simp

text \<open>The stop was seen, and is still there to be seen.\<close>

definition halted :: "env \<Rightarrow> run_state \<Rightarrow> bool" where
  "halted env s \<longleftrightarrow> heeds (hist s) \<and> e_stop env (hist s)"

lemma halted_adds:
  assumes "sticky_stop env" "halted env s" "adds (\<lambda>e. \<not> labours e) s t"
  shows "halted env t"
  using assms by (auto simp: halted_def adds_def sticky_stop_def heeds_append)

lemma halted_seen:
  assumes "sticky_stop env" "unseen s" "e_stop env (hist s)"
  shows "halted env (push_event (EvStop True) s)"
  using assms by (auto simp: halted_def unseen_def sticky_stop_def heeds_unseen intro!: heeds_snoc)

lemma unseen_push [simp]: "unseen (push_event e s) \<longleftrightarrow> unseen s \<and> e \<noteq> EvStop True"
  by (auto simp: unseen_def)

lemma unseen_worked [simp]: "unseen (s\<lparr>worked := w\<rparr>) \<longleftrightarrow> unseen s"
  by (simp add: unseen_def)

section \<open>The steps that do not read the flag\<close>

abbreviation unstop :: "event \<Rightarrow> bool" where
  "unstop e \<equiv> e \<noteq> EvStop True"

interpretation deaf: run_discipline "adds unstop" unstop
  by (rule adds_run_discipline) auto

interpretation deaf_phases: gate_discipline "adds unstop" unstop cx for cx
proof unfold_locales
  show "within (adds unstop) (record_phase c n ph oc u sid)" for c n ph oc u sid
    by (rule record_phase_adds) auto
  show "within (adds unstop) (wait_for_reset cx t)" for t
    by (simp add: within_def wait_for_reset_def wp_simps)
qed auto

lemma all_unstop [simp]: "list_all unstop h \<longleftrightarrow> EvStop True \<notin> set h"
  by (induction h) auto

lemma unseen_adds: "unseen s \<Longrightarrow> adds unstop s t \<Longrightarrow> unseen t"
  by (auto simp: unseen_def adds_def)

lemma unseen_within:
  assumes "within (adds unstop) m" "unseen s"
  shows "wp m (\<lambda>_. unseen) s"
proof -
  have "wp m (\<lambda>_ t. adds unstop s t) s" using assms(1) by (simp add: within_def)
  then show ?thesis by (rule wp_mono) (rule unseen_adds [OF assms(2)])
qed

lemma speaks_unstop: "speaks_for unstop n"
  by simp

lemmas unseen_steps =
  unseen_within [OF deaf.within_prepare_issue [OF speaks_unstop]]
  unseen_within [OF deaf_phases.within_plan_phase [OF speaks_unstop]]
  unseen_within [OF deaf_phases.within_protocol_gate]
  unseen_within [OF deaf_phases.within_verify_gate]
  unseen_within [OF deaf_phases.within_publish_plan_record [OF speaks_unstop]]
  unseen_within [OF deaf_phases.within_execute_once]
  unseen_within [OF deaf_phases.within_resume(1)]
  unseen_within [OF deaf_phases.within_resume(2)]

section \<open>The steps of an issue\<close>

text \<open>A step that starts before the stop is seen ends before it too, or ends the run for it.\<close>

definition calm :: "env \<Rightarrow> (early + 'a \<Rightarrow> bool) \<Rightarrow> early + 'a \<Rightarrow> run_state \<Rightarrow> bool" where
  "calm env Q r t \<longleftrightarrow> unseen t \<or> halted env t \<and> Q r"

fun stops :: "early + 'a \<Rightarrow> bool" where
  "stops (Inl (Stop _)) = True"
| "stops _ = False"

lemma calm_unseen [simp]: "unseen t \<Longrightarrow> calm env Q r t"
  by (simp add: calm_def)

lemma calm_halted: "halted env t \<Longrightarrow> Q r \<Longrightarrow> calm env Q r t"
  by (simp add: calm_def)

lemma halted_worked [simp]: "halted env (s\<lparr>worked := w\<rparr>) \<longleftrightarrow> halted env s"
  by (simp add: halted_def)

lemma halted_push:
  assumes "sticky_stop env" "halted env s" "\<not> labours e"
  shows "halted env (push_event e s)"
  using assms by (auto simp: halted_def sticky_stop_def intro: heeds_snoc)

text \<open>Between two steps the stop is unseen or heeded; a check tells which.\<close>

definition heedful :: "env \<Rightarrow> run_state \<Rightarrow> bool" where
  "heedful env s \<longleftrightarrow> unseen s \<or> halted env s"

lemma heedful_intros [intro]: "unseen s \<Longrightarrow> heedful env s" "halted env s \<Longrightarrow> heedful env s"
  by (simp_all add: heedful_def)

lemma heedful_worked [simp]: "heedful env (s\<lparr>worked := w\<rparr>) \<longleftrightarrow> heedful env s"
  by (simp add: heedful_def)

lemma heedful_push:
  assumes "sticky_stop env" "heedful env s" "\<not> labours e" "e \<noteq> EvStop True"
  shows "heedful env (push_event e s)"
  using assms by (auto simp: heedful_def halted_push)

lemma heedful_heeds: "heedful env s \<Longrightarrow> heeds (hist s)"
  by (auto simp: heedful_def unseen_def halted_def heeds_unseen)

lemma stop_requested_sees:
  assumes "sticky_stop (cx_env cx)" "heedful (cx_env cx) s"
  shows "wp (stop_requested cx) (\<lambda>b t. if b then halted (cx_env cx) t else unseen t) s"
  using assms(2) unfolding heedful_def
proof
  assume "unseen s"
  with halted_seen [OF assms(1)] show ?thesis by (auto simp: stop_requested_def wp_simps)
next
  assume "halted (cx_env cx) s"
  moreover from this have "e_stop (cx_env cx) (hist s)" by (simp add: halted_def)
  ultimately show ?thesis using halted_push [OF assms(1)] by (simp add: stop_requested_def wp_simps)
qed

lemma preflight_calm:
  assumes "sticky_stop (cx_env cx)" "unseen s"
  shows "wp (preflight cx i) (calm (cx_env cx) stops) s"
  unfolding preflight_def wp_bind
  by (rule wp_mono [OF stop_requested_sees [OF assms(1) heedful_intros(1) [OF assms(2)]]])
    (auto simp: wp_simps call_defs intro!: calm_halted halted_push assms(1) split: if_splits option.splits)

lemma fail_unseen: "unseen s \<Longrightarrow> wp (throw (fail cx e)) (\<lambda>_. unseen) s"
  by (auto simp: throw_def fail_def restore_def checkout_force_def rev_list_count_def wp_simps call_defs
      split: sum.splits)

lemma prepare_unseen: "unseen s \<Longrightarrow> wp (prepare cx i) (\<lambda>_. unseen) s"
  unfolding prepare_def wp_bind
  by (erule wp_mono [OF unseen_steps(1)])
    (auto simp: wp_simps Let_def intro: fail_unseen split: sum.splits prepared.splits)

lemma run_plan_calm:
  assumes "sticky_stop (cx_env cx)" "unseen s"
  shows "wp (run_plan fuel cx i) (calm (cx_env cx) stops) s"
proof -
  have failed: "wp (throw (fail cx e)) (calm (cx_env cx) stops) t" if "unseen t" for e t
    by (rule wp_mono [OF fail_unseen [OF that]]) simp
  have checked: "wp (State_Monad.bind (stop_requested cx) f) (calm (cx_env cx) stops) t"
    if "unseen t" "\<And>u. halted (cx_env cx) u \<Longrightarrow> wp (f True) (calm (cx_env cx) stops) u"
      "\<And>u. unseen u \<Longrightarrow> wp (f False) (calm (cx_env cx) stops) u" for t f
    unfolding wp_bind
    by (rule wp_mono [OF stop_requested_sees [OF assms(1) heedful_intros(1) [OF that(1)]]]) (use that(2,3) in \<open>auto split: if_splits\<close>)
  show ?thesis
    unfolding run_plan_def wp_bind [of "plan_phase fuel cx i"]
    apply (rule wp_mono [OF unseen_steps(2) [OF assms(2)]])
    subgoal for planned t
      apply (cases "planned = Inr PlanOutOfFuel")
       apply (simp add: wp_simps)
      apply simp
      apply (rule checked, assumption)
       apply (auto simp: wp_simps record_stop_def intro!: calm_halted halted_push assms(1))[1]
      apply (auto simp: wp_simps limit_stop_def throw_def intro!: failed [unfolded throw_def wp_bind wp_errE]
          split: sum.splits plan_phase.splits)
      done
    done
qed

text \<open>The execute phase may see the stop and still answer; the next check ends the run.\<close>

lemma exec_loop_calm:
  assumes "sticky_stop (cx_env cx)" "unseen s"
  shows "wp (exec_loop fuel cx p acc) (\<lambda>r t. unseen t \<or> halted (cx_env cx) t \<and> (\<exists>x. r = Inr (Some x))) s"
  using assms(2)
proof (induction fuel arbitrary: acc s)
  case 0
  then show ?case by (simp add: wp_simps)
next
  case (Suc fuel)
  let ?Q = "\<lambda>r t. unseen t \<or> halted (cx_env cx) t \<and> (\<exists>x. r = Inr (Some x))"
  have resumed: "wp (keep_resuming cx reset synthetic streak)
      (\<lambda>k. wp (case k of Again \<Rightarrow> exec_loop fuel cx p acc'
        | Abandon \<Rightarrow> okE (Some (oc, False, acc')) | DeadlineCut \<Rightarrow> okE (Some (oc, True, acc'))) ?Q) t"
    if "unseen t" for reset synthetic streak acc' oc t
    by (rule wp_mono [OF unseen_steps(8) [OF that]])
      (use Suc.IH in \<open>auto simp: wp_simps split: resume.splits\<close>)
  have targeted: "wp (resume_target cx oc b)
      (\<lambda>a. wp (case a of None \<Rightarrow> okE (Some (oc, False, acc'))
        | Some (reset, synthetic) \<Rightarrow>
            State_Monad.bind (keep_resuming cx reset synthetic (xa_streak acc'))
              (\<lambda>k. case k of Again \<Rightarrow> exec_loop fuel cx p acc'
                | Abandon \<Rightarrow> okE (Some (oc, False, acc'))
                | DeadlineCut \<Rightarrow> okE (Some (oc, True, acc')))) ?Q) t"
    if "unseen t" for oc b acc' t
    by (rule wp_mono [OF unseen_steps(7) [OF that]])
      (use resumed in \<open>auto simp: wp_simps split: option.splits prod.splits\<close>)
  have checked: "wp (stop_requested cx)
      (\<lambda>stopped. wp (if stopped then okE (Some (oc, False, acc'))
         else State_Monad.bind (resume_target cx oc b) (\<lambda>a. case a of None \<Rightarrow> okE (Some (oc, False, acc'))
        | Some (reset, synthetic) \<Rightarrow>
            State_Monad.bind (keep_resuming cx reset synthetic (xa_streak acc'))
              (\<lambda>k. case k of Again \<Rightarrow> exec_loop fuel cx p acc'
                | Abandon \<Rightarrow> okE (Some (oc, False, acc'))
                | DeadlineCut \<Rightarrow> okE (Some (oc, True, acc'))))) ?Q) t"
    if "unseen t" for oc b acc' t
    by (rule wp_mono [OF stop_requested_sees [OF assms(1) heedful_intros(1) [OF that]]])
      (use targeted in \<open>auto simp: wp_simps split: if_splits\<close>)
  show ?case
    unfolding exec_loop.simps wp_bindE
    by (rule wp_mono [OF unseen_steps(6) [OF Suc.prems]])
      (use checked in \<open>auto simp: wp_bind split: sum.splits prod.splits\<close>)
qed

text \<open>An answer the run still acts on, or one that ends it.\<close>

fun returns :: "early + 'a \<Rightarrow> bool" where
  "returns (Inr _) = True"
| "returns r = stops r"

lemma clear_unseen: "unseen s \<Longrightarrow> wp (clear_file cx f) (\<lambda>_. unseen) s"
  by (auto simp: clear_file_def call_defs wp_simps)

lemma record_phase_halted:
  assumes "sticky_stop env"
  shows "wp (record_phase cx n ph oc u sid)
     (\<lambda>_ t. (unseen s \<longrightarrow> unseen t) \<and> (halted env s \<longrightarrow> halted env t)) s"
  using assms
  by (auto simp: record_phase_def wp_simps Let_def unseen_def halted_def sticky_stop_def intro!: heeds_append)

lemma execute_phase_calm:
  assumes "sticky_stop (cx_env cx)" "unseen s"
  shows "wp (execute_phase fuel cx i p)
     (\<lambda>r t. unseen t \<or> halted (cx_env cx) t \<and> (\<exists>x. r = Inr x \<and> x \<noteq> ExecOutOfFuel)) s"
  unfolding execute_phase_def wp_bind wp_bindE clear_verify_failure_def clear_protocol_failure_def
  apply (rule wp_mono [OF clear_unseen [OF assms(2)]])
  apply (erule wp_mono [OF clear_unseen])
  apply (erule wp_mono [OF exec_loop_calm [OF assms(1)]])
  apply (auto simp: wp_simps Let_def split: sum.splits option.splits
      intro!: wp_mono [OF record_phase_halted [OF assms(1)]])
  done

lemma non_green_calm:
  assumes "sticky_stop (cx_env cx)" "heedful (cx_env cx) s"
  shows "wp (throw (non_green cx n oc b)) (calm (cx_env cx) stops) s"
proof -
  have last: "wp (non_green_stop cx n oc b) (\<lambda>reason. calm (cx_env cx) stops (Inl (Stop reason) :: early + 'a)) t"
    if "heedful (cx_env cx) t" for t
    unfolding non_green_stop_def wp_bind
    by (rule wp_mono [OF stop_requested_sees [OF assms(1) that]])
      (auto simp: wp_simps intro: calm_halted split: if_splits)
  show ?thesis
    unfolding non_green_def throw_def wp_bind
    by (rule wp_mono [OF stop_requested_sees [OF assms]])
      (auto simp: wp_simps intro!: last heedful_push assms(1) split: if_splits)
qed

lemma stop_if_requested_calm:
  assumes "sticky_stop (cx_env cx)" "heedful (cx_env cx) s"
  shows "wp (stop_if_requested cx n) (calm (cx_env cx) stops) s"
  unfolding stop_if_requested_def wp_bind
  by (rule wp_mono [OF stop_requested_sees [OF assms]])
    (auto simp: wp_simps record_stop_def intro!: calm_halted halted_push assms(1) split: if_splits)

lemma run_execute_calm:
  assumes "sticky_stop (cx_env cx)" "unseen s"
  shows "wp (run_execute fuel cx i p executed) (calm (cx_env cx) returns) s"
proof -
  let ?m = "if executed then do {
              clear_verify_failure cx;
              clear_protocol_failure cx;
              okE (ExecDone usage_default)
            }
            else execute_phase fuel cx i p"
  have resume: "wp ?m (\<lambda>r t. unseen t \<or> halted (cx_env cx) t \<and> (\<exists>x. r = Inr x \<and> x \<noteq> ExecOutOfFuel)) s"
    using assms execute_phase_calm [OF assms]
    by (auto simp: wp_bind wp_okE clear_verify_failure_def clear_protocol_failure_def
        intro!: wp_mono [OF clear_unseen])
  have failed: "wp (throw (fail cx e)) (calm (cx_env cx) returns) t" if "unseen t" for e t
    by (rule wp_mono [OF fail_unseen [OF that]]) simp
  have ended: "wp (throw (non_green cx (issue_number i) oc b)) (calm (cx_env cx) returns) t"
    if "heedful (cx_env cx) t" for oc b t
    by (rule wp_mono [OF non_green_calm [OF assms(1) that]])
      (auto simp: calm_def elim: stops.elims)
  show ?thesis
    unfolding run_execute_def wp_bind [of ?m]
    apply (rule wp_mono [OF resume])
    apply (auto simp: wp_simps intro: calm_halted intro!: failed ended
        split: sum.splits error.splits exec_phase.splits)
    done
qed

lemma limit_stop_unseen: "unseen s \<Longrightarrow> wp (throw (limit_stop n reset)) (\<lambda>_. unseen) s"
  by (simp add: throw_def limit_stop_def wp_simps)

lemma gates_unseen:
  assumes "unseen s"
  shows "wp (run_protocol cx i p) (\<lambda>_. unseen) s" "wp (run_verify cx i p md) (\<lambda>_. unseen) s"
proof -
  show "wp (run_protocol cx i p) (\<lambda>_. unseen) s"
    unfolding run_protocol_def wp_bindE wp_map_err
    by (rule wp_mono [OF unseen_steps(3) [OF assms]])
      (auto simp: wp_simps intro: limit_stop_unseen split: sum.splits protocol_gate.splits)
  show "wp (run_verify cx i p md) (\<lambda>_. unseen) s"
    unfolding run_verify_def wp_bindE wp_map_err
    by (rule wp_mono [OF unseen_steps(4) [OF assms]])
      (auto simp: park_for_human_def call_defs wp_simps intro: limit_stop_unseen
        split: sum.splits verify_gate.splits)
qed

lemma close_unseen:
  assumes "unseen s"
  shows "wp (map_err Fail (close_and_record cx i p lnt u1 u2 u3)) (\<lambda>_. unseen) s"
  using assms
  by (auto simp: close_and_record_def close_issue_def Let_def wp_simps read_plan_def call_defs
      intro!: unseen_steps(5) split: option.splits sum.splits)

section \<open>The run\<close>

lemma calm_bindE:
  assumes "wp m (calm env Q) s"
    and "\<And>a t. unseen t \<Longrightarrow> wp (f a) (calm env stops) t"
    and "\<And>a t. Q (Inr a) \<Longrightarrow> halted env t \<Longrightarrow> wp (f a) (calm env stops) t"
    and "\<And>e. Q (Inl e) \<Longrightarrow> \<exists>x. e = Stop x"
  shows "wp (bindE m f) (calm env stops) s"
  unfolding wp_bindE
  by (rule wp_mono [OF assms(1)]) (use assms(2-) in \<open>fastforce simp: calm_def split: sum.splits\<close>)

lemma stops_simps [simp]: "stops (Inr a) = False" "stops (Inl e) \<longleftrightarrow> (\<exists>x. e = Stop x)"
  "returns (Inl e) \<longleftrightarrow> (\<exists>x. e = Stop x)"
  by (cases e; simp)+

lemma unseen_bindE:
  assumes "wp m (\<lambda>_. unseen) s" and "\<And>a t. unseen t \<Longrightarrow> wp (f a) (\<lambda>_. unseen) t"
  shows "wp (bindE m f) (\<lambda>_. unseen) s"
  unfolding wp_bindE
  by (rule wp_mono [OF assms(1)]) (use assms(2) in \<open>auto split: sum.splits\<close>)

lemma calm_of_unseen: "wp m (\<lambda>_. unseen) s \<Longrightarrow> wp m (calm env Q) s"
  by (erule wp_mono) simp

lemma run_issue_calm:
  assumes "sticky_stop (cx_env cx)" "unseen s"
  shows "wp (run_issue fuel cx i) (calm (cx_env cx) stops) s"
proof -
  have gated: "wp (bindE (stop_if_requested cx n) (\<lambda>_.
         bindE (run_protocol cx j p) (\<lambda>(lnt, plan_md, protocol_usage).
         bindE (run_verify cx j p plan_md) (\<lambda>repair_usage.
           map_err Fail (close_and_record cx j p lnt exec_usage protocol_usage repair_usage)))))
      (calm (cx_env cx) stops) t"
    if "heedful (cx_env cx) t" for n j p exec_usage t
    by (rule calm_bindE [OF stop_if_requested_calm [OF assms(1) that]])
      (auto intro!: calm_of_unseen unseen_bindE gates_unseen close_unseen)
  have executed: "wp (bindE (run_execute fuel cx j p ex) (\<lambda>exec_usage.
         bindE (stop_if_requested cx n) (\<lambda>_.
         bindE (run_protocol cx j p) (\<lambda>(lnt, plan_md, protocol_usage).
         bindE (run_verify cx j p plan_md) (\<lambda>repair_usage.
           map_err Fail (close_and_record cx j p lnt exec_usage protocol_usage repair_usage))))))
      (calm (cx_env cx) stops) t" if "unseen t" for n j p ex t
    by (rule calm_bindE [OF run_execute_calm [OF assms(1) that] gated gated]) auto
  have planned: "wp (if qc_dry_run (cx_cfg cx) then do {
         push_worked (result (issue_number j) StPlanned);
         okE ()
       }
       else
         bindE (run_execute fuel cx j p ex) (\<lambda>exec_usage.
         bindE (stop_if_requested cx (issue_number j)) (\<lambda>_.
         bindE (run_protocol cx j p) (\<lambda>(lnt, plan_md, protocol_usage).
         bindE (run_verify cx j p plan_md) (\<lambda>repair_usage.
           map_err Fail (close_and_record cx j p lnt exec_usage protocol_usage repair_usage))))))
      (calm (cx_env cx) stops) t" if "unseen t" for j p ex t
    using that executed by (auto simp: wp_simps simp del: wp_bindE)
  show ?thesis
    unfolding run_issue_def
    apply (rule calm_bindE [OF preflight_calm [OF assms]])
      apply (rule calm_bindE [OF calm_of_unseen [where Q = stops, OF prepare_unseen]], assumption)
        apply (rule calm_bindE [OF run_plan_calm [OF assms(1)]], assumption)
          apply (simp only: split_paired_all prod.case planned)
         apply auto
    done
qed

lemma queue_loop_calm:
  assumes "sticky_stop (cx_env cx)" "unseen s"
  shows "wp (queue_loop fuel cx queue)
     (\<lambda>r t. unseen t \<or> halted (cx_env cx) t \<and> (\<exists>x. r = Inr (Some x))) s"
  using assms(2)
proof (induction queue arbitrary: s)
  case Nil
  then show ?case by (simp add: wp_simps)
next
  case (Cons i queue)
  show ?case
    unfolding queue_loop.simps wp_bind
    by (rule wp_mono [OF run_issue_calm [OF assms(1) Cons.prems]])
      (use Cons.IH in \<open>auto simp: wp_simps calm_def split: sum.splits early.splits\<close>)
qed

lemma opened_unseen: "extends (opens_run m) start_state s \<Longrightarrow> unseen s"
  by (auto simp: extends_def start_state_def unseen_def list_all_iff dest!: bspec [where x = "EvStop True"])

lemma finish_run_adds: "within (adds (\<lambda>e. \<not> labours e \<and> unstop e)) (finish_run cx cref ut stop)"
proof -
  have "quiet e \<Longrightarrow> \<not> labours e \<and> unstop e" for e by (cases e) auto
  then have disc: "run_discipline (adds (\<lambda>e. \<not> labours e \<and> unstop e)) (\<lambda>e. \<not> labours e \<and> unstop e)"
    by (rule adds_run_discipline)
  show ?thesis
    by (rule run_discipline.within_finish_run [OF disc]
        run_discipline.within_close_branch_allowed [OF disc])+ simp_all
qed

text \<open>
  C4. A stop is heeded at the run's checks.  However a run ends, once one of its checks between the steps of
  an issue has read the operator's stop it starts no session, runs no command, waits for no reset and closes
  no issue, and a run that read it there and still returns its report gives a stop reason; the flag is one
  a run never clears.  The polls inside a running gate command, a session or a wait for a reset are not such
  checks: the one of a gate only cuts the command, which then counts as failed and can be followed by a repair
  session (\<open>cut_gate_opens_a_session\<close>).
\<close>

theorem stop_is_heeded:
  assumes "sticky_stop env" "run_queue fuel env cfg queue = (r, s')"
  shows "heeds (hist s') \<and>
         (if EvStop True \<in> set (hist s') then \<exists>rep. r = Inr rep \<and> qr_stop rep \<noteq> None else True)"
  using assms(2)
proof (cases rule: run_queue_cases)
  case (opening_failed e)
  then show ?thesis using opened_unseen by (auto simp: unseen_def heeds_unseen)
next
  case (loop_failed cx s1 e)
  have "unseen s'"
    using wp_run [OF queue_loop_calm loop_failed(5)] assms(1) loop_failed(3) opened_unseen [OF loop_failed(4)]
    by auto
  then show ?thesis by (auto simp: unseen_def heeds_unseen)
next
  case (finished cx cref ut s1 stop s2 rep)
  have calm: "unseen s2 \<or> halted env s2 \<and> stop \<noteq> None"
    using wp_run [OF queue_loop_calm finished(5)] assms(1) finished(3) opened_unseen [OF finished(4)]
    by auto
  have adds: "adds (\<lambda>e. \<not> labours e \<and> unstop e) s2 s'"
    by (rule withinD [OF finish_run_adds finished(6)])
  have "qr_stop rep = stop" using wp_run [OF finish_run_report finished(6)] by simp
  from calm show ?thesis
  proof
    assume "unseen s2"
    then have "unseen s'" by (rule unseen_adds) (rule adds_weaken [OF adds], simp)
    then show ?thesis by (auto simp: unseen_def heeds_unseen)
  next
    assume halted: "halted env s2 \<and> stop \<noteq> None"
    have "heeds (hist s')"
      using halted halted_adds [OF assms(1) _ adds_weaken [OF adds]] by (auto simp: halted_def)
    with halted \<open>qr_stop rep = stop\<close> finished(1) show ?thesis by auto
  qed
qed

text \<open>
  An operator who asks for the stop while a gate command runs: the command is cut, and the gate opens a
  repair session before any check of the run reads the flag.
\<close>

fun cut_by_stop :: "event \<Rightarrow> bool" where
  "cut_by_stop (EvSpawn _ (Ran StopSeen _ _)) = True"
| "cut_by_stop _ = False"

fun executes :: "event \<Rightarrow> bool" where
  "executes (EvExecute _ _) = True"
| "executes _ = False"

definition gate_stopped_env :: env where
  "gate_stopped_env = sample_env\<lparr>e_spawn := \<lambda>_ _. Ran StopSeen [] 1, e_stop := list_ex cut_by_stop\<rparr>"

lemma cut_gate_opens_a_session:
  "\<exists>r s'. run_queue 1 gate_stopped_env sample_cfg [sample_issue 7] = (r, s') \<and>
     list_ex cut_by_stop (hist s') \<and> list_ex executes (dropWhile (\<lambda>e. \<not> cut_by_stop e) (hist s'))"
proof -
  have "wp (run_queue_with 1 gate_stopped_env sample_cfg [sample_issue 7])
      (\<lambda>r s'. list_ex cut_by_stop (hist s') \<and>
         list_ex executes (dropWhile (\<lambda>e. \<not> cut_by_stop e) (hist s'))) start_state"
    by (simp add: gate_stopped_env_def step_eval world_eval pure_eval repair_def VERIFY_MAX_REPAIRS_def
        write_verify_failure_def cong: wp_weak_cong) (simp add: start_state_def)
  then show ?thesis by (auto simp: wp_def run_queue_def split: prod.splits)
qed

text \<open>An operator who asks for the stop while the execute session runs.\<close>

definition interrupted_env :: env where
  "interrupted_env = sample_env\<lparr>e_stop := list_ex executes\<rparr>"

lemma interrupted_run:
  "\<exists>rep s'. run_queue 1 interrupted_env sample_cfg [sample_issue 7] = (Inr rep, s') \<and>
     list_ex executes (hist s') \<and> EvStop True \<in> set (hist s')"
proof -
  have "wp (run_queue_with 1 interrupted_env sample_cfg [sample_issue 7])
      (\<lambda>r s'. (\<exists>rep. r = Inr rep) \<and> list_ex executes (hist s') \<and> EvStop True \<in> set (hist s')) start_state"
    by (simp add: interrupted_env_def step_eval world_eval pure_eval cong: wp_weak_cong)
  then show ?thesis by (auto simp: wp_def run_queue_def split: prod.splits)
qed

theorem stop_is_heeded_witness:
  "\<exists>rep s'. run_queue 1 interrupted_env sample_cfg [sample_issue 7] = (Inr rep, s') \<and>
     list_ex executes (hist s') \<and> EvStop True \<in> set (hist s') \<and> heeds (hist s') \<and> qr_stop rep \<noteq> None"
proof -
  obtain rep s' where run: "run_queue 1 interrupted_env sample_cfg [sample_issue 7] = (Inr rep, s')"
      "list_ex executes (hist s')" "EvStop True \<in> set (hist s')"
    using interrupted_run by blast
  have "sticky_stop interrupted_env" by (auto simp: sticky_stop_def interrupted_env_def)
  from stop_is_heeded [OF this run(1)] run show ?thesis by auto
qed

end
