(* ===== verification/Emit.thy ===== *)
theory Emit
  imports World
begin

text \<open>
  The log events of \<^verbatim>\<open>emit.rs\<close>: one function per event, with its message, its field names and the
  encoding of each field.  A log event is what the \<^verbatim>\<open>tracing\<close> crate hands a subscriber: the level, the
  message, and the fields in order, each with the method of \<^verbatim>\<open>Visit\<close> it is recorded by.  A field
  written with \<^verbatim>\<open>%\<close> or \<^verbatim>\<open>?\<close> is recorded by \<^verbatim>\<open>record_debug\<close> as its rendering.  Counts and issue numbers
  are naturals, the 64-bit token counters enter by \<open>unat\<close>, and a 64-bit float is its bit pattern.
\<close>

section \<open>Log events\<close>

datatype level = TRACE | DEBUG | INFO | WARN | ERROR

type_synonym f64 = "64 word"

datatype field_value = FU64 nat | FI64 int | FF64 f64 | FStr string | FDebug string

record log_event =
  le_level :: level
  le_message :: string
  le_fields :: "(string \<times> field_value) list"

definition info :: "(string \<times> field_value) list \<Rightarrow> string \<Rightarrow> log_event" where
  "info fs message = \<lparr>le_level = INFO, le_message = message, le_fields = fs\<rparr>"

text \<open>The \<^verbatim>\<open>Debug\<close> rendering of a list of numbers, and of an outcome; \<open>quote\<close> is that of a string.\<close>

definition debug_list :: "nat list \<Rightarrow> string" where
  "debug_list ns = ''['' @ join '', '' (map show_nat ns) @ '']''"

fun debug_outcome :: "(string \<Rightarrow> string) \<Rightarrow> outcome \<Rightarrow> string" where
  "debug_outcome quote Done = ''Done''"
| "debug_outcome quote (Blocked why) = ''Blocked('' @ quote why @ '')''"
| "debug_outcome quote Timeout = ''Timeout''"
| "debug_outcome quote Stuck = ''Stuck''"
| "debug_outcome quote (Limit None) = ''Limit(None)''"
| "debug_outcome quote (Limit (Some r)) = ''Limit(Some('' @ quote (ra_text r) @ ''))''"

text \<open>\<^verbatim>\<open>serde_json::Value\<close>; an object is its list of members, in the order of
  their keys.\<close>

datatype json_number = PosInt nat | NegInt int | FloatNum f64

datatype json = JNull | JBool bool | JNum json_number | JStr string | JArr "json list"
  | JObj "(string \<times> json) list"

text \<open>\<^verbatim>\<open>plan_steps_json\<close>, with \<^verbatim>\<open>serde_json\<close>'s writer as the parameter \<open>to_json\<close>.\<close>

fun step_status_wire :: "step_status \<Rightarrow> string" where
  "step_status_wire OpenStep = ''open''"
| "step_status_wire CheckedStep = ''checked''"
| "step_status_wire NoticedStep = ''noticed''"

definition step_json :: "string \<times> step_status \<Rightarrow> json" where
  "step_json p = JObj [(''status'', JStr (step_status_wire (snd p))), (''text'', JStr (fst p))]"

definition plan_steps_json :: "(json \<Rightarrow> string) \<Rightarrow> (string \<times> step_status) list \<Rightarrow> string" where
  "plan_steps_json to_json steps = to_json (JArr (map step_json steps))"

section \<open>Messages\<close>

definition ISSUE_STARTED_MSG :: string where
  "ISSUE_STARTED_MSG = ''issue started''"
definition PLAN_WRITTEN_MSG :: string where
  "PLAN_WRITTEN_MSG = ''plan written''"
definition PLAN_OPENED_MSG :: string where
  "PLAN_OPENED_MSG = ''plan opened''"
definition PLAN_CLOSED_MSG :: string where
  "PLAN_CLOSED_MSG = ''plan closed''"
definition ISSUE_CLOSED_MSG :: string where
  "ISSUE_CLOSED_MSG = ''green '' @ em_dash @ '' issue closed''"
definition NEEDS_SPLIT_MSG :: string where
  "NEEDS_SPLIT_MSG = ''bundle plan '' @ em_dash @ '' needs split''"
definition BLOCKED_BY_OPEN_MSG :: string where
  "BLOCKED_BY_OPEN_MSG = ''blocked by open issue(s) '' @ em_dash @ '' skipping''"
definition BLOCKED_WAITING_HUMAN_MSG :: string where
  "BLOCKED_WAITING_HUMAN_MSG = ''blocked '' @ em_dash @ '' waiting on human''"
definition NON_GREEN_MSG :: string where
  "NON_GREEN_MSG = ''non-green '' @ em_dash @ '' stopping run''"
definition DEADLINE_PASSED_MSG :: string where
  "DEADLINE_PASSED_MSG = ''deadline passed '' @ em_dash @ '' not starting issue''"
definition STOP_BEFORE_LABEL_MSG :: string where
  "STOP_BEFORE_LABEL_MSG = ''stop-before label '' @ em_dash @ '' halting run before this issue''"
definition RUN_STOPPED_MSG :: string where
  "RUN_STOPPED_MSG = ''operator stop '' @ em_dash @ '' halting run''"
definition HUMAN_RETURN_LABEL_MSG :: string where
  "HUMAN_RETURN_LABEL_MSG = ''human-return label '' @ em_dash @ '' skipping issue''"
definition VERIFY_GATE_FAILED_MSG :: string where
  "VERIFY_GATE_FAILED_MSG = ''verify gate failed '' @ em_dash @ '' skipping issue''"
definition USAGE_LIMIT_WAITING_MSG :: string where
  "USAGE_LIMIT_WAITING_MSG = ''usage limit '' @ em_dash @ '' waiting for reset''"
definition RESET_REACHED_MSG :: string where
  "RESET_REACHED_MSG = ''reset reached '' @ em_dash @ '' resuming''"
definition IDLE_REAPED_MSG :: string where
  "IDLE_REAPED_MSG = ''idle watchdog '' @ em_dash @ '' no progress, reaping the child''"
definition API_DEGRADED_MSG :: string where
  "API_DEGRADED_MSG = ''api degraded '' @ em_dash @ '' child retrying''"
definition API_RECOVERED_MSG :: string where
  "API_RECOVERED_MSG = ''api recovered '' @ em_dash @ '' child resuming''"
definition HOOKS_UNPROVEN_ALLOWED_MSG :: string where
  "HOOKS_UNPROVEN_ALLOWED_MSG = ''hooks not proven '' @ em_dash @ '' the session goes on without the proof''"
definition AGENT_STATE_MSG :: string where
  "AGENT_STATE_MSG = ''agent state''"
definition PLANNING_MSG :: string where
  "PLANNING_MSG = ''planning''"
definition EXECUTING_MSG :: string where
  "EXECUTING_MSG = ''executing''"
definition QUEUE_BUILT_MSG :: string where
  "QUEUE_BUILT_MSG = ''queue built''"
definition RUN_STARTED_MSG :: string where
  "RUN_STARTED_MSG = ''run started''"
definition RUN_FINISHED_MSG :: string where
  "RUN_FINISHED_MSG = ''run finished''"
definition RUN_SKIPPED_MSG :: string where
  "RUN_SKIPPED_MSG = ''run skipped''"
definition KNOWLEDGE_CONSOLIDATING_MSG :: string where
  "KNOWLEDGE_CONSOLIDATING_MSG = ''consolidating knowledge''"
definition KNOWLEDGE_CONSOLIDATED_MSG :: string where
  "KNOWLEDGE_CONSOLIDATED_MSG = ''knowledge consolidated''"

lemmas message_defs = ISSUE_STARTED_MSG_def PLAN_WRITTEN_MSG_def PLAN_OPENED_MSG_def PLAN_CLOSED_MSG_def
  ISSUE_CLOSED_MSG_def NEEDS_SPLIT_MSG_def BLOCKED_BY_OPEN_MSG_def
  BLOCKED_WAITING_HUMAN_MSG_def NON_GREEN_MSG_def DEADLINE_PASSED_MSG_def
  STOP_BEFORE_LABEL_MSG_def RUN_STOPPED_MSG_def HUMAN_RETURN_LABEL_MSG_def
  VERIFY_GATE_FAILED_MSG_def USAGE_LIMIT_WAITING_MSG_def RESET_REACHED_MSG_def
  IDLE_REAPED_MSG_def API_DEGRADED_MSG_def API_RECOVERED_MSG_def
  HOOKS_UNPROVEN_ALLOWED_MSG_def AGENT_STATE_MSG_def PLANNING_MSG_def EXECUTING_MSG_def
  QUEUE_BUILT_MSG_def RUN_STARTED_MSG_def RUN_FINISHED_MSG_def RUN_SKIPPED_MSG_def
  KNOWLEDGE_CONSOLIDATING_MSG_def KNOWLEDGE_CONSOLIDATED_MSG_def

text \<open>No two events share a message.\<close>

definition messages :: "string list" where
  "messages = [ISSUE_STARTED_MSG, PLAN_WRITTEN_MSG, PLAN_OPENED_MSG, PLAN_CLOSED_MSG, ISSUE_CLOSED_MSG,
    NEEDS_SPLIT_MSG, BLOCKED_BY_OPEN_MSG, BLOCKED_WAITING_HUMAN_MSG, NON_GREEN_MSG,
    DEADLINE_PASSED_MSG, STOP_BEFORE_LABEL_MSG, RUN_STOPPED_MSG, HUMAN_RETURN_LABEL_MSG,
    VERIFY_GATE_FAILED_MSG, USAGE_LIMIT_WAITING_MSG, RESET_REACHED_MSG, IDLE_REAPED_MSG,
    API_DEGRADED_MSG, API_RECOVERED_MSG, HOOKS_UNPROVEN_ALLOWED_MSG, AGENT_STATE_MSG,
    PLANNING_MSG, EXECUTING_MSG, QUEUE_BUILT_MSG, RUN_STARTED_MSG, RUN_FINISHED_MSG,
    RUN_SKIPPED_MSG, KNOWLEDGE_CONSOLIDATING_MSG, KNOWLEDGE_CONSOLIDATED_MSG]"

lemma messages_distinct: "distinct messages"
  by (simp add: messages_def message_defs em_dash_def)

section \<open>The runner's events\<close>

definition usage_fields :: "usage \<Rightarrow> (string \<times> field_value) list" where
  "usage_fields u =
     [(''up'', FU64 (unat (u_input u))), (''cr'', FU64 (unat (u_cache_read u))),
        (''cw'', FU64 (unat (u_cache_creation u))), (''out'', FU64 (unat (u_output u)))]"

definition model_field :: "usage \<Rightarrow> (string \<times> field_value) list" where
  "model_field u = [(''model'', FStr (case u_model u of Some m \<Rightarrow> m | None \<Rightarrow> []))]"

definition issue_started_event :: "issue_no \<Rightarrow> string \<Rightarrow> log_event" where
  "issue_started_event n title =
     info [(''number'', FU64 n), (''title'', FDebug title)] ISSUE_STARTED_MSG"

definition plan_written_event :: "issue_no \<Rightarrow> nat \<Rightarrow> usage \<Rightarrow> string \<Rightarrow> log_event" where
  "plan_written_event n open_steps u steps_json =
     info ([(''number'', FU64 n), (''open_steps'', FU64 open_steps)] @ usage_fields u @
       model_field u @ [(''steps_json'', FDebug steps_json)]) PLAN_WRITTEN_MSG"

definition plan_opened_event :: "issue_no \<Rightarrow> string \<Rightarrow> log_event" where
  "plan_opened_event n plan_md =
     info [(''number'', FU64 n), (''plan_md'', FDebug plan_md)] PLAN_OPENED_MSG"

definition plan_closed_event :: "issue_no \<Rightarrow> string \<Rightarrow> log_event" where
  "plan_closed_event n plan_md =
     info [(''number'', FU64 n), (''plan_md'', FDebug plan_md)] PLAN_CLOSED_MSG"

definition issue_closed_event :: "issue_no \<Rightarrow> u64 \<Rightarrow> u64 \<Rightarrow> usage \<Rightarrow> log_event" where
  "issue_closed_event n tokens spawns u =
     info ([(''number'', FU64 n), (''tokens'', FU64 (unat tokens)), (''invocations'', FU64 (unat spawns))] @
       usage_fields u @ model_field u) ISSUE_CLOSED_MSG"

definition needs_split_event :: "issue_no \<Rightarrow> log_event" where
  "needs_split_event n =
     info [(''number'', FU64 n)] NEEDS_SPLIT_MSG"

definition blocked_by_open_event :: "issue_no \<Rightarrow> issue_no list \<Rightarrow> log_event" where
  "blocked_by_open_event n blockers =
     info [(''number'', FU64 n), (''blockers'', FDebug (debug_list blockers))] BLOCKED_BY_OPEN_MSG"

definition blocked_waiting_human_event :: "issue_no \<Rightarrow> issue_no list \<Rightarrow> issue_no list \<Rightarrow> log_event" where
  "blocked_waiting_human_event n blockers human =
     info [(''number'', FU64 n), (''blockers'', FDebug (debug_list blockers)),
        (''human_blockers'', FDebug (debug_list human))] BLOCKED_WAITING_HUMAN_MSG"

definition non_green_event :: "(string \<Rightarrow> string) \<Rightarrow> issue_no \<Rightarrow> outcome \<Rightarrow> log_event" where
  "non_green_event quote n oc =
     info [(''number'', FU64 n), (''outcome'', FDebug (debug_outcome quote oc))] NON_GREEN_MSG"

definition deadline_passed_event :: "issue_no \<Rightarrow> log_event" where
  "deadline_passed_event n =
     info [(''number'', FU64 n)] DEADLINE_PASSED_MSG"

definition stop_before_label_event :: "issue_no \<Rightarrow> log_event" where
  "stop_before_label_event n =
     info [(''number'', FU64 n)] STOP_BEFORE_LABEL_MSG"

definition run_stopped_event :: "issue_no option \<Rightarrow> log_event" where
  "run_stopped_event number =
     info (case number of Some n \<Rightarrow> [(''number'', FU64 n)] | None \<Rightarrow> []) RUN_STOPPED_MSG"

definition human_return_label_event :: "issue_no \<Rightarrow> string \<Rightarrow> log_event" where
  "human_return_label_event n label =
     info [(''number'', FU64 n), (''label'', FDebug label)] HUMAN_RETURN_LABEL_MSG"

definition verify_gate_failed_event :: "issue_no \<Rightarrow> string \<Rightarrow> log_event" where
  "verify_gate_failed_event n summary =
     info [(''number'', FU64 n), (''summary'', FDebug summary)] VERIFY_GATE_FAILED_MSG"

definition usage_limit_waiting_event :: "string \<Rightarrow> string \<Rightarrow> int \<Rightarrow> log_event" where
  "usage_limit_waiting_event reset hint target_epoch =
     info [(''reset'', FDebug reset), (''hint'', FDebug hint),
        (''target_epoch'', FI64 target_epoch)] USAGE_LIMIT_WAITING_MSG"

definition reset_reached_event :: "log_event" where
  "reset_reached_event =
     info [] RESET_REACHED_MSG"

section \<open>The events of the adapters\<close>

definition idle_reaped_event :: "nat \<Rightarrow> log_event" where
  "idle_reaped_event minutes =
     info [(''idle_minutes'', FU64 minutes)] IDLE_REAPED_MSG"

definition api_degraded_event :: "log_event" where
  "api_degraded_event =
     info [] API_DEGRADED_MSG"

definition api_recovered_event :: "log_event" where
  "api_recovered_event =
     info [] API_RECOVERED_MSG"

definition hooks_unproven_allowed_event :: "string \<Rightarrow> log_event" where
  "hooks_unproven_allowed_event cause =
     info [(''cause'', FDebug cause)] HOOKS_UNPROVEN_ALLOWED_MSG"

definition agent_state_event :: "string \<Rightarrow> string \<Rightarrow> string option \<Rightarrow> log_event" where
  "agent_state_event st since detail =
     info ([(''state'', FStr st), (''since'', FStr since),
        (''detail'', FStr (case detail of Some d \<Rightarrow> d | None \<Rightarrow> []))]) AGENT_STATE_MSG"

definition planning_event :: "string \<Rightarrow> string \<Rightarrow> string \<Rightarrow> string \<Rightarrow> log_event" where
  "planning_event cmd model effort variant =
     info [(''cmd'', FDebug cmd), (''model'', FDebug model), (''effort'', FDebug effort),
        (''variant'', FDebug variant)] PLANNING_MSG"

definition executing_event :: "string \<Rightarrow> nat \<Rightarrow> string \<Rightarrow> string \<Rightarrow> string \<Rightarrow> log_event" where
  "executing_event cmd budget_min model effort variant =
     info [(''cmd'', FDebug cmd), (''budget_min'', FU64 budget_min),
        (''model'', FDebug model), (''effort'', FDebug effort), (''variant'', FDebug variant)] EXECUTING_MSG"

section \<open>The events of the command line\<close>

definition queue_built_event :: "nat \<Rightarrow> string \<Rightarrow> nat \<Rightarrow> string \<Rightarrow> string \<Rightarrow> string \<Rightarrow> log_event" where
  "queue_built_event k order stop_before issues_json assignee_filter scope =
     info [(''count'', FU64 k), (''order'', FDebug order), (''stop_before'', FU64 stop_before),
        (''issues_json'', FDebug issues_json), (''assignee_filter'', FDebug assignee_filter),
        (''scope'', FDebug scope)] QUEUE_BUILT_MSG"

definition run_started_event :: "string \<Rightarrow> string \<Rightarrow> string \<Rightarrow> string \<Rightarrow> string \<Rightarrow> string \<Rightarrow> f64 \<Rightarrow> log_event" where
  "run_started_event repo queue_labels agent plan_agent branch_mode base deadline_hours =
     info [(''repo'', FDebug repo), (''queue_labels'', FDebug queue_labels), (''agent'', FStr agent),
        (''plan_agent'', FStr plan_agent), (''branch_mode'', FStr branch_mode), (''base'', FDebug base),
        (''deadline_hours'', FF64 deadline_hours)] RUN_STARTED_MSG"

definition run_finished_event :: "string \<Rightarrow> nat \<Rightarrow> nat \<Rightarrow> nat \<Rightarrow> nat \<Rightarrow> nat \<Rightarrow> string \<Rightarrow> usage \<Rightarrow> nat \<Rightarrow> log_event" where
  "run_finished_event outcome finished skipped issues blocked hitl issues_json u secs =
     info ([(''outcome'', FStr outcome), (''issues_done'', FU64 finished), (''issues_skipped'', FU64 skipped),
        (''issues_total'', FU64 issues), (''issues_blocked'', FU64 blocked), (''issues_hitl'', FU64 hitl),
        (''issues_json'', FDebug issues_json)] @ usage_fields u @
       [(''duration_s'', FU64 secs)]) RUN_FINISHED_MSG"

definition run_skipped_event :: "string \<Rightarrow> log_event" where
  "run_skipped_event reason =
     info [(''reason'', FDebug reason)] RUN_SKIPPED_MSG"

definition knowledge_consolidating_event :: "nat \<Rightarrow> log_event" where
  "knowledge_consolidating_event k =
     info [(''count'', FU64 k)] KNOWLEDGE_CONSOLIDATING_MSG"

definition knowledge_consolidated_event :: "nat \<Rightarrow> log_event" where
  "knowledge_consolidated_event k =
     info [(''count'', FU64 k)] KNOWLEDGE_CONSOLIDATED_MSG"

lemmas event_defs = info_def usage_fields_def model_field_def
  issue_started_event_def plan_written_event_def plan_opened_event_def plan_closed_event_def
  issue_closed_event_def needs_split_event_def blocked_by_open_event_def
  blocked_waiting_human_event_def non_green_event_def deadline_passed_event_def
  stop_before_label_event_def run_stopped_event_def human_return_label_event_def
  verify_gate_failed_event_def usage_limit_waiting_event_def reset_reached_event_def
  idle_reaped_event_def api_degraded_event_def api_recovered_event_def
  hooks_unproven_allowed_event_def agent_state_event_def planning_event_def
  executing_event_def queue_built_event_def run_started_event_def run_finished_event_def
  run_skipped_event_def knowledge_consolidating_event_def knowledge_consolidated_event_def

section \<open>The emissions of a run\<close>

text \<open>
  The log event of each emission of the runner model.
\<close>

fun log_of :: "(string \<Rightarrow> string) \<Rightarrow> (json \<Rightarrow> string) \<Rightarrow> emission \<Rightarrow> log_event" where
  "log_of quote to_json (RunStopped n) = run_stopped_event n"
| "log_of quote to_json (EmDeadlinePassed n) = deadline_passed_event n"
| "log_of quote to_json (StopBeforeLabel n) = stop_before_label_event n"
| "log_of quote to_json (HumanReturnLabel n l) = human_return_label_event n l"
| "log_of quote to_json (BlockedByOpen n bs) = blocked_by_open_event n bs"
| "log_of quote to_json (BlockedWaitingHuman n bs hs) = blocked_waiting_human_event n bs hs"
| "log_of quote to_json (IssueStarted n t) = issue_started_event n t"
| "log_of quote to_json (PlanWritten n k u steps) = plan_written_event n k u (plan_steps_json to_json steps)"
| "log_of quote to_json (PlanOpened n md) = plan_opened_event n md"
| "log_of quote to_json (NeedsSplit n) = needs_split_event n"
| "log_of quote to_json (EmNonGreen n oc) = non_green_event quote n oc"
| "log_of quote to_json (VerifyGateFailed n s) = verify_gate_failed_event n s"
| "log_of quote to_json (IssueClosed n t k u) = issue_closed_event n t k u"
| "log_of quote to_json (PlanClosed n md) = plan_closed_event n md"

end
