(* ===== verification/Event_Fields.thy ===== *)
theory Event_Fields
  imports Emit
begin

text \<open>
  The field extractor \<^verbatim>\<open>EventFields\<close> of \<^verbatim>\<open>ralphy-cli/src/runstate/fields.rs\<close>: one optional slot per
  field of every event consumed, filled by the \<^verbatim>\<open>Visit\<close> method the field is recorded by.
\<close>

section \<open>The slots\<close>

record event_fields =
  ef_level :: level
  ef_message :: string
  ef_number :: "nat option"
  ef_title :: "string option"
  ef_open_steps :: "nat option"
  ef_count :: "nat option"
  ef_budget_min :: "nat option"
  ef_idle_minutes :: "nat option"
  ef_state :: "string option"
  ef_since :: "string option"
  ef_detail :: "string option"
  ef_order :: "string option"
  ef_stop_before :: "nat option"
  ef_issues_json :: "string option"
  ef_outcome :: "string option"
  ef_reset :: "string option"
  ef_target_epoch :: "int option"
  ef_model :: "string option"
  ef_tokens :: "nat option"
  ef_invocations :: "nat option"
  ef_effort :: "string option"
  ef_variant :: "string option"
  ef_cmd :: "string option"
  ef_up :: "nat option"
  ef_cr :: "nat option"
  ef_cw :: "nat option"
  ef_out :: "nat option"
  ef_human_blockers :: "string option"
  ef_blockers :: "string option"
  ef_label :: "string option"
  ef_repo :: "string option"
  ef_queue_labels :: "string option"
  ef_agent :: "string option"
  ef_plan_agent :: "string option"
  ef_branch_mode :: "string option"
  ef_base :: "string option"
  ef_deadline_hours :: "f64 option"
  ef_issues_done :: "nat option"
  ef_issues_skipped :: "nat option"
  ef_issues_total :: "nat option"
  ef_issues_blocked :: "nat option"
  ef_issues_hitl :: "nat option"
  ef_duration_s :: "nat option"
  ef_steps_json :: "string option"
  ef_plan_md :: "string option"
  ef_assignee_filter :: "string option"
  ef_reason :: "string option"
  ef_cause :: "string option"
  ef_scope :: "string option"

definition fields_default :: event_fields where
  "fields_default = \<lparr>
     ef_level = INFO, ef_message = [], ef_number = None, ef_title = None, ef_open_steps = None,
     ef_count = None, ef_budget_min = None, ef_idle_minutes = None, ef_state = None, ef_since =
     None, ef_detail = None, ef_order = None, ef_stop_before = None, ef_issues_json = None,
     ef_outcome = None, ef_reset = None, ef_target_epoch = None, ef_model = None, ef_tokens =
     None, ef_invocations = None, ef_effort = None, ef_variant = None, ef_cmd = None, ef_up =
     None, ef_cr = None, ef_cw = None, ef_out = None, ef_human_blockers = None, ef_blockers =
     None, ef_label = None, ef_repo = None, ef_queue_labels = None, ef_agent = None,
     ef_plan_agent = None, ef_branch_mode = None, ef_base = None, ef_deadline_hours = None,
     ef_issues_done = None, ef_issues_skipped = None, ef_issues_total = None, ef_issues_blocked =
     None, ef_issues_hitl = None, ef_duration_s = None, ef_steps_json = None, ef_plan_md = None,
     ef_assignee_filter = None, ef_reason = None, ef_cause = None, ef_scope = None\<rparr>"

section \<open>Cleaning a field\<close>

text \<open>
  \<^verbatim>\<open>clean_opt\<close> strips the wrapping a \<^verbatim>\<open>Debug\<close> rendering of an optional string leaves, and turns an
  absent or empty value into \<open>None\<close>.
\<close>

definition trim_quotes :: "string \<Rightarrow> string" where
  "trim_quotes s =
     (let q = (\<lambda>c. c = dquote) in rev (dropWhile q (rev (dropWhile q s))))"

definition unwrap_some :: "string \<Rightarrow> string option" where
  "unwrap_some s =
     (if prefix ''Some('' s \<and> suffix '')'' (drop 5 s) then Some (butlast (drop 5 s)) else None)"

definition clean_opt :: "string \<Rightarrow> string option" where
  "clean_opt raw =
     (let s = trim raw
      in if s = ''None'' \<or> s = [] then None
         else let inner = (case unwrap_some s of Some i \<Rightarrow> trim i | None \<Rightarrow> s);
                  t = trim (trim_quotes inner)
              in if t \<noteq> [] then Some t else None)"

section \<open>The visitor\<close>

definition record_u64 :: "string \<Rightarrow> nat \<Rightarrow> event_fields \<Rightarrow> event_fields" where
  "record_u64 name v f =
     (if name = ''number'' then f\<lparr>ef_number := Some v\<rparr>
      else if name = ''open_steps'' then f\<lparr>ef_open_steps := Some v\<rparr>
      else if name = ''count'' then f\<lparr>ef_count := Some v\<rparr>
      else if name = ''budget_min'' then f\<lparr>ef_budget_min := Some v\<rparr>
      else if name = ''idle_minutes'' then f\<lparr>ef_idle_minutes := Some v\<rparr>
      else if name = ''stop_before'' then f\<lparr>ef_stop_before := Some v\<rparr>
      else if name = ''tokens'' then f\<lparr>ef_tokens := Some v\<rparr>
      else if name = ''invocations'' then f\<lparr>ef_invocations := Some v\<rparr>
      else if name = ''up'' then f\<lparr>ef_up := Some v\<rparr>
      else if name = ''cr'' then f\<lparr>ef_cr := Some v\<rparr>
      else if name = ''cw'' then f\<lparr>ef_cw := Some v\<rparr>
      else if name = ''out'' then f\<lparr>ef_out := Some v\<rparr>
      else if name = ''issues_done'' then f\<lparr>ef_issues_done := Some v\<rparr>
      else if name = ''issues_skipped'' then f\<lparr>ef_issues_skipped := Some v\<rparr>
      else if name = ''issues_total'' then f\<lparr>ef_issues_total := Some v\<rparr>
      else if name = ''issues_blocked'' then f\<lparr>ef_issues_blocked := Some v\<rparr>
      else if name = ''issues_hitl'' then f\<lparr>ef_issues_hitl := Some v\<rparr>
      else if name = ''duration_s'' then f\<lparr>ef_duration_s := Some v\<rparr>
      else f)"

definition record_i64 :: "string \<Rightarrow> int \<Rightarrow> event_fields \<Rightarrow> event_fields" where
  "record_i64 name v f =
     (if name = ''target_epoch'' then f\<lparr>ef_target_epoch := Some v\<rparr>
      else f)"

definition record_f64 :: "string \<Rightarrow> f64 \<Rightarrow> event_fields \<Rightarrow> event_fields" where
  "record_f64 name v f =
     (if name = ''deadline_hours'' then f\<lparr>ef_deadline_hours := Some v\<rparr>
      else f)"

definition record_str :: "string \<Rightarrow> string \<Rightarrow> event_fields \<Rightarrow> event_fields" where
  "record_str name v f =
     (if name = ''message'' then f\<lparr>ef_message := v\<rparr>
      else if name = ''title'' then f\<lparr>ef_title := Some v\<rparr>
      else if name = ''order'' then f\<lparr>ef_order := Some v\<rparr>
      else if name = ''issues_json'' then f\<lparr>ef_issues_json := Some v\<rparr>
      else if name = ''outcome'' then f\<lparr>ef_outcome := Some v\<rparr>
      else if name = ''reset'' then f\<lparr>ef_reset := Some v\<rparr>
      else if name = ''model'' then f\<lparr>ef_model := clean_opt v\<rparr>
      else if name = ''effort'' then f\<lparr>ef_effort := clean_opt v\<rparr>
      else if name = ''variant'' then f\<lparr>ef_variant := clean_opt v\<rparr>
      else if name = ''cmd'' then f\<lparr>ef_cmd := clean_opt v\<rparr>
      else if name = ''label'' then f\<lparr>ef_label := clean_opt v\<rparr>
      else if name = ''repo'' then f\<lparr>ef_repo := Some v\<rparr>
      else if name = ''queue_labels'' then f\<lparr>ef_queue_labels := Some v\<rparr>
      else if name = ''agent'' then f\<lparr>ef_agent := Some v\<rparr>
      else if name = ''plan_agent'' then f\<lparr>ef_plan_agent := Some v\<rparr>
      else if name = ''branch_mode'' then f\<lparr>ef_branch_mode := Some v\<rparr>
      else if name = ''base'' then f\<lparr>ef_base := Some v\<rparr>
      else if name = ''steps_json'' then f\<lparr>ef_steps_json := Some v\<rparr>
      else if name = ''plan_md'' then f\<lparr>ef_plan_md := Some v\<rparr>
      else if name = ''assignee_filter'' then f\<lparr>ef_assignee_filter := clean_opt v\<rparr>
      else if name = ''reason'' then f\<lparr>ef_reason := clean_opt v\<rparr>
      else if name = ''cause'' then f\<lparr>ef_cause := clean_opt v\<rparr>
      else if name = ''scope'' then f\<lparr>ef_scope := clean_opt v\<rparr>
      else if name = ''state'' then f\<lparr>ef_state := Some v\<rparr>
      else if name = ''since'' then f\<lparr>ef_since := Some v\<rparr>
      else if name = ''detail'' then f\<lparr>ef_detail := clean_opt v\<rparr>
      else f)"

definition record_debug :: "string \<Rightarrow> string \<Rightarrow> event_fields \<Rightarrow> event_fields" where
  "record_debug name v f =
     (if name = ''message'' then f\<lparr>ef_message := v\<rparr>
      else if name = ''title'' then f\<lparr>ef_title := Some v\<rparr>
      else if name = ''order'' then f\<lparr>ef_order := Some v\<rparr>
      else if name = ''issues_json'' then f\<lparr>ef_issues_json := Some v\<rparr>
      else if name = ''outcome'' then f\<lparr>ef_outcome := Some v\<rparr>
      else if name = ''reset'' then f\<lparr>ef_reset := Some v\<rparr>
      else if name = ''human_blockers'' then f\<lparr>ef_human_blockers := Some v\<rparr>
      else if name = ''blockers'' then f\<lparr>ef_blockers := Some v\<rparr>
      else if name = ''label'' then f\<lparr>ef_label := clean_opt v\<rparr>
      else if name = ''model'' then f\<lparr>ef_model := clean_opt v\<rparr>
      else if name = ''effort'' then f\<lparr>ef_effort := clean_opt v\<rparr>
      else if name = ''variant'' then f\<lparr>ef_variant := clean_opt v\<rparr>
      else if name = ''cmd'' then f\<lparr>ef_cmd := clean_opt v\<rparr>
      else if name = ''repo'' then f\<lparr>ef_repo := Some v\<rparr>
      else if name = ''queue_labels'' then f\<lparr>ef_queue_labels := Some v\<rparr>
      else if name = ''agent'' then f\<lparr>ef_agent := Some v\<rparr>
      else if name = ''plan_agent'' then f\<lparr>ef_plan_agent := Some v\<rparr>
      else if name = ''branch_mode'' then f\<lparr>ef_branch_mode := Some v\<rparr>
      else if name = ''base'' then f\<lparr>ef_base := Some v\<rparr>
      else if name = ''steps_json'' then f\<lparr>ef_steps_json := Some v\<rparr>
      else if name = ''plan_md'' then f\<lparr>ef_plan_md := Some v\<rparr>
      else if name = ''assignee_filter'' then f\<lparr>ef_assignee_filter := clean_opt v\<rparr>
      else if name = ''reason'' then f\<lparr>ef_reason := clean_opt v\<rparr>
      else if name = ''cause'' then f\<lparr>ef_cause := clean_opt v\<rparr>
      else if name = ''scope'' then f\<lparr>ef_scope := clean_opt v\<rparr>
      else f)"

fun visit :: "string \<times> field_value \<Rightarrow> event_fields \<Rightarrow> event_fields" where
  "visit (name, FU64 v) f = record_u64 name v f"
| "visit (name, FI64 v) f = record_i64 name v f"
| "visit (name, FF64 v) f = record_f64 name v f"
| "visit (name, FStr v) f = record_str name v f"
| "visit (name, FDebug v) f = record_debug name v f"

text \<open>What a subscriber collects from a log event.\<close>

definition collect_fields :: "log_event \<Rightarrow> event_fields" where
  "collect_fields e =
     fold visit ((''message'', FDebug (le_message e)) # le_fields e)
       (fields_default\<lparr>ef_level := le_level e\<rparr>)"

definition usage_from :: "event_fields \<Rightarrow> usage" where
  "usage_from f =
     (let or0 = case_option 0 of_nat
      in \<lparr>u_input = or0 (ef_up f), u_output = or0 (ef_out f), u_cache_read = or0 (ef_cr f),
          u_cache_creation = or0 (ef_cw f), u_model = ef_model f\<rparr>)"

lemmas visit_defs = record_u64_def record_i64_def record_f64_def record_str_def record_debug_def

end
