(* ===== verification/Digits.thy ===== *)
theory Digits
  imports Blocked
begin

text \<open>
  Decimal renderings read back: a number that is shown parses as itself, and a rendering holds nothing
  that a trim would take away.
\<close>

definition is_digit :: "char \<Rightarrow> bool" where
  "is_digit c \<longleftrightarrow> digit_value c \<noteq> None"

section \<open>Numbers\<close>

lemma of_char_digit: "d < 10 \<Longrightarrow> of_char (char_of (48 + d) :: char) = (48 + d :: nat)"
  by (simp add: of_char_of)

lemma digit_value_digit [simp]: "d < 10 \<Longrightarrow> digit_value (char_of (48 + d)) = Some d"
  by (simp add: digit_value_def of_char_digit Let_def)

lemma digits_value_snoc:
  "digits_value acc (xs @ [c]) =
     Option.bind (digits_value acc xs) (\<lambda>v. digits_value v [c])"
  by (induction xs arbitrary: acc) (auto split: option.splits)

lemma digits_value_show: "n < 2 ^ 64 \<Longrightarrow> digits_value 0 (show_nat n) = Some n"
proof (induction n rule: show_nat.induct)
  case (1 n)
  show ?case
  proof (cases "n < 10")
    case True
    then show ?thesis by (simp add: show_nat.simps [of n])
  next
    case False
    with 1 have "digits_value 0 (show_nat (n div 10)) = Some (n div 10)" by simp
    moreover have "n div 10 * 10 + n mod 10 = n" by simp
    ultimately show ?thesis using False 1(2)
      by (simp add: show_nat.simps [of n] digits_value_snoc del: show_nat.simps)
  qed
qed

lemma is_digit_char: "d < (10 :: nat) \<Longrightarrow> is_digit (char_of (48 + d))"
  by (simp add: is_digit_def)

lemma show_nat_digits: "list_all is_digit (show_nat n)"
proof (induction n rule: show_nat.induct)
  case (1 n)
  then show ?case by (subst show_nat.simps) (simp add: is_digit_char)
qed

lemma show_nat_no_plus: "\<not> prefix ''+'' (show_nat n)"
proof -
  have "is_digit (hd (show_nat n))"
    using show_nat_digits [of n] show_nat_nonempty [of n] by (cases "show_nat n") auto
  moreover have "\<not> is_digit (CHR ''+'')" by (simp add: is_digit_def digit_value_def)
  ultimately show ?thesis by (cases "show_nat n") auto
qed

lemma parse_show_nat [simp]: "n < 2 ^ 64 \<Longrightarrow> parse_u64 (show_nat n) = Some n"
  using show_nat_no_plus [of n] by (simp add: parse_u64_def digits_value_show)

section \<open>Trimming ASCII text\<close>

lemma digit_not_ws: "is_digit c \<Longrightarrow> \<not> is_ws [c]" "is_digit c \<Longrightarrow> is_ascii c" "is_digit c \<Longrightarrow> c \<noteq> CHR ''-''"
  "is_digit c \<Longrightarrow> c \<noteq> CHR ''#''"
  by (auto simp: is_digit_def digit_value_def Let_def is_ws_def ws_utf8_def is_ascii_def split: if_splits)

lemma concat_singletons: "concat (map (\<lambda>c. [c]) s) = s"
  by (induction s) auto

lemma trim_start_ascii: "list_all is_ascii s \<Longrightarrow> trim_start s = dropWhile (\<lambda>c. is_ws [c]) s"
  by (simp add: trim_start_def chars_ascii dropWhile_map o_def concat_singletons)

lemma trim_end_ascii: "list_all is_ascii s \<Longrightarrow> trim_end s = rev (dropWhile (\<lambda>c. is_ws [c]) (rev s))"
  by (simp add: trim_end_def chars_ascii rev_map dropWhile_map o_def concat_singletons)

lemma list_all_dropWhile: "list_all P s \<Longrightarrow> list_all P (dropWhile Q s)"
  by (induction s) auto

lemma trim_ascii:
  "list_all is_ascii s \<Longrightarrow>
   trim s = rev (dropWhile (\<lambda>c. is_ws [c]) (rev (dropWhile (\<lambda>c. is_ws [c]) s)))"
  by (simp add: trim_def trim_start_ascii trim_end_ascii list_all_dropWhile)

lemma dropWhile_head: "xs \<noteq> [] \<Longrightarrow> \<not> P (hd xs) \<Longrightarrow> dropWhile P (xs @ ys) = xs @ ys"
  by (cases xs) auto

text \<open>Text without blanks is its own trim.\<close>

definition plain_char :: "char \<Rightarrow> bool" where
  "plain_char c \<longleftrightarrow> is_ascii c \<and> \<not> is_ws [c]"

lemma trim_plain: "list_all plain_char s \<Longrightarrow> trim s = s"
proof -
  assume plain: "list_all plain_char s"
  then have "list_all is_ascii s" by (auto simp: list_all_iff plain_char_def)
  moreover have "dropWhile (\<lambda>c. is_ws [c]) s = s"
    using plain by (cases s) (simp_all add: plain_char_def)
  moreover have "dropWhile (\<lambda>c. is_ws [c]) (rev s) = rev s"
    using plain by (cases s rule: rev_cases) (simp_all add: plain_char_def)
  ultimately show ?thesis by (simp add: trim_ascii)
qed

lemma digit_plain: "is_digit c \<Longrightarrow> plain_char c"
  using digit_not_ws by (simp add: plain_char_def)

lemma trim_digits [simp]: "trim (show_nat n) = show_nat n"
  using show_nat_digits [of n] digit_plain by (intro trim_plain) (auto simp: list_all_iff)

end
