(* ===== verification/Event_Decode.thy ===== *)
theory Event_Decode
  imports Event_Fields Plan_Execute Digits
begin

text \<open>
  The event mapper of \<^verbatim>\<open>ralphy-cli/src/runstate/event.rs\<close>: from the level, message and fields of a log
  event to a typed run event.  \<^verbatim>\<open>serde_json\<close>'s reader is the parameter \<open>from_json\<close>.
\<close>

section \<open>Run events\<close>

fun json_get :: "string \<Rightarrow> json \<Rightarrow> json option" where
  "json_get k (JObj ms) = map_of ms k"
| "json_get k _ = None"

fun json_u64 :: "json \<Rightarrow> nat option" where
  "json_u64 (JNum (PosInt n)) = Some n"
| "json_u64 _ = None"

fun json_str :: "json \<Rightarrow> string option" where
  "json_str (JStr s) = Some s"
| "json_str _ = None"

type_synonym json_reader = "string \<Rightarrow> json option"

datatype skip_kind = BlockedBySkip | StopBeforeSkip | HumanReturnSkip | VerifyFailedSkip

fun skip_kind_wire :: "skip_kind \<Rightarrow> string" where
  "skip_kind_wire BlockedBySkip = ''blocked_by''"
| "skip_kind_wire StopBeforeSkip = ''stop_before''"
| "skip_kind_wire HumanReturnSkip = ''human_return''"
| "skip_kind_wire VerifyFailedSkip = ''verify_failed''"

record queue_built =
  qb_count :: nat
  qb_order :: "issue_no list"
  qb_stop_before :: "issue_no option"
  qb_issues :: json
  qb_assignee_filter :: "string option"
  qb_scope :: "string option"

record run_started =
  rs_repo :: string
  rs_queue_labels :: "string list"
  rs_agent :: string
  rs_plan_agent :: string
  rs_branch_mode :: string
  rs_branch :: string
  rs_deadline_hours :: "f64 option"

record run_finished =
  rf_outcome :: string
  rf_done :: nat
  rf_skipped :: nat
  rf_total :: nat
  rf_blocked :: nat
  rf_hitl :: nat
  rf_issues :: json
  rf_up :: nat
  rf_cr :: nat
  rf_cw :: nat
  rf_out :: nat
  rf_duration_s :: nat

datatype run_event =
    QueueBuilt queue_built
  | ReIssueStarted issue_no string
  | Planning "string option" "string option"
  | RePlanWritten issue_no nat usage "(string \<times> string) list"
  | Executing issue_no nat string "string option"
  | ReIssueClosed issue_no nat nat usage
  | ReNonGreen issue_no string
  | Skipped issue_no skip_kind "string option" "issue_no list"
  | HumanBlocked issue_no "issue_no list"
  | ReNeedsSplit issue_no
  | Notice level string
  | ReDeadlinePassed issue_no
  | ReRunStopped issue_no
  | SleepStarted string int
  | SleepEnded
  | ApiDegraded
  | ApiRecovered
  | IdleReaped nat
  | HooksUnprovenAllowed string
  | AgentStateChanged string string "string option"
  | KnowledgeConsolidating nat
  | KnowledgeConsolidated nat
  | RunStarted run_started
  | RunFinished run_finished
  | RunSkipped string
  | RePlanOpened issue_no string
  | RePlanClosed issue_no string

section \<open>Reading the composite fields\<close>

text \<open>Rust's \<^verbatim>\<open>split\<close> on a non-empty pattern; \<open>cur\<close> is the piece being read.\<close>

fun split_at :: "string \<Rightarrow> string \<Rightarrow> nat \<Rightarrow> string \<Rightarrow> string list" where
  "split_at p cur skip [] = [cur]"
| "split_at p cur (Suc skip) (c # cs) = split_at p cur skip cs"
| "split_at p cur 0 (c # cs) =
     (if prefix p (c # cs) then cur # split_at p [] (length p - 1) cs
      else split_at p (cur @ [c]) 0 cs)"

definition rust_split :: "string \<Rightarrow> string \<Rightarrow> string list" where
  "rust_split p s = split_at p [] 0 s"

definition split_labels :: "string option \<Rightarrow> string list" where
  "split_labels raw =
     (case raw of
        None \<Rightarrow> []
      | Some s \<Rightarrow> filter (\<lambda>t. t \<noteq> []) (map trim (rust_split '','' s)))"

definition parse_issues_snapshot :: "json_reader \<Rightarrow> string option \<Rightarrow> json" where
  "parse_issues_snapshot from_json raw =
     (case Option.bind raw from_json of Some v \<Rightarrow> v | None \<Rightarrow> JNull)"

definition parse_steps_json :: "json_reader \<Rightarrow> string option \<Rightarrow> (string \<times> string) list" where
  "parse_steps_json from_json raw =
     (case Option.bind raw from_json of
        Some (JArr arr) \<Rightarrow>
          List.map_filter (\<lambda>e. do {
              txt \<leftarrow> Option.bind (json_get ''text'' e) json_str;
              status \<leftarrow> Option.bind (json_get ''status'' e) json_str;
              Some (txt, status)
            }) arr
      | _ \<Rightarrow> [])"

definition trim_hashes :: "string \<Rightarrow> string" where
  "trim_hashes s = dropWhile (\<lambda>c. c = CHR ''#'') s"

definition parse_order :: "string option \<Rightarrow> issue_no list" where
  "parse_order raw =
     (case raw of
        None \<Rightarrow> []
      | Some s \<Rightarrow> List.map_filter (\<lambda>tok. parse_u64 (trim (trim_hashes (trim tok)))) (rust_split ''->'' s))"

text \<open>The loop of \<^verbatim>\<open>parse_u64_list\<close>, with its locals \<open>out\<close> and \<open>cur\<close>.\<close>

fun u64_list_from :: "nat list \<Rightarrow> string \<Rightarrow> string \<Rightarrow> nat list" where
  "u64_list_from out cur [] = (case parse_u64 cur of Some n \<Rightarrow> out @ [n] | None \<Rightarrow> out)"
| "u64_list_from out cur (ch # cs) =
     (if is_digit ch then u64_list_from out (cur @ [ch]) cs
      else if cur \<noteq> [] then
        u64_list_from (case parse_u64 cur of Some n \<Rightarrow> out @ [n] | None \<Rightarrow> out) [] cs
      else u64_list_from out cur cs)"

definition parse_u64_list :: "string option \<Rightarrow> nat list" where
  "parse_u64_list raw = (case raw of None \<Rightarrow> [] | Some s \<Rightarrow> u64_list_from [] [] s)"

section \<open>The mapper\<close>

text \<open>\<^verbatim>\<open>h > 0.0\<close> on the bits of a 64-bit float: positive and not a NaN.\<close>

definition f64_pos :: "f64 \<Rightarrow> bool" where
  "f64_pos b \<longleftrightarrow> 0 < b \<and> b \<le> 0x7FF0000000000000"

definition filter_option :: "('a \<Rightarrow> bool) \<Rightarrow> 'a option \<Rightarrow> 'a option" where
  "filter_option P x = (case x of Some a \<Rightarrow> if P a then Some a else None | None \<Rightarrow> None)"

abbreviation or_zero :: "nat option \<Rightarrow> nat" where
  "or_zero x \<equiv> (case x of Some n \<Rightarrow> n | None \<Rightarrow> 0)"

definition decode_message :: "json_reader \<Rightarrow> string \<Rightarrow> event_fields \<Rightarrow> run_event option" where
  "decode_message from_json m f =
     (let number = or_zero (ef_number f) in
      if m = QUEUE_BUILT_MSG then
        Some (QueueBuilt
          \<lparr>qb_count = or_zero (ef_count f), qb_order = parse_order (ef_order f),
           qb_stop_before = filter_option (\<lambda>n. n \<noteq> 0) (ef_stop_before f),
           qb_issues = parse_issues_snapshot from_json (ef_issues_json f),
           qb_assignee_filter = ef_assignee_filter f, qb_scope = ef_scope f\<rparr>)
      else if m = ISSUE_STARTED_MSG then Some (ReIssueStarted number (or_empty (ef_title f)))
      else if m = PLANNING_MSG then Some (Planning (ef_model f) (ef_effort f))
      else if m = PLAN_WRITTEN_MSG then
        Some (RePlanWritten number (or_zero (ef_open_steps f)) (usage_from f)
                (parse_steps_json from_json (ef_steps_json f)))
      else if m = PLAN_OPENED_MSG then Some (RePlanOpened number (or_empty (ef_plan_md f)))
      else if m = PLAN_CLOSED_MSG then Some (RePlanClosed number (or_empty (ef_plan_md f)))
      else if m = EXECUTING_MSG then
        Some (Executing number (or_zero (ef_budget_min f)) (or_empty (ef_model f)) (ef_effort f))
      else if m = ISSUE_CLOSED_MSG then
        Some (ReIssueClosed number (or_zero (ef_tokens f)) (or_zero (ef_invocations f)) (usage_from f))
      else if m = NON_GREEN_MSG then Some (ReNonGreen number (or_empty (ef_outcome f)))
      else if m = NEEDS_SPLIT_MSG then Some (ReNeedsSplit number)
      else if m = BLOCKED_BY_OPEN_MSG then
        Some (Skipped number BlockedBySkip None (parse_u64_list (ef_blockers f)))
      else if m = BLOCKED_WAITING_HUMAN_MSG then
        Some (HumanBlocked number (parse_u64_list (ef_human_blockers f)))
      else if m = STOP_BEFORE_LABEL_MSG then Some (Skipped number StopBeforeSkip None [])
      else if m = HUMAN_RETURN_LABEL_MSG then Some (Skipped number HumanReturnSkip (ef_label f) [])
      else if m = VERIFY_GATE_FAILED_MSG then Some (Skipped number VerifyFailedSkip None [])
      else if m = DEADLINE_PASSED_MSG then Some (ReDeadlinePassed number)
      else if m = RUN_STOPPED_MSG then Some (ReRunStopped number)
      else if m = USAGE_LIMIT_WAITING_MSG then
        Some (SleepStarted (or_empty (ef_reset f)) (case ef_target_epoch f of Some t \<Rightarrow> t | None \<Rightarrow> 0))
      else if m = RESET_REACHED_MSG then Some SleepEnded
      else if m = API_DEGRADED_MSG then Some ApiDegraded
      else if m = API_RECOVERED_MSG then Some ApiRecovered
      else if m = IDLE_REAPED_MSG then Some (IdleReaped (or_zero (ef_idle_minutes f)))
      else if m = HOOKS_UNPROVEN_ALLOWED_MSG then Some (HooksUnprovenAllowed (or_empty (ef_cause f)))
      else if m = AGENT_STATE_MSG then
        Some (AgentStateChanged (or_empty (ef_state f)) (or_empty (ef_since f)) (ef_detail f))
      else if m = KNOWLEDGE_CONSOLIDATING_MSG then Some (KnowledgeConsolidating (or_zero (ef_count f)))
      else if m = KNOWLEDGE_CONSOLIDATED_MSG then Some (KnowledgeConsolidated (or_zero (ef_count f)))
      else if m = RUN_STARTED_MSG then
        Some (RunStarted
          \<lparr>rs_repo = or_empty (ef_repo f), rs_queue_labels = split_labels (ef_queue_labels f),
           rs_agent = or_empty (ef_agent f), rs_plan_agent = or_empty (ef_plan_agent f),
           rs_branch_mode = or_empty (ef_branch_mode f), rs_branch = or_empty (ef_base f),
           rs_deadline_hours = filter_option f64_pos (ef_deadline_hours f)\<rparr>)
      else if m = RUN_FINISHED_MSG then
        Some (RunFinished
          \<lparr>rf_outcome = or_empty (ef_outcome f), rf_done = or_zero (ef_issues_done f),
           rf_skipped = or_zero (ef_issues_skipped f), rf_total = or_zero (ef_issues_total f),
           rf_blocked = or_zero (ef_issues_blocked f), rf_hitl = or_zero (ef_issues_hitl f),
           rf_issues = parse_issues_snapshot from_json (ef_issues_json f),
           rf_up = or_zero (ef_up f), rf_cr = or_zero (ef_cr f), rf_cw = or_zero (ef_cw f),
           rf_out = or_zero (ef_out f), rf_duration_s = or_zero (ef_duration_s f)\<rparr>)
      else if m = RUN_SKIPPED_MSG then Some (RunSkipped (or_empty (ef_reason f)))
      else None)"

definition event_to_runevent :: "json_reader \<Rightarrow> string \<Rightarrow> event_fields \<Rightarrow> run_event option" where
  "event_to_runevent from_json message f =
     (if ef_level f = WARN \<or> ef_level f = ERROR then Some (Notice (ef_level f) message)
      else decode_message from_json message f)"

text \<open>A subscriber's view of a log event.\<close>

definition decode :: "json_reader \<Rightarrow> log_event \<Rightarrow> run_event option" where
  "decode from_json e = (let f = collect_fields e in event_to_runevent from_json (ef_message f) f)"

end
