(* ===== verification/Run_Card.thy ===== *)
theory Run_Card
  imports Event_Decode
begin

text \<open>
  The run model of \<^verbatim>\<open>ralphy-cli/src/runstate/state.rs\<close>: the stream of run events folded into the state
  the console and the Telegram card render.  The record \<open>card\<close> is \<^verbatim>\<open>RunState\<close>; \<open>apply_event\<close> is its
  \<^verbatim>\<open>apply\<close>, with one function per \<^verbatim>\<open>apply_*\<close> method.
\<close>

section \<open>State\<close>

datatype issue_status = StatPlanning | StatExecuting | StatPlanned | StatDone | StatSkipped | StatBlocked
  | StatInfeasible | StatNeedsSplit | StatNonGreen | StatHitl

fun is_terminal :: "issue_status \<Rightarrow> bool" where
  "is_terminal StatPlanning = False"
| "is_terminal StatExecuting = False"
| "is_terminal _ = True"

fun issue_status_wire :: "issue_status \<Rightarrow> string option" where
  "issue_status_wire StatPlanned = Some ''planned''"
| "issue_status_wire StatDone = Some ''done''"
| "issue_status_wire StatSkipped = Some ''skipped''"
| "issue_status_wire StatBlocked = Some ''blocked''"
| "issue_status_wire StatInfeasible = Some ''infeasible''"
| "issue_status_wire StatNeedsSplit = Some ''needs_split''"
| "issue_status_wire StatNonGreen = Some ''non_green''"
| "issue_status_wire StatHitl = Some ''hitl''"
| "issue_status_wire _ = None"

record sleep_state =
  sl_reset :: string
  sl_target_epoch :: int

record issue_entry =
  ie_number :: issue_no
  ie_title :: string
  ie_status :: issue_status
  ie_kind :: "skip_kind option"
  ie_blocked_by :: "issue_no list"
  ie_model :: "string option"
  ie_effort :: "string option"
  ie_budget_min :: "nat option"
  ie_plan_usage :: "usage option"
  ie_exec_usage :: "usage option"
  ie_invocations :: "nat option"
  ie_idle_reaped :: bool

record queue_ref =
  qref_number :: issue_no
  qref_title :: string

record agent_state =
  as_state :: string
  as_since :: string
  as_detail :: "string option"

record counts =
  n_planned :: nat
  n_done :: nat
  n_skipped :: nat
  n_blocked :: nat
  n_infeasible :: nat
  n_needs_split :: nat
  n_non_green :: nat
  n_planning :: nat
  n_executing :: nat
  n_hitl :: nat

record card =
  rc_title :: string
  rc_total :: nat
  rc_order :: "issue_no list"
  rc_stop_before :: "issue_no option"
  rc_issues :: "issue_entry list"
  rc_active :: "issue_no option"
  rc_final_summary :: "string option"
  rc_sleep :: "sleep_state option"
  rc_degraded :: bool
  rc_agent :: "agent_state option"
  rc_finished :: bool
  rc_consolidating :: "nat option"
  rc_consolidated :: "nat option"
  rc_plan_agent :: string
  rc_exec_agent :: string
  rc_cur_agent :: "string option"
  rc_cur_model :: "string option"
  rc_cur_effort :: "string option"
  rc_queue :: "queue_ref list"

definition new_card :: "string \<Rightarrow> nat \<Rightarrow> card" where
  "new_card title n =
     \<lparr>rc_title = title, rc_total = n, rc_order = [], rc_stop_before = None, rc_issues = [],
      rc_active = None, rc_final_summary = None, rc_sleep = None, rc_degraded = False, rc_agent = None,
      rc_finished = False, rc_consolidating = None, rc_consolidated = None, rc_plan_agent = [],
      rc_exec_agent = [], rc_cur_agent = None, rc_cur_model = None, rc_cur_effort = None, rc_queue = []\<rparr>"

section \<open>Operations\<close>

definition resolve_number :: "card \<Rightarrow> issue_no \<Rightarrow> issue_no option" where
  "resolve_number c n = (if n = 0 then rc_active c else Some n)"

definition placeholder :: "issue_no \<Rightarrow> issue_entry" where
  "placeholder n =
     \<lparr>ie_number = n, ie_title = [], ie_status = StatPlanning, ie_kind = None, ie_blocked_by = [],
      ie_model = None, ie_effort = None, ie_budget_min = None, ie_plan_usage = None,
      ie_exec_usage = None, ie_invocations = None, ie_idle_reaped = False\<rparr>"

text \<open>\<^verbatim>\<open>entry_mut\<close> hands out a mutable entry; its users are the updates \<open>f\<close>.\<close>

fun update_first :: "issue_no \<Rightarrow> (issue_entry \<Rightarrow> issue_entry) \<Rightarrow> issue_entry list \<Rightarrow> issue_entry list" where
  "update_first n f [] = [f (placeholder n)]"
| "update_first n f (e # es) = (if ie_number e = n then f e # es else e # update_first n f es)"

definition entry_mut :: "issue_no \<Rightarrow> (issue_entry \<Rightarrow> issue_entry) \<Rightarrow> card \<Rightarrow> card" where
  "entry_mut n f c = c\<lparr>rc_issues := update_first n f (rc_issues c)\<rparr>"

abbreviation set_status :: "issue_status \<Rightarrow> issue_entry \<Rightarrow> issue_entry" where
  "set_status st e \<equiv> e\<lparr>ie_status := st\<rparr>"

definition mark_idle_reaped :: "card \<Rightarrow> card" where
  "mark_idle_reaped c =
     (case rc_active c of Some n \<Rightarrow> entry_mut n (\<lambda>e. e\<lparr>ie_idle_reaped := True\<rparr>) c | None \<Rightarrow> c)"

definition apply_queue_built :: "queue_built \<Rightarrow> card \<Rightarrow> card" where
  "apply_queue_built q c =
     (let c' = c\<lparr>rc_total := qb_count q, rc_order := qb_order q, rc_stop_before := qb_stop_before q\<rparr>
      in case qb_issues q of
           JArr arr \<Rightarrow> c'\<lparr>rc_queue := List.map_filter (\<lambda>e. do {
               number \<leftarrow> Option.bind (json_get ''number'' e) json_u64;
               Some \<lparr>qref_number = number,
                     qref_title = or_empty (Option.bind (json_get ''title'' e) json_str)\<rparr>
             }) arr\<rparr>
         | _ \<Rightarrow> c')"

definition apply_issue_started :: "issue_no \<Rightarrow> string \<Rightarrow> card \<Rightarrow> card" where
  "apply_issue_started n title c =
     (let c1 = (case rc_active c of
                  Some prev \<Rightarrow>
                    if prev \<noteq> n then
                      entry_mut prev (\<lambda>e. if \<not> is_terminal (ie_status e) then set_status StatPlanned e else e) c
                    else c
                | None \<Rightarrow> c)
      in entry_mut n (\<lambda>e. e\<lparr>ie_title := title, ie_status := StatPlanning, ie_model := None,
                            ie_effort := None, ie_budget_min := None, ie_plan_usage := None,
                            ie_exec_usage := None\<rparr>)
           (c1\<lparr>rc_active := Some n, rc_agent := None\<rparr>))"

definition keep_or :: "'a option \<Rightarrow> 'a option \<Rightarrow> 'a option" where
  "keep_or new old = (case new of Some _ \<Rightarrow> new | None \<Rightarrow> old)"

definition apply_planning :: "string option \<Rightarrow> string option \<Rightarrow> card \<Rightarrow> card" where
  "apply_planning model effort c =
     (let c' = c\<lparr>rc_cur_agent := Some (rc_plan_agent c), rc_cur_model := model, rc_cur_effort := effort\<rparr>
      in case rc_active c' of
           Some n \<Rightarrow> entry_mut n (\<lambda>e. e\<lparr>ie_model := keep_or model (ie_model e),
                                      ie_effort := keep_or effort (ie_effort e)\<rparr>) c'
         | None \<Rightarrow> c')"

definition apply_plan_written :: "issue_no \<Rightarrow> nat \<Rightarrow> usage \<Rightarrow> card \<Rightarrow> card" where
  "apply_plan_written number open_steps u c =
     (case resolve_number c number of
        None \<Rightarrow> c
      | Some n \<Rightarrow> entry_mut n (\<lambda>e. e\<lparr>ie_plan_usage := Some u,
                     ie_status := (if open_steps = 0 then StatInfeasible else StatPlanning)\<rparr>) c)"

definition apply_executing :: "issue_no \<Rightarrow> string \<Rightarrow> string option \<Rightarrow> nat \<Rightarrow> card \<Rightarrow> card" where
  "apply_executing number model effort budget_min c =
     (let c' = c\<lparr>rc_cur_agent := Some (rc_exec_agent c),
                 rc_cur_model := (if model \<noteq> [] then Some model else None), rc_cur_effort := effort\<rparr>
      in case resolve_number c' number of
           None \<Rightarrow> c'
         | Some n \<Rightarrow> entry_mut n (\<lambda>e. e\<lparr>ie_status := StatExecuting, ie_model := Some model,
                        ie_effort := keep_or effort (ie_effort e), ie_budget_min := Some budget_min\<rparr>) c')"

definition apply_issue_closed :: "issue_no \<Rightarrow> usage \<Rightarrow> nat \<Rightarrow> card \<Rightarrow> card" where
  "apply_issue_closed number u spawned c =
     (case resolve_number c number of
        None \<Rightarrow> c
      | Some n \<Rightarrow> (entry_mut n (\<lambda>e. e\<lparr>ie_exec_usage := Some u,
                      ie_invocations := (if spawned > 0 then Some spawned else None),
                      ie_status := StatDone\<rparr>) c)\<lparr>rc_agent := None\<rparr>)"

definition apply_non_green :: "issue_no \<Rightarrow> string \<Rightarrow> card \<Rightarrow> card" where
  "apply_non_green number oc c =
     (case resolve_number c number of
        None \<Rightarrow> c
      | Some n \<Rightarrow>
          (entry_mut n (set_status (if prefix ''Blocked'' oc then StatBlocked else StatNonGreen)) c)
            \<lparr>rc_final_summary := Some (''stopped on #'' @ show_nat n @ '': '' @ oc), rc_agent := None\<rparr>)"

fun apply_event :: "run_event \<Rightarrow> card \<Rightarrow> card" where
  "apply_event (QueueBuilt q) c = apply_queue_built q c"
| "apply_event (ReIssueStarted n title) c = apply_issue_started n title c"
| "apply_event (Planning model effort) c = apply_planning model effort c"
| "apply_event (RePlanWritten n open_steps u _) c = apply_plan_written n open_steps u c"
| "apply_event (Executing n budget_min model effort) c = apply_executing n model effort budget_min c"
| "apply_event (ReIssueClosed n _ spawned u) c = apply_issue_closed n u spawned c"
| "apply_event (ReNonGreen n oc) c = apply_non_green n oc c"
| "apply_event (Skipped n kind _ blockers) c =
     entry_mut n (\<lambda>e. e\<lparr>ie_status := StatSkipped, ie_kind := Some kind, ie_blocked_by := blockers\<rparr>) c"
| "apply_event (HumanBlocked n _) c = (entry_mut n (set_status StatHitl) c)\<lparr>rc_agent := None\<rparr>"
| "apply_event (ReNeedsSplit number) c =
     (case resolve_number c number of
        None \<Rightarrow> c
      | Some n \<Rightarrow> (entry_mut n (set_status StatNeedsSplit) c)\<lparr>rc_agent := None\<rparr>)"
| "apply_event (Notice _ _) c = c"
| "apply_event (ReDeadlinePassed n) c =
     c\<lparr>rc_final_summary := Some (''deadline reached before #'' @ show_nat n), rc_agent := None\<rparr>"
| "apply_event (ReRunStopped n) c =
     c\<lparr>rc_final_summary := Some (if n = 0 then ''stopped by the operator''
                                 else ''stopped by the operator during #'' @ show_nat n),
       rc_agent := None\<rparr>"
| "apply_event (RunSkipped reason) c = c\<lparr>rc_final_summary := Some reason\<rparr>"
| "apply_event (SleepStarted reset target_epoch) c =
     c\<lparr>rc_sleep := Some \<lparr>sl_reset = reset, sl_target_epoch = target_epoch\<rparr>, rc_agent := None\<rparr>"
| "apply_event SleepEnded c = c\<lparr>rc_sleep := None\<rparr>"
| "apply_event ApiDegraded c = c\<lparr>rc_degraded := True\<rparr>"
| "apply_event ApiRecovered c = c\<lparr>rc_degraded := False\<rparr>"
| "apply_event (IdleReaped _) c = mark_idle_reaped (c\<lparr>rc_degraded := False, rc_agent := None\<rparr>)"
| "apply_event (AgentStateChanged st since detail) c =
     c\<lparr>rc_agent := Some \<lparr>as_state = st, as_since = since, as_detail = detail\<rparr>\<rparr>"
| "apply_event (KnowledgeConsolidating notes) c = c\<lparr>rc_consolidating := Some notes\<rparr>"
| "apply_event (KnowledgeConsolidated archived) c =
     c\<lparr>rc_consolidating := None, rc_consolidated := Some archived\<rparr>"
| "apply_event (RunStarted r) c = c\<lparr>rc_exec_agent := rs_agent r, rc_plan_agent := rs_plan_agent r\<rparr>"
| "apply_event (RunFinished r) c =
     (if rf_outcome r = ''no_work'' then c\<lparr>rc_final_summary := Some ''no open issues to process''\<rparr> else c)"
| "apply_event (RePlanOpened _ _) c = c"
| "apply_event (RePlanClosed _ _) c = c"
| "apply_event (HooksUnprovenAllowed _) c = c"

definition fold_card :: "string \<Rightarrow> nat \<Rightarrow> run_event list \<Rightarrow> card" where
  "fold_card title n es = fold apply_event es (new_card title n)"

section \<open>Views\<close>

fun count_status :: "issue_status \<Rightarrow> counts \<Rightarrow> counts" where
  "count_status StatPlanned c = c\<lparr>n_planned := n_planned c + 1\<rparr>"
| "count_status StatDone c = c\<lparr>n_done := n_done c + 1\<rparr>"
| "count_status StatSkipped c = c\<lparr>n_skipped := n_skipped c + 1\<rparr>"
| "count_status StatBlocked c = c\<lparr>n_blocked := n_blocked c + 1\<rparr>"
| "count_status StatInfeasible c = c\<lparr>n_infeasible := n_infeasible c + 1\<rparr>"
| "count_status StatNeedsSplit c = c\<lparr>n_needs_split := n_needs_split c + 1\<rparr>"
| "count_status StatNonGreen c = c\<lparr>n_non_green := n_non_green c + 1\<rparr>"
| "count_status StatPlanning c = c\<lparr>n_planning := n_planning c + 1\<rparr>"
| "count_status StatExecuting c = c\<lparr>n_executing := n_executing c + 1\<rparr>"
| "count_status StatHitl c = c\<lparr>n_hitl := n_hitl c + 1\<rparr>"

definition counts_zero :: counts where
  "counts_zero = \<lparr>n_planned = 0, n_done = 0, n_skipped = 0, n_blocked = 0, n_infeasible = 0,
     n_needs_split = 0, n_non_green = 0, n_planning = 0, n_executing = 0, n_hitl = 0\<rparr>"

definition card_counts :: "card \<Rightarrow> counts" where
  "card_counts c = fold (\<lambda>e. count_status (ie_status e)) (rc_issues c) counts_zero"

definition active_issue :: "card \<Rightarrow> issue_entry option" where
  "active_issue c = Option.bind (rc_active c) (\<lambda>n. find (\<lambda>e. ie_number e = n) (rc_issues c))"

definition most_recent_finished :: "card \<Rightarrow> issue_entry option" where
  "most_recent_finished c = find (\<lambda>e. is_terminal (ie_status e)) (rev (rc_issues c))"

definition run_phase :: "card \<Rightarrow> string" where
  "run_phase c =
     (if rc_sleep c \<noteq> None then ''sleeping''
      else if rc_consolidating c \<noteq> None then ''consolidating''
      else case active_issue c of
             Some e \<Rightarrow> if ie_status e = StatExecuting then ''executing''
                       else if ie_status e = StatPlanning then ''planning'' else ''starting''
           | None \<Rightarrow> ''starting'')"

end
