(* ===== verification/Stepwise.thy ===== *)
theory Stepwise
  imports Main
begin

text \<open>
  Components that fold a sequence of events into a state: what every allowed event keeps, a whole run
  of allowed events keeps.
\<close>

locale stepwise =
  fixes step :: "'e \<Rightarrow> 's \<Rightarrow> 's"
    and allowed :: "'e \<Rightarrow> bool"
    and good :: "'s \<Rightarrow> bool"
  assumes keeps: "allowed e \<Longrightarrow> good s \<Longrightarrow> good (step e s)"
begin

lemma run: "list_all allowed es \<Longrightarrow> good s \<Longrightarrow> good (fold step es s)"
  by (induction es arbitrary: s) (simp_all add: keeps)

lemma run_prefix: "list_all allowed (es @ fs) \<Longrightarrow> good s \<Longrightarrow> good (fold step es s)"
  by (rule run) simp_all

end

end
