(* ===== verification/Card_Props.thy ===== *)
theory Card_Props
  imports Run_Card Stepwise
begin

text \<open>
  The run card against an abstract board: the issue at work and a status for each issue seen.  Every
  event moves the card the way it moves the board, the card holds each issue once, and its counters
  are the board's.
\<close>

section \<open>Entries\<close>

definition numbers :: "card \<Rightarrow> issue_no list" where
  "numbers c = map ie_number (rc_issues c)"

definition entry_of :: "issue_no \<Rightarrow> issue_entry list \<Rightarrow> issue_entry option" where
  "entry_of n es = find (\<lambda>e. ie_number e = n) es"

definition statuses :: "issue_entry list \<Rightarrow> issue_no \<rightharpoonup> issue_status" where
  "statuses es n = map_option ie_status (entry_of n es)"

definition status :: "card \<Rightarrow> issue_no \<rightharpoonup> issue_status" where
  "status c = statuses (rc_issues c)"

definition renumbers :: "(issue_entry \<Rightarrow> issue_entry) \<Rightarrow> bool" where
  "renumbers f \<longleftrightarrow> (\<exists>e. ie_number (f e) \<noteq> ie_number e)"

lemma placeholder_number [simp]: "ie_number (placeholder n) = n" "ie_status (placeholder n) = StatPlanning"
  by (simp_all add: placeholder_def)

lemma entry_of_update:
  assumes "\<not> renumbers f"
  shows "entry_of k (update_first n f es) =
     (if k = n then Some (f (case entry_of n es of Some e \<Rightarrow> e | None \<Rightarrow> placeholder n))
      else entry_of k es)"
  using assms by (induction es) (auto simp: entry_of_def renumbers_def)

lemma numbers_update:
  assumes "\<not> renumbers f"
  shows "map ie_number (update_first n f es) =
     (if n \<in> ie_number ` set es then map ie_number es else map ie_number es @ [n])"
  using assms by (induction es) (auto simp: renumbers_def)

lemma entry_of_None: "entry_of n es = None \<longleftrightarrow> n \<notin> ie_number ` set es"
  by (auto simp: entry_of_def find_None_all)

lemma numbers_entry_mut:
  "\<not> renumbers f \<Longrightarrow> numbers (entry_mut n f c) =
     (if n \<in> set (numbers c) then numbers c else numbers c @ [n])"
  by (simp add: numbers_def entry_mut_def numbers_update)

lemma entry_mut_active [simp]: "rc_active (entry_mut n f c) = rc_active c"
  by (simp add: entry_mut_def)

text \<open>An update that sets the status by a function of the old one.\<close>

definition status_or_new :: "issue_status option \<Rightarrow> issue_status" where
  "status_or_new st = (case st of Some x \<Rightarrow> x | None \<Rightarrow> StatPlanning)"

lemma statuses_update:
  assumes "\<And>e. ie_number (f e) = ie_number e" "\<And>e. ie_status (f e) = g (ie_status e)"
  shows "statuses (update_first n f es) = (statuses es)(n \<mapsto> g (status_or_new (statuses es n)))"
proof -
  have "\<not> renumbers f" using assms(1) by (simp add: renumbers_def)
  with assms(2) show ?thesis
    by (auto simp: statuses_def entry_of_update fun_eq_iff status_or_new_def split: option.splits)
qed

section \<open>The board\<close>

record board =
  b_active :: "issue_no option"
  b_status :: "issue_no \<rightharpoonup> issue_status"

definition board_of :: "card \<Rightarrow> board" where
  "board_of c = \<lparr>b_active = rc_active c, b_status = status c\<rparr>"

definition set_to :: "issue_no \<Rightarrow> issue_status \<Rightarrow> board \<Rightarrow> board" where
  "set_to n st b = b\<lparr>b_status := (b_status b)(n \<mapsto> st)\<rparr>"

definition set_resolved :: "issue_no \<Rightarrow> issue_status \<Rightarrow> board \<Rightarrow> board" where
  "set_resolved n st b =
     (case (if n = 0 then b_active b else Some n) of Some k \<Rightarrow> set_to k st b | None \<Rightarrow> b)"

text \<open>An issue mentioned for the first time shows as planning.\<close>

definition touch_active :: "board \<Rightarrow> board" where
  "touch_active b =
     (case b_active b of
        Some n \<Rightarrow> set_to n (status_or_new (b_status b n)) b
      | None \<Rightarrow> b)"

definition supersede :: "issue_no \<Rightarrow> board \<Rightarrow> board" where
  "supersede n b =
     (case b_active b of
        Some p \<Rightarrow>
          if p \<noteq> n \<and> \<not> is_terminal (status_or_new (b_status b p))
          then set_to p StatPlanned b else b
      | None \<Rightarrow> b)"

fun board_step :: "run_event \<Rightarrow> board \<Rightarrow> board" where
  "board_step (ReIssueStarted n _) b = set_to n StatPlanning ((supersede n b)\<lparr>b_active := Some n\<rparr>)"
| "board_step (RePlanWritten n open_steps _ _) b =
     set_resolved n (if open_steps = 0 then StatInfeasible else StatPlanning) b"
| "board_step (Executing n _ _ _) b = set_resolved n StatExecuting b"
| "board_step (ReIssueClosed n _ _ _) b = set_resolved n StatDone b"
| "board_step (ReNonGreen n oc) b =
     set_resolved n (if prefix ''Blocked'' oc then StatBlocked else StatNonGreen) b"
| "board_step (Skipped n _ _ _) b = set_to n StatSkipped b"
| "board_step (HumanBlocked n _) b = set_to n StatHitl b"
| "board_step (ReNeedsSplit n) b = set_resolved n StatNeedsSplit b"
| "board_step (Planning _ _) b = touch_active b"
| "board_step (IdleReaped _) b = touch_active b"
| "board_step _ b = b"

lemma statuses_set [simp]:
  assumes "\<And>e. ie_number (f e) = ie_number e" "\<And>e. ie_status (f e) = st"
  shows "statuses (update_first n f es) = (statuses es)(n \<mapsto> st)"
  using statuses_update [of f "\<lambda>_. st"] assms by simp

lemma statuses_kept [simp]:
  assumes "\<And>e. ie_number (f e) = ie_number e" "\<And>e. ie_status (f e) = ie_status e"
  shows "statuses (update_first n f es) = (statuses es)(n \<mapsto> status_or_new (statuses es n))"
  using statuses_update [of f "\<lambda>st. st"] assms by simp

lemma statuses_supersede [simp]:
  "statuses (update_first n (\<lambda>e. if \<not> is_terminal (ie_status e) then set_status StatPlanned e else e) es) =
     (statuses es)(n \<mapsto> (if is_terminal (status_or_new (statuses es n)) then status_or_new (statuses es n)
                          else StatPlanned))"
  using statuses_update [of "\<lambda>e. if \<not> is_terminal (ie_status e) then set_status StatPlanned e else e"
      "\<lambda>st. if is_terminal st then st else StatPlanned"]
  by simp

lemmas board_simps = board_of_def set_to_def set_resolved_def touch_active_def supersede_def
  resolve_number_def status_def entry_mut_def

text \<open>
  C10. The card refines the board: applying any event to a card and then forgetting everything but the
  active issue and the statuses is the board's step on what the card showed before.
\<close>

theorem card_refines_board: "board_of (apply_event e c) = board_step e (board_of c)"
proof (cases e)
  case (ReIssueStarted n t)
  show ?thesis
  proof (cases "rc_active c")
    case (Some p)
    then show ?thesis
      using ReIssueStarted
      by (cases "statuses (rc_issues c) p")
        (auto simp: apply_issue_started_def Let_def board_simps status_or_new_def fun_upd_idem)
  qed (simp add: ReIssueStarted apply_issue_started_def Let_def board_simps)
qed (auto simp: apply_planning_def apply_plan_written_def apply_executing_def apply_issue_closed_def
    apply_non_green_def mark_idle_reaped_def apply_queue_built_def board_simps Let_def
    split: option.splits json.splits)

section \<open>Well-formed cards\<close>

text \<open>Each issue has one entry, and the active issue has one.\<close>

definition card_ok :: "card \<Rightarrow> bool" where
  "card_ok c \<longleftrightarrow> distinct (numbers c) \<and> set_option (rc_active c) \<subseteq> set (numbers c)"

text \<open>The issue an event adds at the end of the card when it is not on it yet.\<close>

fun mentions :: "run_event \<Rightarrow> card \<Rightarrow> issue_no list" where
  "mentions (ReIssueStarted n _) c = (case rc_active c of Some p \<Rightarrow> [p, n] | None \<Rightarrow> [n])"
| "mentions (Skipped n _ _ _) c = [n]"
| "mentions (HumanBlocked n _) c = [n]"
| "mentions (RePlanWritten n _ _ _) c = (case resolve_number c n of Some k \<Rightarrow> [k] | None \<Rightarrow> [])"
| "mentions (Executing n _ _ _) c = (case resolve_number c n of Some k \<Rightarrow> [k] | None \<Rightarrow> [])"
| "mentions (ReIssueClosed n _ _ _) c = (case resolve_number c n of Some k \<Rightarrow> [k] | None \<Rightarrow> [])"
| "mentions (ReNonGreen n _) c = (case resolve_number c n of Some k \<Rightarrow> [k] | None \<Rightarrow> [])"
| "mentions (ReNeedsSplit n) c = (case resolve_number c n of Some k \<Rightarrow> [k] | None \<Rightarrow> [])"
| "mentions (Planning _ _) c = (case rc_active c of Some p \<Rightarrow> [p] | None \<Rightarrow> [])"
| "mentions (IdleReaped _) c = (case rc_active c of Some p \<Rightarrow> [p] | None \<Rightarrow> [])"
| "mentions _ c = []"

definition add_new :: "issue_no list \<Rightarrow> issue_no \<Rightarrow> issue_no list" where
  "add_new ns n = (if n \<in> set ns then ns else ns @ [n])"

lemma map_number_update:
  assumes "\<And>e. ie_number (f e) = ie_number e"
  shows "map ie_number (update_first n f es) = add_new (map ie_number es) n"
  using numbers_update [of f n es] assms by (auto simp: add_new_def renumbers_def)

lemma add_new_member [simp]: "n \<in> set ns \<Longrightarrow> add_new ns n = ns"
  by (simp add: add_new_def)

lemma numbers_apply:
  assumes "card_ok c"
  shows "numbers (apply_event e c) = foldl add_new (numbers c) (mentions e c)"
  using assms
  by (cases e)
    (auto simp: numbers_def apply_planning_def apply_plan_written_def apply_executing_def
      apply_issue_closed_def apply_non_green_def mark_idle_reaped_def apply_queue_built_def
      apply_issue_started_def entry_mut_def map_number_update Let_def resolve_number_def card_ok_def
      split: option.splits json.splits)

lemma rc_active_apply:
  "rc_active (apply_event e c) = (case e of ReIssueStarted n _ \<Rightarrow> Some n | _ \<Rightarrow> rc_active c)"
  by (cases e)
    (auto simp: apply_planning_def apply_plan_written_def apply_executing_def apply_issue_closed_def
      apply_non_green_def mark_idle_reaped_def apply_queue_built_def apply_issue_started_def
      entry_mut_def Let_def split: option.splits json.splits)

lemma set_add_new [simp]: "set (add_new ns n) = insert n (set ns)"
  by (auto simp: add_new_def)

lemma add_new_fold:
  "set (foldl add_new ns ms) = set ns \<union> set ms" "distinct ns \<Longrightarrow> distinct (foldl add_new ns ms)"
  "prefix ns (foldl add_new ns ms)"
proof (induction ms arbitrary: ns)
  case (Cons m ms)
  { case 1 show ?case using Cons.IH(1) by simp
  next case 2 then show ?case using Cons.IH(2) [of "add_new ns m"] by (simp add: add_new_def)
  next case 3
    have "prefix ns (add_new ns m)" by (simp add: add_new_def)
    then show ?case using prefix_order.trans [OF _ Cons.IH(3)] by simp }
qed simp_all

lemma card_ok_apply:
  assumes "card_ok c"
  shows "card_ok (apply_event e c)"
proof -
  have "set_option (rc_active (apply_event e c)) \<subseteq> set (numbers c) \<union> set (mentions e c)"
    unfolding rc_active_apply using assms by (cases e) (auto simp: card_ok_def split: option.splits)
  with assms show ?thesis
    by (simp add: card_ok_def numbers_apply add_new_fold)
qed

lemma card_ok_new: "card_ok (new_card title n)"
  by (simp add: card_ok_def new_card_def numbers_def)

interpretation card: stepwise apply_event "\<lambda>_. True" card_ok
  by unfold_locales (rule card_ok_apply)

lemma card_ok_fold: "card_ok c \<Longrightarrow> card_ok (fold apply_event es c)"
  by (rule card.run) (simp_all add: list_all_iff)

lemma prefix_fold: "card_ok c \<Longrightarrow> prefix (numbers c) (numbers (fold apply_event es c))"
proof (induction es arbitrary: c)
  case (Cons e es)
  have "prefix (numbers c) (numbers (apply_event e c))"
    using Cons.prems by (simp add: numbers_apply add_new_fold)
  with Cons card_ok_apply show ?case by (simp, blast intro: prefix_order.trans)
qed simp

text \<open>
  Whatever the stream, a card never holds an issue twice and always holds the active issue, and
  later events only append issues: the rows a reader saw keep their order.
\<close>

theorem card_well_formed:
  "card_ok (fold_card title n (es @ fs)) \<and>
   prefix (numbers (fold_card title n es)) (numbers (fold_card title n (es @ fs)))"
  unfolding fold_card_def
  by (simp add: card_ok_fold card_ok_new prefix_fold)

section \<open>Counters\<close>

definition tally :: "issue_status \<Rightarrow> card \<Rightarrow> nat" where
  "tally st c = card {n. status c n = Some st}"

lemma entry_of_distinct:
  assumes "distinct (map ie_number es)"
  shows "statuses es n = Some st \<longleftrightarrow> (\<exists>e \<in> set es. ie_number e = n \<and> ie_status e = st)"
  using assms
proof (induction es)
  case (Cons a es)
  then show ?case by (cases "ie_number a = n") (auto simp: statuses_def entry_of_def image_iff)
qed (simp add: statuses_def entry_of_def)

lemma tally_filter:
  assumes "card_ok c"
  shows "tally st c = length (filter (\<lambda>e. ie_status e = st) (rc_issues c))"
proof -
  let ?es = "filter (\<lambda>e. ie_status e = st) (rc_issues c)"
  have d: "distinct (map ie_number (rc_issues c))" using assms by (simp add: card_ok_def numbers_def)
  have "{n. status c n = Some st} = ie_number ` set ?es"
    unfolding status_def using entry_of_distinct [OF d] by auto
  moreover have "distinct (map ie_number ?es)" using d by (rule distinct_map_filter)
  ultimately show ?thesis by (metis (no_types) tally_def distinct_card length_map set_map)
qed

lemma count_status_sum:
  "n_done (count_status st k) = n_done k + of_bool (st = StatDone)"
  "n_skipped (count_status st k) = n_skipped k + of_bool (st = StatSkipped)"
  "n_blocked (count_status st k) = n_blocked k + of_bool (st = StatBlocked)"
  "n_infeasible (count_status st k) = n_infeasible k + of_bool (st = StatInfeasible)"
  "n_needs_split (count_status st k) = n_needs_split k + of_bool (st = StatNeedsSplit)"
  "n_non_green (count_status st k) = n_non_green k + of_bool (st = StatNonGreen)"
  "n_hitl (count_status st k) = n_hitl k + of_bool (st = StatHitl)"
  "n_planned (count_status st k) = n_planned k + of_bool (st = StatPlanned)"
  "n_planning (count_status st k) = n_planning k + of_bool (st = StatPlanning)"
  "n_executing (count_status st k) = n_executing k + of_bool (st = StatExecuting)"
  by (cases st; simp)+

lemma fold_count:
  assumes "\<And>st k. f (count_status st k) = f k + of_bool (st = x)"
  shows "f (fold (\<lambda>e. count_status (ie_status e)) es k) =
     (f k :: nat) + length (filter (\<lambda>e. ie_status e = x) es)"
  by (induction es arbitrary: k) (simp_all add: assms)

lemma tally_counts:
  assumes "card_ok c" "\<And>st k. f (count_status st k) = f k + of_bool (st = x)" "f counts_zero = 0"
  shows "f (card_counts c) = tally x c"
  using assms(3) by (simp add: card_counts_def fold_count [OF assms(2)] tally_filter [OF assms(1)])

text \<open>
  The counter line counts every issue of the card exactly once, under the status it shows: each
  counter is the number of issues the board gives that status, and together they are the rows.
\<close>

theorem counts_partition_card:
  "let c = fold_card title n es; k = card_counts c
   in n_done k = tally StatDone c \<and> n_skipped k = tally StatSkipped c \<and>
      n_blocked k = tally StatBlocked c \<and> n_infeasible k = tally StatInfeasible c \<and>
      n_needs_split k = tally StatNeedsSplit c \<and> n_non_green k = tally StatNonGreen c \<and>
      n_hitl k = tally StatHitl c \<and> n_planned k = tally StatPlanned c \<and>
      n_planning k = tally StatPlanning c \<and> n_executing k = tally StatExecuting c \<and>
      length (rc_issues c) = n_done k + n_skipped k + n_blocked k + n_infeasible k + n_needs_split k +
        n_non_green k + n_hitl k + n_planned k + n_planning k + n_executing k"
proof -
  let ?c = "fold_card title n es"
  have ok: "card_ok ?c" unfolding fold_card_def by (simp add: card_ok_fold card_ok_new)
  have rows: "length es =
     length (filter (\<lambda>e. ie_status e = StatDone) es) + length (filter (\<lambda>e. ie_status e = StatSkipped) es) +
     length (filter (\<lambda>e. ie_status e = StatBlocked) es) + length (filter (\<lambda>e. ie_status e = StatInfeasible) es) +
     length (filter (\<lambda>e. ie_status e = StatNeedsSplit) es) + length (filter (\<lambda>e. ie_status e = StatNonGreen) es) +
     length (filter (\<lambda>e. ie_status e = StatHitl) es) + length (filter (\<lambda>e. ie_status e = StatPlanned) es) +
     length (filter (\<lambda>e. ie_status e = StatPlanning) es) + length (filter (\<lambda>e. ie_status e = StatExecuting) es)"
    for es :: "issue_entry list"
  proof (induction es)
    case (Cons e es)
    then show ?case by (cases "ie_status e") simp_all
  qed simp
  note counted = tally_counts [OF ok, OF count_status_sum(1)] tally_counts [OF ok, OF count_status_sum(2)]
    tally_counts [OF ok, OF count_status_sum(3)] tally_counts [OF ok, OF count_status_sum(4)]
    tally_counts [OF ok, OF count_status_sum(5)] tally_counts [OF ok, OF count_status_sum(6)]
    tally_counts [OF ok, OF count_status_sum(7)] tally_counts [OF ok, OF count_status_sum(8)]
    tally_counts [OF ok, OF count_status_sum(9)] tally_counts [OF ok, OF count_status_sum(10)]
  from rows [of "rc_issues ?c"] show ?thesis
    by (simp add: Let_def counted counts_zero_def tally_filter [OF ok])
qed

section \<open>No phantom issue\<close>

text \<open>The events that name an issue themselves, rather than the one at work.\<close>

fun names_zero :: "run_event \<Rightarrow> bool" where
  "names_zero (ReIssueStarted n _) = (n = 0)"
| "names_zero (Skipped n _ _ _) = (n = 0)"
| "names_zero (HumanBlocked n _) = (n = 0)"
| "names_zero _ = False"

text \<open>
  An event without an issue number never makes an issue of its own: as long as the events that
  start, skip or park an issue name one, no card has a row for issue 0, in whatever order the other
  events come and whichever of them were dropped.
\<close>

theorem no_phantom_issue:
  assumes "list_all (\<lambda>e. \<not> names_zero e) es"
  shows "0 \<notin> set (numbers (fold_card title n es))"
proof -
  have step: "card_ok c \<Longrightarrow> 0 \<notin> set (numbers c) \<Longrightarrow> \<not> names_zero e \<Longrightarrow> 0 \<notin> set (mentions e c)" for e c
    by (cases e; cases "rc_active c") (auto simp: resolve_number_def card_ok_def intro!: gr0I split: if_splits)
  have "card_ok c \<Longrightarrow> 0 \<notin> set (numbers c) \<Longrightarrow> 0 \<notin> set (numbers (fold apply_event es c))" for c
    using assms
  proof (induction es arbitrary: c)
    case (Cons e es)
    then show ?case
      using step [of c e] by (simp add: card_ok_apply numbers_apply add_new_fold)
  qed simp
  moreover have "0 \<notin> set (numbers (new_card title n))" by (simp add: new_card_def numbers_def)
  ultimately show ?thesis unfolding fold_card_def using card_ok_new by blast
qed

theorem no_phantom_issue_witness:
  "0 \<notin> set (numbers (fold_card [] 1 [Executing 0 5 ''m'' None, ReIssueStarted 7 [], Executing 0 5 ''m'' None]))"
  by (rule no_phantom_issue) simp

end
