(* ===== verification/Event_Roundtrip.thy ===== *)
theory Event_Roundtrip
  imports Event_Decode
begin

text \<open>
  What is emitted is what is decoded: the renderings of numbers, lists and queue orders read back,
  and every emission of the runner reaches a subscriber as the event it stands for.
\<close>

section \<open>Lists of numbers\<close>

lemma u64_list_digits:
  "list_all is_digit ds \<Longrightarrow> u64_list_from out cur (ds @ rest) = u64_list_from out (cur @ ds) rest"
  by (induction ds arbitrary: cur) auto

lemma separators: "\<not> is_digit (CHR '','')" "\<not> is_digit (CHR '' '')" "\<not> is_digit (CHR '']'')"
  "\<not> is_digit (CHR ''['')"
  by (simp_all add: is_digit_def digit_value_def)

lemma u64_list_join:
  "list_all (\<lambda>n. n < 2 ^ 64) ns \<Longrightarrow>
   u64_list_from out [] (join '', '' (map show_nat ns) @ '']'') = out @ ns"
proof (induction ns arbitrary: out)
  case Nil
  then show ?case by (simp add: separators parse_u64_def)
next
  case (Cons n ns)
  then show ?case
    by (cases ns) (simp_all add: u64_list_digits show_nat_digits separators parse_u64_def [of "[]"])
qed

lemma parse_debug_list:
  "list_all (\<lambda>n. n < 2 ^ 64) ns \<Longrightarrow> parse_u64_list (Some (debug_list ns)) = ns"
  by (simp add: parse_u64_list_def debug_list_def separators u64_list_join)

section \<open>The emissions of a run\<close>

text \<open>
  What a run publishes: the emissions of the runner, and the two events its clock (\<^verbatim>\<open>runner/clock.rs\<close>)
  publishes around a wait for a usage limit, here with the wake time, the hint and the epoch it gives them.
\<close>

datatype published = OfRunner emission | LimitWait string string int | LimitOver

fun published_log :: "(string \<Rightarrow> string) \<Rightarrow> (json \<Rightarrow> string) \<Rightarrow> published \<Rightarrow> log_event" where
  "published_log quote to_json (OfRunner em) = log_of quote to_json em"
| "published_log quote to_json (LimitWait reset hint target) = usage_limit_waiting_event reset hint target"
| "published_log quote to_json LimitOver = reset_reached_event"

text \<open>
  What an emission stands for.  A parking label and a model name pass through \<open>clean\<close>, since a subscriber
  reads them with \<^verbatim>\<open>clean_opt\<close>.
\<close>

definition clean_usage :: "(string \<Rightarrow> string option) \<Rightarrow> usage \<Rightarrow> usage" where
  "clean_usage clean u = u\<lparr>u_model := Option.bind (u_model u) clean\<rparr>"

fun run_event_of :: "(string \<Rightarrow> string option) \<Rightarrow> (string \<Rightarrow> string) \<Rightarrow> emission \<Rightarrow> run_event" where
  "run_event_of clean quote (RunStopped n) = ReRunStopped (case n of Some k \<Rightarrow> k | None \<Rightarrow> 0)"
| "run_event_of clean quote (EmDeadlinePassed n) = ReDeadlinePassed n"
| "run_event_of clean quote (StopBeforeLabel n) = Skipped n StopBeforeSkip None []"
| "run_event_of clean quote (HumanReturnLabel n l) = Skipped n HumanReturnSkip (clean l) []"
| "run_event_of clean quote (BlockedByOpen n bs) = Skipped n BlockedBySkip None bs"
| "run_event_of clean quote (BlockedWaitingHuman n bs hs) = HumanBlocked n hs"
| "run_event_of clean quote (IssueStarted n t) = ReIssueStarted n t"
| "run_event_of clean quote (PlanWritten n k u steps) =
     RePlanWritten n k (clean_usage clean u) (map (map_prod id step_status_wire) steps)"
| "run_event_of clean quote (PlanOpened n md) = RePlanOpened n md"
| "run_event_of clean quote (NeedsSplit n) = ReNeedsSplit n"
| "run_event_of clean quote (EmNonGreen n oc) = ReNonGreen n (debug_outcome quote oc)"
| "run_event_of clean quote (VerifyGateFailed n s) = Skipped n VerifyFailedSkip None []"
| "run_event_of clean quote (IssueClosed n t k u) = ReIssueClosed n (unat t) (unat k) (clean_usage clean u)"
| "run_event_of clean quote (PlanClosed n md) = RePlanClosed n md"

fun published_event :: "(string \<Rightarrow> string option) \<Rightarrow> (string \<Rightarrow> string) \<Rightarrow> published \<Rightarrow> run_event" where
  "published_event clean quote (OfRunner em) = run_event_of clean quote em"
| "published_event clean quote (LimitWait reset hint target) = SleepStarted reset target"
| "published_event clean quote LimitOver = SleepEnded"

text \<open>The blockers are \<^verbatim>\<open>u64\<close>s, as in the source.\<close>

fun u64_blockers :: "published \<Rightarrow> bool" where
  "u64_blockers (OfRunner (BlockedByOpen n bs)) = list_all (\<lambda>b. b < 2 ^ 64) bs"
| "u64_blockers (OfRunner (BlockedWaitingHuman n bs hs)) = list_all (\<lambda>b. b < 2 ^ 64) hs"
| "u64_blockers _ = True"

text \<open>
  The model name or parking label survives the cleaning: it is not blank, not \<^verbatim>\<open>None\<close>, and neither quoted
  nor wrapped in \<^verbatim>\<open>Some(..)\<close>.
\<close>

definition model_clean :: "usage \<Rightarrow> bool" where
  "model_clean u \<longleftrightarrow> (case u_model u of Some m \<Rightarrow> clean_opt m = Some m | None \<Rightarrow> True)"

fun plainly_named :: "published \<Rightarrow> bool" where
  "plainly_named (OfRunner (PlanWritten n k u steps)) = model_clean u"
| "plainly_named (OfRunner (IssueClosed n t k u)) = model_clean u"
| "plainly_named (OfRunner (HumanReturnLabel n l)) = (clean_opt l = Some l)"
| "plainly_named _ = True"

lemma clean_usage_plain:
  "clean_usage Some u = u" "model_clean u \<Longrightarrow> clean_usage clean_opt u = u"
  by (simp_all add: clean_usage_def model_clean_def split: option.splits)

lemma plainly_named_event:
  "plainly_named em \<Longrightarrow> published_event clean_opt quote em = published_event Some quote em"
  by (cases em rule: plainly_named.cases) (simp_all add: clean_usage_plain)

lemma clean_opt_Nil [simp]: "clean_opt [] = None"
  by (simp add: clean_opt_def)

lemma parse_step_jsons:
  assumes "from_json (plan_steps_json to_json steps) = Some (JArr (map step_json steps))"
  shows "parse_steps_json from_json (Some (plan_steps_json to_json steps)) =
     map (map_prod id step_status_wire) steps"
proof -
  have "List.map_filter (\<lambda>e. do {
              txt \<leftarrow> Option.bind (json_get ''text'' e) json_str;
              status \<leftarrow> Option.bind (json_get ''status'' e) json_str;
              Some (txt, status)
            }) (map step_json steps) = map (map_prod id step_status_wire) steps"
    by (induction steps) (auto simp: step_json_def map_filter_simps)
  with assms show ?thesis by (simp add: parse_steps_json_def)
qed

lemma usage_readback:
  "u_model (clean_usage clean_opt u) = clean_opt (case u_model u of Some m \<Rightarrow> m | None \<Rightarrow> [])"
  by (simp add: clean_usage_def split: option.splits)

lemmas decode_eval = decode_def collect_fields_def event_to_runevent_def decode_message_def
  event_defs visit_defs fields_default_def message_defs em_dash_def or_empty_def

lemma log_of_decoded:
  assumes "\<And>steps. from_json (plan_steps_json to_json steps) = Some (JArr (map step_json steps))"
    and "u64_blockers (OfRunner em)"
  shows "decode from_json (log_of quote to_json em) = Some (run_event_of clean_opt quote em)"
proof (cases em)
  case (PlanWritten n k u steps)
  with parse_step_jsons [of from_json to_json steps, OF assms(1)] usage_readback [of u] show ?thesis
    by (simp add: decode_eval usage_from_def clean_usage_def)
next
  case (IssueClosed n t k u)
  with usage_readback [of u] show ?thesis
    by (simp add: decode_eval usage_from_def clean_usage_def)
next
  case (RunStopped n)
  then show ?thesis by (cases n) (simp_all add: decode_eval)
qed (use assms(2) parse_debug_list in \<open>simp_all add: decode_eval\<close>)

text \<open>
  C12. Everything a run publishes, the runner's emissions and the clock's two events around a usage-limit
  wait, is decoded, by the fields it is logged with, into the run event it stands for: no field is lost,
  renamed or read by another method than it was written with.  A model name and a parking label arrive as
  \<open>clean_opt\<close> leaves them, which is unchanged when they are plain names.  The JSON crate is only relied on to
  read back a step list it wrote.
\<close>

theorem emission_roundtrip:
  assumes "\<And>steps. from_json (plan_steps_json to_json steps) = Some (JArr (map step_json steps))"
    and "u64_blockers em"
  shows "decode from_json (published_log quote to_json em) = Some (published_event clean_opt quote em) \<and>
    (if plainly_named em then published_event clean_opt quote em = published_event Some quote em else True)"
proof
  show "decode from_json (published_log quote to_json em) = Some (published_event clean_opt quote em)"
    using log_of_decoded [OF assms(1)] assms(2) by (cases em) (simp_all add: decode_eval)
qed (simp add: plainly_named_event)

text \<open>A concrete writer and reader of step lists, for the witness.\<close>

definition escape_chars :: "string \<Rightarrow> string" where
  "escape_chars s = concat (map (\<lambda>c. [CHR ''.'', c]) s)"

fun write_step :: "json \<Rightarrow> string" where
  "write_step (JObj [(_, JStr st), (_, JStr txt)]) = escape_chars st @ '':'' @ escape_chars txt @ '';''"
| "write_step _ = []"

fun sample_to_json :: "json \<Rightarrow> string" where
  "sample_to_json (JArr vs) = concat (map write_step vs)"
| "sample_to_json _ = []"

fun read_steps :: "string option \<Rightarrow> string \<Rightarrow> string \<Rightarrow> json list" where
  "read_steps st acc (CHR ''.'' # c # r) = read_steps st (acc @ [c]) r"
| "read_steps None acc (CHR '':'' # r) = read_steps (Some acc) [] r"
| "read_steps (Some st) acc (CHR '';'' # r) =
     JObj [(''status'', JStr st), (''text'', JStr acc)] # read_steps None [] r"
| "read_steps _ _ _ = []"

definition sample_from_json :: json_reader where
  "sample_from_json s = Some (JArr (read_steps None [] s))"

lemma read_escaped: "read_steps st acc (escape_chars s @ r) = read_steps st (acc @ s) r"
  by (induction s arbitrary: acc) (simp_all add: escape_chars_def)

lemma sample_json_reads_back:
  "sample_from_json (plan_steps_json sample_to_json steps) = Some (JArr (map step_json steps))"
  unfolding sample_from_json_def plan_steps_json_def
  by (induction steps) (simp_all add: step_json_def read_escaped)

lemma clean_m: "clean_opt ''m'' = Some ''m''"
  by (simp add: clean_opt_def trim_def trim_start_def trim_end_def utf8_tail_def is_ws_def ws_utf8_def
      unwrap_some_def trim_quotes_def dquote_def Let_def)

theorem emission_roundtrip_witness:
  "decode sample_from_json (published_log id sample_to_json
       (OfRunner (PlanWritten 7 1
          \<lparr>u_input = 10, u_output = 2, u_cache_read = 0, u_cache_creation = 0, u_model = Some ''m''\<rparr>
          [(''step'', OpenStep)]))) =
     Some (RePlanWritten 7 1 \<lparr>u_input = 10, u_output = 2, u_cache_read = 0, u_cache_creation = 0, u_model = Some ''m''\<rparr>
          [(''step'', ''open'')])"
  using emission_roundtrip [OF sample_json_reads_back, of "OfRunner (PlanWritten 7 1
          \<lparr>u_input = 10, u_output = 2, u_cache_read = 0, u_cache_creation = 0, u_model = Some ''m''\<rparr>
          [(''step'', OpenStep)])" id]
  by (simp add: model_clean_def clean_m clean_usage_plain)

section \<open>The queue order\<close>

definition order_string :: "issue_no list \<Rightarrow> string" where
  "order_string ns = join '' -> '' (map (\<lambda>n. ''#'' @ show_nat n) ns)"

lemma split_skip_word:
  "list_all (\<lambda>c. c \<noteq> CHR ''-'') x \<Longrightarrow> split_at ''->'' cur 0 (x @ rest) = split_at ''->'' (cur @ x) 0 rest"
  by (induction x arbitrary: cur) auto

lemma split_here: "split_at ''->'' cur 0 (''->'' @ rest) = cur # split_at ''->'' [] 0 rest"
  by simp

lemma space_ws: "is_ws '' ''" "is_ascii (CHR '' '')" "is_ascii (CHR ''#'')" "\<not> is_ws ''#''"
  by (simp_all add: is_ws_def ws_utf8_def is_ascii_def)

text \<open>A piece of a queue order reads as its number, with or without the blanks around it.\<close>

lemma parse_piece:
  assumes "n < 2 ^ 64" "p = [] \<or> p = '' ''" "q = [] \<or> q = '' ''"
  shows "parse_u64 (trim (trim_hashes (trim (p @ (''#'' @ show_nat n) @ q)))) = Some n"
proof -
  let ?ds = "show_nat n"
  note digits = show_nat_digits [of n]
  have ds: "list_all is_ascii ?ds" "\<not> is_ws [hd ?ds]" "\<not> is_ws [last ?ds]" "hd ?ds \<noteq> CHR ''#''"
    using digits show_nat_nonempty [of n] digit_not_ws by (simp_all add: list_all_iff)
  have "dropWhile (\<lambda>c. is_ws [c]) (rev (''#'' @ ?ds)) = rev (''#'' @ ?ds)"
    using ds(3) show_nat_nonempty [of n] by (simp add: dropWhile_head hd_rev)
  then have "trim (p @ (''#'' @ ?ds) @ q) = ''#'' @ ?ds"
    using assms(2,3) ds(1) by (auto simp: trim_ascii space_ws)
  moreover have "trim_hashes (''#'' @ ?ds) = ?ds"
    using ds(4) show_nat_nonempty [of n] by (simp add: trim_hashes_def dropWhile_head [of _ _ "[]", simplified])
  moreover have "trim ?ds = ?ds"
    using ds show_nat_nonempty [of n]
    by (simp add: trim_ascii dropWhile_head [of _ _ "[]", simplified] hd_rev)
  ultimately show ?thesis using assms(1) by simp
qed

lemma split_order:
  assumes "list_all (\<lambda>n. n < 2 ^ 64) (n # ns)"
  shows "List.map_filter (\<lambda>tok. parse_u64 (trim (trim_hashes (trim tok))))
     (split_at ''->'' (if lead then '' '' else []) 0 (order_string (n # ns))) = n # ns"
  using assms
proof (induction ns arbitrary: n lead)
  case Nil
  have "list_all (\<lambda>c. c \<noteq> CHR ''-'') (''#'' @ show_nat n)"
    using show_nat_digits [of n] by (auto simp: list_all_iff dest: digit_not_ws)
  from split_skip_word [OF this, of "if lead then '' '' else []" "[]"]
  have "split_at ''->'' (if lead then '' '' else []) 0 (order_string [n]) =
      [(if lead then '' '' else []) @ (''#'' @ show_nat n) @ []]"
    by (simp add: order_string_def)
  with Nil show ?case
    using parse_piece [of n "if lead then '' '' else []" "[]"] by (simp add: map_filter_simps)
next
  case (Cons m ns)
  let ?w = "''#'' @ show_nat n @ '' ''"
  have w: "list_all (\<lambda>c. c \<noteq> CHR ''-'') ?w"
    using show_nat_digits [of n] by (auto simp: list_all_iff dest: digit_not_ws)
  have "order_string (n # m # ns) = ?w @ ''->'' @ '' '' @ order_string (m # ns)"
    by (simp add: order_string_def)
  then have "split_at ''->'' (if lead then '' '' else []) 0 (order_string (n # m # ns)) =
      ((if lead then '' '' else []) @ ?w) # split_at ''->'' '' '' 0 (order_string (m # ns))"
    by (simp only: split_skip_word [OF w] split_here) simp
  moreover have "parse_u64 (trim (trim_hashes (trim ((if lead then '' '' else []) @ ?w)))) = Some n"
    using Cons.prems parse_piece [of n "if lead then '' '' else []" "'' ''"] by simp
  ultimately show ?case
    using Cons.IH [of m True] Cons.prems by (simp add: map_filter_simps)
qed

text \<open>
  The queue order a run announces reads back as the issue numbers it was built from, in order,
  the empty queue included.
\<close>

lemma order_roundtrip:
  assumes "list_all (\<lambda>n. n < 2 ^ 64) ns"
  shows "parse_order (Some (order_string ns)) = ns"
proof (cases ns)
  case Nil
  have "parse_u64 (trim (trim_hashes (trim []))) = None"
    by (simp add: trim_hashes_def parse_u64_def)
  then show ?thesis
    unfolding Nil parse_order_def rust_split_def order_string_def by (simp add: map_filter_simps)
next
  case (Cons n ms)
  with assms split_order [of n ms False] show ?thesis by (simp add: parse_order_def rust_split_def)
qed

lemma order_roundtrip_witness:
  "order_string [30, 7] = ''#30 -> #7'' \<and> parse_order (Some ''#30 -> #7'') = [30, 7]"
proof -
  have shown: "order_string [30, 7] = ''#30 -> #7''" by code_simp
  have "parse_order (Some (order_string [30, 7])) = [30, 7]" by (rule order_roundtrip) simp
  with shown show ?thesis by simp
qed

end
