(* ===== verification/Queue_View.thy ===== *)
theory Queue_View
  imports Run_Results
begin

text \<open>
  The queue as data: \<^verbatim>\<open>resolve_queue_view\<close> of \<^verbatim>\<open>queue_view.rs\<close>, which judges a backlog without working
  it, and its agreement with the gates the runner applies to each issue.
\<close>

section \<open>The view\<close>

datatype queue_status = QsEligible | QsSkipped | QsBlocked | QsStopBefore

record issue_view =
  iv_number :: issue_no
  iv_title :: string
  iv_labels :: "string list"
  iv_queue_status :: queue_status
  iv_skip_reason :: "string option"
  iv_blocked_by :: "issue_no list"
  iv_position :: "nat option"

record queue_view =
  qv_count :: nat
  qv_order :: "issue_no list"
  qv_stop_before :: "issue_no option"
  qv_issues :: "issue_view list"

definition view_row :: "issue \<Rightarrow> queue_status \<Rightarrow> string option \<Rightarrow> issue_no list \<Rightarrow> nat option \<Rightarrow> issue_view" where
  "view_row i st reason blocked pos =
     \<lparr>iv_number = issue_number i, iv_title = issue_title i, iv_labels = issue_labels i,
      iv_queue_status = st, iv_skip_reason = reason, iv_blocked_by = blocked, iv_position = pos\<rparr>"

text \<open>The loop of \<^verbatim>\<open>resolve_queue_view\<close>, with its locals \<open>next_position\<close> and \<open>issues\<close>.\<close>

fun view_loop :: "ctx \<Rightarrow> issue_no option \<Rightarrow> string list \<Rightarrow> issue list \<Rightarrow> nat \<Rightarrow> issue_view list
    \<Rightarrow> (error + issue_view list) run" where
  "view_loop cx stop_before hrl [] next_position rows = okE rows"
| "view_loop cx stop_before hrl (i # queue) next_position rows =
     (if stop_before = Some (issue_number i) then
        view_loop cx stop_before hrl queue next_position (rows @ [view_row i QsStopBefore None [] None])
      else case human_return_label i hrl of
        Some label \<Rightarrow>
          view_loop cx stop_before hrl queue next_position (rows @ [view_row i QsSkipped (Some label) [] None])
      | None \<Rightarrow>
          bindE (open_blockers cx i) (\<lambda>ob.
            if ob_open ob = [] then
              view_loop cx stop_before hrl queue (next_position + 1)
                (rows @ [view_row i QsEligible None [] (Some (next_position + 1))])
            else
              view_loop cx stop_before hrl queue next_position
                (rows @ [view_row i QsBlocked None (ob_open ob) None])))"

definition resolve_queue_view :: "ctx \<Rightarrow> issue list \<Rightarrow> issue_no list \<Rightarrow> string list \<Rightarrow> (error + queue_view) run" where
  "resolve_queue_view cx queue forced hrl =
     (let stop_before = first_stop_before queue forced
      in bindE (view_loop cx stop_before hrl queue 0 []) (\<lambda>rows.
           okE \<lparr>qv_count = length queue, qv_order = map issue_number queue,
                qv_stop_before = stop_before, qv_issues = rows\<rparr>))"

section \<open>A tracker that does not change its mind\<close>

definition steady_tracker :: "env \<Rightarrow> (issue_no \<Rightarrow> bool) \<Rightarrow> (issue_no \<Rightarrow> issue_no list) \<Rightarrow> bool" where
  "steady_tracker env closed kids \<longleftrightarrow>
     (\<forall>h n. e_is_closed env h n = Inr (closed n) \<and> e_open_children env h n = Inr (kids n))"

text \<open>The open blockers of an issue: an open reference, or the open children of a closed one.\<close>

definition blockers_of :: "env \<Rightarrow> (issue_no \<Rightarrow> bool) \<Rightarrow> (issue_no \<Rightarrow> issue_no list) \<Rightarrow> issue \<Rightarrow> issue_no list" where
  "blockers_of env closed kids i =
     concat (map (\<lambda>n. if closed n then filter (\<lambda>c. c \<noteq> issue_number i) (kids n) else [n])
       (filter (\<lambda>n. n \<noteq> issue_number i)
          (parse_blocked_by_all (e_rx env) (issue_body i) (issue_comments i))))"

lemma classify_refs_steady:
  assumes "steady_tracker (cx_env cx) closed kids"
  shows "wp (classify_refs cx self ns opn cl) (\<lambda>r _. \<exists>cl'. r = Inr (opn @
     concat (map (\<lambda>n. if closed n then filter (\<lambda>c. c \<noteq> self) (kids n) else [n]) ns), cl')) s"
proof (induction ns arbitrary: opn cl s)
  case Nil
  then show ?case by (simp add: wp_simps)
next
  case (Cons n ns)
  have "e_is_closed (cx_env cx) h n = Inr (closed n)" "e_open_children (cx_env cx) h n = Inr (kids n)" for h
    using assms by (simp_all add: steady_tracker_def)
  then show ?case
    by (auto simp: wp_simps Let_def intro!: wp_mono [OF Cons.IH])
qed

lemma open_blockers_steady:
  assumes "steady_tracker (cx_env cx) closed kids"
  shows "wp (open_blockers cx i)
     (\<lambda>r _. \<exists>ob. r = Inr ob \<and> ob_open ob = blockers_of (cx_env cx) closed kids i) s"
  unfolding open_blockers_def Let_def wp_bindE
  by (rule wp_mono [OF classify_refs_steady [OF assms]])
    (auto simp: wp_simps blockers_of_def intro!: wp_mono [OF wp_True])

section \<open>The verdicts\<close>

text \<open>The row of an issue, given the rank it has if it is eligible.\<close>

definition verdict :: "issue_no option \<Rightarrow> string list \<Rightarrow> (issue \<Rightarrow> issue_no list) \<Rightarrow> nat \<Rightarrow> issue \<Rightarrow> issue_view" where
  "verdict stop_before hrl blockers pos i =
     (if stop_before = Some (issue_number i) then view_row i QsStopBefore None [] None
      else case human_return_label i hrl of
        Some label \<Rightarrow> view_row i QsSkipped (Some label) [] None
      | None \<Rightarrow> if blockers i = [] then view_row i QsEligible None [] (Some pos)
                else view_row i QsBlocked None (blockers i) None)"

definition eligible :: "issue_no option \<Rightarrow> string list \<Rightarrow> (issue \<Rightarrow> issue_no list) \<Rightarrow> issue \<Rightarrow> bool" where
  "eligible stop_before hrl blockers i \<longleftrightarrow> iv_queue_status (verdict stop_before hrl blockers 0 i) = QsEligible"

fun verdicts :: "issue_no option \<Rightarrow> string list \<Rightarrow> (issue \<Rightarrow> issue_no list) \<Rightarrow> nat \<Rightarrow> issue list \<Rightarrow> issue_view list" where
  "verdicts stop_before hrl blockers p [] = []"
| "verdicts stop_before hrl blockers p (i # queue) =
     verdict stop_before hrl blockers (p + 1) i #
     verdicts stop_before hrl blockers (if eligible stop_before hrl blockers i then p + 1 else p) queue"

lemma view_loop_verdicts:
  assumes "steady_tracker (cx_env cx) closed kids"
  shows "wp (view_loop cx sb hrl queue p rows)
     (\<lambda>r _. r = Inr (rows @ verdicts sb hrl (blockers_of (cx_env cx) closed kids) p queue)) s"
proof (induction queue arbitrary: p rows s)
  case Nil
  then show ?case by (simp add: wp_simps)
next
  case (Cons i queue)
  consider (stop) "sb = Some (issue_number i)"
    | (skip) label where "sb \<noteq> Some (issue_number i)" "human_return_label i hrl = Some label"
    | (gate) "sb \<noteq> Some (issue_number i)" "human_return_label i hrl = None"
    by (cases "human_return_label i hrl") auto
  then show ?case
  proof cases
    case stop
    then show ?thesis
      by (simp add: verdict_def eligible_def view_row_def) (rule wp_mono [OF Cons.IH [unfolded stop]], simp)
  next
    case skip
    then show ?thesis by (auto simp: verdict_def eligible_def view_row_def intro!: wp_mono [OF Cons.IH])
  next
    case gate
    then show ?thesis
      by (auto simp: wp_bindE verdict_def eligible_def view_row_def
          intro!: wp_mono [OF open_blockers_steady [OF assms]] wp_mono [OF Cons.IH])
  qed
qed

lemma nth_verdicts:
  "verdicts sb hrl blockers p (xs @ i # ys) ! length xs =
     verdict sb hrl blockers (p + length (filter (eligible sb hrl blockers) xs) + 1) i"
  by (induction xs arbitrary: p) auto

lemma view_rows:
  assumes "steady_tracker (cx_env cx) closed kids"
    and "run_state (resolve_queue_view cx (xs @ i # ys) forced hrl) s = (r, s')"
  shows "\<exists>v. r = Inr v \<and> length (qv_issues v) = length (xs @ i # ys) \<and>
     (let sb = first_stop_before (xs @ i # ys) forced; bl = blockers_of (cx_env cx) closed kids
      in qv_issues v ! length xs = verdict sb hrl bl (length (filter (eligible sb hrl bl) xs) + 1) i)"
proof -
  let ?queue = "xs @ i # ys"
  let ?sb = "first_stop_before ?queue forced" and ?bl = "blockers_of (cx_env cx) closed kids"
  have len: "length (verdicts sb h b p q) = length q" for sb h b p q
    by (induction q arbitrary: p) auto
  have "wp (resolve_queue_view cx ?queue forced hrl)
      (\<lambda>r _. \<exists>v. r = Inr v \<and> qv_issues v = verdicts ?sb hrl ?bl 0 ?queue) s"
    unfolding resolve_queue_view_def Let_def wp_bindE
    by (rule wp_mono [OF view_loop_verdicts [OF assms(1)]]) (simp add: wp_simps)
  from wp_run [OF this assms(2)] obtain v where v: "r = Inr v" "qv_issues v = verdicts ?sb hrl ?bl 0 ?queue"
    by blast
  show ?thesis unfolding v(1) Let_def using v(2) by (simp add: len nth_verdicts)
qed

text \<open>
  On a tracker that answers the same throughout, the view of a queue has one row per issue, in
  queue order, and the row of an issue is its verdict: the first \<^verbatim>\<open>stop-before\<close> issue, else parked by a
  label, else gated by its open blockers, else eligible with its 1-based rank among the eligible.
\<close>

theorem queue_view_rows:
  assumes "steady_tracker (cx_env cx) closed kids"
    and "run_state (resolve_queue_view cx (xs @ i # ys) forced hrl) s = (r, s')"
  shows "\<exists>v. r = Inr v \<and> length (qv_issues v) = length (xs @ i # ys) \<and>
     (let sb = first_stop_before (xs @ i # ys) forced; bl = blockers_of (cx_env cx) closed kids
      in qv_issues v ! length xs = verdict sb hrl bl (length (filter (eligible sb hrl bl) xs) + 1) i)"
  using assms by (rule view_rows)

text \<open>A world where every issue but the first is closed.\<close>

definition view_env :: env where
  "view_env = sample_env\<lparr>e_rx := sample_engine, e_is_closed := \<lambda>_ n. Inr (n \<noteq> 1)\<rparr>"

definition view_ctx :: ctx where
  "view_ctx = \<lparr>cx_cfg = sample_cfg, cx_env = view_env, cx_branch = ''b'', cx_orig = ''main'',
     cx_project = [], cx_actor_email = [], cx_actor_name = []\<rparr>"

lemma view_env_steady: "steady_tracker (cx_env view_ctx) (\<lambda>n. n \<noteq> 1) (\<lambda>_. [])"
  by (simp add: steady_tracker_def view_ctx_def view_env_def sample_env_def)

theorem queue_view_rows_witness:
  "\<exists>v s'. run_state (resolve_queue_view view_ctx [sample_issue 6, sample_issue 7] [] []) start_state = (Inr v, s') \<and>
     length (qv_issues v) = 2 \<and> iv_position (qv_issues v ! 1) = Some 2"
proof -
  obtain r s' where run: "run_state (resolve_queue_view view_ctx ([sample_issue 6] @ sample_issue 7 # []) [] [])
      start_state = (r, s')" by fastforce
  from queue_view_rows [OF view_env_steady run] obtain v where
      "r = Inr v" "length (qv_issues v) = 2" "iv_position (qv_issues v ! 1) = Some 2"
    by (auto simp: Let_def verdict_def eligible_def first_stop_before_def is_stop_before_def
        human_return_label_def sample_issue_def view_row_def blockers_of_def parse_blocked_by_all_def
        parse_blocked_by_def section_after_heading_def find_consolidated_spec_def view_ctx_def
        view_env_def sample_env_def sample_engine_def)
  with run show ?thesis by auto
qed

section \<open>Agreement with the runner\<close>

text \<open>
  What a run does with an issue it reaches, up to its staging: the steps \<^verbatim>\<open>preflight\<close> and \<^verbatim>\<open>prepare\<close> of
  the queue loop, on a run nobody asked to stop and within its deadline.
\<close>

definition reach :: "ctx \<Rightarrow> issue \<Rightarrow> (early + issue) run" where
  "reach cx i = bindE (preflight cx i) (\<lambda>_. prepare cx i)"

definition undisturbed :: "env \<Rightarrow> bool" where
  "undisturbed env \<longleftrightarrow> (\<forall>h. \<not> e_stop env h \<and> \<not> e_deadline env h)"

text \<open>The comments a run attaches are those the queue's issue carries.\<close>

definition comments_known :: "env \<Rightarrow> issue \<Rightarrow> bool" where
  "comments_known env i \<longleftrightarrow> (\<forall>h. e_comments env h (issue_number i) = Inr (issue_comments i))"

text \<open>The answer of the runner that a verdict announces.\<close>

definition matches :: "issue_view \<Rightarrow> early + issue \<Rightarrow> run_state \<Rightarrow> run_state \<Rightarrow> bool" where
  "matches v r s s' \<longleftrightarrow>
     (case iv_queue_status v of
        QsStopBefore \<Rightarrow> r = Inl (Stop (SrStopBefore (iv_number v)))
      | QsSkipped \<Rightarrow> r = Inl Next \<and> worked s' = worked s @
          [(result (iv_number v) StSkipped)\<lparr>ir_skip := Some SkHumanReturn\<rparr>]
      | QsBlocked \<Rightarrow> r = Inl Next \<and> (\<exists>x. worked s' = worked s @ [x] \<and> ir_number x = iv_number v \<and>
          ir_blocked_by x = iv_blocked_by v)
      | QsEligible \<Rightarrow> (\<exists>j. r = Inr j \<and> issue_number j = iv_number v) \<or> (\<exists>e. r = Inl (Fail e)))"

lemma first_stop_before_reached:
  assumes "distinct (map issue_number (xs @ i # ys))" "list_all (\<lambda>j. \<not> is_stop_before forced j) xs"
  shows "first_stop_before (xs @ i # ys) forced = Some (issue_number i) \<longleftrightarrow> is_stop_before forced i"
proof -
  have "find (is_stop_before forced) (xs @ i # ys) =
      (if is_stop_before forced i then Some i else find (is_stop_before forced) ys)"
    using assms(2) by (induction xs) auto
  moreover have "issue_number j \<noteq> issue_number i" if "find (is_stop_before forced) ys = Some j" for j
  proof -
    have "issue_number j \<in> set (map issue_number ys)" using find_Some_in [OF that] by simp
    with assms(1) show ?thesis by auto
  qed
  ultimately show ?thesis by (auto simp: first_stop_before_def)
qed

lemma open_blockers_worked:
  assumes "steady_tracker (cx_env cx) closed kids"
  shows "wp (open_blockers cx i)
     (\<lambda>r t. \<exists>ob. r = Inr ob \<and> ob_open ob = blockers_of (cx_env cx) closed kids i \<and> worked t = worked s) s"
proof -
  have "wp (open_blockers cx i) (\<lambda>_ t. worked t = worked s) s"
    using worked_frame.within_open_blockers by (simp add: within_def same_worked_def)
  from wp_conj [OF open_blockers_steady [OF assms] this] show ?thesis by (rule wp_mono) auto
qed

lemma fail_answer: "wp (throw (fail cx e)) (\<lambda>r _. r = Inl (Fail e)) s"
  by (auto simp: throw_def fail_def wp_simps intro!: wp_mono [OF wp_True])

lemma prepare_issue_reached:
  assumes "steady_tracker (cx_env cx) closed kids" "comments_known (cx_env cx) i"
  shows "wp (prepare_issue cx i) (\<lambda>r t. worked t = worked s \<and>
     (if blockers_of (cx_env cx) closed kids i = []
      then (\<exists>j. r = Inr (Ready j) \<and> issue_number j = issue_number i) \<or> (\<exists>e. r = Inl e)
      else (\<exists>h. r = Inr (BlockedBy (blockers_of (cx_env cx) closed kids i) h)))) s"
proof -
  have frame: "wp (prepare_issue cx i) (\<lambda>_ t. worked t = worked s) s"
    using worked_frame.within_prepare_issue [OF speaks_true] by (simp add: within_def same_worked_def)
  have attached: "wp (attach_comments cx i) (\<lambda>j _. j = i) s"
    using assms(2) by (simp add: attach_comments_def wp_simps comments_known_def)
  have "wp (prepare_issue cx i) (\<lambda>r _.
     if blockers_of (cx_env cx) closed kids i = []
     then (\<exists>j. r = Inr (Ready j) \<and> issue_number j = issue_number i) \<or> (\<exists>e. r = Inl e)
     else (\<exists>h. r = Inr (BlockedBy (blockers_of (cx_env cx) closed kids i) h))) s"
    unfolding prepare_issue_def wp_bind
    by (rule wp_mono [OF attached], unfold wp_bindE, rule wp_mono [OF open_blockers_steady [OF assms(1)]])
      (auto simp: wp_simps split: sum.splits intro!: wp_mono [OF wp_True])
  from wp_conj [OF frame this] show ?thesis .
qed

text \<open>
  C11. The view agrees with the runner: on a tracker that answers the same throughout, for an issue
  whose comments the queue already carries and that no earlier \<^verbatim>\<open>stop-before\<close> issue hides, the row the
  view gives it announces what the runner does when it reaches it.
\<close>

theorem queue_view_agrees_with_runner:
  assumes "steady_tracker (cx_env cx) closed kids" and "undisturbed (cx_env cx)"
    and "comments_known (cx_env cx) i"
    and "distinct (map issue_number (xs @ i # ys))"
    and "list_all (\<lambda>j. \<not> is_stop_before (qc_forced_issues (cx_cfg cx)) j) xs"
    and "run_state (resolve_queue_view cx (xs @ i # ys) (qc_forced_issues (cx_cfg cx))
           (qc_human_return_labels (cx_cfg cx))) s = (Inr v, s')"
    and "run_state (reach cx i) t = (r, t')"
  shows "matches (qv_issues v ! length xs) r t t'"
proof -
  let ?forced = "qc_forced_issues (cx_cfg cx)" and ?hrl = "qc_human_return_labels (cx_cfg cx)"
  let ?sb = "first_stop_before (xs @ i # ys) ?forced" and ?bl = "blockers_of (cx_env cx) closed kids"
  obtain pos where row: "qv_issues v ! length xs = verdict ?sb ?hrl ?bl pos i"
    using view_rows [OF assms(1,6)] by (auto simp: Let_def)
  have stop: "?sb = Some (issue_number i) \<longleftrightarrow> is_stop_before ?forced i"
    by (rule first_stop_before_reached [OF assms(4,5)])
  have here: "first_stop_before [i] ?forced =
      (if is_stop_before ?forced i then Some (issue_number i) else None)"
    by (simp add: first_stop_before_def)
  have quiet: "\<not> e_stop (cx_env cx) h" "\<not> e_deadline (cx_env cx) h" for h
    using assms(2) by (simp_all add: undisturbed_def)
  have flight: "wp (preflight cx i) (\<lambda>r t'. case r of
      Inr _ \<Rightarrow> worked t' = worked t \<and> \<not> is_stop_before ?forced i \<and> human_return_label i ?hrl = None
    | Inl e \<Rightarrow> matches (verdict ?sb ?hrl ?bl pos i) (Inl e) t t') t"
    unfolding preflight_def
    by (auto simp: wp_simps quiet here call_defs matches_def verdict_def stop view_row_def split: option.splits)
  have staged: "wp (prepare cx i) (\<lambda>r t'. matches (verdict ?sb ?hrl ?bl pos i) r t t') u"
    if "worked u = worked t" "\<not> is_stop_before ?forced i" "human_return_label i ?hrl = None" for u
    unfolding prepare_def wp_bind
    by (rule wp_mono [OF prepare_issue_reached [OF assms(1,3)]])
      (use that stop in \<open>auto simp: wp_simps matches_def verdict_def view_row_def result_def Let_def
        split: if_splits intro!: wp_mono [OF fail_answer]\<close>)
  have "wp (reach cx i) (\<lambda>r t'. matches (verdict ?sb ?hrl ?bl pos i) r t t') t"
    unfolding reach_def wp_bindE
    by (rule wp_mono [OF flight]) (auto split: sum.splits intro: staged)
  from wp_run [OF this assms(7)] row show ?thesis by simp
qed

theorem queue_view_agrees_with_runner_witness:
  "\<exists>v s' r t'. run_state (resolve_queue_view view_ctx [sample_issue 7] [] []) start_state = (Inr v, s') \<and>
     run_state (reach view_ctx (sample_issue 7)) start_state = (r, t') \<and>
     matches (qv_issues v ! 0) r start_state t'"
proof -
  obtain r0 s' where view: "run_state (resolve_queue_view view_ctx ([] @ sample_issue 7 # []) [] [])
      start_state = (r0, s')" by fastforce
  then obtain v where v: "r0 = Inr v" using view_rows [OF view_env_steady] by blast
  obtain r t' where reached: "run_state (reach view_ctx (sample_issue 7)) start_state = (r, t')" by fastforce
  have cfg: "qc_forced_issues (cx_cfg view_ctx) = []" "qc_human_return_labels (cx_cfg view_ctx) = []"
    by (simp_all add: view_ctx_def sample_cfg_def)
  have "matches (qv_issues v ! length ([] :: issue list)) r start_state t'"
  proof (rule queue_view_agrees_with_runner [OF view_env_steady])
    show "undisturbed (cx_env view_ctx)" "comments_known (cx_env view_ctx) (sample_issue 7)"
      by (simp_all add: undisturbed_def comments_known_def view_ctx_def view_env_def sample_env_def sample_issue_def)
    show "run_state (resolve_queue_view view_ctx ([] @ sample_issue 7 # []) (qc_forced_issues (cx_cfg view_ctx))
        (qc_human_return_labels (cx_cfg view_ctx))) start_state = (Inr v, s')"
      using view v by (simp add: cfg)
  qed (simp_all add: reached)
  with view v reached show ?thesis by auto
qed

end
