(* ===== verification/Agent_Fold.thy ===== *)
theory Agent_Fold
  imports Prelude
begin

text \<open>
  The agent state of a console (\<^verbatim>\<open>ralphy-daemon/src/agent_state\<close>): \<^verbatim>\<open>fold.rs\<close>, the fold with memory from
  the lines a vendor's hooks write to a state, and the maps of \<^verbatim>\<open>claude.rs\<close>, \<^verbatim>\<open>codex.rs\<close> and
  \<^verbatim>\<open>opencode.rs\<close> from a line to a signal.  A line arrives parsed; the JSON reader is a parameter of
  \<open>parse_status_line\<close>.
\<close>

section \<open>Status lines\<close>

record hook_line =
  sl_event :: string
  sl_session_id :: "string option"
  sl_agent_id :: "string option"
  sl_tool_name :: "string option"
  sl_tool_use_id :: "string option"
  sl_question :: "string option"
  sl_notification_type :: "string option"
  sl_ts :: string

text \<open>
  \<^verbatim>\<open>StatusLine::parse\<close>.  The parameter gives the string members of a text that is a JSON object,
  and \<open>None\<close> for any other text.
\<close>

definition non_empty :: "string option \<Rightarrow> string option" where
  "non_empty x = (if x = Some [] then None else x)"

definition unwrap_or_default :: "string option \<Rightarrow> string" where
  "unwrap_or_default x = (case x of Some s \<Rightarrow> s | None \<Rightarrow> [])"

definition parse_status_line :: "(string \<Rightarrow> (string \<Rightarrow> string option) option) \<Rightarrow> string \<Rightarrow> hook_line option" where
  "parse_status_line from_json txt =
     (case from_json txt of
        None \<Rightarrow> None
      | Some members \<Rightarrow>
          let field = (\<lambda>name. non_empty (members name))
          in Some \<lparr>sl_event = unwrap_or_default (field ''event''),
                   sl_session_id = field ''session_id'',
                   sl_agent_id = field ''agent_id'',
                   sl_tool_name = field ''tool_name'',
                   sl_tool_use_id = field ''tool_use_id'',
                   sl_question = field ''question'',
                   sl_notification_type = field ''notification_type'',
                   sl_ts = unwrap_or_default (field ''ts'')\<rparr>)"

section \<open>States and signals\<close>

datatype fold_state = Working | Waiting | Idle

fun agent_state_str :: "fold_state \<Rightarrow> string" where
  "agent_state_str Working = ''working''"
| "agent_state_str Waiting = ''waiting''"
| "agent_state_str Idle = ''done''"

datatype wait_kind = Question | Permission | Elicitation

datatype signal =
    Work
  | TurnStart
  | Wait wait_kind "string option" string
  | WaitEnd "string option"
  | TurnEnd
  | SessionBoundary
  | Interrupt

datatype cause = CauseTurnEnd | CauseSessionBoundary | CauseInterrupt

record observed =
  ob_state :: fold_state
  ob_detail :: "string option"
  ob_ts :: string
  ob_cause :: "cause option"

record shown =
  sh_state :: fold_state
  sh_detail :: "string option"
  sh_cause :: "cause option"

definition shown_working :: shown where
  "shown_working = \<lparr>sh_state = Working, sh_detail = None, sh_cause = None\<rparr>"

definition shown_done :: "cause \<Rightarrow> shown" where
  "shown_done c = \<lparr>sh_state = Idle, sh_detail = None, sh_cause = Some c\<rparr>"

record open_wait =
  w_kind :: wait_kind
  w_tool_use_id :: "string option"
  w_tool_name :: "string option"
  w_replaced :: "shown option"

definition ends_at :: "open_wait \<Rightarrow> hook_line \<Rightarrow> string option \<Rightarrow> bool" where
  "ends_at w line tool_use_id =
     (case (w_tool_use_id w, tool_use_id) of
        (Some mine, Some theirs) \<Rightarrow> mine = theirs
      | _ \<Rightarrow>
          (case (w_tool_name w, sl_tool_name line) of
             (Some mine, Some theirs) \<Rightarrow> mine = theirs
           | (None, Some _) \<Rightarrow> w_kind w \<noteq> Elicitation
           | (_, None) \<Rightarrow> True))"

section \<open>The fold\<close>

record agent_fold =
  f_lead :: "string option"
  f_current :: "shown option"
  f_wait :: "open_wait option"

definition fold_new :: agent_fold where
  "fold_new = \<lparr>f_lead = None, f_current = None, f_wait = None\<rparr>"

definition fold_waiting :: "agent_fold \<Rightarrow> wait_kind option" where
  "fold_waiting f = map_option w_kind (f_wait f)"

definition is_lead :: "agent_fold \<Rightarrow> hook_line \<Rightarrow> bool" where
  "is_lead f line =
     (if sl_agent_id line \<noteq> None then False
      else case (f_lead f, sl_session_id line) of
             (Some lead, Some session) \<Rightarrow> lead = session
           | _ \<Rightarrow> True)"

definition close_wait :: "shown \<Rightarrow> agent_fold \<Rightarrow> shown \<times> agent_fold" where
  "close_wait shown f = (shown, f\<lparr>f_wait := None\<rparr>)"

definition begin_wait :: "hook_line \<Rightarrow> wait_kind \<Rightarrow> string option \<Rightarrow> string \<Rightarrow> agent_fold
    \<Rightarrow> shown \<times> agent_fold" where
  "begin_wait line kind tool_use_id detail f =
     (let replaced = (case f_wait f of Some w \<Rightarrow> w_replaced w | None \<Rightarrow> f_current f)
      in (\<lparr>sh_state = Waiting, sh_detail = Some detail, sh_cause = None\<rparr>,
          f\<lparr>f_wait := Some \<lparr>w_kind = kind, w_tool_use_id = tool_use_id,
              w_tool_name = sl_tool_name line, w_replaced = replaced\<rparr>\<rparr>))"

definition end_wait :: "hook_line \<Rightarrow> string option \<Rightarrow> agent_fold \<Rightarrow> shown option \<times> agent_fold" where
  "end_wait line tool_use_id f =
     (case f_wait f of
        None \<Rightarrow> (if is_lead f line then Some shown_working else None, f)
      | Some w \<Rightarrow>
          if ends_at w line tool_use_id
          then (Some (case w_replaced w of Some r \<Rightarrow> r | None \<Rightarrow> shown_working), f\<lparr>f_wait := None\<rparr>)
          else (None, f))"

definition work :: "agent_fold \<Rightarrow> shown option \<times> agent_fold" where
  "work f =
     (case f_wait f of
        Some w \<Rightarrow> (None, f\<lparr>f_wait := Some (w\<lparr>w_replaced := Some shown_working\<rparr>)\<rparr>)
      | None \<Rightarrow> (Some shown_working, f))"

definition next_shown :: "hook_line \<Rightarrow> signal \<Rightarrow> agent_fold \<Rightarrow> shown option \<times> agent_fold" where
  "next_shown line signal f =
     (case signal of
        Wait kind tool_use_id detail \<Rightarrow>
          apfst Some (begin_wait line kind tool_use_id detail f)
      | WaitEnd tool_use_id \<Rightarrow> end_wait line tool_use_id f
      | _ \<Rightarrow>
          if signal = SessionBoundary \<and> sl_agent_id line = None then
            apfst Some (close_wait (shown_done CauseSessionBoundary) (f\<lparr>f_lead := sl_session_id line\<rparr>))
          else if \<not> is_lead f line then (None, f)
          else
            (case signal of
               Work \<Rightarrow> work f
             | TurnStart \<Rightarrow> apfst Some (close_wait shown_working f)
             | TurnEnd \<Rightarrow> apfst Some (close_wait (shown_done CauseTurnEnd) f)
             | Interrupt \<Rightarrow> apfst Some (close_wait (shown_done CauseInterrupt) f)
             | _ \<Rightarrow> (None, f)))"

definition same_shown :: "shown option \<Rightarrow> shown \<Rightarrow> bool" where
  "same_shown current x =
     (case current of Some c \<Rightarrow> sh_state c = sh_state x \<and> sh_detail c = sh_detail x | None \<Rightarrow> False)"

definition fold_apply :: "(hook_line \<Rightarrow> signal option) \<Rightarrow> hook_line \<Rightarrow> agent_fold
    \<Rightarrow> observed option \<times> agent_fold" where
  "fold_apply m line f =
     (case m line of
        None \<Rightarrow> (None, f)
      | Some signal \<Rightarrow>
          let f1 = (if f_lead f = None \<and> sl_agent_id line = None
                    then f\<lparr>f_lead := sl_session_id line\<rparr> else f)
          in case next_shown line signal f1 of
               (None, f2) \<Rightarrow> (None, f2)
             | (Some x, f2) \<Rightarrow>
                 (if same_shown (f_current f2) x then None
                  else Some \<lparr>ob_state = sh_state x, ob_detail = sh_detail x, ob_ts = sl_ts line,
                             ob_cause = sh_cause x\<rparr>,
                  f2\<lparr>f_current := Some x\<rparr>))"

definition APPROVED :: string where
  "APPROVED = ''approved, the tool runs''"

definition operator_input :: "string \<Rightarrow> agent_fold \<Rightarrow> observed option \<times> agent_fold" where
  "operator_input ts f =
     (if fold_waiting f \<noteq> Some Permission then (None, f)
      else
        let (shown, f1) =
              close_wait \<lparr>sh_state = Working, sh_detail = Some APPROVED, sh_cause = None\<rparr> f
        in (Some \<lparr>ob_state = sh_state shown, ob_detail = sh_detail shown, ob_ts = ts, ob_cause = None\<rparr>,
            f1\<lparr>f_current := Some shown\<rparr>))"

section \<open>The maps of the vendors\<close>

definition named :: "string \<Rightarrow> string option \<Rightarrow> string" where
  "named name question =
     (case question of
        Some q \<Rightarrow> if trim q \<noteq> [] then name @ '': '' @ trim q else name
      | None \<Rightarrow> name)"

definition permission_detail :: "string option \<Rightarrow> string" where
  "permission_detail tool = (case tool of Some t \<Rightarrow> ''permission: '' @ t | None \<Rightarrow> ''permission'')"

definition claude_signal :: "hook_line \<Rightarrow> signal option" where
  "claude_signal line =
     (if sl_event line = ''SessionStart'' then Some SessionBoundary
      else if sl_event line = ''UserPromptSubmit'' then Some TurnStart
      else if sl_event line = ''PreToolUse'' \<and> sl_tool_name line = Some ''AskUserQuestion'' then
        Some (Wait Question (sl_tool_use_id line) (named ''AskUserQuestion'' (sl_question line)))
      else if sl_event line = ''PreToolUse'' then Some Work
      else if sl_event line = ''PostToolUse'' \<or> sl_event line = ''ElicitationResult'' then
        Some (WaitEnd (sl_tool_use_id line))
      else if sl_event line = ''PermissionRequest'' then
        Some (Wait Permission (sl_tool_use_id line) (permission_detail (sl_tool_name line)))
      else if sl_event line = ''Elicitation'' then
        Some (Wait Elicitation None (named ''MCP question'' (sl_question line)))
      else if sl_event line = ''Stop'' then Some TurnEnd
      else None)"

definition CODEX_QUESTION_TOOL :: string where
  "CODEX_QUESTION_TOOL = ''request_user_input''"

definition codex_signal :: "bool \<Rightarrow> hook_line \<Rightarrow> signal option" where
  "codex_signal auto_review line =
     (if sl_event line = ''SessionStart'' then Some SessionBoundary
      else if sl_event line = ''UserPromptSubmit'' then Some TurnStart
      else if sl_event line = ''PreToolUse'' \<and> sl_tool_name line = Some CODEX_QUESTION_TOOL then
        Some (Wait Question (sl_tool_use_id line) (named CODEX_QUESTION_TOOL (sl_question line)))
      else if sl_event line = ''PreToolUse'' then Some Work
      else if sl_event line = ''PermissionRequest'' \<and> auto_review then Some Work
      else if sl_event line = ''PermissionRequest'' then
        Some (Wait Permission (sl_tool_use_id line) (permission_detail (sl_tool_name line)))
      else if sl_event line = ''PostToolUse'' then Some (WaitEnd (sl_tool_use_id line))
      else if sl_event line = ''Stop'' then Some TurnEnd
      else if sl_event line = ''Interrupt'' then Some Interrupt
      else None)"

definition AUTO_REVIEW :: bool where
  "AUTO_REVIEW = False"

definition codex_launched :: "hook_line \<Rightarrow> signal option" where
  "codex_launched line = codex_signal AUTO_REVIEW line"

definition PLUGIN_LOADED :: string where
  "PLUGIN_LOADED = ''plugin.loaded''"

definition opencode_signal :: "hook_line \<Rightarrow> signal option" where
  "opencode_signal line =
     (if sl_event line = ''session.created'' then Some SessionBoundary
      else if sl_event line = ''session.status'' then Some Work
      else if sl_event line = ''permission.asked'' then
        Some (Wait Permission (sl_tool_use_id line) (permission_detail (sl_tool_name line)))
      else if sl_event line = ''question.asked'' then
        Some (Wait Question (sl_tool_use_id line) (named ''question'' (sl_question line)))
      else if sl_event line = ''permission.replied'' \<or> sl_event line = ''question.replied''
              \<or> sl_event line = ''question.rejected'' then
        Some (WaitEnd (sl_tool_use_id line))
      else if sl_event line = ''session.idle'' then Some TurnEnd
      else None)"

end
