(* ===== verification/Agent_Fold_Props.thy ===== *)
theory Agent_Fold_Props
  imports Agent_Fold
begin

text \<open>
  What the agent-state fold promises: the invariant of its reachable states, and its refinement of a
  two-level mode, the work of the lead session below an optional wait of the operator.
\<close>

section \<open>Reachable states\<close>

text \<open>The daemon applies the lines of one vendor and the operator's input, in any order.\<close>

inductive fold_reachable :: "(hook_line \<Rightarrow> signal option) \<Rightarrow> agent_fold \<Rightarrow> bool" for m where
  reach_new: "fold_reachable m fold_new"
| reach_line: "fold_reachable m f \<Longrightarrow> fold_reachable m (snd (fold_apply m line f))"
| reach_input: "fold_reachable m f \<Longrightarrow> fold_reachable m (snd (operator_input ts f))"

definition shown_ok :: "shown \<Rightarrow> bool" where
  "shown_ok x \<longleftrightarrow> (sh_cause x \<noteq> None \<longleftrightarrow> sh_state x = Idle) \<and> (sh_state x = Waiting \<longrightarrow> sh_detail x \<noteq> None)"

text \<open>
  A wait is open exactly when the state shown is \<^verbatim>\<open>waiting\<close>, and the state it will give back is
  not itself a wait.
\<close>

fun settled :: "shown option \<Rightarrow> bool" where
  "settled None = True"
| "settled (Some x) = (shown_ok x \<and> sh_state x \<noteq> Waiting)"

definition fold_ok :: "agent_fold \<Rightarrow> bool" where
  "fold_ok f \<longleftrightarrow>
     (case f_wait f of
        None \<Rightarrow> settled (f_current f)
      | Some w \<Rightarrow> settled (w_replaced w) \<and>
          (\<exists>x. f_current f = Some x \<and> shown_ok x \<and> sh_state x = Waiting))"

lemmas fold_steps = next_shown_def begin_wait_def end_wait_def work_def close_wait_def

lemma shown_ok_simps [simp]: "shown_ok shown_working" "shown_ok (shown_done c)"
  "sh_state shown_working = Working" "sh_state (shown_done c) = Idle"
  "sh_detail shown_working = None" "sh_detail (shown_done c) = None"
  by (simp_all add: shown_ok_def shown_working_def shown_done_def)

lemma fold_ok_new: "fold_ok fold_new"
  by (simp add: fold_ok_def fold_new_def)

lemma fold_ok_apply: "fold_ok f \<Longrightarrow> fold_ok (snd (fold_apply m line f))"
  by (auto simp: fold_ok_def fold_apply_def fold_steps Let_def shown_ok_def [of "\<lparr>sh_state = _, sh_detail = _, sh_cause = _\<rparr>"]
      split: option.splits signal.splits)

lemma fold_ok_input: "fold_ok f \<Longrightarrow> fold_ok (snd (operator_input ts f))"
  by (auto simp: fold_ok_def operator_input_def close_wait_def shown_ok_def split: option.splits)

lemma fold_ok_reachable: "fold_reachable m f \<Longrightarrow> fold_ok f"
  by (induction rule: fold_reachable.induct) (simp_all add: fold_ok_new fold_ok_apply fold_ok_input)

text \<open>
  Whatever lines a console's hooks write and whenever the operator types, the fold shows
  \<^verbatim>\<open>waiting\<close> exactly while a wait is open, always with its question, and gives every \<^verbatim>\<open>done\<close> a
  cause and nothing else one.
\<close>

theorem waiting_exactly_while_open:
  assumes "fold_reachable m f"
  shows "(fold_waiting f \<noteq> None \<longleftrightarrow> (\<exists>x. f_current f = Some x \<and> sh_state x = Waiting)) \<and>
         (case f_current f of None \<Rightarrow> True
          | Some x \<Rightarrow> (sh_cause x \<noteq> None \<longleftrightarrow> sh_state x = Idle) \<and>
                      (if sh_state x = Waiting then sh_detail x \<noteq> None else True))"
  using fold_ok_reachable [OF assms]
  by (auto simp: fold_ok_def fold_waiting_def shown_ok_def split: option.splits)

definition ask_line :: hook_line where
  "ask_line = \<lparr>sl_event = ''PermissionRequest'', sl_session_id = Some ''s'', sl_agent_id = None,
     sl_tool_name = Some ''Bash'', sl_tool_use_id = Some ''t'', sl_question = None,
     sl_notification_type = None, sl_ts = []\<rparr>"

lemmas fold_eval = fold_apply_def fold_steps same_shown_def is_lead_def Let_def fold_new_def

lemma ask_line_waits:
  "fold_waiting (snd (fold_apply claude_signal ask_line fold_new)) = Some Permission"
  by (simp add: fold_eval claude_signal_def ask_line_def fold_waiting_def)

theorem waiting_exactly_while_open_witness:
  "\<exists>x. f_current (snd (fold_apply claude_signal ask_line fold_new)) = Some x \<and> sh_state x = Waiting"
  using waiting_exactly_while_open [OF reach_line [OF reach_new], of claude_signal ask_line] ask_line_waits
  by simp

section \<open>The mode behind the fold\<close>

text \<open>
  What the fold stands for: the lead session, the state of its work, and above it the open wait with
  the question it asks.
\<close>

record pending =
  p_kind :: wait_kind
  p_tool_use_id :: "string option"
  p_tool_name :: "string option"
  p_detail :: "string option"

record mode =
  md_lead :: "string option"
  md_base :: "shown option"
  md_pending :: "pending option"

definition mode_of :: "agent_fold \<Rightarrow> mode" where
  "mode_of f = \<lparr>md_lead = f_lead f,
     md_base = (case f_wait f of None \<Rightarrow> f_current f | Some w \<Rightarrow> w_replaced w),
     md_pending = map_option (\<lambda>w. \<lparr>p_kind = w_kind w, p_tool_use_id = w_tool_use_id w,
       p_tool_name = w_tool_name w, p_detail = Option.bind (f_current f) sh_detail\<rparr>) (f_wait f)\<rparr>"

definition face :: "mode \<Rightarrow> (fold_state \<times> string option) option" where
  "face md = (case md_pending md of
      Some p \<Rightarrow> Some (Waiting, p_detail p)
    | None \<Rightarrow> map_option (\<lambda>x. (sh_state x, sh_detail x)) (md_base md))"

definition of_lead :: "mode \<Rightarrow> hook_line \<Rightarrow> bool" where
  "of_lead md line \<longleftrightarrow> sl_agent_id line = None \<and>
     (md_lead md = None \<or> sl_session_id line = None \<or> md_lead md = sl_session_id line)"

text \<open>Two known tool use ids decide whether an answer is for the pending wait, else two known tools.\<close>

definition answers :: "pending \<Rightarrow> hook_line \<Rightarrow> string option \<Rightarrow> bool" where
  "answers p line use \<longleftrightarrow>
     (if p_tool_use_id p \<noteq> None \<and> use \<noteq> None then p_tool_use_id p = use
      else if sl_tool_name line = None then True
      else if p_tool_name p = None then p_kind p \<noteq> Elicitation
      else p_tool_name p = sl_tool_name line)"

fun mode_signal :: "hook_line \<Rightarrow> signal \<Rightarrow> mode \<Rightarrow> mode" where
  "mode_signal line (Wait kind use detail) md =
     md\<lparr>md_pending := Some \<lparr>p_kind = kind, p_tool_use_id = use, p_tool_name = sl_tool_name line,
       p_detail = Some detail\<rparr>\<rparr>"
| "mode_signal line (WaitEnd use) md =
     (case md_pending md of
        None \<Rightarrow> if of_lead md line then md\<lparr>md_base := Some shown_working\<rparr> else md
      | Some p \<Rightarrow>
          if answers p line use
          then md\<lparr>md_pending := None, md_base := Some (case md_base md of Some b \<Rightarrow> b | None \<Rightarrow> shown_working)\<rparr>
          else md)"
| "mode_signal line SessionBoundary md =
     (if sl_agent_id line = None
      then \<lparr>md_lead = sl_session_id line, md_base = Some (shown_done CauseSessionBoundary), md_pending = None\<rparr>
      else md)"
| "mode_signal line Work md = (if of_lead md line then md\<lparr>md_base := Some shown_working\<rparr> else md)"
| "mode_signal line TurnStart md =
     (if of_lead md line then md\<lparr>md_base := Some shown_working, md_pending := None\<rparr> else md)"
| "mode_signal line TurnEnd md =
     (if of_lead md line then md\<lparr>md_base := Some (shown_done CauseTurnEnd), md_pending := None\<rparr> else md)"
| "mode_signal line Interrupt md =
     (if of_lead md line then md\<lparr>md_base := Some (shown_done CauseInterrupt), md_pending := None\<rparr> else md)"

definition mode_step :: "(hook_line \<Rightarrow> signal option) \<Rightarrow> hook_line \<Rightarrow> mode \<Rightarrow> mode" where
  "mode_step m line md =
     (case m line of
        None \<Rightarrow> md
      | Some signal \<Rightarrow>
          mode_signal line signal
            (if md_lead md = None \<and> sl_agent_id line = None then md\<lparr>md_lead := sl_session_id line\<rparr> else md))"

lemma is_lead_iff: "is_lead f line \<longleftrightarrow> sl_agent_id line = None \<and>
    (f_lead f = None \<or> sl_session_id line = None \<or> f_lead f = sl_session_id line)"
  by (auto simp: is_lead_def split: option.splits)

lemma answers_mode_of:
  "answers \<lparr>p_kind = w_kind w, p_tool_use_id = w_tool_use_id w, p_tool_name = w_tool_name w, p_detail = d\<rparr> line use
    = ends_at w line use"
  by (auto simp: answers_def ends_at_def split: option.splits)

lemma mode_of_lead: "mode_of (f\<lparr>f_lead := l\<rparr>) = (mode_of f)\<lparr>md_lead := l\<rparr>"
  by (simp add: mode_of_def split: option.splits)

text \<open>The state shown next, put in place, is the abstract step.\<close>

definition put_shown :: "shown option \<times> agent_fold \<Rightarrow> agent_fold" where
  "put_shown r = (case r of (None, f) \<Rightarrow> f | (Some x, f) \<Rightarrow> f\<lparr>f_current := Some x\<rparr>)"

lemma mode_of_next: "mode_of (put_shown (next_shown line signal f)) = mode_signal line signal (mode_of f)"
proof (cases signal)
  case (WaitEnd use)
  then show ?thesis
    by (auto simp: put_shown_def next_shown_def end_wait_def answers_mode_of
        of_lead_def mode_of_def is_lead_iff split: option.splits)
qed (auto simp: put_shown_def fold_steps of_lead_def is_lead_iff mode_of_def Let_def split: option.splits)

lemma face_mode_of:
  assumes "fold_ok f"
  shows "face (mode_of f) = map_option (\<lambda>x. (sh_state x, sh_detail x)) (f_current f)"
  using assms by (auto simp: fold_ok_def face_def mode_of_def split: option.splits)

lemma fold_apply_put:
  "snd (fold_apply m line f) =
     (case m line of
        None \<Rightarrow> f
      | Some signal \<Rightarrow>
          put_shown (next_shown line signal
            (if f_lead f = None \<and> sl_agent_id line = None then f\<lparr>f_lead := sl_session_id line\<rparr> else f)))"
  by (auto simp: fold_apply_def put_shown_def Let_def split: option.splits prod.splits)

lemma mode_of_apply: "mode_of (snd (fold_apply m line f)) = mode_step m line (mode_of f)"
proof -
  have "md_lead (mode_of f) = f_lead f" by (simp add: mode_of_def)
  then show ?thesis
    by (simp add: fold_apply_put mode_of_next mode_step_def mode_of_lead split: option.splits)
qed

lemma next_shown_current: "next_shown line signal f = (x, f') \<Longrightarrow> f_current f' = f_current f"
  by (auto simp: fold_steps Let_def split: signal.splits option.splits if_splits)

lemma fold_apply_reports:
  "fst (fold_apply m line f) =
     (let c = f_current (snd (fold_apply m line f))
      in if map_option (\<lambda>x. (sh_state x, sh_detail x)) c = map_option (\<lambda>x. (sh_state x, sh_detail x)) (f_current f)
         then None
         else map_option (\<lambda>x. \<lparr>ob_state = sh_state x, ob_detail = sh_detail x, ob_ts = sl_ts line,
                               ob_cause = sh_cause x\<rparr>) c)"
  by (auto simp: fold_apply_def Let_def same_shown_def dest!: next_shown_current
      split: option.splits prod.splits if_splits)

text \<open>
  C30. One line moves the mode behind a reachable fold by the mode's own step (a wait only covers the
  lead session's work, which goes on beneath it, and a subagent touches nothing but waits), and the
  fold reports an observation exactly when the visible state or its detail changed, stamped with the
  line's own time.
\<close>

theorem fold_refines_mode:
  assumes "fold_reachable m f"
  shows "let (reported, f') = fold_apply m line f
         in mode_of f' = mode_step m line (mode_of f) \<and>
            (reported = None \<longleftrightarrow> face (mode_of f') = face (mode_of f)) \<and>
            map_option (\<lambda>x. (ob_state x, ob_detail x, ob_ts x)) reported =
              (if reported = None then None
               else map_option (\<lambda>(st, detail). (st, detail, sl_ts line)) (face (mode_of f')))"
proof -
  obtain r f' where step: "fold_apply m line f = (r, f')" by fastforce
  have ok: "fold_ok f" "fold_ok f'"
    using fold_ok_reachable [OF assms] fold_ok_apply [of f m line] step by auto
  have "f_current f \<noteq> None \<Longrightarrow> f_current f' \<noteq> None"
    using step by (auto simp: fold_apply_def Let_def dest!: next_shown_current split: option.splits prod.splits if_splits)
  with step fold_apply_reports [of m line f]
  have "(r = None \<longleftrightarrow> face (mode_of f') = face (mode_of f)) \<and>
        map_option (\<lambda>x. (ob_state x, ob_detail x, ob_ts x)) r =
          (if r = None then None
           else map_option (\<lambda>(st, detail). (st, detail, sl_ts line)) (face (mode_of f')))"
    by (auto simp: Let_def face_mode_of [OF ok(1)] face_mode_of [OF ok(2)] split: option.splits if_splits)
  with step mode_of_apply [of m line f] show ?thesis by simp
qed

theorem fold_refines_mode_witness:
  "mode_step claude_signal ask_line (mode_of fold_new) =
     mode_of (snd (fold_apply claude_signal ask_line fold_new)) \<and>
   fst (fold_apply claude_signal ask_line fold_new) \<noteq> None"
  using fold_refines_mode [OF reach_new, of claude_signal ask_line]
  by (simp add: fold_eval claude_signal_def ask_line_def permission_detail_def)

section \<open>What ends a wait\<close>

text \<open>
  An open wait ends at a line only for a reason of its own: the lead session's turn starts, ends
  or is interrupted, a session starts, or a tool returned that the wait may be for, and never at one
  that names another tool use.
\<close>

lemma wait_ends_for_its_reason:
  "case f_wait f of None \<Rightarrow> True
   | Some w \<Rightarrow>
       if f_wait (snd (fold_apply m line f)) = None
       then case m line of
              Some (WaitEnd use) \<Rightarrow> ends_at w line use \<and> (w_tool_use_id w = None \<or> use = None \<or> w_tool_use_id w = use)
            | Some SessionBoundary \<Rightarrow> sl_agent_id line = None
            | Some signal \<Rightarrow> signal \<in> {TurnStart, TurnEnd, Interrupt} \<and> sl_agent_id line = None \<and>
                (f_lead f = None \<or> sl_session_id line = None \<or> f_lead f = sl_session_id line)
            | None \<Rightarrow> False
       else True"
  by (auto simp: fold_apply_def fold_steps Let_def ends_at_def is_lead_iff
      split: option.splits signal.splits if_splits)

end
