(* ===== verification/Agent_Status.thy ===== *)
theory Agent_Status
  imports Agent_Fold_Props
begin

text \<open>
  A console's agent state over time: \<^verbatim>\<open>agent_state.rs\<close> (the reader of the status file, the fold of the
  lines it reads, staleness, silence, terminal replies) and \<^verbatim>\<open>session/manager/agent_status.rs\<close> (what a
  console shows, its silence clock and the turns it finished).  A \<^verbatim>\<open>SystemTime\<close> is an integer count
  of nanoseconds; the \<^verbatim>\<open>chrono\<close> rendering of one is the parameter \<open>rfc3339\<close>, and the JSON reader the
  parameter \<open>from_json\<close>.
\<close>

type_synonym system_time = int

definition seconds :: "int \<Rightarrow> int" where
  "seconds n = n * 1000000000"

text \<open>\<^verbatim>\<open>SystemTime::duration_since\<close>: an error when the other time is later.\<close>

definition duration_since :: "system_time \<Rightarrow> system_time \<Rightarrow> int option" where
  "duration_since now t = (if t \<le> now then Some (now - t) else None)"

section \<open>Well-formed UTF-8\<close>

text \<open>\<^verbatim>\<open>String::from_utf8\<close> accepts exactly the well-formed sequences of the Unicode standard.\<close>

definition in_bytes :: "nat \<Rightarrow> nat \<Rightarrow> char \<Rightarrow> bool" where
  "in_bytes lo hi c \<longleftrightarrow> lo \<le> (of_char c :: nat) \<and> (of_char c :: nat) \<le> hi"

fun utf8_valid :: "string \<Rightarrow> bool" where
  "utf8_valid [] = True"
| "utf8_valid (a # bs) =
     (if in_bytes 0 0x7F a then utf8_valid bs
      else case bs of
        [] \<Rightarrow> False
      | b # cs \<Rightarrow>
          if in_bytes 0xC2 0xDF a then in_bytes 0x80 0xBF b \<and> utf8_valid cs
          else (case cs of
            [] \<Rightarrow> False
          | c # ds \<Rightarrow>
              if in_bytes 0xE0 0xEF a then
                in_bytes (if in_bytes 0xE0 0xE0 a then 0xA0 else 0x80)
                  (if in_bytes 0xED 0xED a then 0x9F else 0xBF) b
                \<and> in_bytes 0x80 0xBF c \<and> utf8_valid ds
              else (case ds of
                [] \<Rightarrow> False
              | d # es \<Rightarrow>
                  in_bytes 0xF0 0xF4 a
                  \<and> in_bytes (if in_bytes 0xF0 0xF0 a then 0x90 else 0x80)
                      (if in_bytes 0xF4 0xF4 a then 0x8F else 0xBF) b
                  \<and> in_bytes 0x80 0xBF c \<and> in_bytes 0x80 0xBF d \<and> utf8_valid es)))"

section \<open>The reader of the status file\<close>

record status_tail =
  t_offset :: nat
  t_carry :: string

definition tail_new :: status_tail where
  "tail_new = \<lparr>t_offset = 0, t_carry = []\<rparr>"

text \<open>Take the complete lines, each with its newline, off the front of the carried bytes.\<close>

function drain_lines :: "string \<Rightarrow> string list \<times> string" where
  "drain_lines carry =
     (if nl \<in> set carry then
        let line = takeWhile (\<lambda>b. b \<noteq> nl) carry @ [nl];
            (ls, rest) = drain_lines (tl (dropWhile (\<lambda>b. b \<noteq> nl) carry))
        in (if utf8_valid line then line # ls else ls, rest)
      else ([], carry))"
  by pat_completeness auto
termination
proof (relation "measure length", goal_cases)
  case (2 carry line)
  then have "dropWhile (\<lambda>b. b \<noteq> nl) carry \<noteq> []" by auto
  moreover have "length (dropWhile (\<lambda>b. b \<noteq> nl) carry) \<le> length carry" by (rule length_dropWhile_le)
  ultimately show ?case by (cases "dropWhile (\<lambda>b. b \<noteq> nl) carry") auto
qed auto

declare drain_lines.simps [simp del]

text \<open>
  One read of the file.  \<open>None\<close> stands for a file that could not be opened, positioned or read; a seek
  past the end is no error and reads nothing.
\<close>

definition read_lines :: "string option \<Rightarrow> status_tail \<Rightarrow> string list \<times> status_tail" where
  "read_lines file t =
     (case file of
        None \<Rightarrow> ([], t)
      | Some content \<Rightarrow>
          let buf = drop (t_offset t) content;
              (ls, rest) = drain_lines (t_carry t @ buf)
          in (ls, \<lparr>t_offset = t_offset t + length buf, t_carry = rest\<rparr>))"

section \<open>Observations\<close>

record observation =
  o_state :: fold_state
  o_detail :: "string option"
  o_since :: string
  o_seen :: system_time
  o_cause :: "cause option"

datatype unreported = Silent | NoSource

text \<open>The block \<^verbatim>\<open>/api/sessions\<close> shows; \<^verbatim>\<open>state\<close> is the word of a state, or \<^verbatim>\<open>unknown\<close>.\<close>

record agent_block =
  ab_state :: "string option"
  ab_since :: string
  ab_detail :: "string option"
  ab_source :: "unreported option"
  ab_reason :: "string option"

definition unreported_block :: "(system_time \<Rightarrow> string) \<Rightarrow> unreported \<Rightarrow> string \<Rightarrow> system_time \<Rightarrow> agent_block" where
  "unreported_block rfc3339 why reason since =
     \<lparr>ab_state = None, ab_since = rfc3339 since, ab_detail = None, ab_source = Some why, ab_reason = Some reason\<rparr>"

definition STALE_AFTER :: int where
  "STALE_AFTER = seconds (45 * 60)"

definition SILENT_AFTER :: int where
  "SILENT_AFTER = seconds 30"

definition CLOCK_REASON :: string where
  "CLOCK_REASON = ''No hook event reached Ralphy in the 30 seconds after your first input, so Ralphy cannot see what this agent is doing.''"

datatype agent = Claude | Codex | Copilot | Cursor | Gemini | Kimi | OpenCode

datatype state_source = Hooks | NoHooks

fun state_source_of :: "agent \<Rightarrow> state_source" where
  "state_source_of Claude = Hooks"
| "state_source_of Codex = Hooks"
| "state_source_of OpenCode = Hooks"
| "state_source_of Copilot = NoHooks"
| "state_source_of Cursor = NoHooks"
| "state_source_of Gemini = NoHooks"
| "state_source_of Kimi = NoHooks"

definition silence :: "state_source \<Rightarrow> system_time option \<Rightarrow> system_time option \<Rightarrow> string option
    \<Rightarrow> system_time \<Rightarrow> string option" where
  "silence source first_input first_line start_failure now =
     (if source \<noteq> Hooks \<or> first_line \<noteq> None then None
      else case start_failure of
        Some cause \<Rightarrow> Some (''The hook command failed when the daemon started: '' @ cause)
      | None \<Rightarrow>
          (case first_input of
             None \<Rightarrow> None
           | Some t \<Rightarrow>
               (case duration_since now t of
                  None \<Rightarrow> None
                | Some waited \<Rightarrow> if waited > SILENT_AFTER then Some CLOCK_REASON else None)))"

definition render :: "observation \<Rightarrow> system_time \<Rightarrow> agent_block" where
  "render obs now =
     (let stale = o_state obs = Working \<and>
            (case duration_since now (o_seen obs) of Some age \<Rightarrow> age > STALE_AFTER | None \<Rightarrow> False)
      in \<lparr>ab_state = Some (if stale then ''unknown'' else agent_state_str (o_state obs)),
          ab_since = o_since obs, ab_detail = o_detail obs, ab_source = None, ab_reason = None\<rparr>)"

text \<open>The final bytes of a terminal reply.\<close>

definition REPLY_FINALS :: string where
  "REPLY_FINALS = ''RcnyIO''"

definition esc :: char where "esc = CHR 0x1B"

definition is_param :: "char \<Rightarrow> bool" where
  "is_param b = in_bytes 0x20 0x3F b"

definition reply_len :: "string \<Rightarrow> nat option" where
  "reply_len bytes =
     (if \<not> prefix [esc, CHR 0x5B] bytes then None
      else
        let body = drop 2 bytes;
            n = length (takeWhile is_param body)
        in if n < length body \<and> body ! n \<in> set REPLY_FINALS then Some (n + 3) else None)"

lemma reply_len_bounds: "reply_len bytes = Some n \<Longrightarrow> 3 \<le> n \<and> n \<le> length bytes"
  by (auto simp: reply_len_def Let_def prefix_def split: if_splits)

function only_replies :: "string \<Rightarrow> bool" where
  "only_replies rest =
     (if rest = [] then True
      else case reply_len rest of
        None \<Rightarrow> False
      | Some n \<Rightarrow> only_replies (drop n rest))"
  by pat_completeness auto
termination
  by (relation "measure length") (auto dest!: reply_len_bounds)

declare only_replies.simps [simp del]

definition is_terminal_report :: "string \<Rightarrow> bool" where
  "is_terminal_report bytes \<longleftrightarrow> only_replies bytes \<and> bytes \<noteq> []"

section \<open>The vendors with hooks\<close>

datatype hook_vendor = HvClaude | HvCodex | HvOpenCode

fun hook_vendor_of :: "agent \<Rightarrow> hook_vendor option" where
  "hook_vendor_of Claude = Some HvClaude"
| "hook_vendor_of Codex = Some HvCodex"
| "hook_vendor_of OpenCode = Some HvOpenCode"
| "hook_vendor_of Copilot = None"
| "hook_vendor_of Cursor = None"
| "hook_vendor_of Gemini = None"
| "hook_vendor_of Kimi = None"

fun vendor_map :: "hook_vendor \<Rightarrow> hook_line \<Rightarrow> signal option" where
  "vendor_map HvClaude = claude_signal"
| "vendor_map HvCodex = codex_launched"
| "vendor_map HvOpenCode = opencode_signal"

fun is_first_line :: "hook_vendor \<Rightarrow> hook_line \<Rightarrow> bool" where
  "is_first_line HvOpenCode line = (sl_event line = PLUGIN_LOADED)"
| "is_first_line HvClaude line = False"
| "is_first_line HvCodex line = False"

fun runs_the_ralphy_program :: "hook_vendor \<Rightarrow> bool" where
  "runs_the_ralphy_program HvClaude = True"
| "runs_the_ralphy_program HvCodex = True"
| "runs_the_ralphy_program HvOpenCode = False"

fun sends_a_grant :: "hook_vendor \<Rightarrow> bool" where
  "sends_a_grant HvClaude = True"
| "sends_a_grant HvOpenCode = True"
| "sends_a_grant HvCodex = False"

definition observation_of :: "observed \<Rightarrow> system_time \<Rightarrow> observation" where
  "observation_of x seen =
     \<lparr>o_state = ob_state x, o_detail = ob_detail x, o_since = ob_ts x, o_seen = seen, o_cause = ob_cause x\<rparr>"

record polled =
  po_transitions :: "observation list"
  po_activity :: bool

type_synonym object_reader = "string \<Rightarrow> (string \<Rightarrow> string option) option"

fun fold_lines_from :: "object_reader \<Rightarrow> hook_vendor \<Rightarrow> system_time \<Rightarrow> string list \<Rightarrow> polled \<Rightarrow> agent_fold
    \<Rightarrow> polled \<times> agent_fold" where
  "fold_lines_from from_json v now [] out f = (out, f)"
| "fold_lines_from from_json v now (txt # ls) out f =
     (case parse_status_line from_json (trim txt) of
        None \<Rightarrow> fold_lines_from from_json v now ls out f
      | Some line \<Rightarrow>
          let out1 = out\<lparr>po_activity := po_activity out \<or> vendor_map v line \<noteq> None \<or> is_first_line v line\<rparr>
          in case fold_apply (vendor_map v) line f of
               (None, f1) \<Rightarrow> fold_lines_from from_json v now ls out1 f1
             | (Some x, f1) \<Rightarrow>
                 fold_lines_from from_json v now ls
                   (out1\<lparr>po_transitions := po_transitions out1 @ [observation_of x now]\<rparr>) f1)"

definition fold_lines :: "object_reader \<Rightarrow> hook_vendor \<Rightarrow> string list \<Rightarrow> system_time \<Rightarrow> agent_fold
    \<Rightarrow> polled \<times> agent_fold" where
  "fold_lines from_json v ls now f =
     fold_lines_from from_json v now ls \<lparr>po_transitions = [], po_activity = False\<rparr> f"

definition fold_input :: "(system_time \<Rightarrow> string) \<Rightarrow> hook_vendor \<Rightarrow> system_time \<Rightarrow> agent_fold
    \<Rightarrow> observation option \<times> agent_fold" where
  "fold_input rfc3339 v now f =
     (if sends_a_grant v then (None, f)
      else apfst (map_option (\<lambda>x. observation_of x now)) (operator_input (rfc3339 now) f))"

section \<open>The status of a console\<close>

record turn_ends =
  te_count :: u64
  te_since :: string

fun turn_ends_from :: "fold_state option \<Rightarrow> observation list \<Rightarrow> u64 \<times> string option \<Rightarrow> u64 \<times> string option" where
  "turn_ends_from was [] acc = acc"
| "turn_ends_from was (t # ts) acc =
     turn_ends_from (Some (o_state t)) ts
       (if o_state t = Idle \<and> o_cause t = Some CauseTurnEnd \<and> was = Some Working
        then (fst acc + 1, Some (o_since t)) else acc)"

definition turn_ends_in :: "fold_state option \<Rightarrow> observation list \<Rightarrow> u64 \<times> string option" where
  "turn_ends_in was ts = turn_ends_from was ts (0, None)"

record agent_status =
  as_hooks :: "(hook_vendor \<times> agent_fold) option"
  as_observed :: "observation option"
  as_shown :: "agent_block option"
  as_first_input :: "system_time option"
  as_first_line :: "system_time option"
  as_silent :: "(unreported \<times> string \<times> system_time) option"
  as_logged_silent :: bool
  as_turn_ends :: turn_ends

definition agent_status_new :: "hook_vendor option \<Rightarrow> (string \<times> system_time) option \<Rightarrow> agent_status" where
  "agent_status_new vendor unrep =
     \<lparr>as_hooks = map_option (\<lambda>v. (v, fold_new)) vendor, as_observed = None, as_shown = None,
      as_first_input = None, as_first_line = None,
      as_silent = map_option (\<lambda>(reason, since). (NoSource, reason, since)) unrep,
      as_logged_silent = False, as_turn_ends = \<lparr>te_count = 0, te_since = []\<rparr>\<rparr>"

definition get_or_insert :: "'a \<Rightarrow> 'a option \<Rightarrow> 'a option" where
  "get_or_insert a x = (case x of Some b \<Rightarrow> Some b | None \<Rightarrow> Some a)"

definition on_input :: "(system_time \<Rightarrow> string) \<Rightarrow> system_time \<Rightarrow> agent_status \<Rightarrow> agent_status" where
  "on_input rfc3339 now s =
     (let s1 = s\<lparr>as_first_input := get_or_insert now (as_first_input s)\<rparr>
      in case as_hooks s1 of
           None \<Rightarrow> s1
         | Some (v, f) \<Rightarrow>
             (case fold_input rfc3339 v now f of
                (None, f1) \<Rightarrow> s1\<lparr>as_hooks := Some (v, f1)\<rparr>
              | (Some obs, f1) \<Rightarrow> s1\<lparr>as_hooks := Some (v, f1), as_observed := Some obs\<rparr>))"

definition count_turn_ends :: "observation list \<Rightarrow> agent_status \<Rightarrow> agent_status" where
  "count_turn_ends ts s =
     (case turn_ends_in (map_option o_state (as_observed s)) ts of
        (ended, Some at) \<Rightarrow>
          s\<lparr>as_turn_ends := \<lparr>te_count = te_count (as_turn_ends s) + ended, te_since = at\<rparr>\<rparr>
      | (_, None) \<Rightarrow> s)"

definition update_silence :: "system_time \<Rightarrow> string option \<Rightarrow> agent_status \<Rightarrow> agent_status" where
  "update_silence now start_failure s =
     (case (silence Hooks (as_first_input s) (as_first_line s) start_failure now, as_silent s) of
        (Some reason, None) \<Rightarrow> s\<lparr>as_logged_silent := True, as_silent := Some (Silent, reason, now)\<rparr>
      | (None, Some _) \<Rightarrow> s\<lparr>as_silent := None\<rparr>
      | _ \<Rightarrow> s)"

definition shown_at :: "(system_time \<Rightarrow> string) \<Rightarrow> system_time \<Rightarrow> agent_status \<Rightarrow> agent_block option" where
  "shown_at rfc3339 now s =
     (case as_silent s of
        Some (why, reason, since) \<Rightarrow> Some (unreported_block rfc3339 why reason since)
      | None \<Rightarrow> map_option (\<lambda>obs. render obs now) (as_observed s))"

definition observe :: "polled \<Rightarrow> system_time \<Rightarrow> agent_status \<Rightarrow> agent_status" where
  "observe p now s =
     (if po_transitions p \<noteq> [] then s\<lparr>as_observed := Some (last (po_transitions p))\<rparr>
      else if po_activity p then s\<lparr>as_observed := map_option (\<lambda>obs. obs\<lparr>o_seen := now\<rparr>) (as_observed s)\<rparr>
      else s)"

definition on_tick :: "object_reader \<Rightarrow> (system_time \<Rightarrow> string) \<Rightarrow> string list \<Rightarrow> system_time \<Rightarrow> string option
    \<Rightarrow> agent_status \<Rightarrow> bool \<times> agent_status" where
  "on_tick from_json rfc3339 ls now start_failure s =
     (case as_hooks s of
        None \<Rightarrow> (False, s)
      | Some (v, f) \<Rightarrow>
          let failure = (if runs_the_ralphy_program v then start_failure else None);
              (p, f1) = fold_lines from_json v ls now f;
              s1 = s\<lparr>as_hooks := Some (v, f1)\<rparr>;
              s2 = (if po_activity p then s1\<lparr>as_first_line := get_or_insert now (as_first_line s1)\<rparr> else s1);
              s3 = observe p now (count_turn_ends (po_transitions p) s2);
              s4 = update_silence now failure s3;
              shown_now = shown_at rfc3339 now s4
          in (as_shown s4 \<noteq> shown_now, s4\<lparr>as_shown := shown_now\<rparr>))"

definition finished_turns :: "agent_status \<Rightarrow> (u64 \<times> string) option" where
  "finished_turns s =
     (if te_count (as_turn_ends s) > 0 then Some (te_count (as_turn_ends s), te_since (as_turn_ends s)) else None)"

text \<open>\<^verbatim>\<open>ManagedSession::write\<close> of \<^verbatim>\<open>session/manager.rs\<close>: what the operator's bytes do to the status.\<close>

definition status_on_write :: "(system_time \<Rightarrow> string) \<Rightarrow> string \<Rightarrow> system_time \<Rightarrow> agent_status \<Rightarrow> agent_status" where
  "status_on_write rfc3339 bytes now s =
     (if bytes \<noteq> [] \<and> \<not> is_terminal_report bytes then on_input rfc3339 now s else s)"

text \<open>\<^verbatim>\<open>poll_status\<close> of \<^verbatim>\<open>session/manager/pump.rs\<close>, for a console with hook files.\<close>

definition poll_status :: "object_reader \<Rightarrow> (system_time \<Rightarrow> string) \<Rightarrow> string option \<Rightarrow> system_time \<Rightarrow> string option
    \<Rightarrow> status_tail \<times> agent_status \<Rightarrow> bool \<times> status_tail \<times> agent_status" where
  "poll_status from_json rfc3339 file now start_failure c =
     (let (ls, t1) = read_lines file (fst c);
          (changed, s1) = on_tick from_json rfc3339 ls now start_failure (snd c)
      in (changed, t1, s1))"

end
