(* ===== verification/Agent_Status_Props.thy ===== *)
theory Agent_Status_Props
  imports Agent_Status
begin

text \<open>
  What a console's agent state promises over its life: the ticks of the pump lose no line and no
  turn, however the hooks' writes fall between them; the silence rule; and what counts as a reply
  the terminal sent by itself.
\<close>

section \<open>Reading in pieces\<close>

text \<open>The complete lines of a text, each with its newline, and what follows the last one.\<close>

fun whole_lines :: "string \<Rightarrow> string \<Rightarrow> string list \<times> string" where
  "whole_lines acc [] = ([], acc)"
| "whole_lines acc (c # cs) =
     (if c = nl then apfst ((#) (acc @ [c])) (whole_lines [] cs) else whole_lines (acc @ [c]) cs)"

lemma whole_lines_no_nl: "nl \<notin> set xs \<Longrightarrow> whole_lines acc (xs @ ys) = whole_lines (acc @ xs) ys"
  by (induction xs arbitrary: acc) auto

lemma whole_lines_append:
  "whole_lines acc (xs @ ys) =
     (let (l1, r1) = whole_lines acc xs; (l2, r2) = whole_lines r1 ys in (l1 @ l2, r2))"
  by (induction acc xs rule: whole_lines.induct) (auto simp: Let_def apfst_def map_prod_def split: prod.splits)

lemma whole_lines_rest: "nl \<notin> set acc \<Longrightarrow> nl \<notin> set (snd (whole_lines acc xs))"
  by (induction acc xs rule: whole_lines.induct) auto

lemma drain_lines_whole:
  "drain_lines xs = apfst (filter utf8_valid) (whole_lines [] xs)"
proof (induction xs rule: drain_lines.induct)
  case (1 xs)
  show ?case
  proof (cases "nl \<in> set xs")
    case False
    then show ?thesis
      using whole_lines_no_nl [of xs "[]" "[]"] by (simp add: drain_lines.simps)
  next
    case True
    define a where "a = takeWhile (\<lambda>b. b \<noteq> nl) xs"
    define b where "b = tl (dropWhile (\<lambda>b. b \<noteq> nl) xs)"
    from True have "dropWhile (\<lambda>b. b \<noteq> nl) xs \<noteq> []" by auto
    moreover from this have "hd (dropWhile (\<lambda>b. b \<noteq> nl) xs) = nl"
      using hd_dropWhile [of "\<lambda>b. b \<noteq> nl" xs] by simp
    ultimately have "dropWhile (\<lambda>b. b \<noteq> nl) xs = nl # b"
      unfolding b_def by (metis list.collapse)
    then have xs: "xs = a @ nl # b"
      unfolding a_def by (metis takeWhile_dropWhile_id)
    have "nl \<notin> set a" unfolding a_def by (auto dest: set_takeWhileD)
    then have "whole_lines [] xs = apfst ((#) (a @ [nl])) (whole_lines [] b)"
      using whole_lines_no_nl [of a "[]" "nl # b"] by (simp add: xs)
    moreover have "drain_lines xs =
        (let (ls, rest) = drain_lines b in (if utf8_valid (a @ [nl]) then (a @ [nl]) # ls else ls, rest))"
      using True unfolding a_def b_def by (subst drain_lines.simps) (simp add: Let_def)
    moreover have "drain_lines b = apfst (filter utf8_valid) (whole_lines [] b)"
      using 1 [OF True] by (simp add: b_def)
    ultimately show ?thesis by (simp add: apfst_def map_prod_def split: prod.splits)
  qed
qed

text \<open>What a tail has read of a file: all of it up to its offset, the unfinished line carried.\<close>

definition has_read :: "string \<Rightarrow> status_tail \<Rightarrow> bool" where
  "has_read content t \<longleftrightarrow> t_offset t = length content \<and> t_carry t = snd (whole_lines [] content)"

lemma has_read_new: "has_read [] tail_new"
  by (simp add: has_read_def tail_new_def)

lemma read_lines_grows:
  assumes "has_read old t"
  shows "read_lines (Some (old @ grown)) t =
     (filter utf8_valid (fst (whole_lines (t_carry t) grown)),
      \<lparr>t_offset = length (old @ grown), t_carry = snd (whole_lines [] (old @ grown))\<rparr>)"
proof -
  have carry: "t_carry t = snd (whole_lines [] old)" and offset: "t_offset t = length old"
    using assms by (auto simp: has_read_def)
  have "nl \<notin> set (t_carry t)" using whole_lines_rest [of "[]" old] by (simp add: carry)
  then have "whole_lines [] (t_carry t @ grown) = whole_lines (t_carry t) grown"
    using whole_lines_no_nl [of "t_carry t" "[]" grown] by simp
  then have drained: "drain_lines (t_carry t @ grown) =
      apfst (filter utf8_valid) (whole_lines (t_carry t) grown)"
    by (simp add: drain_lines_whole)
  have "snd (whole_lines [] (old @ grown)) = snd (whole_lines (t_carry t) grown)"
    unfolding whole_lines_append carry by (simp add: Let_def split: prod.splits)
  with drained offset show ?thesis
    by (simp add: read_lines_def Let_def apfst_def map_prod_def split: prod.splits)
qed

text \<open>The lines one read gives, after those already read.\<close>

lemma read_lines_adds:
  assumes "has_read old t"
  shows "filter utf8_valid (fst (whole_lines [] (old @ grown))) =
         filter utf8_valid (fst (whole_lines [] old)) @ fst (read_lines (Some (old @ grown)) t)"
    and "has_read (old @ grown) (snd (read_lines (Some (old @ grown)) t))"
proof -
  have carry: "t_carry t = snd (whole_lines [] old)" using assms by (simp add: has_read_def)
  show "filter utf8_valid (fst (whole_lines [] (old @ grown))) =
         filter utf8_valid (fst (whole_lines [] old)) @ fst (read_lines (Some (old @ grown)) t)"
    unfolding read_lines_grows [OF assms] whole_lines_append carry
    by (simp add: Let_def split: prod.splits)
  show "has_read (old @ grown) (snd (read_lines (Some (old @ grown)) t))"
    by (simp add: read_lines_grows [OF assms] has_read_def)
qed

section \<open>Folding in pieces\<close>

text \<open>The lines of a vendor, folded one after the other, whatever the time: the states they report.\<close>

fun fold_reports :: "object_reader \<Rightarrow> hook_vendor \<Rightarrow> string list \<Rightarrow> agent_fold \<Rightarrow> observed list \<times> bool \<times> agent_fold" where
  "fold_reports from_json v [] f = ([], False, f)"
| "fold_reports from_json v (txt # ls) f =
     (case parse_status_line from_json (trim txt) of
        None \<Rightarrow> fold_reports from_json v ls f
      | Some line \<Rightarrow>
          let (x, f1) = fold_apply (vendor_map v) line f;
              (xs, act, f2) = fold_reports from_json v ls f1
          in (case_option [] (\<lambda>y. [y]) x @ xs, vendor_map v line \<noteq> None \<or> is_first_line v line \<or> act, f2))"

lemma fold_lines_from_reports:
  "fold_lines_from from_json v now ls out f =
     (let (xs, act, f1) = fold_reports from_json v ls f
      in (out\<lparr>po_transitions := po_transitions out @ map (\<lambda>x. observation_of x now) xs,
              po_activity := po_activity out \<or> act\<rparr>, f1))"
  by (induction from_json v now ls out f rule: fold_lines_from.induct)
    (auto simp: Let_def split: option.splits prod.splits)

lemma fold_lines_reports:
  "fold_lines from_json v ls now f =
     (let (xs, act, f1) = fold_reports from_json v ls f
      in (\<lparr>po_transitions = map (\<lambda>x. observation_of x now) xs, po_activity = act\<rparr>, f1))"
  by (simp add: fold_lines_def fold_lines_from_reports Let_def split: prod.splits)

lemma fold_reports_append:
  "fold_reports from_json v (xs @ ys) f =
     (let (x, a, f1) = fold_reports from_json v xs f;
          (y, b, f2) = fold_reports from_json v ys f1
      in (x @ y, a \<or> b, f2))"
  by (induction from_json v xs f rule: fold_reports.induct)
    (auto simp: Let_def split: option.splits prod.splits)

text \<open>The turns a list of observations ends, as the hook times of their ends.\<close>

fun turn_marks :: "fold_state option \<Rightarrow> observation list \<Rightarrow> string list" where
  "turn_marks was [] = []"
| "turn_marks was (t # ts) =
     (if o_state t = Idle \<and> o_cause t = Some CauseTurnEnd \<and> was = Some Working then [o_since t] else [])
     @ turn_marks (Some (o_state t)) ts"

definition last_state :: "fold_state option \<Rightarrow> observation list \<Rightarrow> fold_state option" where
  "last_state was ts = (if ts = [] then was else Some (o_state (last ts)))"

lemma turn_marks_append: "turn_marks was (xs @ ys) = turn_marks was xs @ turn_marks (last_state was xs) ys"
  by (induction xs arbitrary: was) (auto simp: last_state_def)

lemma turn_marks_map:
  assumes "map o_state xs = map o_state ys" "map o_cause xs = map o_cause ys" "map o_since xs = map o_since ys"
  shows "turn_marks was xs = turn_marks was ys"
  using assms
proof (induction xs arbitrary: ys was)
  case (Cons x xs)
  then obtain y zs where ys: "ys = y # zs" by (cases ys) auto
  with Cons.prems have "turn_marks was' xs = turn_marks was' zs" for was'
    by (intro Cons.IH) simp_all
  with Cons.prems ys show ?case by simp
qed simp

lemma turn_ends_from_marks:
  "turn_ends_from was ts acc =
     (fst acc + of_nat (length (turn_marks was ts)),
      if turn_marks was ts = [] then snd acc else Some (last (turn_marks was ts)))"
  by (induction was ts acc rule: turn_ends_from.induct) (auto simp: add.assoc)

definition add_turns :: "string list \<Rightarrow> turn_ends \<Rightarrow> turn_ends" where
  "add_turns marks te =
     (if marks = [] then te
      else \<lparr>te_count = te_count te + of_nat (length marks), te_since = last marks\<rparr>)"

lemma add_turns_append: "add_turns (xs @ ys) te = add_turns ys (add_turns xs te)"
  by (simp add: add_turns_def add.assoc)

lemma count_turn_ends_marks:
  "count_turn_ends ts s =
     s\<lparr>as_turn_ends := add_turns (turn_marks (map_option o_state (as_observed s)) ts) (as_turn_ends s)\<rparr>"
  by (simp add: count_turn_ends_def turn_ends_in_def turn_ends_from_marks add_turns_def)

section \<open>Ticks\<close>

text \<open>What one tick does to the fold, the last state seen and the turns, silence and time aside.\<close>

definition core :: "agent_status \<Rightarrow> (hook_vendor \<times> agent_fold) option \<times> fold_state option \<times> turn_ends" where
  "core s = (as_hooks s, map_option o_state (as_observed s), as_turn_ends s)"

lemma update_silence_core [simp]: "core (update_silence now failure s) = core s"
  by (simp add: update_silence_def core_def split: option.splits)

lemma observe_core:
  "map_option o_state (as_observed (observe p now s)) =
     last_state (map_option o_state (as_observed s)) (po_transitions p)"
  by (auto simp: observe_def last_state_def option.map_comp o_def)

lemma observe_fields [simp]:
  "as_hooks (observe p now s) = as_hooks s" "as_turn_ends (observe p now s) = as_turn_ends s"
  by (simp_all add: observe_def)

definition core_step :: "object_reader \<Rightarrow> string list
    \<Rightarrow> (hook_vendor \<times> agent_fold) option \<times> fold_state option \<times> turn_ends
    \<Rightarrow> (hook_vendor \<times> agent_fold) option \<times> fold_state option \<times> turn_ends" where
  "core_step from_json ls c =
     (case c of
        (None, was, te) \<Rightarrow> c
      | (Some (v, f), was, te) \<Rightarrow>
          let (xs, _, f1) = fold_reports from_json v ls f;
              obs = map (\<lambda>x. observation_of x 0) xs
          in (Some (v, f1), last_state was obs, add_turns (turn_marks was obs) te))"

lemma marks_any_time:
  "turn_marks was (map (\<lambda>x. observation_of x now) xs) = turn_marks was (map (\<lambda>x. observation_of x 0) xs)"
  by (rule turn_marks_map) (simp_all add: observation_of_def)

lemma last_state_any_time:
  "last_state was (map (\<lambda>x. observation_of x now) xs) = last_state was (map (\<lambda>x. observation_of x 0) xs)"
  by (simp add: last_state_def last_map observation_of_def)

lemma core_shown [simp]: "core (s\<lparr>as_shown := x\<rparr>) = core s"
  by (simp add: core_def)

lemma on_tick_core: "core (snd (on_tick from_json rfc3339 ls now failure s)) = core_step from_json ls (core s)"
proof (cases "as_hooks s")
  case None
  then show ?thesis by (simp add: on_tick_def core_step_def core_def)
next
  case (Some hooks)
  obtain v f where hooks: "hooks = (v, f)" by fastforce
  obtain xs act f1 where reports: "fold_reports from_json v ls f = (xs, act, f1)"
    using prod_cases3 by blast
  let ?p = "\<lparr>po_transitions = map (\<lambda>x. observation_of x now) xs, po_activity = act\<rparr>"
  let ?s1 = "s\<lparr>as_hooks := Some (v, f1)\<rparr>"
  let ?s2 = "if act then ?s1\<lparr>as_first_line := get_or_insert now (as_first_line ?s1)\<rparr> else ?s1"
  have "core (snd (on_tick from_json rfc3339 ls now failure s)) =
      core (observe ?p now (count_turn_ends (map (\<lambda>x. observation_of x now) xs) ?s2))"
    using Some hooks reports by (simp add: on_tick_def fold_lines_reports Let_def)
  also have "\<dots> = core_step from_json ls (core s)"
    using Some hooks reports
    by (cases act) (simp_all add: core_def core_step_def count_turn_ends_marks observe_core
        marks_any_time [where now = now] last_state_any_time [where now = now] Let_def)
  finally show ?thesis .
qed

lemma core_step_append: "core_step from_json (xs @ ys) c = core_step from_json ys (core_step from_json xs c)"
proof -
  have last: "last_state was (as @ bs) = last_state (last_state was as) bs" for was as bs
    by (simp add: last_state_def)
  show ?thesis
    by (auto simp: core_step_def fold_reports_append Let_def last turn_marks_append add_turns_append
        split: option.splits prod.splits)
qed

lemma core_step_Nil: "core_step from_json [] c = c"
  by (auto simp: core_step_def last_state_def add_turns_def split: option.splits prod.splits)

section \<open>A console's life\<close>

text \<open>
  The pump's ticks over a status file that only grows: each tick finds the file longer by a piece, or
  cannot read it, at some time and with some outcome of the daemon's start check.
\<close>

record tick =
  tk_grown :: string
  tk_readable :: bool
  tk_now :: system_time
  tk_failure :: "string option"

fun run_ticks :: "object_reader \<Rightarrow> (system_time \<Rightarrow> string) \<Rightarrow> string \<Rightarrow> tick list \<Rightarrow> status_tail \<times> agent_status
    \<Rightarrow> status_tail \<times> agent_status" where
  "run_ticks from_json rfc3339 content [] c = c"
| "run_ticks from_json rfc3339 content (k # ks) c =
     (let file = content @ tk_grown k
      in run_ticks from_json rfc3339 file ks
           (snd (poll_status from_json rfc3339 (if tk_readable k then Some file else None)
                   (tk_now k) (tk_failure k) c)))"

definition grown_file :: "tick list \<Rightarrow> string" where
  "grown_file ks = concat (map tk_grown ks)"

lemma poll_status_core:
  "core (snd (snd (poll_status from_json rfc3339 file now failure c))) =
     core_step from_json (fst (read_lines file (fst c))) (core (snd c))"
  "fst (snd (poll_status from_json rfc3339 file now failure c)) = snd (read_lines file (fst c))"
  by (simp_all add: poll_status_def Let_def case_prod_beta' on_tick_core)

lemma run_ticks_core:
  assumes "has_read old (fst c)"
    and "core (snd c) = core_step from_json (filter utf8_valid (fst (whole_lines [] old))) c0"
    and "ks \<noteq> []" "tk_readable (last ks)" "prefix old content"
  shows "core (snd (run_ticks from_json rfc3339 content ks c)) =
    core_step from_json (filter utf8_valid (fst (whole_lines [] (content @ grown_file ks)))) c0"
  using assms
proof (induction ks arbitrary: content old c)
  case Nil
  then show ?case by simp
next
  case (Cons k ks)
  let ?file = "content @ tk_grown k"
  let ?c = "snd (poll_status from_json rfc3339 (if tk_readable k then Some ?file else None)
      (tk_now k) (tk_failure k) c)"
  obtain d where d: "?file = old @ d"
    using Cons.prems(5) by (auto simp: prefix_def)
  define old' where "old' = (if tk_readable k then ?file else old)"
  have read: "has_read old' (fst ?c)"
    using Cons.prems(1) read_lines_adds(2) [OF Cons.prems(1), of d] d
    by (auto simp: old'_def poll_status_core(2) read_lines_def)
  have "core (snd ?c) = core_step from_json (fst (read_lines (if tk_readable k then Some ?file else None) (fst c)))
      (core_step from_json (filter utf8_valid (fst (whole_lines [] old))) c0)"
    by (simp add: poll_status_core(1) Cons.prems(2))
  also have "\<dots> = core_step from_json (filter utf8_valid (fst (whole_lines [] old'))) c0"
    using read_lines_adds(1) [OF Cons.prems(1), of d] d
    by (auto simp: old'_def core_step_append [symmetric] read_lines_def core_step_Nil)
  finally have stepped: "core (snd ?c) = core_step from_json (filter utf8_valid (fst (whole_lines [] old'))) c0" .
  show ?case
  proof (cases "ks = []")
    case True
    with stepped Cons.prems(4) show ?thesis by (simp add: Let_def old'_def grown_file_def)
  next
    case False
    have "prefix old' ?file" using d by (auto simp: old'_def)
    with Cons.IH [OF read stepped False, of ?file] Cons.prems(4) False show ?thesis
      by (simp add: Let_def grown_file_def)
  qed
qed

text \<open>
  C31. Ticks lose nothing.  However a console's hooks' writes fall between the pump's ticks, broken
  inside a line or a character, unreadable for a while, once the file was read to its end the fold,
  the state last seen and the finished turns are those of folding every complete well-formed line of
  the file once, in order.
\<close>

theorem ticks_lose_nothing:
  assumes "ks \<noteq> []" "tk_readable (last ks)"
  shows "core (snd (run_ticks from_json rfc3339 [] ks (tail_new, agent_status_new vendor unrep))) =
    core_step from_json (filter utf8_valid (fst (whole_lines [] (grown_file ks))))
      (map_option (\<lambda>v. (v, fold_new)) vendor, None, \<lparr>te_count = 0, te_since = []\<rparr>)"
proof -
  have "core (snd (tail_new, agent_status_new vendor unrep)) =
      core_step from_json (filter utf8_valid (fst (whole_lines [] [])))
        (map_option (\<lambda>v. (v, fold_new)) vendor, None, \<lparr>te_count = 0, te_since = []\<rparr>)"
    by (simp add: core_def agent_status_new_def core_step_Nil)
  with run_ticks_core [of "[]" "(tail_new, agent_status_new vendor unrep)"] has_read_new assms
  show ?thesis by simp
qed

theorem ticks_lose_nothing_witness:
  "core (snd (run_ticks (\<lambda>_. None) (\<lambda>_. []) []
      [\<lparr>tk_grown = ''{'', tk_readable = False, tk_now = 0, tk_failure = None\<rparr>,
       \<lparr>tk_grown = [CHR 0x7D, nl], tk_readable = True, tk_now = 1, tk_failure = None\<rparr>]
      (tail_new, agent_status_new (Some HvClaude) None))) =
   core_step (\<lambda>_. None) [[CHR 0x7B, CHR 0x7D, nl]] (Some (HvClaude, fold_new), None, \<lparr>te_count = 0, te_since = []\<rparr>)"
  by (subst ticks_lose_nothing) (simp_all add: grown_file_def nl_def in_bytes_def)

section \<open>Silence\<close>

lemma silent_after:
  "(as_silent (update_silence now failure s) = None) = (silence Hooks (as_first_input s) (as_first_line s) failure now = None)"
  by (auto simp: update_silence_def split: option.splits)

lemma update_silence_fields [simp]:
  "as_first_input (update_silence now failure s) = as_first_input s"
  "as_first_line (update_silence now failure s) = as_first_line s"
  "as_observed (update_silence now failure s) = as_observed s"
  by (simp_all add: update_silence_def split: option.splits)

lemma silence_hooks:
  "silence Hooks inp line failure now \<noteq> None \<longleftrightarrow>
     line = None \<and> (failure \<noteq> None \<or> (\<exists>t. inp = Some t \<and> now > t + SILENT_AFTER))"
  by (auto simp: silence_def duration_since_def SILENT_AFTER_def seconds_def split: option.splits)

text \<open>
  After every tick of a console with hooks, its state is unreported for silence exactly when no
  line of its file was ever read for a signal and either the start check failed for a vendor that
  check speaks for, or more than thirty seconds passed since the operator's first input; from the
  first line on it is never silent again.
\<close>

theorem silence_rule:
  "case as_hooks s of None \<Rightarrow> True
   | Some (v, f) \<Rightarrow>
       let s' = snd (on_tick from_json rfc3339 ls now failure s);
           read = po_activity (fst (fold_lines from_json v ls now f))
       in (as_silent s' \<noteq> None \<longleftrightarrow>
             as_first_line s = None \<and> \<not> read \<and>
             ((failure \<noteq> None \<and> runs_the_ralphy_program v) \<or>
              (\<exists>t. as_first_input s = Some t \<and> now > t + seconds 30))) \<and>
          (as_first_line s' = None \<longleftrightarrow> as_first_line s = None \<and> \<not> read) \<and>
          as_first_input s' = as_first_input s"
proof (cases "as_hooks s")
  case None
  then show ?thesis by simp
next
  case (Some hooks)
  obtain v f where hooks: "hooks = (v, f)" by fastforce
  obtain p f1 where folded: "fold_lines from_json v ls now f = (p, f1)" by fastforce
  have fields: "as_first_input (observe p now (count_turn_ends ts t)) = as_first_input t"
    "as_first_line (observe p now (count_turn_ends ts t)) = as_first_line t" for ts t
    by (simp_all add: observe_def count_turn_ends_marks)
  have silent: "as_silent (snd (on_tick from_json rfc3339 ls now failure s)) \<noteq> None \<longleftrightarrow>
      silence Hooks (as_first_input s)
        (if po_activity p then get_or_insert now (as_first_line s) else as_first_line s)
        (if runs_the_ralphy_program v then failure else None) now \<noteq> None"
    using Some hooks folded by (auto simp: on_tick_def Let_def silent_after fields)
  have rest: "as_first_line (snd (on_tick from_json rfc3339 ls now failure s)) =
      (if po_activity p then get_or_insert now (as_first_line s) else as_first_line s)"
    "as_first_input (snd (on_tick from_json rfc3339 ls now failure s)) = as_first_input s"
    using Some hooks folded by (auto simp: on_tick_def Let_def fields)
  have "get_or_insert now x \<noteq> None" for x :: "int option" by (simp add: get_or_insert_def split: option.splits)
  with silent rest show ?thesis
    unfolding silence_hooks using Some hooks folded by (auto simp: Let_def SILENT_AFTER_def)
qed

section \<open>Terminal replies\<close>

text \<open>One reply: \<^verbatim>\<open>ESC [\<close>, parameter bytes, and a final byte of a reply.\<close>

definition terminal_reply :: "string \<Rightarrow> bool" where
  "terminal_reply r \<longleftrightarrow>
     (\<exists>ps b. r = [esc, CHR 0x5B] @ ps @ [b] \<and> list_all is_param ps \<and> b \<in> set REPLY_FINALS)"

lemma final_not_param: "b \<in> set REPLY_FINALS \<Longrightarrow> \<not> is_param b"
  by (auto simp: REPLY_FINALS_def is_param_def in_bytes_def)

lemma reply_len_iff: "reply_len bytes = Some n \<longleftrightarrow> (\<exists>r rest. bytes = r @ rest \<and> terminal_reply r \<and> length r = n)"
proof
  assume len: "reply_len bytes = Some n"
  define body where "body = drop 2 bytes"
  define ps where "ps = takeWhile is_param body"
  from len have pre: "bytes = [esc, CHR 0x5B] @ body" and lt: "length ps < length body"
    and fin: "body ! length ps \<in> set REPLY_FINALS" and n: "n = length ps + 3"
    by (auto simp: reply_len_def Let_def body_def ps_def prefix_def split: if_splits)
  have "body = ps @ drop (length ps) body"
    unfolding ps_def by (metis dropWhile_eq_drop takeWhile_dropWhile_id)
  also have "drop (length ps) body = body ! length ps # drop (Suc (length ps)) body"
    using lt by (simp add: Cons_nth_drop_Suc)
  finally have "bytes = ([esc, CHR 0x5B] @ ps @ [body ! length ps]) @ drop (Suc (length ps)) body"
    using pre by simp
  moreover have "list_all is_param ps" unfolding ps_def list_all_iff by (auto dest: set_takeWhileD)
  moreover from this have "terminal_reply ([esc, CHR 0x5B] @ ps @ [body ! length ps])"
    using fin unfolding terminal_reply_def by blast
  moreover have "length ([esc, CHR 0x5B] @ ps @ [body ! length ps]) = n" using n by simp
  ultimately show "\<exists>r rest. bytes = r @ rest \<and> terminal_reply r \<and> length r = n"
    by blast
next
  assume "\<exists>r rest. bytes = r @ rest \<and> terminal_reply r \<and> length r = n"
  then obtain ps b rest where bytes: "bytes = [esc, CHR 0x5B] @ ps @ b # rest" and ps: "list_all is_param ps"
    and b: "b \<in> set REPLY_FINALS" and n: "n = length ps + 3"
    by (auto simp: terminal_reply_def)
  have "takeWhile is_param (ps @ b # rest) = ps"
    using ps final_not_param [OF b] by (simp add: takeWhile_append2 list_all_iff)
  with bytes b n show "reply_len bytes = Some n" by (simp add: reply_len_def Let_def)
qed

lemma reply_prefix_unique:
  assumes "terminal_reply r" "terminal_reply r'" "r @ x = r' @ y"
  shows "r = r'"
proof -
  have "reply_len (r @ x) = Some (length r)" "reply_len (r' @ y) = Some (length r')"
    using assms(1,2) reply_len_iff by blast+
  with assms(3) have "length r = length r'" by simp
  with assms(3) show ?thesis by simp
qed

lemma only_replies_concat: "only_replies bytes \<longleftrightarrow> (\<exists>rs. bytes = concat rs \<and> list_all terminal_reply rs)"
proof (induction bytes rule: only_replies.induct)
  case (1 bytes)
  show ?case
  proof (cases "bytes = []")
    case True
    then show ?thesis by (auto simp: only_replies.simps intro: exI [of _ "[]"])
  next
    case False
    show ?thesis
    proof (cases "reply_len bytes")
      case None
      have "\<not> (\<exists>rs. bytes = concat rs \<and> list_all terminal_reply rs)"
      proof
        assume "\<exists>rs. bytes = concat rs \<and> list_all terminal_reply rs"
        then obtain rs where rs: "bytes = concat rs" "list_all terminal_reply rs" by blast
        with False obtain r rs' where "rs = r # rs'" by (cases rs) auto
        with rs have "reply_len bytes = Some (length r)" by (auto simp: reply_len_iff)
        with None show False by simp
      qed
      with False None show ?thesis by (simp add: only_replies.simps)
    next
      case (Some n)
      then obtain r rest where r: "bytes = r @ rest" "terminal_reply r" "length r = n"
        using reply_len_iff by blast
      from 1 [OF False Some] have IH: "only_replies rest \<longleftrightarrow> (\<exists>rs. rest = concat rs \<and> list_all terminal_reply rs)"
        using r by simp
      have "(\<exists>rs. bytes = concat rs \<and> list_all terminal_reply rs) \<longleftrightarrow>
            (\<exists>rs. rest = concat rs \<and> list_all terminal_reply rs)"
      proof
        assume "\<exists>rs. bytes = concat rs \<and> list_all terminal_reply rs"
        then obtain rs where rs: "bytes = concat rs" "list_all terminal_reply rs" by blast
        with False obtain r' rs' where "rs = r' # rs'" by (cases rs) auto
        with rs r reply_prefix_unique [of r r' rest "concat rs'"]
        show "\<exists>rs. rest = concat rs \<and> list_all terminal_reply rs" by auto
      next
        assume "\<exists>rs. rest = concat rs \<and> list_all terminal_reply rs"
        then obtain rs where "rest = concat rs" "list_all terminal_reply rs" by blast
        with r show "\<exists>rs. bytes = concat rs \<and> list_all terminal_reply rs"
          by (intro exI [of _ "r # rs"]) simp
      qed
      moreover have "only_replies bytes \<longleftrightarrow> only_replies rest"
        using False Some r by (subst only_replies.simps) auto
      ultimately show ?thesis using IH by blast
    qed
  qed
qed

text \<open>
  Bytes written to a console are no input of the operator exactly when they are one or more
  complete terminal replies in a row; only other bytes start the silence clock.
\<close>

theorem terminal_report_spec:
  "(status_on_write rfc3339 bytes now s = (if \<exists>rs. rs \<noteq> [] \<and> bytes = concat rs \<and> list_all terminal_reply rs then s
      else if bytes = [] then s else on_input rfc3339 now s)) \<and>
   (is_terminal_report bytes \<longleftrightarrow> (\<exists>rs. rs \<noteq> [] \<and> bytes = concat rs \<and> list_all terminal_reply rs))"
proof -
  have "is_terminal_report bytes \<longleftrightarrow> (\<exists>rs. rs \<noteq> [] \<and> bytes = concat rs \<and> list_all terminal_reply rs)"
  proof
    assume "is_terminal_report bytes"
    then obtain rs where "bytes = concat rs" "list_all terminal_reply rs" "bytes \<noteq> []"
      by (auto simp: is_terminal_report_def only_replies_concat)
    moreover from this have "rs \<noteq> []" by auto
    ultimately show "\<exists>rs. rs \<noteq> [] \<and> bytes = concat rs \<and> list_all terminal_reply rs" by blast
  next
    assume "\<exists>rs. rs \<noteq> [] \<and> bytes = concat rs \<and> list_all terminal_reply rs"
    then obtain r rs where rs: "bytes = concat (r # rs)" "list_all terminal_reply (r # rs)"
      by (metis neq_Nil_conv)
    then have "bytes \<noteq> []" by (auto simp: terminal_reply_def)
    with rs show "is_terminal_report bytes"
      unfolding is_terminal_report_def only_replies_concat by blast
  qed
  then show ?thesis by (auto simp: status_on_write_def)
qed

end
