(* ===== verification/Session_Output.thy ===== *)
theory Session_Output
  imports Prelude
begin

text \<open>
  What the daemon keeps of a console's output and how a client picks it up
  (\<^verbatim>\<open>ralphy-daemon/src/session/manager/kept.rs\<close>, \<^verbatim>\<open>attachment.rs\<close>): the ring of the last bytes, the byte
  counts a resume is checked against, the replay of an attach and its live stream.

  The terminal emulator behind \<^verbatim>\<open>Screen\<close> is a third-party crate: it is the parameter \<open>emulator\<close>, each of
  whose methods may panic (\<open>None\<close>).  The fan-out is a \<^verbatim>\<open>tokio\<close> broadcast channel: a receiver gets every
  chunk sent after it subscribed, and one that is \<open>BROADCAST_CAP\<close> chunks behind loses the oldest and is
  told it lagged.  Every operation below runs under the \<^verbatim>\<open>kept\<close> lock in the code, so an interleaving is
  a list of operations.  Byte counts are natural numbers: no session writes \<open>2 ^ 64\<close> bytes.
\<close>

type_synonym u16 = "16 word"

section \<open>The kept output\<close>

record 'scr emulator =
  em_new :: "u16 \<Rightarrow> u16 \<Rightarrow> 'scr"
  em_feed :: "string \<Rightarrow> 'scr \<Rightarrow> 'scr option"
  em_resize :: "u16 \<Rightarrow> u16 \<Rightarrow> 'scr \<Rightarrow> 'scr option"
  em_snapshot :: "'scr \<Rightarrow> (string \<times> 'scr) option"

definition clamp :: "u16 \<Rightarrow> u16 \<Rightarrow> u16 \<Rightarrow> u16" where
  "clamp lo hi n = (if n < lo then lo else if n > hi then hi else n)"

definition clamp_size :: "u16 \<Rightarrow> u16 \<Rightarrow> u16 \<times> u16" where
  "clamp_size rows cols = (clamp 2 300 rows, clamp 2 500 cols)"

fun pop_to_cap :: "nat \<Rightarrow> string \<Rightarrow> string" where
  "pop_to_cap cap [] = []"
| "pop_to_cap cap (b # bs) = (if length (b # bs) > cap then pop_to_cap cap bs else b # bs)"

definition push_capped :: "string \<Rightarrow> string \<Rightarrow> nat \<Rightarrow> string" where
  "push_capped ring bytes cap = pop_to_cap cap (ring @ bytes)"

definition SCROLLBACK_CAP_BYTES :: nat where
  "SCROLLBACK_CAP_BYTES = 512 * 1024"

record 'scr kept_output =
  k_ring :: string
  k_screen :: "'scr option"
  k_size :: "u16 \<times> u16"
  k_written :: nat
  k_resized_at :: nat

definition kept_new :: "'scr emulator \<Rightarrow> u16 \<Rightarrow> u16 \<Rightarrow> 'scr kept_output" where
  "kept_new em rows cols =
     \<lparr>k_ring = [], k_screen = Some (em_new em rows cols), k_size = clamp_size rows cols,
      k_written = 0, k_resized_at = 0\<rparr>"

text \<open>\<^verbatim>\<open>on_screen\<close>: a panic inside the emulator breaks the screen for good.\<close>

definition on_screen :: "('scr \<Rightarrow> ('a \<times> 'scr) option) \<Rightarrow> 'scr kept_output \<Rightarrow> 'a option \<times> 'scr kept_output" where
  "on_screen f k =
     (case k_screen k of
        None \<Rightarrow> (None, k)
      | Some scr \<Rightarrow>
          (case f scr of
             Some (a, scr') \<Rightarrow> (Some a, k\<lparr>k_screen := Some scr'\<rparr>)
           | None \<Rightarrow> (None, k\<lparr>k_screen := None\<rparr>)))"

definition kept_push :: "'scr emulator \<Rightarrow> string \<Rightarrow> 'scr kept_output \<Rightarrow> 'scr kept_output" where
  "kept_push em chunk k =
     snd (on_screen (\<lambda>scr. map_option (Pair ()) (em_feed em chunk scr))
       (k\<lparr>k_ring := push_capped (k_ring k) chunk SCROLLBACK_CAP_BYTES,
          k_written := k_written k + length chunk\<rparr>))"

definition kept_resize :: "'scr emulator \<Rightarrow> u16 \<Rightarrow> u16 \<Rightarrow> 'scr kept_output \<Rightarrow> 'scr kept_output" where
  "kept_resize em rows cols k =
     (let size = clamp_size rows cols
      in if k_size k = size then k
         else (snd (on_screen (\<lambda>scr. map_option (Pair ()) (em_resize em rows cols scr))
                 (k\<lparr>k_resized_at := k_written k\<rparr>)))\<lparr>k_size := size\<rparr>)"

definition tail_after :: "nat \<Rightarrow> 'scr kept_output \<Rightarrow> string option" where
  "tail_after since k =
     (let start = k_written k - length (k_ring k)
      in if since < start \<or> since < k_resized_at k \<or> since > k_written k then None
         else Some (drop (since - start) (k_ring k)))"

definition replay :: "'scr emulator \<Rightarrow> nat option \<Rightarrow> 'scr kept_output \<Rightarrow> (string \<times> bool) \<times> 'scr kept_output" where
  "replay em since k =
     (case Option.bind since (\<lambda>n. tail_after n k) of
        Some bytes \<Rightarrow> ((bytes, True), k)
      | None \<Rightarrow>
          if k_ring k = [] then (([], False), k)
          else (case on_screen (em_snapshot em) k of
                  (Some snapshot, k') \<Rightarrow> ((snapshot, False), k')
                | (None, k') \<Rightarrow> ((k_ring k', False), k')))"

section \<open>Attachments and their live stream\<close>

text \<open>
  A client: what the attach handed it, the live bytes it took from its receiver so far, and the
  chunks waiting there.
\<close>

record client =
  cl_since :: "nat option"
  cl_snapshot :: string
  cl_resume :: bool
  cl_offset :: nat
  cl_got :: string
  cl_pending :: "string list"
  cl_lagged :: bool

definition BROADCAST_CAP :: nat where
  "BROADCAST_CAP = 1024"

definition receive :: "string \<Rightarrow> client \<Rightarrow> client" where
  "receive chunk c =
     (let q = cl_pending c @ [chunk]
      in if length q > BROADCAST_CAP then c\<lparr>cl_pending := tl q, cl_lagged := True\<rparr>
         else c\<lparr>cl_pending := q\<rparr>)"

record 'scr session_io =
  io_kept :: "'scr kept_output"
  io_clients :: "client list"

definition publish :: "'scr emulator \<Rightarrow> string \<Rightarrow> 'scr session_io \<Rightarrow> 'scr session_io" where
  "publish em chunk io =
     \<lparr>io_kept = kept_push em chunk (io_kept io), io_clients = map (receive chunk) (io_clients io)\<rparr>"

definition subscribe :: "'scr emulator \<Rightarrow> nat option \<Rightarrow> 'scr kept_output \<Rightarrow> client \<times> 'scr kept_output" where
  "subscribe em since k =
     (let ((bytes, resume), k') = replay em since k
      in (\<lparr>cl_since = since, cl_snapshot = bytes, cl_resume = resume, cl_offset = k_written k',
           cl_got = [], cl_pending = [], cl_lagged = False\<rparr>, k'))"

definition attach_client :: "'scr emulator \<Rightarrow> nat option \<Rightarrow> 'scr session_io \<Rightarrow> 'scr session_io" where
  "attach_client em since io =
     (let (c, k) = subscribe em since (io_kept io)
      in \<lparr>io_kept = k, io_clients = io_clients io @ [c]\<rparr>)"

text \<open>
  One turn of the bridge of client \<open>i\<close> (\<^verbatim>\<open>on_output\<close> of \<^verbatim>\<open>routes/ws_session/bridge.rs\<close>): the next chunk, or a
  new snapshot when its receiver lagged (\<^verbatim>\<open>Attachment::resync\<close>).
\<close>

definition bridge_turn :: "'scr emulator \<Rightarrow> nat \<Rightarrow> 'scr session_io \<Rightarrow> 'scr session_io" where
  "bridge_turn em i io =
     (if i < length (io_clients io) then
        let c = io_clients io ! i
        in if cl_lagged c then
             (let (c', k) = subscribe em None (io_kept io)
              in \<lparr>io_kept = k, io_clients = (io_clients io)[i := c']\<rparr>)
           else (case cl_pending c of
                   [] \<Rightarrow> io
                 | chunk # q \<Rightarrow>
                     io\<lparr>io_clients := (io_clients io)[i := c\<lparr>cl_got := cl_got c @ chunk, cl_pending := q\<rparr>]\<rparr>)
      else io)"

datatype io_op = Publish string | Resize u16 u16 | Attach "nat option" | Turn nat

fun io_step :: "'scr emulator \<Rightarrow> io_op \<Rightarrow> 'scr session_io \<Rightarrow> 'scr session_io" where
  "io_step em (Publish chunk) io = publish em chunk io"
| "io_step em (Resize rows cols) io = io\<lparr>io_kept := kept_resize em rows cols (io_kept io)\<rparr>"
| "io_step em (Attach since) io = attach_client em since io"
| "io_step em (Turn i) io = bridge_turn em i io"

definition io_start :: "'scr emulator \<Rightarrow> u16 \<Rightarrow> u16 \<Rightarrow> 'scr session_io" where
  "io_start em rows cols = \<lparr>io_kept = kept_new em rows cols, io_clients = []\<rparr>"

definition io_run :: "'scr emulator \<Rightarrow> u16 \<Rightarrow> u16 \<Rightarrow> io_op list \<Rightarrow> 'scr session_io" where
  "io_run em rows cols ops = fold (io_step em) ops (io_start em rows cols)"

section \<open>What was written\<close>

fun op_output :: "io_op \<Rightarrow> string" where
  "op_output (Publish chunk) = chunk"
| "op_output _ = []"

text \<open>All the bytes the session wrote.\<close>

definition written :: "io_op list \<Rightarrow> string" where
  "written ops = concat (map op_output ops)"

lemma written_simps [simp]: "written [] = []" "written (ops @ [op]) = written ops @ op_output op"
  by (simp_all add: written_def)

lemma pop_to_cap_drop: "pop_to_cap cap bs = drop (length bs - cap) bs"
  by (induction bs) (auto simp: Suc_diff_le)

lemma on_screen_fields [simp]:
  "k_ring (snd (on_screen f k)) = k_ring k" "k_written (snd (on_screen f k)) = k_written k"
  "k_size (snd (on_screen f k)) = k_size k" "k_resized_at (snd (on_screen f k)) = k_resized_at k"
  by (auto simp: on_screen_def split: option.splits)

lemma replay_fields [simp]:
  "k_ring (snd (replay em since k)) = k_ring k" "k_written (snd (replay em since k)) = k_written k"
  "k_size (snd (replay em since k)) = k_size k" "k_resized_at (snd (replay em since k)) = k_resized_at k"
proof -
  have "k_ring k' = k_ring k \<and> k_written k' = k_written k \<and> k_size k' = k_size k \<and> k_resized_at k' = k_resized_at k"
    if "on_screen f k = (x, k')" for x k' and f :: "'a \<Rightarrow> (string \<times> 'a) option"
    using on_screen_fields [of f k] that by simp
  then show "k_ring (snd (replay em since k)) = k_ring k" "k_written (snd (replay em since k)) = k_written k"
    "k_size (snd (replay em since k)) = k_size k" "k_resized_at (snd (replay em since k)) = k_resized_at k"
    by (auto simp: replay_def split: option.splits prod.splits)
qed

text \<open>The ring holds the end of the output, up to its cap.\<close>

definition kept_of :: "string \<Rightarrow> 'scr kept_output \<Rightarrow> bool" where
  "kept_of out k \<longleftrightarrow> k_written k = length out \<and> k_resized_at k \<le> length out \<and>
     k_ring k = drop (length out - SCROLLBACK_CAP_BYTES) out"

lemma kept_of_new: "kept_of [] (kept_new em rows cols)"
  by (simp add: kept_of_def kept_new_def)

lemma drop_to_cap:
  "pop_to_cap cap (drop (length out - cap) out @ chunk) = drop (length (out @ chunk) - cap) (out @ chunk)"
  by (cases "length out \<le> cap") (simp_all add: pop_to_cap_drop add.commute)

lemma kept_of_push: "kept_of out k \<Longrightarrow> kept_of (out @ chunk) (kept_push em chunk k)"
  using drop_to_cap [of SCROLLBACK_CAP_BYTES out chunk]
  by (simp add: kept_of_def kept_push_def push_capped_def)

lemma kept_of_resize: "kept_of out k \<Longrightarrow> kept_of out (kept_resize em rows cols k)"
  by (auto simp: kept_of_def kept_resize_def Let_def)

lemma kept_of_replay: "kept_of out k \<Longrightarrow> kept_of out (snd (replay em since k))"
  by (simp add: kept_of_def)

text \<open>A resume is the end of the output after the count the client named.\<close>

lemma tail_after_output:
  assumes "kept_of out k"
  shows "tail_after since k =
     (if length out - SCROLLBACK_CAP_BYTES \<le> since \<and> k_resized_at k \<le> since \<and> since \<le> length out
      then Some (drop since out) else None)"
proof -
  have "length out - length (k_ring k) = length out - SCROLLBACK_CAP_BYTES"
    using assms by (simp add: kept_of_def)
  with assms show ?thesis by (auto simp: tail_after_def kept_of_def Let_def)
qed

section \<open>The stream of a client\<close>

text \<open>
  A client that did not lag has taken, or has waiting, exactly the output after its offset; a resume
  joins what it showed before to it.
\<close>

definition client_ok :: "string \<Rightarrow> client \<Rightarrow> bool" where
  "client_ok out c \<longleftrightarrow>
     cl_offset c \<le> length out \<and>
     prefix (cl_got c) (drop (cl_offset c) out) \<and>
     (\<not> cl_lagged c \<longrightarrow> drop (cl_offset c) out = cl_got c @ concat (cl_pending c)) \<and>
     (cl_resume c \<longrightarrow> (\<exists>n. cl_since c = Some n \<and> n \<le> cl_offset c \<and>
        cl_snapshot c = take (cl_offset c - n) (drop n out)))"

lemma client_ok_subscribe:
  assumes "kept_of out k" "subscribe em since k = (c, k')"
  shows "client_ok out c" "kept_of out k'"
proof -
  have k': "k' = snd (replay em since k)"
    using assms(2) by (auto simp: subscribe_def Let_def split: prod.splits)
  then show "kept_of out k'" using kept_of_replay [OF assms(1)] by simp
  then have offset: "cl_offset c = length out"
    using assms(2) by (auto simp: subscribe_def Let_def kept_of_def split: prod.splits)
  have "cl_resume c \<Longrightarrow> \<exists>n. since = Some n \<and> tail_after n k = Some (cl_snapshot c)"
    using assms(2) by (auto simp: subscribe_def replay_def Let_def split: prod.splits option.splits if_splits
        simp: bind_eq_Some_conv)
  then have "cl_resume c \<Longrightarrow> \<exists>n. since = Some n \<and> n \<le> length out \<and> cl_snapshot c = drop n out"
    unfolding tail_after_output [OF assms(1)] by (auto split: if_splits)
  moreover have "cl_since c = since" "cl_got c = []" "cl_pending c = []"
    using assms(2) by (auto simp: subscribe_def Let_def split: prod.splits)
  ultimately show "client_ok out c" using offset by (auto simp: client_ok_def)
qed

lemma client_ok_receive:
  assumes "client_ok out c"
  shows "client_ok (out @ chunk) (receive chunk c)"
proof -
  have "prefix (cl_got c) (drop (cl_offset c) (out @ chunk))"
    using assms by (auto simp: client_ok_def)
  moreover have "take (cl_offset c - n) (drop n (out @ chunk)) = take (cl_offset c - n) (drop n out)"
    if "n \<le> cl_offset c" for n
    using assms that by (auto simp: client_ok_def)
  ultimately show ?thesis
    using assms by (auto simp: client_ok_def receive_def Let_def)
qed

definition io_ok :: "string \<Rightarrow> 'scr session_io \<Rightarrow> bool" where
  "io_ok out io \<longleftrightarrow> kept_of out (io_kept io) \<and> list_all (client_ok out) (io_clients io)"

lemma list_all_update: "list_all P xs \<Longrightarrow> P x \<Longrightarrow> list_all P (xs[i := x])"
  by (auto simp: list_all_iff dest: subsetD [OF set_update_subset_insert])

lemma io_ok_step: "io_ok out io \<Longrightarrow> io_ok (out @ op_output op) (io_step em op io)"
proof (cases op)
  case (Turn i)
  assume ok: "io_ok out io"
  show ?thesis
  proof (cases "i < length (io_clients io)")
    case True
    define c where "c = io_clients io ! i"
    have c: "client_ok out c" using ok True by (auto simp: io_ok_def c_def list_all_length)
    obtain c' k where sub: "subscribe em None (io_kept io) = (c', k)" by fastforce
    have kept: "kept_of out (io_kept io)" using ok by (simp add: io_ok_def)
    have next_chunk: "client_ok out (c\<lparr>cl_got := cl_got c @ chunk, cl_pending := q\<rparr>)"
      if "\<not> cl_lagged c" "cl_pending c = chunk # q" for chunk q
      using c that by (auto simp: client_ok_def)
    show ?thesis
      using ok True Turn client_ok_subscribe [OF kept sub] next_chunk
      by (auto simp: bridge_turn_def Let_def sub c_def [symmetric] io_ok_def
          split: list.splits intro!: list_all_update)
  qed (use ok Turn in \<open>simp add: bridge_turn_def\<close>)
next
  case (Attach since)
  assume ok: "io_ok out io"
  obtain c k where sub: "subscribe em since (io_kept io) = (c, k)" by fastforce
  have "kept_of out (io_kept io)" using ok by (simp add: io_ok_def)
  with ok Attach client_ok_subscribe [OF _ sub] show ?thesis
    by (auto simp: attach_client_def sub io_ok_def)
qed (auto simp: io_ok_def publish_def kept_of_push kept_of_resize list_all_iff client_ok_receive)

lemma io_ok_run: "io_ok (written ops) (io_run em rows cols ops)"
proof (induction ops rule: rev_induct)
  case Nil
  then show ?case by (simp add: io_run_def io_ok_def io_start_def kept_of_new)
next
  case (snoc op ops)
  then show ?case using io_ok_step [of "written ops" _ op em] by (simp add: io_run_def)
qed

text \<open>
  C29. Exactly-once replay.  However publishes, resizes, attaches, reads and lags interleave, a client
  whose receiver did not lag has taken or has waiting exactly the output after its offset; and a
  client that was told its replay is a resume sees the session's whole output without a gap or a
  repeat: what it showed before, the replay, what it took live and what waits for it.
\<close>

theorem exactly_once_replay:
  "list_all (\<lambda>c. if cl_lagged c then True
      else drop (cl_offset c) (written ops) = cl_got c @ concat (cl_pending c) \<and>
        (if cl_resume c
         then take (the (cl_since c)) (written ops) @ cl_snapshot c @ cl_got c @ concat (cl_pending c) = written ops
         else True))
     (io_clients (io_run em rows cols ops))"
proof -
  have joined: "take n out @ take (m - n) (drop n out) @ drop m out = out" if "n \<le> m" for n m and out :: string
    using that by (metis append.assoc append_take_drop_id drop_drop le_add_diff_inverse2)
  have "list_all (client_ok (written ops)) (io_clients (io_run em rows cols ops))"
    using io_ok_run [of ops em rows cols] by (simp add: io_ok_def)
  then show ?thesis
    by (rule list.pred_mono_strong) (auto simp: client_ok_def dest!: joined [where out = "written ops"])
qed

section \<open>When an attach resumes\<close>

text \<open>The size of the session, and the length of the output when it last changed.\<close>

fun sized :: "(u16 \<times> u16) \<times> nat \<times> nat \<Rightarrow> io_op list \<Rightarrow> (u16 \<times> u16) \<times> nat \<times> nat" where
  "sized acc [] = acc"
| "sized (sz, n, at) (Publish chunk # ops) = sized (sz, n + length chunk, at) ops"
| "sized (sz, n, at) (Resize rows cols # ops) =
     sized (if clamp_size rows cols = sz then (sz, n, at) else (clamp_size rows cols, n, n)) ops"
| "sized acc (_ # ops) = sized acc ops"

lemma kept_size_step:
  assumes "op = Attach since \<or> op = Turn i"
  shows "k_size (io_kept (io_step em op io)) = k_size (io_kept io)"
    "k_written (io_kept (io_step em op io)) = k_written (io_kept io)"
    "k_resized_at (io_kept (io_step em op io)) = k_resized_at (io_kept io)"
proof -
  have sub: "k_size k' = k_size k \<and> k_written k' = k_written k \<and> k_resized_at k' = k_resized_at k"
    if "subscribe em since k = (c, k')" for em since and k :: "'a kept_output" and c k'
  proof -
    have "k' = snd (replay em since k)" using that by (auto simp: subscribe_def Let_def split: prod.splits)
    then show ?thesis by simp
  qed
  have "k_size (io_kept (io_step em op io)) = k_size (io_kept io) \<and>
      k_written (io_kept (io_step em op io)) = k_written (io_kept io) \<and>
      k_resized_at (io_kept (io_step em op io)) = k_resized_at (io_kept io)"
    using assms by (auto simp: attach_client_def bridge_turn_def Let_def dest!: sub split: prod.splits list.splits)
  then show "k_size (io_kept (io_step em op io)) = k_size (io_kept io)"
    "k_written (io_kept (io_step em op io)) = k_written (io_kept io)"
    "k_resized_at (io_kept (io_step em op io)) = k_resized_at (io_kept io)" by auto
qed

lemma kept_size_fold:
  assumes "io' = fold (io_step em) ops io"
  shows "(k_size (io_kept io'), k_written (io_kept io'), k_resized_at (io_kept io')) =
    sized (k_size (io_kept io), k_written (io_kept io), k_resized_at (io_kept io)) ops"
  using assms
proof (induction ops arbitrary: io)
  case (Cons op ops)
  then have IH: "(k_size (io_kept io'), k_written (io_kept io'), k_resized_at (io_kept io')) =
    sized (k_size (io_kept (io_step em op io)), k_written (io_kept (io_step em op io)),
      k_resized_at (io_kept (io_step em op io))) ops" by simp
  show ?case
  proof (cases op)
    case (Publish chunk)
    with IH show ?thesis by (simp add: publish_def kept_push_def)
  next
    case (Resize rows cols)
    with IH show ?thesis by (auto simp: kept_resize_def Let_def)
  next
    case (Attach since)
    with IH kept_size_step [of op since 0 em io] show ?thesis by simp
  next
    case (Turn i)
    with IH kept_size_step [of op None i em io] show ?thesis by simp
  qed
qed simp

text \<open>
  An attach that names the count \<open>n\<close> of the bytes it shows is a resume exactly when the bytes
  after it are all still in the ring, were all written at the size the session has now, and were
  written at all; the replay is then exactly those bytes, and the daemon never holds more than the
  cap of the session's output.
\<close>

theorem resume_spec:
  "let k = io_kept (io_run em rows cols ops);
       out = written ops;
       (sz, total, resized) = sized (clamp_size rows cols, 0, 0) ops;
       (bytes, resume) = fst (replay em (Some n) k)
   in (resume \<longleftrightarrow> length out - SCROLLBACK_CAP_BYTES \<le> n \<and> resized \<le> n \<and> n \<le> length out) \<and>
      bytes = (if resume then drop n out else bytes) \<and>
      length (k_ring k) \<le> SCROLLBACK_CAP_BYTES \<and> k_size k = sz \<and> total = length out"
proof -
  let ?k = "io_kept (io_run em rows cols ops)"
  have kept: "kept_of (written ops) ?k"
    using io_ok_run [of ops em rows cols] by (simp add: io_ok_def)
  have sized: "(k_size ?k, k_written ?k, k_resized_at ?k) = sized (clamp_size rows cols, 0, 0) ops"
    using kept_size_fold [OF refl, of em ops "io_start em rows cols"]
    by (simp add: io_run_def io_start_def kept_new_def)
  have ring: "length (k_ring ?k) \<le> SCROLLBACK_CAP_BYTES" "k_written ?k = length (written ops)"
    using kept by (auto simp: kept_of_def)
  have resumes: "fst (replay em (Some n) ?k) = (bytes, resume) \<Longrightarrow>
      resume = (tail_after n ?k \<noteq> None) \<and> (resume \<longrightarrow> tail_after n ?k = Some bytes)" for bytes resume
    by (auto simp: replay_def split: option.splits if_splits prod.splits)
  obtain bytes resume where fst: "fst (replay em (Some n) ?k) = (bytes, resume)" by fastforce
  from resumes [OF fst] ring show ?thesis
    unfolding sized [symmetric] tail_after_output [OF kept] Let_def
    by (auto simp: fst split: if_splits)
qed

end
