(* ===== verification/Session_Table.thy ===== *)
theory Session_Table
  imports Blocked
begin

text \<open>
  The daemon's table of live consoles (\<^verbatim>\<open>ralphy-daemon/src/session/manager.rs\<close> with \<^verbatim>\<open>attachment.rs\<close>,
  \<^verbatim>\<open>record.rs\<close>, \<^verbatim>\<open>id_seq.rs\<close>, the end of \<^verbatim>\<open>pump.rs\<close> and \<^verbatim>\<open>routes/ws_session/join.rs\<close>): who may write to a
  console, who watches it, who is told it ended, and which launch may start it.

  A \<^verbatim>\<open>ManagedSession\<close> is shared by the table and its attachments, so it lives in a store that outlasts
  its entry in the table; an eviction token is a number, fresh for each attach, and \<open>tb_fired\<close> says which
  tokens were fired and why.  Each operation is what the code does under its lock, so the
  interleavings of clients, launches and pumps are the sequences of operations.
\<close>

type_synonym session_id = nat
type_synonym token = nat

datatype end_reason = TakenOver | ChildExited | DaemonShutdown

fun end_reason_wire :: "end_reason \<Rightarrow> string" where
  "end_reason_wire TakenOver = ''taken-over''"
| "end_reason_wire ChildExited = ''child-exited''"
| "end_reason_wire DaemonShutdown = ''daemon-shutdown''"

datatype attach_error = Unknown | Busy | Superseded

text \<open>\<^verbatim>\<open>SessionInfo\<close>; its id is its key in the table, and the agent state is filled in when it is read.\<close>

record session_info =
  si_repo :: string
  si_agent :: string
  si_kind :: string
  si_started_at :: nat
  si_environment :: "string option"
  si_name :: "string option"
  si_checkout :: "string option"
  si_record :: "string option"

record writer =
  wr_token :: token
  wr_holder :: "string option"
  wr_attempt :: "nat option"

text \<open>
  The parts of a \<^verbatim>\<open>ManagedSession\<close> the table works on; its output is in \<open>Session_Output\<close> and its agent state
  in \<open>Agent_Status\<close>.
\<close>

record managed_session =
  mg_info :: session_info
  mg_attached :: "writer option"
  mg_watchers :: "token list"

record attachment =
  at_session :: session_id
  at_token :: token
  at_writer :: bool

section \<open>Session ids\<close>

text \<open>\<^verbatim>\<open>IdSeq\<close>: the last id issued and the file it is recorded in, \<open>None\<close> for a sequence without one.\<close>

record id_seq =
  iq_last :: session_id
  iq_file :: "string option"

text \<open>The content of the record file: \<open>None\<close> when it is missing or cannot be read.\<close>

definition id_seq_continuing :: "string option \<Rightarrow> id_seq" where
  "id_seq_continuing content =
     \<lparr>iq_last = (case content of
         Some txt \<Rightarrow> (case parse_u64 (trim txt) of Some n \<Rightarrow> n | None \<Rightarrow> 0)
       | None \<Rightarrow> 0),
      iq_file = Some (case content of Some txt \<Rightarrow> txt | None \<Rightarrow> [])\<rparr>"

definition id_seq_next :: "bool \<Rightarrow> id_seq \<Rightarrow> session_id \<times> id_seq" where
  "id_seq_next write_ok q =
     (let n = iq_last q + 1
      in (n, \<lparr>iq_last = n,
              iq_file = (case iq_file q of
                  None \<Rightarrow> None
                | Some old \<Rightarrow> Some (if write_ok then show_nat n else old))\<rparr>))"

section \<open>The table\<close>

record table =
  tb_store :: "session_id \<rightharpoonup> managed_session"
  tb_live :: "session_id list"
  tb_fired :: "token \<rightharpoonup> end_reason"
  tb_tokens :: token

definition table_new :: table where
  "table_new = \<lparr>tb_store = Map.empty, tb_live = [], tb_fired = Map.empty, tb_tokens = 0\<rparr>"

definition fire :: "end_reason \<Rightarrow> token \<Rightarrow> table \<Rightarrow> table" where
  "fire reason t tb = tb\<lparr>tb_fired := (tb_fired tb)(t \<mapsto> reason)\<rparr>"

definition new_token :: "table \<Rightarrow> token \<times> table" where
  "new_token tb = (tb_tokens tb, tb\<lparr>tb_tokens := tb_tokens tb + 1\<rparr>)"

definition update_session :: "session_id \<Rightarrow> (managed_session \<Rightarrow> managed_session) \<Rightarrow> table \<Rightarrow> table" where
  "update_session sid f tb = tb\<lparr>tb_store := (tb_store tb)(sid := map_option f (tb_store tb sid))\<rparr>"

definition live_session :: "session_id \<Rightarrow> table \<Rightarrow> managed_session option" where
  "live_session sid tb = (if sid \<in> set (tb_live tb) then tb_store tb sid else None)"

text \<open>The insertion of a spawned session: a detached console, at its id's place in the list.\<close>

definition insert_session :: "session_id \<Rightarrow> session_info \<Rightarrow> table \<Rightarrow> table" where
  "insert_session sid info tb =
     tb\<lparr>tb_store := (tb_store tb)(sid \<mapsto> \<lparr>mg_info = info, mg_attached = None, mg_watchers = []\<rparr>),
        tb_live := insort sid (remove1 sid (tb_live tb))\<rparr>"

definition superseded :: "nat option \<Rightarrow> nat option \<Rightarrow> bool" where
  "superseded claim held = (case (claim, held) of (Some c, Some h) \<Rightarrow> c < h | _ \<Rightarrow> False)"

definition attach_as :: "session_id \<Rightarrow> bool \<Rightarrow> string option \<Rightarrow> nat option \<Rightarrow> table
    \<Rightarrow> (attach_error + attachment) \<times> table" where
  "attach_as sid takeover holder attempt tb0 =
     (let (t, tb) = new_token tb0;
          claimed = (\<lambda>tb. (Inr \<lparr>at_session = sid, at_token = t, at_writer = True\<rparr>,
            update_session sid (\<lambda>m. m\<lparr>mg_attached :=
              Some \<lparr>wr_token = t, wr_holder = holder, wr_attempt = attempt\<rparr>\<rparr>) tb))
      in case live_session sid tb of
           None \<Rightarrow> (Inl Unknown, tb)
         | Some m \<Rightarrow>
             (case mg_attached m of
                None \<Rightarrow> claimed tb
              | Some w \<Rightarrow>
                  let own = (holder \<noteq> None \<and> wr_holder w = holder)
                  in if \<not> takeover \<and> own \<and> superseded attempt (wr_attempt w) then (Inl Superseded, tb)
                     else if \<not> takeover \<and> \<not> own then (Inl Busy, tb)
                     else claimed (fire TakenOver (wr_token w) tb)))"

definition watch :: "session_id \<Rightarrow> table \<Rightarrow> (attach_error + attachment) \<times> table" where
  "watch sid tb0 =
     (let (t, tb) = new_token tb0
      in case live_session sid tb of
           None \<Rightarrow> (Inl Unknown, tb)
         | Some _ \<Rightarrow>
             (Inr \<lparr>at_session = sid, at_token = t, at_writer = False\<rparr>,
              update_session sid (\<lambda>m. m\<lparr>mg_watchers := mg_watchers m @ [t]\<rparr>) tb))"

definition evict_all :: "session_id \<Rightarrow> end_reason \<Rightarrow> table \<Rightarrow> table" where
  "evict_all sid reason tb =
     (case tb_store tb sid of
        None \<Rightarrow> tb
      | Some m \<Rightarrow>
          fold (fire reason) (mg_watchers m)
            (case mg_attached m of Some w \<Rightarrow> fire reason (wr_token w) tb | None \<Rightarrow> tb))"

definition close_session :: "session_id \<Rightarrow> table \<Rightarrow> bool \<times> table" where
  "close_session sid tb =
     (if sid \<in> set (tb_live tb)
      then (True, evict_all sid ChildExited (tb\<lparr>tb_live := remove1 sid (tb_live tb)\<rparr>))
      else (False, tb))"

text \<open>\<^verbatim>\<open>retire\<close>: the pump of a session whose child is gone, with the manager still there.\<close>

definition retire :: "session_id \<Rightarrow> table \<Rightarrow> bool \<times> table" where
  "retire sid tb =
     (sid \<in> set (tb_live tb), evict_all sid ChildExited (tb\<lparr>tb_live := remove1 sid (tb_live tb)\<rparr>))"

definition drop_guard :: "attachment \<Rightarrow> table \<Rightarrow> table" where
  "drop_guard a tb =
     (if at_writer a then
        update_session (at_session a) (\<lambda>m.
          case mg_attached m of
            Some w \<Rightarrow> if wr_token w = at_token a then m\<lparr>mg_attached := None\<rparr> else m
          | None \<Rightarrow> m) tb
      else
        update_session (at_session a) (\<lambda>m. m\<lparr>mg_watchers := filter (\<lambda>t. t \<noteq> at_token a) (mg_watchers m)\<rparr>) tb)"

definition hold_as :: "attachment \<Rightarrow> string \<Rightarrow> nat option \<Rightarrow> table \<Rightarrow> table" where
  "hold_as a holder attempt tb =
     (if \<not> at_writer a then tb
      else update_session (at_session a) (\<lambda>m.
        case mg_attached m of
          Some w \<Rightarrow>
            if wr_token w = at_token a
            then m\<lparr>mg_attached := Some (w\<lparr>wr_holder := Some holder, wr_attempt := attempt\<rparr>)\<rparr> else m
        | None \<Rightarrow> m) tb)"

definition console_in :: "string \<Rightarrow> string \<Rightarrow> table \<Rightarrow> bool" where
  "console_in repo checkout tb =
     list_ex (\<lambda>sid. case tb_store tb sid of
        Some m \<Rightarrow> si_repo (mg_info m) = repo \<and> si_checkout (mg_info m) = Some checkout
      | None \<Rightarrow> False) (tb_live tb)"

text \<open>\<^verbatim>\<open>RecordClaim::live\<close>: the first live session that serves a window record.\<close>

definition serves :: "string \<Rightarrow> table \<Rightarrow> session_id \<Rightarrow> bool" where
  "serves r tb sid = (case tb_store tb sid of Some m \<Rightarrow> si_record (mg_info m) = Some r | None \<Rightarrow> False)"

definition live_for :: "string \<Rightarrow> table \<Rightarrow> session_id option" where
  "live_for r tb = find (serves r tb) (tb_live tb)"

text \<open>
  \<^verbatim>\<open>join\<close> of a launch, when nothing comes between its parts: \<open>None\<close> when no live session serves the record
  it claimed, so the launch goes on and starts one.
\<close>

datatype joined = JoinedWriter attachment | JoinedWatcher attachment | JoinRefused

definition join_session :: "string option \<Rightarrow> string option \<Rightarrow> nat option \<Rightarrow> table \<Rightarrow> joined option \<times> table" where
  "join_session claim holder attempt tb =
     (case Option.bind claim (\<lambda>r. live_for r tb) of
        None \<Rightarrow> (None, tb)
      | Some sid \<Rightarrow>
          (case live_session sid tb of
             None \<Rightarrow> (None, tb)
           | Some _ \<Rightarrow>
               (case attach_as sid False holder attempt tb of
                  (Inr a, tb1) \<Rightarrow> (Some (JoinedWriter a), tb1)
                | (Inl Busy, tb1) \<Rightarrow>
                    (case watch sid tb1 of
                       (Inr a, tb2) \<Rightarrow> (Some (JoinedWatcher a), tb2)
                     | (Inl _, tb2) \<Rightarrow> (None, tb2))
                | (Inl Superseded, tb1) \<Rightarrow> (Some JoinRefused, tb1)
                | (Inl Unknown, tb1) \<Rightarrow> (None, tb1))))"

end
