(* ===== verification/Session_Table_Props.thy ===== *)
theory Session_Table_Props
  imports Session_Table Digits
begin

text \<open>
  The daemon's console table under every interleaving of clients, launches and pumps: nobody waits on
  a console that ended, a console has one writer, and a window record has one console.
\<close>

section \<open>The steps\<close>

text \<open>
  A configuration: the table, the attachments the clients hold, the id sequence with the ids reserved
  for launches under way, and the claims of launches on window records: which launch holds a record,
  which session it found there, and whether it found none.
\<close>

type_synonym launch = nat

record config =
  cf_table :: table
  cf_held :: "attachment set"
  cf_ids :: id_seq
  cf_reserved :: "session_id set"
  cf_gates :: "string \<rightharpoonup> launch"
  cf_found :: "launch \<rightharpoonup> session_id"
  cf_cleared :: "launch set"

inductive daemon_step :: "config \<Rightarrow> config \<Rightarrow> bool" where
  step_reserve: "id_seq_next ok (cf_ids c) = (sid, q) \<Longrightarrow>
    daemon_step c (c\<lparr>cf_ids := q, cf_reserved := insert sid (cf_reserved c)\<rparr>)"
| step_insert: "sid \<in> cf_reserved c \<Longrightarrow> si_record info = None \<Longrightarrow>
    daemon_step c (c\<lparr>cf_table := insert_session sid info (cf_table c),
      cf_reserved := cf_reserved c - {sid}\<rparr>)"
| step_insert_claimed: "sid \<in> cf_reserved c \<Longrightarrow> si_record info = Some r \<Longrightarrow>
    cf_gates c r = Some l \<Longrightarrow> l \<in> cf_cleared c \<Longrightarrow>
    daemon_step c (c\<lparr>cf_table := insert_session sid info (cf_table c),
      cf_reserved := cf_reserved c - {sid}, cf_cleared := cf_cleared c - {l},
      cf_found := (cf_found c)(l := None)\<rparr>)"
| step_attach: "attach_as sid takeover holder attempt (cf_table c) = (Inr a, tb) \<Longrightarrow>
    daemon_step c (c\<lparr>cf_table := tb, cf_held := insert a (cf_held c)\<rparr>)"
| step_attach_refused: "attach_as sid takeover holder attempt (cf_table c) = (Inl e, tb) \<Longrightarrow>
    daemon_step c (c\<lparr>cf_table := tb\<rparr>)"
| step_watch: "watch sid (cf_table c) = (Inr a, tb) \<Longrightarrow>
    daemon_step c (c\<lparr>cf_table := tb, cf_held := insert a (cf_held c)\<rparr>)"
| step_watch_refused: "watch sid (cf_table c) = (Inl e, tb) \<Longrightarrow> daemon_step c (c\<lparr>cf_table := tb\<rparr>)"
| step_close: "daemon_step c (c\<lparr>cf_table := snd (close_session sid (cf_table c))\<rparr>)"
| step_retire: "daemon_step c (c\<lparr>cf_table := snd (retire sid (cf_table c))\<rparr>)"
| step_drop: "a \<in> cf_held c \<Longrightarrow>
    daemon_step c (c\<lparr>cf_table := drop_guard a (cf_table c), cf_held := cf_held c - {a}\<rparr>)"
| step_hold: "a \<in> cf_held c \<Longrightarrow> daemon_step c (c\<lparr>cf_table := hold_as a holder attempt (cf_table c)\<rparr>)"
| step_claim: "cf_gates c r = None \<Longrightarrow> l \<notin> ran (cf_gates c) \<Longrightarrow>
    daemon_step c (c\<lparr>cf_gates := (cf_gates c)(r \<mapsto> l)\<rparr>)"
| step_found: "cf_gates c r = Some l \<Longrightarrow> live_for r (cf_table c) = Some sid \<Longrightarrow>
    daemon_step c (c\<lparr>cf_found := (cf_found c)(l \<mapsto> sid)\<rparr>)"
| step_none: "cf_gates c r = Some l \<Longrightarrow> live_for r (cf_table c) = None \<Longrightarrow>
    daemon_step c (c\<lparr>cf_cleared := insert l (cf_cleared c)\<rparr>)"
| step_gone: "cf_gates c r = Some l \<Longrightarrow> cf_found c l = Some sid \<Longrightarrow> live_session sid (cf_table c) = None \<Longrightarrow>
    daemon_step c (c\<lparr>cf_cleared := insert l (cf_cleared c)\<rparr>)"
| step_release: "cf_gates c r = Some l \<Longrightarrow>
    daemon_step c (c\<lparr>cf_gates := (cf_gates c)(r := None), cf_found := (cf_found c)(l := None),
      cf_cleared := cf_cleared c - {l}\<rparr>)"

definition config_start :: "id_seq \<Rightarrow> config" where
  "config_start q = \<lparr>cf_table = table_new, cf_held = {}, cf_ids = q, cf_reserved = {},
     cf_gates = Map.empty, cf_found = Map.empty, cf_cleared = {}\<rparr>"

inductive daemon_reachable :: "id_seq \<Rightarrow> config \<Rightarrow> bool" for q where
  reach_start: "daemon_reachable q (config_start q)"
| reach_step: "daemon_reachable q c \<Longrightarrow> daemon_step c c' \<Longrightarrow> daemon_reachable q c'"

section \<open>Who holds what\<close>

definition told :: "table \<Rightarrow> attachment \<Rightarrow> bool" where
  "told tb a \<longleftrightarrow> at_token a \<in> dom (tb_fired tb)"

text \<open>An attachment's registration with its session.\<close>

definition registered :: "table \<Rightarrow> attachment \<Rightarrow> bool" where
  "registered tb a \<longleftrightarrow>
     (\<exists>m. tb_store tb (at_session a) = Some m \<and>
        (at_writer a \<and> (map_option wr_token (mg_attached m) = Some (at_token a) \<or> told tb a) \<or>
         \<not> at_writer a \<and> at_token a \<in> set (mg_watchers m)))"

definition holders_ok :: "table \<Rightarrow> attachment set \<Rightarrow> bool" where
  "holders_ok tb hs \<longleftrightarrow>
     distinct (tb_live tb) \<and> set (tb_live tb) \<subseteq> dom (tb_store tb) \<and>
     inj_on at_token hs \<and>
     (\<forall>a\<in>hs. at_token a < tb_tokens tb \<and> registered tb a \<and> (at_session a \<in> set (tb_live tb) \<or> told tb a)) \<and>
     (\<forall>sid m w. tb_store tb sid = Some m \<and> mg_attached m = Some w \<longrightarrow>
        \<lparr>at_session = sid, at_token = wr_token w, at_writer = True\<rparr> \<in> hs) \<and>
     (\<forall>sid m. tb_store tb sid = Some m \<longrightarrow>
        (\<forall>t\<in>set (mg_watchers m). \<lparr>at_session = sid, at_token = t, at_writer = False\<rparr> \<in> hs))"

lemma holders_okD:
  assumes "holders_ok tb hs"
  shows "distinct (tb_live tb)" "set (tb_live tb) \<subseteq> dom (tb_store tb)" "inj_on at_token hs"
    "\<And>a. a \<in> hs \<Longrightarrow> at_token a < tb_tokens tb" "\<And>a. a \<in> hs \<Longrightarrow> registered tb a"
    "\<And>a. a \<in> hs \<Longrightarrow> at_session a \<in> set (tb_live tb) \<or> told tb a"
    "\<And>sid m w. tb_store tb sid = Some m \<Longrightarrow> mg_attached m = Some w \<Longrightarrow>
        \<lparr>at_session = sid, at_token = wr_token w, at_writer = True\<rparr> \<in> hs"
    "\<And>sid m t. tb_store tb sid = Some m \<Longrightarrow> t \<in> set (mg_watchers m) \<Longrightarrow>
        \<lparr>at_session = sid, at_token = t, at_writer = False\<rparr> \<in> hs"
  using assms unfolding holders_ok_def by blast+

lemma holders_okI:
  assumes "distinct (tb_live tb)" "set (tb_live tb) \<subseteq> dom (tb_store tb)" "inj_on at_token hs"
    "\<And>a. a \<in> hs \<Longrightarrow> at_token a < tb_tokens tb" "\<And>a. a \<in> hs \<Longrightarrow> registered tb a"
    "\<And>a. a \<in> hs \<Longrightarrow> at_session a \<in> set (tb_live tb) \<or> told tb a"
    "\<And>sid m w. tb_store tb sid = Some m \<Longrightarrow> mg_attached m = Some w \<Longrightarrow>
        \<lparr>at_session = sid, at_token = wr_token w, at_writer = True\<rparr> \<in> hs"
    "\<And>sid m t. tb_store tb sid = Some m \<Longrightarrow> t \<in> set (mg_watchers m) \<Longrightarrow>
        \<lparr>at_session = sid, at_token = t, at_writer = False\<rparr> \<in> hs"
  shows "holders_ok tb hs"
  using assms unfolding holders_ok_def by blast

lemma fire_fields [simp]:
  "tb_store (fire r t tb) = tb_store tb" "tb_live (fire r t tb) = tb_live tb"
  "tb_tokens (fire r t tb) = tb_tokens tb" "tb_fired (fire r t tb) = (tb_fired tb)(t \<mapsto> r)"
  by (simp_all add: fire_def)

lemma fold_fire_fields [simp]:
  "tb_store (fold (fire r) ts tb) = tb_store tb" "tb_live (fold (fire r) ts tb) = tb_live tb"
  "tb_tokens (fold (fire r) ts tb) = tb_tokens tb"
  by (induction ts arbitrary: tb) auto

lemma fold_fire_fired [simp]: "dom (tb_fired (fold (fire r) ts tb)) = set ts \<union> dom (tb_fired tb)"
  by (induction ts arbitrary: tb) auto

lemma update_session_fields [simp]:
  "tb_live (update_session sid f tb) = tb_live tb" "tb_fired (update_session sid f tb) = tb_fired tb"
  "tb_tokens (update_session sid f tb) = tb_tokens tb"
  "tb_store (update_session sid f tb) = (tb_store tb)(sid := map_option f (tb_store tb sid))"
  by (simp_all add: update_session_def)

lemma evict_all_fields [simp]:
  "tb_store (evict_all sid r tb) = tb_store tb" "tb_live (evict_all sid r tb) = tb_live tb"
  "tb_tokens (evict_all sid r tb) = tb_tokens tb"
  by (simp_all add: evict_all_def split: option.splits)

definition attached_tokens :: "managed_session \<Rightarrow> token set" where
  "attached_tokens m = set (mg_watchers m) \<union> wr_token ` set_option (mg_attached m)"

lemma evict_all_fired [simp]:
  "dom (tb_fired (evict_all sid r tb)) =
     dom (tb_fired tb) \<union> (case tb_store tb sid of Some m \<Rightarrow> attached_tokens m | None \<Rightarrow> {})"
  by (auto simp: evict_all_def attached_tokens_def split: option.splits)

lemma holders_start: "holders_ok table_new {}"
  by (simp add: holders_ok_def table_new_def)

lemma holders_insert:
  assumes "holders_ok tb hs" "tb_store tb sid = None"
  shows "holders_ok (insert_session sid info tb) hs"
proof -
  note h = holders_okD [OF assms(1)]
  have fresh: "at_session a \<noteq> sid" if "a \<in> hs" for a
    using h(5) [OF that] assms(2) by (auto simp: registered_def)
  have live: "set (tb_live (insert_session sid info tb)) = insert sid (set (tb_live tb))"
    using h(1) by (simp add: insert_session_def set_insort_key)
  have reg: "registered (insert_session sid info tb) a" if "a \<in> hs" for a
    using h(5) [OF that] fresh [OF that] by (auto simp: registered_def told_def insert_session_def)
  have told: "told (insert_session sid info tb) a = told tb a" for a
    by (simp add: told_def insert_session_def)
  have fields: "tb_tokens (insert_session sid info tb) = tb_tokens tb"
    "distinct (tb_live (insert_session sid info tb))"
    "tb_store (insert_session sid info tb) s = Some m \<Longrightarrow>
       (s \<noteq> sid \<and> tb_store tb s = Some m) \<or> (mg_attached m = None \<and> mg_watchers m = [])" for s m
    using h(1) by (auto simp: insert_session_def distinct_insort split: if_splits)
  show ?thesis
  proof (rule holders_okI)
    show "set (tb_live (insert_session sid info tb)) \<subseteq> dom (tb_store (insert_session sid info tb))"
      using h(2) unfolding live by (auto simp: insert_session_def)
  qed (use h reg told fields live in \<open>fastforce+\<close>)
qed

lemma holders_new_token: "holders_ok tb hs \<Longrightarrow> holders_ok (tb\<lparr>tb_tokens := Suc (tb_tokens tb)\<rparr>) hs"
  unfolding holders_ok_def registered_def told_def by auto

text \<open>Firing a token only tells more; a token that is not any longer in the slot must have been fired.\<close>

lemma registered_fire: "registered tb a \<Longrightarrow> registered (fire r t tb) a"
  by (auto simp: registered_def told_def)

lemma holders_fire: "holders_ok tb hs \<Longrightarrow> holders_ok (fire r t tb) hs"
  by (auto intro!: holders_okI dest: holders_okD intro: registered_fire simp: told_def) (auto dest: holders_okD simp: told_def)

lemma attach_as_cases:
  assumes "attach_as sid takeover holder attempt tb = (Inr a, tb')"
  obtains m where "sid \<in> set (tb_live tb)" "tb_store tb sid = Some m"
    "a = \<lparr>at_session = sid, at_token = tb_tokens tb, at_writer = True\<rparr>"
    "tb_store tb' = (tb_store tb)(sid \<mapsto> m\<lparr>mg_attached :=
        Some \<lparr>wr_token = tb_tokens tb, wr_holder = holder, wr_attempt = attempt\<rparr>\<rparr>)"
    "tb_live tb' = tb_live tb" "tb_tokens tb' = tb_tokens tb + 1"
    "dom (tb_fired tb') = dom (tb_fired tb) \<union> wr_token ` set_option (mg_attached m)"
proof -
  obtain m where m: "live_session sid (tb\<lparr>tb_tokens := tb_tokens tb + 1\<rparr>) = Some m"
    using assms by (auto simp: attach_as_def new_token_def Let_def split: option.splits)
  then have "sid \<in> set (tb_live tb)" "tb_store tb sid = Some m"
    by (auto simp: live_session_def split: if_splits)
  with assms m show thesis
    by (intro that [of m])
      (auto simp: attach_as_def new_token_def Let_def split: option.splits if_splits)
qed

lemma holders_attach:
  assumes "holders_ok tb hs" "attach_as sid takeover holder attempt tb = (Inr a, tb')"
  shows "holders_ok tb' (insert a hs)"
  using assms(2)
proof (cases rule: attach_as_cases)
  case (1 m)
  note h = holders_okD [OF assms(1)]
  have fresh: "at_token b \<noteq> tb_tokens tb" if "b \<in> hs" for b using h(4) [OF that] by simp
  have reg: "registered tb' b" if "b \<in> hs" for b
    using h(5) [OF that] fresh [OF that] 1 by (auto simp: registered_def told_def)
  have registered_a: "registered tb' a" using 1 by (simp add: registered_def)
  show ?thesis
  proof (rule holders_okI)
    show "inj_on at_token (insert a hs)"
      using h(3) fresh 1(3) by (auto simp: inj_on_def) metis+
    show "at_token b < tb_tokens tb'" if "b \<in> insert a hs" for b
      using that h(4) 1 by (auto simp: less_Suc_eq)
    show "registered tb' b" if "b \<in> insert a hs" for b
      using that reg registered_a by auto
    show "at_session b \<in> set (tb_live tb') \<or> told tb' b" if "b \<in> insert a hs" for b
      using that h(6) 1 by (auto simp: told_def)
    show "\<lparr>at_session = s, at_token = wr_token w, at_writer = True\<rparr> \<in> insert a hs"
      if "tb_store tb' s = Some n" "mg_attached n = Some w" for s n w
      using that h(7) 1 by (auto split: if_splits)
    show "\<lparr>at_session = s, at_token = t, at_writer = False\<rparr> \<in> insert a hs"
      if "tb_store tb' s = Some n" "t \<in> set (mg_watchers n)" for s n t
      using that h(8) 1 by (auto split: if_splits)
  qed (use h 1 in auto)
qed

lemma watch_cases:
  assumes "watch sid tb = (Inr a, tb')"
  obtains m where "sid \<in> set (tb_live tb)" "tb_store tb sid = Some m"
    "a = \<lparr>at_session = sid, at_token = tb_tokens tb, at_writer = False\<rparr>"
    "tb_store tb' = (tb_store tb)(sid \<mapsto> m\<lparr>mg_watchers := mg_watchers m @ [tb_tokens tb]\<rparr>)"
    "tb_live tb' = tb_live tb" "tb_tokens tb' = tb_tokens tb + 1" "tb_fired tb' = tb_fired tb"
  using assms
  by (auto simp: watch_def new_token_def live_session_def Let_def split: option.splits if_splits)

lemma holders_watch:
  assumes "holders_ok tb hs" "watch sid tb = (Inr a, tb')"
  shows "holders_ok tb' (insert a hs)"
  using assms(2)
proof (cases rule: watch_cases)
  case (1 m)
  note h = holders_okD [OF assms(1)]
  have fresh: "at_token b \<noteq> tb_tokens tb" if "b \<in> hs" for b using h(4) [OF that] by simp
  have reg: "registered tb' b" if "b \<in> hs" for b
    using h(5) [OF that] 1 by (auto simp: registered_def told_def)
  have registered_a: "registered tb' a" using 1 by (simp add: registered_def)
  show ?thesis
  proof (rule holders_okI)
    show "inj_on at_token (insert a hs)"
      using h(3) fresh 1(3) by (auto simp: inj_on_def) metis+
    show "at_token b < tb_tokens tb'" if "b \<in> insert a hs" for b
      using that h(4) 1 by (auto simp: less_Suc_eq)
    show "registered tb' b" if "b \<in> insert a hs" for b
      using that reg registered_a by auto
    show "at_session b \<in> set (tb_live tb') \<or> told tb' b" if "b \<in> insert a hs" for b
      using that h(6) 1 by (auto simp: told_def)
    show "\<lparr>at_session = s, at_token = wr_token w, at_writer = True\<rparr> \<in> insert a hs"
      if "tb_store tb' s = Some n" "mg_attached n = Some w" for s n w
      using that h(7) 1 by (auto split: if_splits)
    show "\<lparr>at_session = s, at_token = t, at_writer = False\<rparr> \<in> insert a hs"
      if "tb_store tb' s = Some n" "t \<in> set (mg_watchers n)" for s n t
      using that h(8) 1 by (auto split: if_splits)
  qed (use h 1 in auto)
qed

text \<open>A session that leaves the table tells everyone registered with it.\<close>

lemma holders_end:
  assumes "holders_ok tb hs"
  shows "holders_ok (evict_all sid r (tb\<lparr>tb_live := remove1 sid (tb_live tb)\<rparr>)) hs"
proof -
  note h = holders_okD [OF assms]
  let ?tb = "evict_all sid r (tb\<lparr>tb_live := remove1 sid (tb_live tb)\<rparr>)"
  have more: "told tb a \<Longrightarrow> told ?tb a" for a by (simp add: told_def)
  have reg: "registered ?tb a" if "a \<in> hs" for a
    using h(5) [OF that] more [of a] by (auto simp: registered_def)
  have gone: "at_session a \<in> set (tb_live ?tb) \<or> told ?tb a" if "a \<in> hs" for a
  proof (cases "at_session a = sid")
    case True
    then show ?thesis
      using h(5) [OF that] by (auto simp: registered_def told_def attached_tokens_def image_iff)
  next
    case False
    with h(6) [OF that] more [of a] h(1) show ?thesis by auto
  qed
  show ?thesis
  proof (rule holders_okI)
    show "set (tb_live ?tb) \<subseteq> dom (tb_store ?tb)"
      using h(2) set_remove1_subset by fastforce
  qed (use h reg gone in auto)
qed

lemma close_session_table:
  "snd (close_session sid tb) = tb \<or>
   snd (close_session sid tb) = evict_all sid ChildExited (tb\<lparr>tb_live := remove1 sid (tb_live tb)\<rparr>)"
  by (simp add: close_session_def)

lemma holders_drop:
  assumes "holders_ok tb hs" "a \<in> hs"
  shows "holders_ok (drop_guard a tb) (hs - {a})"
proof -
  note h = holders_okD [OF assms(1)]
  have other: "at_token b \<noteq> at_token a" if "b \<in> hs - {a}" for b
    using h(3) that assms(2) by (auto simp: inj_on_def)
  have fields: "tb_live (drop_guard a tb) = tb_live tb" "tb_tokens (drop_guard a tb) = tb_tokens tb"
    "tb_fired (drop_guard a tb) = tb_fired tb" "dom (tb_store (drop_guard a tb)) = dom (tb_store tb)"
    by (auto simp: drop_guard_def split: if_splits)
  have kept: "\<exists>n. tb_store (drop_guard a tb) s = Some n \<and>
      (\<forall>t. t \<noteq> at_token a \<longrightarrow> t \<in> set (mg_watchers m) \<longrightarrow> t \<in> set (mg_watchers n)) \<and>
      (\<forall>t. t \<noteq> at_token a \<longrightarrow> map_option wr_token (mg_attached m) = Some t \<longrightarrow>
         map_option wr_token (mg_attached n) = Some t)"
    if "tb_store tb s = Some m" for s m
    using that by (cases "mg_attached m") (auto simp: drop_guard_def)
  have reg: "registered (drop_guard a tb) b" if b: "b \<in> hs - {a}" for b
  proof -
    obtain m where m: "tb_store tb (at_session b) = Some m"
      "at_writer b \<and> (map_option wr_token (mg_attached m) = Some (at_token b) \<or> told tb b) \<or>
       \<not> at_writer b \<and> at_token b \<in> set (mg_watchers m)"
      using h(5) [of b] b unfolding registered_def by blast
    from kept [OF m(1)] m(2) other [OF b] show ?thesis
      unfolding registered_def told_def fields by blast
  qed
  have before: "\<exists>m. tb_store tb s = Some m" if "tb_store (drop_guard a tb) s = Some n" for s n
    using that fields(4) by blast
  have slot: "\<lparr>at_session = s, at_token = wr_token w, at_writer = True\<rparr> \<in> hs - {a}"
    if n: "tb_store (drop_guard a tb) s = Some n" "mg_attached n = Some w" for s n w
  proof -
    obtain m where m: "tb_store tb s = Some m" using before [OF n(1)] by blast
    then have "mg_attached m = Some w" "at_writer a \<and> s = at_session a \<longrightarrow> wr_token w \<noteq> at_token a"
      using n by (cases "mg_attached m"; auto simp: drop_guard_def split: if_splits)+
    with h(7) [of s m w] m show ?thesis by auto
  qed
  have watched: "\<lparr>at_session = s, at_token = t, at_writer = False\<rparr> \<in> hs - {a}"
    if n: "tb_store (drop_guard a tb) s = Some n" "t \<in> set (mg_watchers n)" for s n t
  proof -
    obtain m where m: "tb_store tb s = Some m" using before [OF n(1)] by blast
    then have "t \<in> set (mg_watchers m)" "\<not> at_writer a \<and> s = at_session a \<longrightarrow> t \<noteq> at_token a"
      using n by (cases "mg_attached m"; auto simp: drop_guard_def split: if_splits)+
    with h(8) [of s m t] m show ?thesis by auto
  qed
  show ?thesis
    by (rule holders_okI) (use h fields reg slot watched in \<open>auto simp: told_def inj_on_diff\<close>)
qed

lemma holders_hold:
  assumes "holders_ok tb hs"
  shows "holders_ok (hold_as a holder attempt tb) hs"
proof -
  note h = holders_okD [OF assms]
  let ?tb = "hold_as a holder attempt tb"
  have fields: "tb_live ?tb = tb_live tb" "tb_tokens ?tb = tb_tokens tb"
    "tb_fired ?tb = tb_fired tb" "dom (tb_store ?tb) = dom (tb_store tb)"
    by (auto simp: hold_as_def split: if_splits)
  have same: "\<exists>m. tb_store tb s = Some m \<and> mg_watchers n = mg_watchers m \<and>
      map_option wr_token (mg_attached n) = map_option wr_token (mg_attached m)"
    if "tb_store ?tb s = Some n" for s n
    using that by (auto simp: hold_as_def split: if_splits option.splits)
  have kept: "\<exists>n. tb_store ?tb s = Some n \<and> mg_watchers n = mg_watchers m \<and>
      map_option wr_token (mg_attached n) = map_option wr_token (mg_attached m)"
    if "tb_store tb s = Some m" for s m
    using that by (cases "mg_attached m") (auto simp: hold_as_def)
  have reg: "registered ?tb b" if "b \<in> hs" for b
    using h(5) [OF that] kept [of "at_session b"] fields(3) by (auto simp: registered_def told_def)
  have slot: "\<lparr>at_session = s, at_token = wr_token w, at_writer = True\<rparr> \<in> hs"
    if n: "tb_store ?tb s = Some n" "mg_attached n = Some w" for s n w
  proof -
    obtain m v where "tb_store tb s = Some m" "mg_attached m = Some v" "wr_token v = wr_token w"
      using same [OF n(1)] n(2) by (auto simp: eq_commute [of "Some _" "map_option _ _"])
    with h(7) [of s m v] show ?thesis by simp
  qed
  have watched: "\<lparr>at_session = s, at_token = t, at_writer = False\<rparr> \<in> hs"
    if "tb_store ?tb s = Some n" "t \<in> set (mg_watchers n)" for s n t
    using same [OF that(1)] that(2) h(8) by auto
  show ?thesis
    by (rule holders_okI) (use h fields reg slot watched in \<open>auto simp: told_def\<close>)
qed

lemma refused_table:
  "attach_as sid takeover holder attempt tb = (Inl e, tb') \<Longrightarrow> tb' = tb\<lparr>tb_tokens := tb_tokens tb + 1\<rparr>"
  "watch sid tb = (Inl e, tb') \<Longrightarrow> tb' = tb\<lparr>tb_tokens := tb_tokens tb + 1\<rparr>"
  by (auto simp: attach_as_def watch_def new_token_def Let_def split: option.splits if_splits)

section \<open>One console per window record\<close>

definition servers :: "table \<Rightarrow> string \<Rightarrow> session_id set" where
  "servers tb r = {sid \<in> set (tb_live tb). serves r tb sid}"

text \<open>
  What the claims rest on: a launch holds one record at most; a launch that found no session knows that
  there is none; one that found a session knows there is no other.
\<close>

definition records_ok :: "(string \<Rightarrow> session_id set) \<Rightarrow> (string \<rightharpoonup> launch) \<Rightarrow> (launch \<rightharpoonup> session_id)
    \<Rightarrow> launch set \<Rightarrow> bool" where
  "records_ok S gates found cleared \<longleftrightarrow>
     (\<forall>r r' l. gates r = Some l \<longrightarrow> gates r' = Some l \<longrightarrow> r = r') \<and>
     (\<forall>r l. gates r = Some l \<longrightarrow> l \<in> cleared \<longrightarrow> S r = {}) \<and>
     (\<forall>r l sid. gates r = Some l \<longrightarrow> found l = Some sid \<longrightarrow> S r \<subseteq> {sid}) \<and>
     (\<forall>r x y. x \<in> S r \<longrightarrow> y \<in> S r \<longrightarrow> x = y) \<and>
     cleared \<subseteq> ran gates \<and> dom found \<subseteq> ran gates"

lemma records_okD:
  assumes "records_ok S gates found cleared"
  shows "\<And>r r' l. gates r = Some l \<Longrightarrow> gates r' = Some l \<Longrightarrow> r = r'"
    "\<And>r l. gates r = Some l \<Longrightarrow> l \<in> cleared \<Longrightarrow> S r = {}"
    "\<And>r l sid x. gates r = Some l \<Longrightarrow> found l = Some sid \<Longrightarrow> x \<in> S r \<Longrightarrow> x = sid"
    "\<And>r x y. x \<in> S r \<Longrightarrow> y \<in> S r \<Longrightarrow> x = y"
    "\<And>l. l \<in> cleared \<Longrightarrow> l \<in> ran gates" "\<And>l sid. found l = Some sid \<Longrightarrow> l \<in> ran gates"
  using assms unfolding records_ok_def by blast+

lemma records_okI:
  assumes "\<And>r r' l. gates r = Some l \<Longrightarrow> gates r' = Some l \<Longrightarrow> r = r'"
    "\<And>r l. gates r = Some l \<Longrightarrow> l \<in> cleared \<Longrightarrow> S r = {}"
    "\<And>r l sid x. gates r = Some l \<Longrightarrow> found l = Some sid \<Longrightarrow> x \<in> S r \<Longrightarrow> x = sid"
    "\<And>r x y. x \<in> S r \<Longrightarrow> y \<in> S r \<Longrightarrow> x = y"
    "\<And>l. l \<in> cleared \<Longrightarrow> l \<in> ran gates" "\<And>l sid. found l = Some sid \<Longrightarrow> l \<in> ran gates"
  shows "records_ok S gates found cleared"
  using assms unfolding records_ok_def by blast

lemma records_ok_shrink:
  assumes "records_ok S gates found cleared" "\<And>r. T r \<subseteq> S r"
  shows "records_ok T gates found cleared"
  using assms unfolding records_ok_def by (intro conjI) (blast+)

lemma records_ok_started:
  assumes "records_ok S gates found cleared" "gates r = Some l" "l \<in> cleared"
  shows "records_ok (S(r := {sid})) gates (found(l := None)) (cleared - {l})"
proof (rule records_okI)
  note h = records_okD [OF assms(1)]
  show "(S(r := {sid})) r' = {}" if "gates r' = Some l'" "l' \<in> cleared - {l}" for r' l'
    using that h(2) [of r' l'] assms(2) by auto
  show "x = s" if "gates r' = Some l'" "(found(l := None)) l' = Some s" "x \<in> (S(r := {sid})) r'" for r' l' s x
    using that h(3) [of r' l' s x] assms(2) by (auto split: if_splits)
  show "x = y" if "x \<in> (S(r := {sid})) r'" "y \<in> (S(r := {sid})) r'" for r' x y
    using that h(4) [of x r' y] by (auto split: if_splits)
qed (use records_okD(1,5,6) [OF assms(1)] in \<open>(simp split: if_splits; blast)+\<close>)

lemma ran_update:
  assumes "x \<in> ran m" "m k \<noteq> Some x"
  shows "x \<in> ran (m(k := v))"
proof -
  obtain j where "m j = Some x" using assms(1) unfolding ran_def by blast
  with assms(2) have "(m(k := v)) j = Some x" by (cases "j = k") simp_all
  then show ?thesis by (rule ranI)
qed

lemma records_ok_claim:
  assumes "records_ok S gates found cleared" "gates r = None" "l \<notin> ran gates"
  shows "records_ok S (gates(r \<mapsto> l)) found cleared"
proof (rule records_okI)
  note h = records_okD [OF assms(1)]
  have fresh: "l \<notin> cleared" "found l \<noteq> Some sid" "gates r' \<noteq> Some l" for sid r'
    using h(5) [of l] h(6) [of l sid] assms(3) ranI [of gates r' l] by blast+
  show "r1 = r2" if "(gates(r \<mapsto> l)) r1 = Some l'" "(gates(r \<mapsto> l)) r2 = Some l'" for r1 r2 l'
    using that h(1) [of r1 l' r2] fresh(3) by (auto split: if_splits)
  show "S r' = {}" if "(gates(r \<mapsto> l)) r' = Some l'" "l' \<in> cleared" for r' l'
    using that h(2) [of r' l'] fresh(1) by (auto split: if_splits)
  show "x = s" if "(gates(r \<mapsto> l)) r' = Some l'" "found l' = Some s" "x \<in> S r'" for r' l' s x
    using that h(3) [of r' l' s x] fresh(2) by (auto split: if_splits)
  have kept: "x \<in> ran gates \<Longrightarrow> x \<in> ran (gates(r \<mapsto> l))" for x
    using assms(2) by (intro ran_update) auto
  show "x \<in> cleared \<Longrightarrow> x \<in> ran (gates(r \<mapsto> l))" for x by (rule kept) (rule h(5))
  show "found x = Some s \<Longrightarrow> x \<in> ran (gates(r \<mapsto> l))" for x s by (rule kept) (rule h(6))
qed (rule records_okD(4) [OF assms(1)])

lemma records_ok_found:
  assumes "records_ok S gates found cleared" "gates r = Some l" "sid \<in> S r"
  shows "records_ok S gates (found(l \<mapsto> sid)) cleared"
proof (rule records_okI)
  note h = records_okD [OF assms(1)]
  show "x = s" if x: "gates r' = Some l'" "(found(l \<mapsto> sid)) l' = Some s" "x \<in> S r'" for r' l' s x
  proof (cases "l' = l")
    case True
    then have "r' = r" using h(1) x(1) assms(2) by blast
    then show ?thesis using True x(2,3) h(4) [of x r sid] assms(3) by simp
  next
    case False
    then show ?thesis using h(3) [of r' l' s x] x by simp
  qed
  show "x \<in> ran gates" if "(found(l \<mapsto> sid)) x = Some s" for x s
    using that h(6) [of x s] assms(2) by (auto simp: ran_def split: if_splits)
qed (rule records_okD [OF assms(1)]; assumption)+

lemma records_ok_cleared:
  assumes "records_ok S gates found cleared" "gates r = Some l" "S r = {}"
  shows "records_ok S gates found (insert l cleared)"
proof (rule records_okI)
  note h = records_okD [OF assms(1)]
  show "S r' = {}" if r': "gates r' = Some l'" "l' \<in> insert l cleared" for r' l'
    using h(1) [of r' l r] h(2) [of r' l'] r' assms(2,3) by auto
  show "x \<in> ran gates" if "x \<in> insert l cleared" for x
    using that h(5) [of x] ranI [of gates r l] assms(2) by blast
qed (rule records_okD [OF assms(1)]; assumption)+

lemma records_ok_release:
  assumes "records_ok S gates found cleared" "gates r = Some l"
  shows "records_ok S (gates(r := None)) (found(l := None)) (cleared - {l})"
proof (rule records_okI)
  note h = records_okD [OF assms(1)]
  have others: "gates r' = Some l'" if "(gates(r := None)) r' = Some l'" for r' l'
    using that by (auto split: if_splits)
  have kept: "x \<in> ran gates \<Longrightarrow> x \<noteq> l \<Longrightarrow> x \<in> ran (gates(r := None))" for x
    using assms(2) by (intro ran_update) auto
  show "r1 = r2" if "(gates(r := None)) r1 = Some l'" "(gates(r := None)) r2 = Some l'" for r1 r2 l'
    using that [THEN others] by (rule h(1))
  show "S r' = {}" if "(gates(r := None)) r' = Some l'" "l' \<in> cleared - {l}" for r' l'
    using h(2) [OF others [OF that(1)]] that(2) by blast
  show "x = s" if "(gates(r := None)) r' = Some l'" "(found(l := None)) l' = Some s" "x \<in> S r'"
    for r' l' s x
    using h(3) [OF others [OF that(1)] _ that(3)] that(2) by (auto split: if_splits)
  show "x \<in> ran (gates(r := None))" if "x \<in> cleared - {l}" for x
    using that h(5) [of x] kept [of x] by blast
  show "x \<in> ran (gates(r := None))" if "(found(l := None)) x = Some s" for x s
    using that h(6) [of x s] kept [of x] by (simp split: if_splits)
qed (rule records_okD(4) [OF assms(1)])

lemma insert_domain [simp]:
  "dom (tb_store (insert_session sid info tb)) = insert sid (dom (tb_store tb))"
  by (auto simp: insert_session_def)

lemma servers_insert:
  assumes "holders_ok tb hs" "tb_store tb sid = None"
  shows "servers (insert_session sid info tb) r =
    (if si_record info = Some r then insert sid (servers tb r) else servers tb r)"
proof -
  have "sid \<notin> set (tb_live tb)" using holders_okD(2) [OF assms(1)] assms(2) by auto
  then show ?thesis
    by (auto simp: servers_def serves_def insert_session_def set_insort_key remove1_idem)
qed

lemma servers_updates:
  "attach_as sid takeover holder attempt tb = (Inr a, tb') \<Longrightarrow> servers tb' r = servers tb r"
  "watch sid tb = (Inr a, tb') \<Longrightarrow> servers tb' r = servers tb r"
  by (auto elim!: attach_as_cases watch_cases simp: servers_def serves_def split: option.splits if_splits)

lemma servers_guards:
  "servers (drop_guard a tb) = servers tb" "servers (hold_as a holder attempt tb) = servers tb"
  by (auto simp: fun_eq_iff servers_def serves_def drop_guard_def hold_as_def split: option.splits if_splits)

lemma servers_end: "servers (evict_all sid e (tb\<lparr>tb_live := remove1 sid (tb_live tb)\<rparr>)) r \<subseteq> servers tb r"
  using set_remove1_subset [of sid "tb_live tb"] by (auto simp: servers_def serves_def)

lemma servers_tokens [simp]: "servers (tb\<lparr>tb_tokens := n\<rparr>) = servers tb"
  by (simp add: fun_eq_iff servers_def serves_def)

lemma live_for_servers: "live_for r tb = Some sid \<Longrightarrow> sid \<in> servers tb r"
  "live_for r tb = None \<longleftrightarrow> servers tb r = {}"
  by (auto simp: live_for_def servers_def find_Some_iff find_None_iff)

section \<open>The invariant\<close>

definition config_ok :: "config \<Rightarrow> bool" where
  "config_ok c \<longleftrightarrow>
     holders_ok (cf_table c) (cf_held c) \<and>
     (\<forall>sid \<in> dom (tb_store (cf_table c)) \<union> cf_reserved c. sid \<le> iq_last (cf_ids c)) \<and>
     cf_reserved c \<inter> dom (tb_store (cf_table c)) = {} \<and>
     records_ok (servers (cf_table c)) (cf_gates c) (cf_found c) (cf_cleared c)"

lemma config_ok_start: "config_ok (config_start q)"
  by (simp add: config_ok_def config_start_def holders_start records_ok_def servers_def)
    (simp add: table_new_def)

text \<open>A step that changes the table and the attachments only.\<close>

lemma config_ok_table:
  assumes "config_ok c" "holders_ok tb hs" "dom (tb_store tb) = dom (tb_store (cf_table c))"
    "\<And>r. servers tb r \<subseteq> servers (cf_table c) r"
  shows "config_ok (c\<lparr>cf_table := tb, cf_held := hs\<rparr>)"
  using assms records_ok_shrink [of "servers (cf_table c)"] by (auto simp: config_ok_def)

lemma attach_domain:
  "attach_as sid takeover holder attempt tb = (Inr a, tb') \<Longrightarrow> dom (tb_store tb') = dom (tb_store tb)"
  by (elim attach_as_cases) auto

lemma watch_domain: "watch sid tb = (Inr a, tb') \<Longrightarrow> dom (tb_store tb') = dom (tb_store tb)"
  by (elim watch_cases) auto

lemma guard_domains:
  "dom (tb_store (drop_guard a tb)) = dom (tb_store tb)"
  "dom (tb_store (hold_as a holder attempt tb)) = dom (tb_store tb)"
  by (auto simp: drop_guard_def hold_as_def split: if_splits)

lemma config_ok_step:
  assumes "daemon_step c c'" "config_ok c"
  shows "config_ok c'"
  using assms
proof (induction rule: daemon_step.induct)
  case (step_reserve ok c sid q)
  then have "sid = iq_last (cf_ids c) + 1" "iq_last q = iq_last (cf_ids c) + 1"
    by (auto simp: id_seq_next_def Let_def)
  with step_reserve(2) show ?case by (auto simp: config_ok_def) force+
next
  case (step_insert sid c info)
  then have new: "tb_store (cf_table c) sid = None" by (auto simp: config_ok_def)
  then have S: "servers (insert_session sid info (cf_table c)) = servers (cf_table c)"
    using step_insert by (auto simp: config_ok_def servers_insert fun_eq_iff)
  from step_insert new show ?case
    unfolding config_ok_def by (simp add: holders_insert S) blast
next
  case (step_insert_claimed sid c info r l)
  then have new: "tb_store (cf_table c) sid = None" by (auto simp: config_ok_def)
  then have S: "servers (insert_session sid info (cf_table c)) = (servers (cf_table c))(r := {sid})"
    using step_insert_claimed by (auto simp: config_ok_def servers_insert records_ok_def fun_eq_iff)
  from step_insert_claimed new show ?case
    unfolding config_ok_def by (simp add: holders_insert S records_ok_started) blast
next
  case (step_attach sid takeover holder attempt c a tb)
  then have "holders_ok tb (insert a (cf_held c))"
    by (auto simp: config_ok_def intro: holders_attach)
  with step_attach show ?case
    by (intro config_ok_table) (simp_all add: attach_domain servers_updates)
next
  case (step_watch sid c a tb)
  then have "holders_ok tb (insert a (cf_held c))"
    by (auto simp: config_ok_def intro: holders_watch)
  with step_watch show ?case
    by (intro config_ok_table) (simp_all add: watch_domain servers_updates)
next
  case (step_drop a c)
  then show ?case
    by (intro config_ok_table) (simp_all add: config_ok_def [of c] servers_guards guard_domains holders_drop)
next
  case (step_claim c r l)
  then show ?case by (simp add: config_ok_def records_ok_claim)
next
  case (step_found c r l sid)
  then show ?case by (auto simp: config_ok_def intro: records_ok_found dest: live_for_servers(1))
next
  case (step_none c r l)
  then show ?case by (auto simp: config_ok_def live_for_servers(2) intro: records_ok_cleared)
next
  case (step_gone c r l sid)
  then have "sid \<notin> set (tb_live (cf_table c))"
    using holders_okD(2) by (fastforce simp: config_ok_def live_session_def split: if_splits)
  then have "sid \<notin> servers (cf_table c) r" by (simp add: servers_def)
  with step_gone have "servers (cf_table c) r = {}"
    by (fastforce simp: config_ok_def dest: records_okD(3))
  with step_gone show ?case by (auto simp: config_ok_def intro: records_ok_cleared)
next
  case (step_release c r l)
  then show ?case by (simp add: config_ok_def records_ok_release)
qed (auto simp: config_ok_def holders_hold servers_guards guard_domains close_session_def retire_def
       holders_end holders_new_token dest!: refused_table intro: records_ok_shrink [OF _ servers_end])

lemma config_ok_reachable: "daemon_reachable q c \<Longrightarrow> config_ok c"
  by (induction rule: daemon_reachable.induct) (auto intro: config_ok_start config_ok_step)


section \<open>What every interleaving keeps\<close>

text \<open>
  C32. In every reachable configuration: an attachment that a client holds on a console that is no
  longer listed has been told why it ended, so no client waits on a dead console; two attachments that
  write to one console and were not told are the same one; and the writer a console's slot names is an
  attachment some client still holds, so no console is locked by a client that is gone.
\<close>

theorem attachments_are_sound:
  assumes "daemon_reachable q c"
  shows "(\<forall>a\<in>cf_held c. at_session a \<notin> set (tb_live (cf_table c)) \<longrightarrow> told (cf_table c) a) \<and>
    (\<forall>a\<in>cf_held c. \<forall>b\<in>cf_held c. at_writer a \<longrightarrow> at_writer b \<longrightarrow> at_session a = at_session b \<longrightarrow>
       \<not> told (cf_table c) a \<longrightarrow> \<not> told (cf_table c) b \<longrightarrow> a = b) \<and>
    (\<forall>sid m w. tb_store (cf_table c) sid = Some m \<longrightarrow> mg_attached m = Some w \<longrightarrow>
       \<lparr>at_session = sid, at_token = wr_token w, at_writer = True\<rparr> \<in> cf_held c)"
proof (intro conjI ballI allI impI)
  have "holders_ok (cf_table c) (cf_held c)"
    using config_ok_reachable [OF assms] by (simp add: config_ok_def)
  note h = holders_okD [OF this]
  show "told (cf_table c) a" if "a \<in> cf_held c" "at_session a \<notin> set (tb_live (cf_table c))" for a
    using h(6) that by blast
  show "a = b"
    if held: "a \<in> cf_held c" "b \<in> cf_held c" and writers: "at_writer a" "at_writer b" "at_session a = at_session b"
      and untold: "\<not> told (cf_table c) a" "\<not> told (cf_table c) b" for a b
  proof -
    have "at_token a = at_token b"
      using h(5) [OF held(1)] h(5) [OF held(2)] writers untold by (auto simp: registered_def)
    then show ?thesis using h(3) held by (auto simp: inj_on_def)
  qed
qed (use holders_okD(7) config_ok_reachable [OF assms] in \<open>auto simp: config_ok_def\<close>)

definition sample_info :: session_info where
  "sample_info = \<lparr>si_repo = ''r'', si_agent = ''a'', si_kind = ''k'',
     si_started_at = 0, si_environment = None, si_name = None, si_checkout = None, si_record = Some ''w''\<rparr>"

text \<open>A launch claims its record, finds no console, starts one and attaches to it.\<close>

lemma sample_daemon:
  obtains c where "daemon_reachable (id_seq_continuing None) c" "tb_live (cf_table c) = [1]"
    "servers (cf_table c) ''w'' = {1}" "cf_held c = {\<lparr>at_session = 1, at_token = 0, at_writer = True\<rparr>}"
proof -
  let ?q = "id_seq_continuing None"
  define c1 where "c1 = (config_start ?q)\<lparr>cf_gates := [''w'' \<mapsto> 0]\<rparr>"
  have "daemon_step (config_start ?q) c1"
    using step_claim [of "config_start ?q" "''w''" 0] by (simp add: c1_def config_start_def)
  then have r1: "daemon_reachable ?q c1" by (rule reach_step [OF reach_start])
  define c2 where "c2 = c1\<lparr>cf_cleared := {0}\<rparr>"
  have "daemon_step c1 c2"
    using step_none [of c1 "''w''" 0] by (simp add: c1_def c2_def config_start_def table_new_def live_for_def)
  with r1 have r2: "daemon_reachable ?q c2" by (rule reach_step)
  define c3 where "c3 = c2\<lparr>cf_ids := snd (id_seq_next True ?q), cf_reserved := {1}\<rparr>"
  have "daemon_step c2 c3"
    using step_reserve [of True c2 1 "snd (id_seq_next True ?q)"]
    by (simp add: c1_def c2_def c3_def config_start_def id_seq_next_def id_seq_continuing_def Let_def)
  with r2 have r3: "daemon_reachable ?q c3" by (rule reach_step)
  define tb where "tb = insert_session 1 sample_info table_new"
  define c4 where "c4 = c3\<lparr>cf_table := tb, cf_reserved := {}, cf_cleared := {}, cf_found := Map.empty\<rparr>"
  have "daemon_step c3 c4"
    using step_insert_claimed [of 1 c3 sample_info "''w''" 0]
    by (simp add: c1_def c2_def c3_def c4_def tb_def config_start_def sample_info_def)
  with r3 have r4: "daemon_reachable ?q c4" by (rule reach_step)
  obtain a tb' where a: "attach_as 1 True None None tb = (Inr a, tb')"
    "a = \<lparr>at_session = 1, at_token = 0, at_writer = True\<rparr>" "tb_live tb' = [1]" "serves ''w'' tb' 1"
    by (simp add: tb_def attach_as_def new_token_def live_session_def insert_session_def table_new_def
        update_session_def serves_def sample_info_def)
  have "daemon_step c4 (c4\<lparr>cf_table := tb', cf_held := insert a (cf_held c4)\<rparr>)"
    using a(1) by (intro step_attach [of 1 True None None]) (simp add: c4_def)
  with r4 have "daemon_reachable ?q (c4\<lparr>cf_table := tb', cf_held := insert a (cf_held c4)\<rparr>)"
    by (rule reach_step)
  then show thesis
    by (rule that) (use a in \<open>auto simp: c1_def c2_def c3_def c4_def config_start_def servers_def\<close>)
qed

theorem attachments_are_sound_witness:
  "\<exists>c. daemon_reachable (id_seq_continuing None) c \<and> cf_held c \<noteq> {} \<and>
    (\<forall>a\<in>cf_held c. at_session a \<notin> set (tb_live (cf_table c)) \<longrightarrow> told (cf_table c) a)"
proof -
  obtain c where c: "daemon_reachable (id_seq_continuing None) c"
    "cf_held c = {\<lparr>at_session = 1, at_token = 0, at_writer = True\<rparr>}"
    by (rule sample_daemon)
  with attachments_are_sound [OF c(1)] show ?thesis by blast
qed

text \<open>
  C33. However launches, closes and exits interleave, at most one live console serves a window record.
\<close>

theorem one_console_per_record:
  assumes "daemon_reachable q c" "x \<in> set (tb_live (cf_table c))" "y \<in> set (tb_live (cf_table c))"
    "serves r (cf_table c) x" "serves r (cf_table c) y"
  shows "x = y"
proof -
  have "records_ok (servers (cf_table c)) (cf_gates c) (cf_found c) (cf_cleared c)"
    using config_ok_reachable [OF assms(1)] by (simp add: config_ok_def)
  from records_okD(4) [OF this, of x r y] assms(2-5) show ?thesis by (simp add: servers_def)
qed

theorem one_console_per_record_witness:
  "\<exists>c. daemon_reachable (id_seq_continuing None) c \<and> servers (cf_table c) ''w'' = {1} \<and>
    (\<forall>x y. x \<in> servers (cf_table c) ''w'' \<longrightarrow> y \<in> servers (cf_table c) ''w'' \<longrightarrow> x = y)"
proof -
  obtain c where c: "daemon_reachable (id_seq_continuing None) c" "servers (cf_table c) ''w'' = {1}"
    by (rule sample_daemon)
  have "\<forall>x y. x \<in> servers (cf_table c) ''w'' \<longrightarrow> y \<in> servers (cf_table c) ''w'' \<longrightarrow> x = y"
    by (intro allI impI, rule one_console_per_record [OF c(1), of _ _ "''w''"]) (simp_all add: servers_def)
  with c show ?thesis by blast
qed

definition own_slot :: "string option \<Rightarrow> writer \<Rightarrow> bool" where
  "own_slot holder w \<longleftrightarrow> holder \<noteq> None \<and> wr_holder w = holder"

definition claim_may_take :: "bool \<Rightarrow> string option \<Rightarrow> nat option \<Rightarrow> writer \<Rightarrow> bool" where
  "claim_may_take takeover holder attempt w =
     (takeover \<or> (own_slot holder w \<and>
        (case (attempt, wr_attempt w) of (Some c, Some held) \<Rightarrow> held \<le> c | _ \<Rightarrow> True)))"

lemma live_session_tokens [simp]: "live_session sid (tb\<lparr>tb_tokens := n\<rparr>) = live_session sid tb"
  by (simp add: live_session_def)

text \<open>
  C34. A claim of the writer slot is refused for exactly the three documented reasons, and a refused
  claim evicts nobody and changes no session; a granted claim writes its holder and attempt, and takes
  the slot from another writer only as a take over, or as the same holder with no lower attempt.
\<close>

theorem claim_outcomes:
  "let slot = Option.bind (live_session sid tb) mg_attached in
   case attach_as sid takeover holder attempt tb of
     (Inl e, tb') \<Rightarrow>
       tb_store tb' = tb_store tb \<and> tb_live tb' = tb_live tb \<and> tb_fired tb' = tb_fired tb \<and>
       (case e of
          Unknown \<Rightarrow> live_session sid tb = None
        | Busy \<Rightarrow> \<exists>w. slot = Some w \<and> \<not> takeover \<and> \<not> own_slot holder w
        | Superseded \<Rightarrow> \<exists>w c held. slot = Some w \<and> \<not> takeover \<and> own_slot holder w \<and>
            attempt = Some c \<and> wr_attempt w = Some held \<and> c < held)
   | (Inr a, tb') \<Rightarrow>
       at_session a = sid \<and> at_writer a \<and>
       Option.bind (live_session sid tb') mg_attached =
         Some \<lparr>wr_token = at_token a, wr_holder = holder, wr_attempt = attempt\<rparr> \<and>
       (case slot of
          None \<Rightarrow> tb_fired tb' = tb_fired tb
        | Some w \<Rightarrow> claim_may_take takeover holder attempt w \<and>
            tb_fired tb' = (tb_fired tb)(wr_token w \<mapsto> TakenOver))"
proof (cases "live_session sid tb")
  case None
  then show ?thesis by (simp add: attach_as_def new_token_def Let_def)
next
  case (Some m)
  then have m: "sid \<in> set (tb_live tb)" "tb_store tb sid = Some m"
    by (auto simp: live_session_def split: if_splits)
  show ?thesis
  proof (cases "mg_attached m")
    case None
    with m show ?thesis by (simp add: attach_as_def new_token_def live_session_def Let_def)
  next
    case slot: (Some w)
    show ?thesis
      using m slot
      by (simp add: attach_as_def new_token_def live_session_def superseded_def own_slot_def claim_may_take_def Let_def
          split: option.split) force
  qed
qed

text \<open>A launch that names its record starts a console only when none serves it.\<close>

lemma join_starts_nothing_twice:
  assumes "holders_ok tb hs"
  shows "fst (join_session (Some r) holder attempt tb) = None \<longleftrightarrow> servers tb r = {}"
proof (cases "live_for r tb")
  case None
  with live_for_servers(2) [THEN iffD1, OF None] show ?thesis by (simp add: join_session_def)
next
  case (Some sid)
  then have "sid \<in> servers tb r" by (rule live_for_servers(1))
  then obtain m where m: "sid \<in> set (tb_live tb)" "tb_store tb sid = Some m"
    using holders_okD(2) [OF assms] by (auto simp: servers_def)
  then have "fst (join_session (Some r) holder attempt tb) \<noteq> None"
    by (auto simp: join_session_def Some attach_as_def watch_def new_token_def live_session_def Let_def
        split: option.split)
  with \<open>sid \<in> servers tb r\<close> show ?thesis by auto
qed

section \<open>Ids across restarts\<close>

fun issue_ids :: "nat \<Rightarrow> id_seq \<Rightarrow> session_id list \<times> id_seq" where
  "issue_ids 0 q = ([], q)"
| "issue_ids (Suc k) q =
     (let (sid, q1) = id_seq_next True q; (sids, q2) = issue_ids k q1 in (sid # sids, q2))"

text \<open>The ids of a sequence of daemon lives, each of which continues from the record file.\<close>

fun ids_of_lives :: "nat list \<Rightarrow> string option \<Rightarrow> session_id list" where
  "ids_of_lives [] content = []"
| "ids_of_lives (k # ks) content =
     (let (sids, q) = issue_ids k (id_seq_continuing content) in sids @ ids_of_lives ks (iq_file q))"

lemma issue_ids_result:
  "iq_file q = Some old \<Longrightarrow> issue_ids k q =
     ([Suc (iq_last q)..<Suc (iq_last q + k)],
      \<lparr>iq_last = iq_last q + k, iq_file = Some (if k = 0 then old else show_nat (iq_last q + k))\<rparr>)"
  by (induction k arbitrary: q old) (simp_all add: id_seq_next_def Let_def upt_conv_Cons)

lemma ids_continue:
  "n + sum_list ks < 2 ^ 64 \<Longrightarrow>
   content = Some (show_nat n) \<or> n = 0 \<and> (content = None \<or> content = Some []) \<Longrightarrow>
   ids_of_lives ks content = [Suc n..<Suc (n + sum_list ks)]"
proof (induction ks arbitrary: n content)
  case (Cons k ks)
  have "parse_u64 (trim []) = None" by (simp add: trim_Nil parse_u64_def)
  then obtain old where q: "id_seq_continuing content = \<lparr>iq_last = n, iq_file = Some old\<rparr>"
    "old = show_nat n \<or> n = 0 \<and> old = []"
    using Cons.prems by (auto simp: id_seq_continuing_def)
  let ?new = "Some (if k = 0 then old else show_nat (n + k))"
  have "ids_of_lives (k # ks) content = [Suc n..<Suc n + k] @ ids_of_lives ks ?new"
    using q(1) by (simp add: issue_ids_result del: upt_Suc)
  also have "ids_of_lives ks ?new = [Suc n + k..<Suc n + k + sum_list ks]"
    using Cons.prems(1) q(2) Cons.IH [of "n + k" ?new] by (auto simp del: upt_Suc)
  also have "[Suc n..<Suc n + k] @ [Suc n + k..<Suc n + k + sum_list ks] = [Suc n..<Suc n + (k + sum_list ks)]"
    using upt_add_eq_append [of "Suc n" "Suc n + k" "sum_list ks"] by (simp add: add.assoc del: upt_Suc)
  finally show ?case by (simp del: upt_Suc)
qed simp

text \<open>
  Ids are never issued twice: the lives of a daemon that start from no record issue 1, 2, 3, and so
  on, whatever the number of ids each life issues.
\<close>

theorem ids_never_repeat:
  assumes "sum_list ks < 2 ^ 64"
  shows "ids_of_lives ks None = [1..<Suc (sum_list ks)]"
  using ids_continue [of 0 ks None] assms by simp

theorem ids_never_repeat_witness: "ids_of_lives [2, 0, 1] None = [1, 2, 3]"
  by (subst ids_never_repeat) (simp_all add: upt_conv_Cons)

end
