(* ===== verification/Auth_Cookie.thy ===== *)
theory Auth_Cookie
  imports Blocked
begin

text \<open>
  The browser session cookie of the daemon (\<^verbatim>\<open>ralphy-daemon/src/cookie.rs\<close>): login ids in base64url, the
  signed value, its lifetimes and the headers that carry it.  HMAC-SHA1 (the crates \<^verbatim>\<open>hmac\<close> and \<^verbatim>\<open>sha1\<close>) is
  the parameter \<open>hmac\<close>, from a key and a message to the bytes of the digest; the unix times and the
  epoch are the \<^verbatim>\<open>u64\<close> of the code as numbers.
\<close>

unbundle bit_operations_syntax

type_synonym byte = "8 word"
type_synonym hmac_sha1 = "byte list \<Rightarrow> byte list \<Rightarrow> byte list"

definition COOKIE_NAME :: string where "COOKIE_NAME = ''ralphy_session''"

definition SESSION_ABSOLUTE_TTL_SECS :: nat where "SESSION_ABSOLUTE_TTL_SECS = 12 * 3600"
definition SESSION_IDLE_TTL_SECS :: nat where "SESSION_IDLE_TTL_SECS = 30 * 60"
definition SLIDE_MIN_SECS :: nat where "SLIDE_MIN_SECS = 60"
definition REMEMBERED_ABSOLUTE_TTL_SECS :: nat where "REMEMBERED_ABSOLUTE_TTL_SECS = 30 * 86400"
definition REMEMBERED_IDLE_TTL_SECS :: nat where "REMEMBERED_IDLE_TTL_SECS = 7 * 86400"
definition REMEMBERED_SLIDE_MIN_SECS :: nat where "REMEMBERED_SLIDE_MIN_SECS = 3600"

datatype session_kind = Standard | Remembered

fun idle_secs :: "session_kind \<Rightarrow> nat" where
  "idle_secs Standard = SESSION_IDLE_TTL_SECS"
| "idle_secs Remembered = REMEMBERED_IDLE_TTL_SECS"

fun absolute_secs :: "session_kind \<Rightarrow> nat" where
  "absolute_secs Standard = SESSION_ABSOLUTE_TTL_SECS"
| "absolute_secs Remembered = REMEMBERED_ABSOLUTE_TTL_SECS"

fun slide_min_secs :: "session_kind \<Rightarrow> nat" where
  "slide_min_secs Standard = SLIDE_MIN_SECS"
| "slide_min_secs Remembered = REMEMBERED_SLIDE_MIN_SECS"

fun kind_tag :: "session_kind \<Rightarrow> string" where
  "kind_tag Standard = ''s''"
| "kind_tag Remembered = ''r''"

definition kind_from_tag :: "string \<Rightarrow> session_kind option" where
  "kind_from_tag tag =
     (if tag = ''s'' then Some Standard else if tag = ''r'' then Some Remembered else None)"

section \<open>Login ids\<close>

type_synonym login_id = "byte list"

definition LOGIN_ID_LEN :: nat where "LOGIN_ID_LEN = 22"

definition BASE64URL :: string where
  "BASE64URL = ''ABCDEFGHIJKLMNOPQRSTUVWXYZabcdefghijklmnopqrstuvwxyz0123456789-_''"

text \<open>The inner loop of \<^verbatim>\<open>to_base64url\<close>: the characters of the whole sextets of the accumulator.\<close>

function take_sextets :: "string \<Rightarrow> u32 \<Rightarrow> nat \<Rightarrow> string \<times> nat" where
  "take_sextets acc_out acc bits =
     (if bits \<ge> 6 then
        take_sextets (acc_out @ [BASE64URL ! unat (drop_bit (bits - 6) acc AND 63)]) acc (bits - 6)
      else (acc_out, bits))"
  by pat_completeness auto
termination by (relation "measure (\<lambda>(_, _, bits). bits)") auto

declare take_sextets.simps [simp del]

fun to_base64url_from :: "string \<Rightarrow> u32 \<Rightarrow> nat \<Rightarrow> byte list \<Rightarrow> string" where
  "to_base64url_from acc_out acc bits [] =
     (if bits > 0 then acc_out @ [BASE64URL ! unat (push_bit (6 - bits) acc AND 63)] else acc_out)"
| "to_base64url_from acc_out acc bits (b # bs) =
     (let acc' = (push_bit 8 acc OR ucast b) AND 0xffff;
          (out', bits') = take_sextets acc_out acc' (bits + 8)
      in to_base64url_from out' acc' bits' bs)"

definition to_base64url :: "byte list \<Rightarrow> string" where
  "to_base64url bytes = to_base64url_from [] 0 0 bytes"

fun position :: "char \<Rightarrow> string \<Rightarrow> nat option" where
  "position c [] = None"
| "position c (a # as) = (if a = c then Some 0 else map_option Suc (position c as))"

fun from_base64url_from :: "byte list \<Rightarrow> u32 \<Rightarrow> nat \<Rightarrow> string \<Rightarrow> byte list option" where
  "from_base64url_from acc_out acc bits [] = (if length acc_out = 16 then Some acc_out else None)"
| "from_base64url_from acc_out acc bits (c # cs) =
     (case position c BASE64URL of
        None \<Rightarrow> None
      | Some v \<Rightarrow>
          let acc' = (push_bit 6 acc OR of_nat v) AND 0xfff;
              bits' = bits + 6
          in if bits' \<ge> 8 then
               if length acc_out < 16
               then from_base64url_from (acc_out @ [ucast (drop_bit (bits' - 8) acc')]) acc' (bits' - 8) cs
               else None
             else from_base64url_from acc_out acc' bits' cs)"

definition from_base64url :: "string \<Rightarrow> byte list option" where
  "from_base64url txt = from_base64url_from [] 0 0 txt"

definition login_parse :: "string \<Rightarrow> login_id option" where
  "login_parse txt =
     (if length txt \<noteq> LOGIN_ID_LEN then None
      else Option.bind (from_base64url txt)
        (\<lambda>login. if to_base64url login = txt then Some login else None))"

section \<open>The signed value\<close>

record claims =
  cl_iat :: nat
  cl_exp :: nat
  cl_kind :: session_kind
  cl_login :: login_id

definition slide_exp :: "session_kind \<Rightarrow> nat \<Rightarrow> nat \<Rightarrow> nat" where
  "slide_exp kind iat now = min (now + idle_secs kind) (iat + absolute_secs kind)"

definition bytes_of :: "string \<Rightarrow> byte list" where
  "bytes_of s = map of_char s"

definition hex_digit :: "nat \<Rightarrow> char" where
  "hex_digit d = char_of (if d < 10 then 48 + d else 87 + d)"

definition hex_of :: "byte list \<Rightarrow> string" where
  "hex_of bs = concat (map (\<lambda>b. [hex_digit (unat b div 16), hex_digit (unat b mod 16)]) bs)"

definition mac_text :: "nat \<Rightarrow> claims \<Rightarrow> string" where
  "mac_text epoch c =
     ''4|'' @ show_nat epoch @ ''|'' @ show_nat (cl_iat c) @ ''|'' @ show_nat (cl_exp c) @ ''|'' @
     kind_tag (cl_kind c) @ ''|'' @ to_base64url (cl_login c)"

definition mac_hex :: "hmac_sha1 \<Rightarrow> string \<Rightarrow> nat \<Rightarrow> claims \<Rightarrow> string" where
  "mac_hex hmac token epoch c = hex_of (hmac (bytes_of token) (bytes_of (mac_text epoch c)))"

definition sign :: "hmac_sha1 \<Rightarrow> string \<Rightarrow> nat \<Rightarrow> session_kind \<Rightarrow> nat \<Rightarrow> nat \<Rightarrow> login_id \<Rightarrow> string" where
  "sign hmac token epoch kind iat expiry login =
     (let c = \<lparr>cl_iat = iat, cl_exp = expiry, cl_kind = kind, cl_login = login\<rparr>
      in ''4.'' @ show_nat epoch @ ''.'' @ show_nat iat @ ''.'' @ show_nat expiry @ ''.'' @ kind_tag kind @
         ''.'' @ to_base64url login @ ''.'' @ mac_hex hmac token epoch c)"

text \<open>Rust's \<^verbatim>\<open>splitn\<close> on a character: at most \<open>n\<close> pieces, the last one with the rest.\<close>

fun splitn :: "nat \<Rightarrow> char \<Rightarrow> string \<Rightarrow> string \<Rightarrow> string list" where
  "splitn 0 sep cur s = []"
| "splitn (Suc 0) sep cur s = [cur @ s]"
| "splitn (Suc (Suc n)) sep cur [] = [cur]"
| "splitn (Suc (Suc n)) sep cur (c # cs) =
     (if c = sep then cur # splitn (Suc n) sep [] cs else splitn (Suc (Suc n)) sep (cur @ [c]) cs)"

definition parse_value :: "string \<Rightarrow> (nat \<times> claims \<times> string) option" where
  "parse_value value =
     (case splitn 7 (CHR ''.'') [] value of
        [version, epoch, iat, expiry, kind, login, mac] \<Rightarrow>
          if version = ''4'' then
            do {
              iat \<leftarrow> parse_u64 iat;
              expiry \<leftarrow> parse_u64 expiry;
              kind \<leftarrow> kind_from_tag kind;
              login \<leftarrow> login_parse login;
              epoch \<leftarrow> parse_u64 epoch;
              Some (epoch, \<lparr>cl_iat = iat, cl_exp = expiry, cl_kind = kind, cl_login = login\<rparr>, mac)
            }
          else None
      | _ \<Rightarrow> None)"

text \<open>The value of \<^verbatim>\<open>ct_eq\<close>; that its time does not depend on the bytes is outside the model.\<close>

definition ct_eq :: "byte list \<Rightarrow> byte list \<Rightarrow> bool" where
  "ct_eq a b \<longleftrightarrow> length a = length b \<and> list_all2 (=) a b"

definition verify_claims :: "hmac_sha1 \<Rightarrow> string \<Rightarrow> nat \<Rightarrow> string \<Rightarrow> nat \<Rightarrow> claims option" where
  "verify_claims hmac token epoch value now =
     (case parse_value value of
        None \<Rightarrow> None
      | Some (cookie_epoch, c, mac) \<Rightarrow>
          if cookie_epoch \<noteq> epoch \<or> cl_exp c \<le> now then None
          else if ct_eq (bytes_of mac) (bytes_of (mac_hex hmac token epoch c)) then Some c else None)"

definition verify_cookie :: "hmac_sha1 \<Rightarrow> string \<Rightarrow> nat \<Rightarrow> string \<Rightarrow> nat \<Rightarrow> bool" where
  "verify_cookie hmac token epoch value now = (verify_claims hmac token epoch value now \<noteq> None)"

section \<open>Headers\<close>

definition secure_attr :: "bool \<Rightarrow> string" where
  "secure_attr secure = (if secure then ''; Secure'' else [])"

definition set_cookie_value_with :: "string \<Rightarrow> session_kind \<Rightarrow> bool \<Rightarrow> string" where
  "set_cookie_value_with cookie kind secure =
     COOKIE_NAME @ ''='' @ cookie @ ''; HttpOnly; SameSite=Strict; Path=/; Max-Age='' @
     show_nat (idle_secs kind) @ secure_attr secure"

definition clear_cookie_value_with :: "bool \<Rightarrow> string" where
  "clear_cookie_value_with secure =
     COOKIE_NAME @ ''=; HttpOnly; SameSite=Strict; Path=/; Max-Age=0'' @ secure_attr secure"

definition strip_prefix :: "string \<Rightarrow> string \<Rightarrow> string option" where
  "strip_prefix p s = (if prefix p s then Some (drop (length p) s) else None)"

fun split_char :: "char \<Rightarrow> string \<Rightarrow> string \<Rightarrow> string list" where
  "split_char sep cur [] = [cur]"
| "split_char sep cur (c # cs) =
     (if c = sep then cur # split_char sep [] cs else split_char sep (cur @ [c]) cs)"

fun find_map :: "('a \<Rightarrow> 'b option) \<Rightarrow> 'a list \<Rightarrow> 'b option" where
  "find_map f [] = None"
| "find_map f (x # xs) = (case f x of None \<Rightarrow> find_map f xs | Some y \<Rightarrow> Some y)"

definition named_value :: "string option \<Rightarrow> string \<Rightarrow> string option" where
  "named_value header name =
     Option.bind header (\<lambda>h. find_map
       (\<lambda>pair. Option.bind (strip_prefix name (trim pair)) (strip_prefix ''=''))
       (split_char (CHR '';'') [] h))"

definition from_cookie_header :: "string option \<Rightarrow> string option" where
  "from_cookie_header header = named_value header COOKIE_NAME"

end
