(* ===== verification/Auth_Login.thy ===== *)
theory Auth_Login
  imports Auth_Cookie
begin

text \<open>
  The daemon's login (\<^verbatim>\<open>ralphy-daemon/src/auth.rs\<close> with \<^verbatim>\<open>auth/\<close>, \<^verbatim>\<open>totp.rs\<close>, \<^verbatim>\<open>password.rs\<close>,
  \<^verbatim>\<open>routes/api_security/\<close> and \<^verbatim>\<open>routes/guard.rs\<close>): the policy of a bind, the one-time codes and their
  anti-replay, the throttle, the revoked logins, and the guard every request passes.

  HMAC-SHA1 and PBKDF2 are the parameters of \<open>crypto\<close>.  The store files are fields of the state; the
  reads that decide about a code or rebuild the policy, and the writes of the marker and the revoked list,
  can fail, each by a flag of the step.  An instant is a number of nanoseconds.  Whether a request is
  cross-site (\<^verbatim>\<open>auth/host.rs\<close>) is an argument of the guard.

  A request is one step here: requests are handled one after another.  The daemon holds no lock from the
  check of the throttle and the read of the marker to their update, so what is proved of sequences of
  requests is proved of requests that do not overlap; \<open>login_reads\<close> and \<open>login_finish\<close> are the two halves
  of a login for what overlapping ones can do.
\<close>

record crypto =
  cr_hmac :: hmac_sha1
  cr_pbkdf2 :: "byte list \<Rightarrow> byte list \<Rightarrow> nat \<Rightarrow> byte list"

section \<open>One-time codes\<close>

definition PERIOD :: nat where "PERIOD = 30"

type_synonym seed = "byte list"

definition to_be_bytes :: "u64 \<Rightarrow> byte list" where
  "to_be_bytes w = map (\<lambda>i. ucast (drop_bit (56 - 8 * i) w)) [0..<8]"

definition six_digits :: "nat \<Rightarrow> string" where
  "six_digits n = (let s = show_nat n in replicate (6 - length s) (CHR ''0'') @ s)"

definition code_at :: "crypto \<Rightarrow> seed \<Rightarrow> u64 \<Rightarrow> string" where
  "code_at kr seed counter =
     (let hs = cr_hmac kr seed (to_be_bytes counter);
          offset = unat (hs ! (length hs - 1) AND 0x0f);
          bin = push_bit 24 (ucast (hs ! offset) AND 0x7f) OR push_bit 16 (ucast (hs ! (offset + 1))) OR
            push_bit 8 (ucast (hs ! (offset + 2))) OR (ucast (hs ! (offset + 3)) :: u32)
      in six_digits (unat (bin mod 1000000)))"

definition matched_step :: "crypto \<Rightarrow> seed \<Rightarrow> string \<Rightarrow> nat \<Rightarrow> int \<Rightarrow> nat option" where
  "matched_step kr seed code unix_secs skew_steps =
     (let counter = int (unix_secs div PERIOD)
      in find_map (\<lambda>s.
           let c = counter + s
           in if c < 0 then None
              else if ct_eq (bytes_of (code_at kr seed (of_int c))) (bytes_of code) then Some (nat c)
              else None) [- skew_steps..skew_steps])"

section \<open>The password\<close>

record password_hash =
  pw_salt :: "byte list"
  pw_iterations :: nat
  pw_dk :: "byte list"

definition password_verify :: "crypto \<Rightarrow> password_hash \<Rightarrow> string \<Rightarrow> bool" where
  "password_verify kr h pw = ct_eq (cr_pbkdf2 kr (bytes_of pw) (pw_salt h) (pw_iterations h)) (pw_dk h)"

section \<open>Revoked logins\<close>

record revoked_entry =
  rv_login :: login_id
  rv_cap :: nat

text \<open>A line of the file, as \<^verbatim>\<open>serde_json\<close> reads and writes it.\<close>

record revoked_line =
  ln_login :: string
  ln_cap :: nat

definition revoked_contains :: "revoked_entry list \<Rightarrow> login_id \<Rightarrow> bool" where
  "revoked_contains es login = list_ex (\<lambda>e. rv_login e = login) es"

definition parse_line :: "revoked_line \<Rightarrow> revoked_entry option" where
  "parse_line l = map_option (\<lambda>login. \<lparr>rv_login = login, rv_cap = ln_cap l\<rparr>) (login_parse (ln_login l))"

definition revoked_load :: "revoked_line list \<Rightarrow> nat \<Rightarrow> revoked_entry list" where
  "revoked_load file now = filter (\<lambda>e. rv_cap e > now) (List.map_filter parse_line file)"

fun raise_cap :: "login_id \<Rightarrow> nat \<Rightarrow> revoked_entry list \<Rightarrow> revoked_entry list" where
  "raise_cap login cap [] = [\<lparr>rv_login = login, rv_cap = cap\<rparr>]"
| "raise_cap login cap (e # es) =
     (if rv_login e = login then e\<lparr>rv_cap := max (rv_cap e) cap\<rparr> # es else e # raise_cap login cap es)"

definition revoked_add :: "revoked_entry list \<Rightarrow> login_id \<Rightarrow> nat \<Rightarrow> nat \<Rightarrow> revoked_entry list" where
  "revoked_add es login cap now = raise_cap login cap (filter (\<lambda>e. rv_cap e > now) es)"

definition revoked_write :: "revoked_entry list \<Rightarrow> revoked_line list" where
  "revoked_write es = map (\<lambda>e. \<lparr>ln_login = to_base64url (rv_login e), ln_cap = rv_cap e\<rparr>) es"

section \<open>The throttle\<close>

record throttle =
  th_failures :: nat
  th_locked_until :: "nat option"

definition LOCKOUT_THRESHOLD :: nat where "LOCKOUT_THRESHOLD = 5"
definition LOCKOUT_BASE_SECS :: nat where "LOCKOUT_BASE_SECS = 5"
definition LOCKOUT_MAX_SECS :: nat where "LOCKOUT_MAX_SECS = 300"
definition NANOS :: nat where "NANOS = 1000000000"

definition throttle_new :: throttle where
  "throttle_new = \<lparr>th_failures = 0, th_locked_until = None\<rparr>"

definition throttle_check :: "throttle \<Rightarrow> nat \<Rightarrow> nat + unit" where
  "throttle_check th now =
     (case th_locked_until th of
        Some until \<Rightarrow> if until > now then Inl (max 1 ((until - now) div NANOS)) else Inr ()
      | None \<Rightarrow> Inr ())"

definition lockout_secs :: "nat \<Rightarrow> nat" where
  "lockout_secs failures =
     (let over = failures - LOCKOUT_THRESHOLD
      in min LOCKOUT_MAX_SECS (min (2 ^ 64 - 1) (LOCKOUT_BASE_SECS * 2 ^ min over 6)))"

definition record_failure :: "nat \<Rightarrow> throttle \<Rightarrow> throttle" where
  "record_failure now th =
     (let failures = min (2 ^ 32 - 1) (th_failures th + 1)
      in if failures \<ge> LOCKOUT_THRESHOLD
         then \<lparr>th_failures = failures, th_locked_until = Some (now + lockout_secs failures * NANOS)\<rparr>
         else th\<lparr>th_failures := failures\<rparr>)"

definition throttle_reset :: "throttle \<Rightarrow> throttle" where
  "throttle_reset th = th\<lparr>th_failures := 0, th_locked_until := None\<rparr>"

section \<open>The policy of a bind\<close>

datatype ip_addr = V4 byte byte byte byte | V6 "16 word list"

fun is_loopback :: "ip_addr \<Rightarrow> bool" where
  "is_loopback (V4 a _ _ _) = (a = 127)"
| "is_loopback (V6 segments) = (segments = [0, 0, 0, 0, 0, 0, 0, 1])"

text \<open>\<^verbatim>\<open>SessionAuth\<close>, less the epoch and the revoked list it shares with the state.\<close>

record session_auth =
  sa_token :: string
  sa_totp :: seed
  sa_password :: "password_hash option"

datatype auth_policy = Localhost | Bearer string | Session session_auth

datatype bind_error = BindNeedsToken | LoopbackNeedsToken

text \<open>The reads of \<^verbatim>\<open>rebuild\<close>: the token, the seed and the password, the revoked list, the require-token flag.\<close>

datatype rebuild_reads = AllRead | FailBeforeRevoked | FailAfterRevoked

datatype rebuild_error = StoreUnreadable | PolicyRefused bind_error

definition nonempty :: "string option \<Rightarrow> string option" where
  "nonempty token = Option.bind token (\<lambda>t. if t \<noteq> [] then Some t else None)"

definition for_bind :: "ip_addr \<Rightarrow> string option \<Rightarrow> bind_error + auth_policy" where
  "for_bind ip token =
     (if is_loopback ip then Inr Localhost
      else case nonempty token of Some t \<Rightarrow> Inr (Bearer t) | None \<Rightarrow> Inl BindNeedsToken)"

definition policy_name :: "auth_policy \<Rightarrow> string" where
  "policy_name p = (case p of Localhost \<Rightarrow> ''localhost'' | Bearer _ \<Rightarrow> ''bearer'' | Session _ \<Rightarrow> ''session'')"

definition bearer_matches :: "string option \<Rightarrow> string \<Rightarrow> bool" where
  "bearer_matches header expected =
     (case Option.bind header (strip_prefix ''Bearer '') of
        Some got \<Rightarrow> ct_eq (bytes_of got) (bytes_of expected)
      | None \<Rightarrow> False)"

fun authorizes :: "auth_policy \<Rightarrow> string option \<Rightarrow> bool" where
  "authorizes Localhost header = True"
| "authorizes (Bearer expected) header = bearer_matches header expected"
| "authorizes (Session s) header = bearer_matches header (sa_token s)"

definition upgrade_with :: "auth_policy \<Rightarrow> string option \<Rightarrow> seed option \<Rightarrow> password_hash option \<Rightarrow> auth_policy" where
  "upgrade_with policy token totp password =
     (case (policy, token, totp) of
        (Bearer _, Some key, Some seed) \<Rightarrow> Session \<lparr>sa_token = key, sa_totp = seed, sa_password = password\<rparr>
      | _ \<Rightarrow> policy)"

record requirements =
  rq_login :: bool
  rq_token :: bool

definition compute_policy_with :: "ip_addr \<Rightarrow> string option \<Rightarrow> seed option \<Rightarrow> password_hash option
    \<Rightarrow> requirements \<Rightarrow> bind_error + auth_policy" where
  "compute_policy_with ip token totp password rq =
     (case for_bind ip token of
        Inl e \<Rightarrow> Inl e
      | Inr Localhost \<Rightarrow>
          if rq_token rq then
            (case nonempty token of
               Some key \<Rightarrow> Inr (upgrade_with (Bearer key) (Some key) totp password)
             | None \<Rightarrow> Inl LoopbackNeedsToken)
          else
            (case (rq_login rq, token, totp) of
               (True, Some key, Some seed) \<Rightarrow>
                 Inr (Session \<lparr>sa_token = key, sa_totp = seed, sa_password = password\<rparr>)
             | _ \<Rightarrow> Inr Localhost)
      | Inr (Bearer t) \<Rightarrow> Inr (upgrade_with (Bearer t) token totp password)
      | Inr (Session s) \<Rightarrow> Inr (Session s))"

section \<open>Logins and sessions\<close>

datatype login_outcome = LoginOk string session_kind nat login_id | BadCredential | Replayed

definition login_checked :: "crypto \<Rightarrow> session_auth \<Rightarrow> nat \<Rightarrow> login_id \<Rightarrow> string \<Rightarrow> string option
    \<Rightarrow> session_kind \<Rightarrow> nat \<Rightarrow> nat option \<Rightarrow> login_outcome" where
  "login_checked kr sa epoch minted code password kind now last_step =
     (case matched_step kr (sa_totp sa) code now 1 of
        None \<Rightarrow> BadCredential
      | Some step \<Rightarrow>
          if (case last_step of Some l \<Rightarrow> step \<le> l | None \<Rightarrow> False) then Replayed
          else if (case sa_password sa of
                     Some h \<Rightarrow> (case password of Some pw \<Rightarrow> \<not> password_verify kr h pw | None \<Rightarrow> True)
                   | None \<Rightarrow> False) then BadCredential
          else LoginOk (sign (cr_hmac kr) (sa_token sa) epoch kind now (slide_exp kind now now) minted)
                 kind step minted)"

text \<open>
  The store files the policy is computed from, and \<^verbatim>\<open>AuthState\<close> with them.  The anti-replay marker and the
  revoked list are files too.
\<close>

record auth_store =
  ds_token :: "string option"
  ds_seed :: "seed option"
  ds_pending :: "seed option"
  ds_password :: "password_hash option"
  ds_require_login :: bool
  ds_require_token :: bool
  ds_remote_images :: bool

record auth_state =
  au_policy :: auth_policy
  au_bind_ip :: ip_addr
  au_boot_token :: "string option"
  au_epoch :: nat
  au_last_step :: "nat option"
  au_revoked :: "revoked_entry list"
  au_revoked_file :: "revoked_line list"
  au_throttle :: throttle
  au_remote_images :: bool
  au_store :: auth_store

definition live_claims :: "crypto \<Rightarrow> session_auth \<Rightarrow> auth_state \<Rightarrow> string option \<Rightarrow> nat \<Rightarrow> claims option" where
  "live_claims kr sa st header now =
     Option.bind (from_cookie_header header) (\<lambda>value.
       Option.bind (verify_claims (cr_hmac kr) (sa_token sa) (au_epoch st) value now) (\<lambda>c.
         if revoked_contains (au_revoked st) (cl_login c) then None else Some c))"

definition cookie_login :: "crypto \<Rightarrow> session_auth \<Rightarrow> auth_state \<Rightarrow> string option \<Rightarrow> nat \<Rightarrow> login_id option" where
  "cookie_login kr sa st header now = map_option cl_login (live_claims kr sa st header now)"

definition slide_cookie :: "crypto \<Rightarrow> session_auth \<Rightarrow> auth_state \<Rightarrow> string option \<Rightarrow> nat
    \<Rightarrow> (string \<times> session_kind) option" where
  "slide_cookie kr sa st header now =
     Option.bind (live_claims kr sa st header now) (\<lambda>c.
       let new_exp = slide_exp (cl_kind c) (cl_iat c) now
       in if new_exp - cl_exp c < slide_min_secs (cl_kind c) then None
          else Some (sign (cr_hmac kr) (sa_token sa) (au_epoch st) (cl_kind c) (cl_iat c) new_exp (cl_login c),
                 cl_kind c))"

text \<open>The marker as it is read: a failed read and a file that does not parse are no marker.\<close>

definition last_step_read :: "bool \<Rightarrow> auth_state \<Rightarrow> nat option" where
  "last_step_read read_ok st = (if read_ok then au_last_step st else None)"

definition record_step :: "bool \<Rightarrow> nat \<Rightarrow> auth_state \<Rightarrow> auth_state" where
  "record_step write_ok step st = (if write_ok then st\<lparr>au_last_step := Some step\<rparr> else st)"

definition throttle_record :: "bool \<Rightarrow> nat \<Rightarrow> auth_state \<Rightarrow> auth_state" where
  "throttle_record success now st =
     st\<lparr>au_throttle := (if success then throttle_reset (au_throttle st) else record_failure now (au_throttle st))\<rparr>"

text \<open>The epoch is a \<^verbatim>\<open>u64\<close> and wraps.\<close>

definition invalidate_sessions :: "auth_state \<Rightarrow> auth_state" where
  "invalidate_sessions st = st\<lparr>au_epoch := (au_epoch st + 1) mod 2 ^ 64\<rparr>"

definition reload_revoked :: "nat \<Rightarrow> auth_state \<Rightarrow> auth_state" where
  "reload_revoked now st = st\<lparr>au_revoked := revoked_load (au_revoked_file st) now\<rparr>"

definition revoke_login :: "bool \<Rightarrow> login_id \<Rightarrow> nat \<Rightarrow> auth_state \<Rightarrow> bool \<times> auth_state" where
  "revoke_login write_ok login now st =
     (let cap = min (2 ^ 64 - 1) (now + REMEMBERED_ABSOLUTE_TTL_SECS);
          es = revoked_add (revoked_load (au_revoked_file st) now) login cap now
      in if write_ok then (True, st\<lparr>au_revoked_file := revoked_write es, au_revoked := es\<rparr>) else (False, st))"

text \<open>The token on the disk wins over the one of the launch.\<close>

definition token_in_force :: "auth_state \<Rightarrow> string option" where
  "token_in_force st = (case ds_token (au_store st) of Some t \<Rightarrow> Some t | None \<Rightarrow> au_boot_token st)"

definition rebuild :: "rebuild_reads \<Rightarrow> nat \<Rightarrow> auth_state \<Rightarrow> (rebuild_error + unit) \<times> auth_state" where
  "rebuild reads now st0 =
     (let store = au_store st0; token = token_in_force st0
      in if reads = FailBeforeRevoked then (Inl StoreUnreadable, st0)
         else let st = reload_revoked now st0
           in if reads = FailAfterRevoked then (Inl StoreUnreadable, st)
              else case compute_policy_with (au_bind_ip st) token (ds_seed store) (ds_password store)
                  \<lparr>rq_login = ds_require_login store, rq_token = ds_require_token store\<rparr> of
                Inl e \<Rightarrow> (Inl (PolicyRefused e), st)
              | Inr p \<Rightarrow> (Inr (), st\<lparr>au_policy := p, au_remote_images := ds_remote_images store\<rparr>))"

definition boot :: "rebuild_reads \<Rightarrow> ip_addr \<Rightarrow> string option \<Rightarrow> nat \<Rightarrow> auth_store \<Rightarrow> nat option \<Rightarrow> revoked_line list \<Rightarrow> nat
    \<Rightarrow> rebuild_error + auth_state" where
  "boot reads ip token epoch store last_step revoked_file now =
     (case rebuild reads now
         \<lparr>au_policy = Localhost, au_bind_ip = ip, au_boot_token = token, au_epoch = epoch,
          au_last_step = last_step, au_revoked = [], au_revoked_file = revoked_file,
          au_throttle = throttle_new, au_remote_images = False, au_store = store\<rparr> of
        (Inl e, _) \<Rightarrow> Inl e
      | (Inr _, st) \<Rightarrow> Inr st)"

definition apply_auth_change :: "rebuild_reads \<Rightarrow> bool \<Rightarrow> nat \<Rightarrow> auth_state \<Rightarrow> auth_state" where
  "apply_auth_change reads invalidate now st =
     (let st1 = snd (rebuild reads now st) in if invalidate then invalidate_sessions st1 else st1)"

section \<open>The routes\<close>

record login_form =
  lf_code :: string
  lf_password :: "string option"
  lf_remember :: bool

datatype login_response = TooManyAttempts nat | LoginNotEnabled | InvalidCredentials
  | LoggedIn string session_kind login_id

text \<open>
  \<^verbatim>\<open>login_submit\<close> in its two halves: the reads (the throttle, the policy, the clock and the last consumed
  step) and what follows from them.  Nothing holds a lock in between.
\<close>

definition login_reads :: "bool \<Rightarrow> nat \<Rightarrow> auth_state \<Rightarrow> login_response + (session_auth \<times> nat option)" where
  "login_reads read_ok checked_at st =
     (case throttle_check (au_throttle st) checked_at of
        Inl retry_after \<Rightarrow> Inl (TooManyAttempts retry_after)
      | Inr _ \<Rightarrow>
          (case au_policy st of
             Session sa \<Rightarrow> Inr (sa, last_step_read read_ok st)
           | _ \<Rightarrow> Inl LoginNotEnabled))"

definition login_finish :: "crypto \<Rightarrow> bool \<Rightarrow> login_id \<Rightarrow> login_form \<Rightarrow> nat \<Rightarrow> nat \<Rightarrow> session_auth \<times> nat option
    \<Rightarrow> auth_state \<Rightarrow> login_response \<times> auth_state" where
  "login_finish kr write_ok minted form now recorded_at reads st =
     (case reads of (sa, last_step) \<Rightarrow>
        (let kind = (if lf_remember form then Remembered else Standard)
         in case login_checked kr sa (au_epoch st) minted (lf_code form) (lf_password form) kind now last_step of
              LoginOk cookie kind step login \<Rightarrow>
                (LoggedIn cookie kind login, throttle_record True recorded_at (record_step write_ok step st))
            | _ \<Rightarrow> (InvalidCredentials, throttle_record False recorded_at st)))"

definition login_submit :: "crypto \<Rightarrow> bool \<Rightarrow> bool \<Rightarrow> login_id \<Rightarrow> login_form \<Rightarrow> nat \<Rightarrow> nat \<Rightarrow> nat \<Rightarrow> auth_state
    \<Rightarrow> login_response \<times> auth_state" where
  "login_submit kr read_ok write_ok minted form now checked_at recorded_at st =
     (case login_reads read_ok checked_at st of
        Inl r \<Rightarrow> (r, st)
      | Inr reads \<Rightarrow> login_finish kr write_ok minted form now recorded_at reads st)"

datatype refusal = Throttled nat | CodeRequired | PasswordRequired | BadFactor

text \<open>The step of a code that matches and was not consumed.\<close>

definition fresh_step :: "crypto \<Rightarrow> seed \<Rightarrow> string \<Rightarrow> nat \<Rightarrow> nat option \<Rightarrow> nat option" where
  "fresh_step kr seed code now last_step =
     Option.bind (matched_step kr seed code now 1) (\<lambda>step.
       if (case last_step of None \<Rightarrow> True | Some l \<Rightarrow> step > l) then Some step else None)"

text \<open>\<open>armed\<close> is the seed as it was read.\<close>

definition require_fresh_totp :: "crypto \<Rightarrow> bool \<Rightarrow> bool \<Rightarrow> seed option \<Rightarrow> string option \<Rightarrow> nat \<Rightarrow> nat \<Rightarrow> nat \<Rightarrow> auth_state
    \<Rightarrow> (refusal + unit) \<times> auth_state" where
  "require_fresh_totp kr read_ok write_ok armed code now checked_at recorded_at st =
     (case armed of
        None \<Rightarrow> (Inr (), st)
      | Some seed \<Rightarrow>
          (case throttle_check (au_throttle st) checked_at of
             Inl retry_after \<Rightarrow> (Inl (Throttled retry_after), st)
           | Inr _ \<Rightarrow>
               (case Option.bind code (\<lambda>c. if trim c \<noteq> [] then Some (trim c) else None) of
                  None \<Rightarrow> (Inl CodeRequired, st)
                | Some c \<Rightarrow>
                    (case fresh_step kr seed c now (last_step_read read_ok st) of
                       Some step \<Rightarrow> (Inr (), throttle_record True recorded_at (record_step write_ok step st))
                     | None \<Rightarrow> (Inl BadFactor, throttle_record False recorded_at st)))))"

definition require_current_password :: "crypto \<Rightarrow> password_hash option \<Rightarrow> string option \<Rightarrow> nat \<Rightarrow> nat \<Rightarrow> auth_state
    \<Rightarrow> (refusal + unit) \<times> auth_state" where
  "require_current_password kr enrolled current checked_at recorded_at st =
     (case enrolled of
        None \<Rightarrow> (Inr (), st)
      | Some h \<Rightarrow>
          (case throttle_check (au_throttle st) checked_at of
             Inl retry_after \<Rightarrow> (Inl (Throttled retry_after), st)
           | Inr _ \<Rightarrow>
               (case current of
                  None \<Rightarrow> (Inl PasswordRequired, st)
                | Some pw \<Rightarrow>
                    if password_verify kr h pw then (Inr (), throttle_record True recorded_at st)
                    else (Inl BadFactor, throttle_record False recorded_at st))))"

definition LOGIN_ALLOWLIST :: "string list" where
  "LOGIN_ALLOWLIST = [''/api/login'', ''/api/session'']"

definition ungated_without_session :: "bool \<Rightarrow> string \<Rightarrow> bool" where
  "ungated_without_session is_get path =
     (if path \<in> set LOGIN_ALLOWLIST then True
      else is_get \<and> \<not> prefix ''/api'' path \<and> \<not> prefix ''/ws'' path)"

datatype guarded = CrossOrigin | NeedsBearer | LoginRequired
  | Served "login_id option" "(string \<times> session_kind) option"

text \<open>The guard: what a request is answered, or that it is served, for which login and with which new cookie.\<close>

definition require_auth :: "crypto \<Rightarrow> auth_state \<Rightarrow> bool \<Rightarrow> string option \<Rightarrow> string option \<Rightarrow> bool \<Rightarrow> string \<Rightarrow> nat
    \<Rightarrow> guarded" where
  "require_auth kr st cross_site authorization cookies is_get path now =
     (if cross_site then CrossOrigin
      else if authorizes (au_policy st) authorization then Served None None
      else case au_policy st of
             Session sa \<Rightarrow>
               (case cookie_login kr sa st cookies now of
                  Some login \<Rightarrow> Served (Some login) (slide_cookie kr sa st cookies now)
                | None \<Rightarrow> if ungated_without_session is_get path then Served None None else LoginRequired)
           | _ \<Rightarrow> NeedsBearer)"

text \<open>\<^verbatim>\<open>session_state_route\<close>: whether the request is authorized, and the password field of the login card.\<close>

definition session_state :: "crypto \<Rightarrow> auth_state \<Rightarrow> string option \<Rightarrow> string option \<Rightarrow> nat \<Rightarrow> bool \<times> bool \<times> string" where
  "session_state kr st authorization cookies now =
     (authorizes (au_policy st) authorization \<or>
        (case au_policy st of Session sa \<Rightarrow> cookie_login kr sa st cookies now \<noteq> None | _ \<Rightarrow> False),
      (case au_policy st of Session sa \<Rightarrow> sa_password sa \<noteq> None | _ \<Rightarrow> False),
      policy_name (au_policy st))"

section \<open>The routes that change the posture\<close>

text \<open>
  The \<^verbatim>\<open>/api/security\<close> routes and their store helpers; their store writes succeed here.  The instants of
  the step-up come in the record \<open>timing\<close>, with which of the reads and writes it rests on succeeded.
\<close>

record timing =
  ti_now :: nat
  ti_checked :: nat
  ti_recorded :: nat
  ti_marker_ok :: bool
  ti_marker_read :: bool
  ti_seed_read :: bool
  ti_password_read :: bool
  ti_rebuild :: rebuild_reads

datatype route_response = RouteDone | RouteConfirmed bool | RoutePassword bool | RouteRefused refusal | RouteBad

definition with_store :: "(auth_store \<Rightarrow> auth_store) \<Rightarrow> auth_state \<Rightarrow> auth_state" where
  "with_store f st = st\<lparr>au_store := f (au_store st)\<rparr>"

text \<open>A file that cannot be read, or a seed that does not decode, counts as no factor.\<close>

definition seed_read :: "timing \<Rightarrow> auth_state \<Rightarrow> seed option" where
  "seed_read ti st = (if ti_seed_read ti then ds_seed (au_store st) else None)"

definition password_read :: "timing \<Rightarrow> auth_state \<Rightarrow> password_hash option" where
  "password_read ti st = (if ti_password_read ti then ds_password (au_store st) else None)"

definition step_up :: "crypto \<Rightarrow> timing \<Rightarrow> string option \<Rightarrow> auth_state \<Rightarrow> (refusal + unit) \<times> auth_state" where
  "step_up kr ti code st =
     require_fresh_totp kr (ti_marker_read ti) (ti_marker_ok ti) (seed_read ti st) code
       (ti_now ti) (ti_checked ti) (ti_recorded ti) st"

definition enroll_totp :: "seed \<Rightarrow> auth_state \<Rightarrow> auth_state" where
  "enroll_totp new_seed =
     with_store (\<lambda>d. case ds_pending d of Some _ \<Rightarrow> d | None \<Rightarrow> d\<lparr>ds_pending := Some new_seed\<rparr>)"

definition confirm_totp :: "crypto \<Rightarrow> timing \<Rightarrow> string \<Rightarrow> auth_state \<Rightarrow> route_response \<times> auth_state" where
  "confirm_totp kr ti code st =
     (case ds_pending (au_store st) of
        None \<Rightarrow> (RouteConfirmed False, st)
      | Some seed \<Rightarrow>
          if matched_step kr seed code (ti_now ti) 1 = None then (RouteConfirmed False, st)
          else (RouteConfirmed True,
            apply_auth_change (ti_rebuild ti) False (ti_now ti)
              (with_store (\<lambda>d. d\<lparr>ds_seed := Some seed, ds_pending := None\<rparr>) st)))"

definition revoke_totp :: "crypto \<Rightarrow> timing \<Rightarrow> string option \<Rightarrow> auth_state \<Rightarrow> route_response \<times> auth_state" where
  "revoke_totp kr ti code st =
     (case step_up kr ti code st of
        (Inl r, st1) \<Rightarrow> (RouteRefused r, st1)
      | (Inr _, st1) \<Rightarrow>
          (RouteDone, apply_auth_change (ti_rebuild ti) True (ti_now ti)
             ((with_store (\<lambda>d. d\<lparr>ds_seed := None, ds_pending := None\<rparr>) st1)\<lparr>au_last_step := None\<rparr>)))"

text \<open>\<open>hashed\<close> is the hash of the new password with its fresh salt.\<close>

definition set_password :: "crypto \<Rightarrow> timing \<Rightarrow> string option \<Rightarrow> password_hash \<Rightarrow> string option \<Rightarrow> auth_state
    \<Rightarrow> route_response \<times> auth_state" where
  "set_password kr ti password hashed current st =
     (case password of
        None \<Rightarrow> (RouteBad, st)
      | Some pw \<Rightarrow>
          (case require_current_password kr (password_read ti st) current (ti_checked ti) (ti_recorded ti) st of
             (Inl r, st1) \<Rightarrow> (RouteRefused r, st1)
           | (Inr _, st1) \<Rightarrow>
               (RoutePassword (pw \<noteq> []), apply_auth_change (ti_rebuild ti) True (ti_now ti)
                  (with_store (\<lambda>d. d\<lparr>ds_password := (if pw \<noteq> [] then Some hashed else None)\<rparr>) st1))))"

definition remint_token :: "crypto \<Rightarrow> timing \<Rightarrow> string \<Rightarrow> string option \<Rightarrow> auth_state \<Rightarrow> route_response \<times> auth_state" where
  "remint_token kr ti new_token code st =
     (case step_up kr ti code st of
        (Inl r, st1) \<Rightarrow> (RouteRefused r, st1)
      | (Inr _, st1) \<Rightarrow>
          (RouteDone, apply_auth_change (ti_rebuild ti) True (ti_now ti) (with_store (\<lambda>d. d\<lparr>ds_token := Some new_token\<rparr>) st1)))"

definition require_login :: "crypto \<Rightarrow> timing \<Rightarrow> bool \<Rightarrow> string \<Rightarrow> string option \<Rightarrow> auth_state
    \<Rightarrow> route_response \<times> auth_state" where
  "require_login kr ti enable new_token code st =
     (case (if enable then (Inr (), st) else step_up kr ti code st) of
        (Inl r, st1) \<Rightarrow> (RouteRefused r, st1)
      | (Inr _, st1) \<Rightarrow>
          if enable \<and> seed_read ti st1 = None then (RouteBad, st1)
          else (RouteDone, apply_auth_change (ti_rebuild ti) True (ti_now ti)
             (with_store (\<lambda>d. d\<lparr>ds_require_login := enable,
                ds_token := (if enable \<and> nonempty (ds_token d) = None then Some new_token else ds_token d)\<rparr>) st1)))"

definition remote_images :: "crypto \<Rightarrow> timing \<Rightarrow> bool \<Rightarrow> string option \<Rightarrow> auth_state \<Rightarrow> route_response \<times> auth_state" where
  "remote_images kr ti enable code st =
     (case (if enable then step_up kr ti code st else (Inr (), st)) of
        (Inl r, st1) \<Rightarrow> (RouteRefused r, st1)
      | (Inr _, st1) \<Rightarrow>
          (RouteDone, apply_auth_change (ti_rebuild ti) False (ti_now ti) (with_store (\<lambda>d. d\<lparr>ds_remote_images := enable\<rparr>) st1)))"

section \<open>What happens to the state\<close>

datatype auth_event =
    EvLogin login_form login_id
  | EvLogout
  | EvRevoke login_id bool
  | EvEnroll seed
  | EvConfirm string
  | EvRevokeTotp "string option"
  | EvPassword "string option" password_hash "string option"
  | EvRemint string "string option"
  | EvRequireLogin bool string "string option"
  | EvRemoteImages bool "string option"
  | EvStore auth_store

text \<open>\<open>EvStore\<close>: another process, such as \<^verbatim>\<open>ralphy daemon setup\<close>, writes the store files.\<close>

definition auth_step :: "crypto \<Rightarrow> timing \<Rightarrow> auth_event \<Rightarrow> auth_state \<Rightarrow> auth_state" where
  "auth_step kr ti ev st =
     (case ev of
        EvLogin form minted \<Rightarrow>
          snd (login_submit kr (ti_marker_read ti) (ti_marker_ok ti) minted form (ti_now ti) (ti_checked ti)
            (ti_recorded ti) st)
      | EvLogout \<Rightarrow> invalidate_sessions st
      | EvRevoke login ok \<Rightarrow> snd (revoke_login ok login (ti_now ti) st)
      | EvEnroll new_seed \<Rightarrow> enroll_totp new_seed st
      | EvConfirm code \<Rightarrow> snd (confirm_totp kr ti code st)
      | EvRevokeTotp code \<Rightarrow> snd (revoke_totp kr ti code st)
      | EvPassword password hashed current \<Rightarrow> snd (set_password kr ti password hashed current st)
      | EvRemint new_token code \<Rightarrow> snd (remint_token kr ti new_token code st)
      | EvRequireLogin enable new_token code \<Rightarrow> snd (require_login kr ti enable new_token code st)
      | EvRemoteImages enable code \<Rightarrow> snd (remote_images kr ti enable code st)
      | EvStore store \<Rightarrow> with_store (\<lambda>_. store) st)"

definition auth_run :: "crypto \<Rightarrow> (timing \<times> auth_event) list \<Rightarrow> auth_state \<Rightarrow> auth_state" where
  "auth_run kr evs st = fold (\<lambda>(ti, ev). auth_step kr ti ev) evs st"

end
