(* ===== verification/Auth_Cookie_Props.thy ===== *)
theory Auth_Cookie_Props
  imports Auth_Cookie Digits
begin

text \<open>
  A signed cookie reads back as its claims, for the epoch it was signed at and until it expires.
\<close>

section \<open>Base64url\<close>

declare to_base64url_from.simps(2) [simp del] from_base64url_from.simps(2) [simp del]
  show_nat.simps [simp del]

lemma mask_words: "w AND 0xffff = take_bit 16 w" "w AND 0xfff = take_bit 12 w" "w AND 63 = take_bit 6 w"
  "w AND 3 = take_bit 2 w" "w AND 15 = take_bit 4 w" for w :: u32
  by (simp_all add: take_bit_eq_mask mask_eq_exp_minus_1)

text \<open>The sextets of up to three bytes, at any content of the accumulator above them.\<close>

definition sextet0 :: "byte \<Rightarrow> u32" where "sextet0 a = drop_bit 2 (ucast a)"
definition sextet1 :: "byte \<Rightarrow> byte \<Rightarrow> u32" where
  "sextet1 a b = push_bit 4 (take_bit 2 (ucast a)) OR drop_bit 4 (ucast b)"
definition sextet2 :: "byte \<Rightarrow> byte \<Rightarrow> u32" where
  "sextet2 b c = push_bit 2 (take_bit 4 (ucast b)) OR drop_bit 6 (ucast c)"
definition sextet3 :: "byte \<Rightarrow> u32" where "sextet3 c = take_bit 6 (ucast c)"

lemmas sextet_defs = sextet0_def sextet1_def sextet2_def sextet3_def

lemma word8_bit: "bit (b :: byte) n \<Longrightarrow> n < 8"
  by (drule bit_imp_le_length) simp

definition feed :: "nat \<Rightarrow> nat \<Rightarrow> u32 \<Rightarrow> u32 \<Rightarrow> u32" where
  "feed width cap acc v = take_bit cap (push_bit width acc OR v)"

lemma bit_feed: "bit (feed width cap acc v) n \<longleftrightarrow> n < 32 \<and> n < cap \<and> (width \<le> n \<and> bit acc (n - width) \<or> bit v n)"
  by (auto simp: feed_def bit_simps bit_imp_le_length dest: bit_imp_le_length)

lemma encoded_sextets:
  "take_bit 6 (drop_bit 2 (feed 8 16 acc (ucast a))) = sextet0 a"
  "take_bit 6 (drop_bit 4 (feed 8 16 (feed 8 16 acc (ucast a)) (ucast b))) = sextet1 a b"
  "take_bit 6 (drop_bit 6 (feed 8 16 (feed 8 16 acc (ucast b)) (ucast c))) = sextet2 b c"
  "take_bit 6 (feed 8 16 acc (ucast c)) = sextet3 c"
  "take_bit 6 (push_bit 4 (feed 8 16 acc (ucast a))) = sextet1 a 0"
  by (rule bit_word_eqI; auto simp: bit_feed bit_simps sextet_defs dest: word8_bit)+

lemma sextets_small: "unat (sextet0 a) < 64" "unat (sextet1 a b) < 64" "unat (sextet2 b c) < 64" "unat (sextet3 c) < 64"
proof -
  have "take_bit 6 (sextet0 a) = sextet0 a" "take_bit 6 (sextet1 a b) = sextet1 a b"
    "take_bit 6 (sextet2 b c) = sextet2 b c" "take_bit 6 (sextet3 c) = sextet3 c"
    by (rule bit_word_eqI; auto simp: bit_simps sextet_defs dest: word8_bit)+
  moreover have "take_bit 6 w = w \<Longrightarrow> unat w < 64" for w :: u32
    using take_bit_nat_less_exp [of 6 "unat w"] by (simp add: unsigned_take_bit_eq [symmetric])
  ultimately show "unat (sextet0 a) < 64" "unat (sextet1 a b) < 64" "unat (sextet2 b c) < 64" "unat (sextet3 c) < 64"
    by auto
qed

lemma bit_sextets:
  "bit (sextet0 a) n \<longleftrightarrow> n < 6 \<and> bit a (n + 2)"
  "bit (sextet1 a b) n \<longleftrightarrow> n < 6 \<and> (4 \<le> n \<and> bit a (n - 4) \<or> bit b (4 + n))"
  "bit (sextet2 b c) n \<longleftrightarrow> n < 6 \<and> (2 \<le> n \<and> bit b (n - 2) \<or> bit c (6 + n))"
  "bit (sextet3 c) n \<longleftrightarrow> n < 6 \<and> bit c n"
  by (auto simp: bit_simps sextet_defs dest: word8_bit)

lemma decoded_bytes:
  "(ucast (drop_bit 4 (feed 6 12 (feed 6 12 acc (sextet0 a)) (sextet1 a b))) :: byte) = a"
  "(ucast (drop_bit 2 (feed 6 12 (feed 6 12 acc (sextet1 a b)) (sextet2 b c))) :: byte) = b"
  "(ucast (feed 6 12 (feed 6 12 acc (sextet2 b c)) (sextet3 c)) :: byte) = c"
  subgoal
    by (rule bit_word_eqI, rename_tac n, case_tac "n < 2")
      (auto simp: bit_feed bit_simps bit_sextets dest: word8_bit simp del: add_2_eq_Suc add_2_eq_Suc')
  subgoal
    by (rule bit_word_eqI, rename_tac n, case_tac "n < 4")
      (auto simp: bit_feed bit_simps bit_sextets dest: word8_bit simp del: add_2_eq_Suc add_2_eq_Suc')
  subgoal
    by (rule bit_word_eqI, rename_tac n, case_tac "n < 6")
      (auto simp: bit_feed bit_simps bit_sextets dest: word8_bit simp del: add_2_eq_Suc add_2_eq_Suc')
  done

lemma position_BASE64URL: "n < 64 \<Longrightarrow> position (BASE64URL ! n) BASE64URL = Some n"
proof -
  have "list_all (\<lambda>n. position (BASE64URL ! n) BASE64URL = Some n) [0..<64]" by code_simp
  then show "n < 64 \<Longrightarrow> position (BASE64URL ! n) BASE64URL = Some n" by (simp add: list_all_iff)
qed


lemma enc_Cons:
  "to_base64url_from acc_out acc bits (b # bs) =
     (let acc' = feed 8 16 acc (ucast b); (out', bits') = take_sextets acc_out acc' (bits + 8)
      in to_base64url_from out' acc' bits' bs)"
  by (simp add: to_base64url_from.simps feed_def mask_words Let_def)

lemma enc_sextets:
  "take_sextets acc_out acc bits =
     (if bits \<ge> 6
      then take_sextets (acc_out @ [BASE64URL ! unat (take_bit 6 (drop_bit (bits - 6) acc))]) acc (bits - 6)
      else (acc_out, bits))"
  by (subst take_sextets.simps) (simp add: mask_words)

definition letters :: "u32 list \<Rightarrow> string" where
  "letters vs = map (\<lambda>v. BASE64URL ! unat v) vs"

lemma letters_simps [simp]:
  "letters [] = []" "letters (v # vs) = BASE64URL ! unat v # letters vs" "letters (vs @ ws) = letters vs @ letters ws"
  by (simp_all add: letters_def)

lemma enc_group:
  "\<exists>acc'. to_base64url_from acc_out acc 0 (a # b # c # bs) =
     to_base64url_from (acc_out @ letters [sextet0 a, sextet1 a b, sextet2 b c, sextet3 c]) acc' 0 bs"
  by (simp add: enc_Cons enc_sextets [of _ _ 8] enc_sextets [of _ _ 2] enc_sextets [of _ _ 10]
      enc_sextets [of _ _ 4] enc_sextets [of _ _ 12] enc_sextets [of _ _ 6] enc_sextets [of _ _ 0]
      encoded_sextets Let_def) blast

lemma enc_last: "to_base64url_from acc_out acc 0 [a] = acc_out @ letters [sextet0 a, sextet1 a 0]"
  by (simp add: enc_Cons enc_sextets [of _ _ 8] enc_sextets [of _ _ 2] encoded_sextets Let_def mask_words)

lemma dec_letter:
  assumes "unat v < 64"
  shows "from_base64url_from acc_out acc bits (BASE64URL ! unat v # cs) =
     (let acc' = feed 6 12 acc v; bits' = bits + 6
      in if bits' \<ge> 8 then
           if length acc_out < 16
           then from_base64url_from (acc_out @ [ucast (drop_bit (bits' - 8) acc')]) acc' (bits' - 8) cs
           else None
         else from_base64url_from acc_out acc' bits' cs)"
  using assms by (simp add: from_base64url_from.simps position_BASE64URL feed_def mask_words Let_def)

lemma dec_group:
  assumes "length acc_out + 3 \<le> 16"
  shows "\<exists>acc'. from_base64url_from acc_out acc 0
      (letters [sextet0 a, sextet1 a b, sextet2 b c, sextet3 c] @ cs) =
     from_base64url_from (acc_out @ [a, b, c]) acc' 0 cs"
  using assms by (simp add: dec_letter sextets_small decoded_bytes Let_def) blast

lemma dec_last:
  assumes "length acc_out = 15"
  shows "from_base64url_from acc_out acc 0 (letters [sextet0 a, sextet1 a 0]) = Some (acc_out @ [a])"
  using assms by (simp add: dec_letter sextets_small decoded_bytes Let_def)

text \<open>The letters of a login id: five groups of three bytes and a last one.\<close>

fun encoding :: "byte list \<Rightarrow> u32 list" where
  "encoding (a # b # c # bs) = [sextet0 a, sextet1 a b, sextet2 b c, sextet3 c] @ encoding bs"
| "encoding [a] = [sextet0 a, sextet1 a 0]"
| "encoding _ = []"

lemma encoding_encodes:
  "length bs mod 3 = 1 \<Longrightarrow> to_base64url_from acc_out acc 0 bs = acc_out @ letters (encoding bs)"
proof (induction bs arbitrary: acc_out acc rule: encoding.induct)
  case (1 a b c bs)
  obtain acc' where "to_base64url_from acc_out acc 0 (a # b # c # bs) =
     to_base64url_from (acc_out @ letters [sextet0 a, sextet1 a b, sextet2 b c, sextet3 c]) acc' 0 bs"
    using enc_group by blast
  moreover have "length bs mod 3 = 1" using 1(2) by (simp add: mod_simps)
  ultimately show ?case using 1(1) by simp
qed (simp_all add: enc_last)

lemma encoding_decodes:
  "length bs mod 3 = 1 \<Longrightarrow> length acc_out + length bs = 16 \<Longrightarrow>
   from_base64url_from acc_out acc 0 (letters (encoding bs)) = Some (acc_out @ bs)"
proof (induction bs arbitrary: acc_out acc rule: encoding.induct)
  case (1 a b c bs)
  obtain acc' where "from_base64url_from acc_out acc 0 (letters (encoding (a # b # c # bs))) =
     from_base64url_from (acc_out @ [a, b, c]) acc' 0 (letters (encoding bs))"
    using dec_group [of acc_out acc a b c "letters (encoding bs)"] 1(3) by auto
  moreover have "length bs mod 3 = 1" using 1(2) by (simp add: mod_simps)
  ultimately show ?case using 1(1) [of "acc_out @ [a, b, c]" acc'] 1(3) by simp
qed (simp_all add: dec_last [simplified])

lemma length_encoding: "length bs mod 3 = 1 \<Longrightarrow> 3 * length (encoding bs) = 4 * length bs + 2"
  by (induction bs rule: encoding.induct) (simp_all add: mod_simps)

lemma login_roundtrip:
  assumes "length login = 16"
  shows "login_parse (to_base64url login) = Some login"
proof -
  have e: "to_base64url login = letters (encoding login)"
    using encoding_encodes [of login "[]"] assms by (simp add: to_base64url_def)
  moreover have "length (encoding login) = 22" using length_encoding [of login] assms by simp
  moreover have "from_base64url (letters (encoding login)) = Some login"
    using encoding_decodes [of login "[]"] assms by (simp add: from_base64url_def)
  ultimately show ?thesis by (simp add: login_parse_def LOGIN_ID_LEN_def letters_def)
qed

text \<open>Only the canonical spelling of an id is one.\<close>

lemma login_parse_canonical: "login_parse txt = Some login \<Longrightarrow> to_base64url login = txt"
  by (auto simp: login_parse_def split: if_splits Option.bind_splits)


section \<open>The signed value\<close>

lemma splitn_piece:
  "sep \<notin> set x \<Longrightarrow>
   splitn (Suc (Suc n)) sep cur (x @ sep # rest) = (cur @ x) # splitn (Suc n) sep [] rest"
  by (induction x arbitrary: cur) auto

lemma splitn_end: "splitn (Suc 0) sep cur s = [cur @ s]" by simp

lemma digits_no_sep: "sep \<notin> set (show_nat n)" if "digit_value sep = None"
  using show_nat_digits [of n] that by (auto simp: list_all_iff is_digit_def)

lemma base64_no_sep: "sep \<notin> set BASE64URL \<Longrightarrow> sep \<notin> set (letters vs)" if "list_all (\<lambda>v. unat v < 64) vs"
proof -
  have "length BASE64URL = 64" by (simp add: BASE64URL_def)
  then show "sep \<notin> set BASE64URL \<Longrightarrow> sep \<notin> set (letters vs)"
    using that by (auto simp: letters_def list_all_iff)
qed

lemma encoding_small: "list_all (\<lambda>v. unat v < 64) (encoding bs)"
  by (induction bs rule: encoding.induct) (simp_all add: sextets_small)

lemma login_text_no_sep: "sep \<notin> set (to_base64url login)" if "length login = 16" "sep \<notin> set BASE64URL"
  using encoding_encodes [of login "[]"] that base64_no_sep [OF encoding_small]
  by (simp add: to_base64url_def)

lemma separators_free: "CHR ''.'' \<notin> set BASE64URL" "CHR ''|'' \<notin> set BASE64URL"
  "digit_value (CHR ''.'') = None" "digit_value (CHR ''|'') = None"
  by (simp_all add: BASE64URL_def digit_value_def)

lemma kind_tag_no_sep: "CHR ''.'' \<notin> set (kind_tag k)" "CHR ''|'' \<notin> set (kind_tag k)"
  by (cases k; simp)+

lemma kind_roundtrip: "kind_from_tag (kind_tag k) = Some k"
  by (cases k) (simp_all add: kind_from_tag_def)

lemma splitn_step: "splitn 7 sep [] s = splitn (Suc (Suc (Suc (Suc (Suc (Suc (Suc 0))))))) sep [] s"
  "splitn 6 sep [] s = splitn (Suc (Suc (Suc (Suc (Suc (Suc 0)))))) sep [] s"
  by (simp_all add: numeral_eq_Suc)

text \<open>Six fields before a separator each, and the rest.\<close>

lemma splitn_fields:
  assumes "sep \<notin> set a" "sep \<notin> set b" "sep \<notin> set c" "sep \<notin> set d" "sep \<notin> set e"
  shows "splitn 6 sep [] (a @ sep # b @ sep # c @ sep # d @ sep # e @ sep # rest) = [a, b, c, d, e, rest]"
    "sep \<notin> set f \<Longrightarrow>
     splitn 7 sep [] (a @ sep # b @ sep # c @ sep # d @ sep # e @ sep # f @ sep # rest) = [a, b, c, d, e, f, rest]"
  unfolding splitn_step using assms by (simp_all add: splitn_piece del: splitn.simps(4))

lemma parse_signed:
  assumes "epoch < 2 ^ 64" "iat < 2 ^ 64" "expiry < 2 ^ 64" "length login = 16"
  shows "parse_value (sign hmac token epoch kind iat expiry login) =
    (let c = \<lparr>cl_iat = iat, cl_exp = expiry, cl_kind = kind, cl_login = login\<rparr>
     in Some (epoch, c, mac_hex hmac token epoch c))"
proof -
  have "CHR ''.'' \<notin> set (show_nat n)" for n by (rule digits_no_sep) (rule separators_free)
  moreover have "CHR ''.'' \<notin> set (to_base64url login)"
    by (rule login_text_no_sep [OF assms(4)]) (rule separators_free)
  moreover have "CHR ''.'' \<notin> set ''4''" by simp
  ultimately show ?thesis
    unfolding parse_value_def sign_def Let_def
    using assms login_roundtrip [OF assms(4)]
      splitn_fields(2) [of "CHR ''.''" "''4''" "show_nat epoch" "show_nat iat" "show_nat expiry" "kind_tag kind"
        "to_base64url login" "mac_hex hmac token epoch \<lparr>cl_iat = iat, cl_exp = expiry, cl_kind = kind, cl_login = login\<rparr>"]
    by (simp add: kind_tag_no_sep kind_roundtrip)
qed

lemma of_char_byte_inject [simp]: "(of_char c :: byte) = of_char d \<longleftrightarrow> c = d"
proof
  assume "(of_char c :: byte) = of_char d"
  then have "unat (of_char c :: byte) = unat (of_char d :: byte)" by simp
  moreover have "unat (of_char x :: byte) = of_char x" for x :: char
    using nat_of_char_less_256 [of x] by (simp add: of_char_def unat_of_nat)
  ultimately show "c = d" by (simp add: of_char_eq_iff)
qed simp

lemma ct_eq_bytes [simp]: "ct_eq a b \<longleftrightarrow> a = b"
  by (auto simp: ct_eq_def list.rel_eq)

lemma bytes_of_inject [simp]: "bytes_of s = bytes_of t \<longleftrightarrow> s = t"
  by (auto simp: bytes_of_def inj_def dest: map_injective)

lemma verify_claims_Some:
  "verify_claims hmac token epoch value now = Some c \<longleftrightarrow>
     parse_value value = Some (epoch, c, mac_hex hmac token epoch c) \<and> now < cl_exp c"
  by (auto simp: verify_claims_def split: option.split if_splits)

section \<open>The header\<close>

definition cookie_char :: "char \<Rightarrow> bool" where
  "cookie_char c \<longleftrightarrow> plain_char c \<and> c \<noteq> CHR '';''"

lemma list_all_nth: "list_all P xs \<Longrightarrow> n < length xs \<Longrightarrow> P (xs ! n)"
  by (simp add: list_all_length)

lemma base64_cookie_chars: "list_all cookie_char BASE64URL"
  by code_simp

lemma letters_cookie_chars: "list_all (\<lambda>v. unat v < 64) vs \<Longrightarrow> list_all cookie_char (letters vs)"
  using list_all_nth [OF base64_cookie_chars] by (induction vs) (simp_all add: BASE64URL_def)

lemma hex_cookie_chars: "list_all cookie_char (hex_of bs)"
proof -
  have "list_all (\<lambda>d. cookie_char (hex_digit d)) [0..<16]" by code_simp
  then have digit: "d < 16 \<Longrightarrow> cookie_char (hex_digit d)" for d by (simp add: list_all_iff)
  have "unat b div 16 < 16" for b :: byte
    using unsigned_less [of b, where ?'a = nat] by (simp add: less_mult_imp_div_less)
  then show ?thesis by (induction bs) (simp_all add: hex_of_def digit)
qed

lemma digits_cookie_chars: "list_all cookie_char (show_nat n)"
  using show_nat_digits [of n] digit_plain
  by (auto simp: list_all_iff cookie_char_def is_digit_def digit_value_def)

lemma sign_cookie_chars:
  assumes "length login = 16"
  shows "list_all cookie_char (sign hmac token epoch kind iat expiry login)"
proof -
  have "list_all cookie_char (to_base64url login)"
    using encoding_encodes [of login "[]"] assms letters_cookie_chars [OF encoding_small]
    by (simp add: to_base64url_def)
  moreover have "list_all cookie_char (kind_tag kind)" proof -
    have "list_all cookie_char ''sr''" by code_simp
    then show ?thesis by (cases kind) simp_all
  qed
  moreover have "list_all cookie_char ''4.''" "list_all cookie_char ''.''" by code_simp+
  ultimately show ?thesis
    unfolding sign_def Let_def list_all_append mac_hex_def by (intro conjI digits_cookie_chars hex_cookie_chars)
qed

lemma split_char_whole: "sep \<notin> set s \<Longrightarrow> split_char sep cur s = [cur @ s]"
  by (induction s arbitrary: cur) auto

lemma header_roundtrip:
  assumes "length login = 16"
  shows "from_cookie_header (Some (COOKIE_NAME @ ''='' @ sign hmac token epoch kind iat expiry login)) =
    Some (sign hmac token epoch kind iat expiry login)"
proof -
  let ?v = "sign hmac token epoch kind iat expiry login"
  have name: "list_all cookie_char COOKIE_NAME" "list_all cookie_char ''=''" by code_simp+
  have chars: "list_all cookie_char (COOKIE_NAME @ ''='' @ ?v)"
    unfolding list_all_append by (intro conjI name sign_cookie_chars assms)
  then have "list_all plain_char (COOKIE_NAME @ ''='' @ ?v)"
    unfolding list_all_iff cookie_char_def by blast
  then have trim: "trim (COOKIE_NAME @ ''='' @ ?v) = COOKIE_NAME @ ''='' @ ?v" by (rule trim_plain)
  have "CHR '';'' \<notin> set (COOKIE_NAME @ ''='' @ ?v)"
    using chars unfolding list_all_iff cookie_char_def by blast
  from split_char_whole [OF this, of "[]"] show ?thesis
    unfolding from_cookie_header_def named_value_def
    by (simp only: Option.bind.simps append_Nil find_map.simps trim option.case, simp add: strip_prefix_def)
qed

text \<open>
  C40. A signed cookie survives the header and reads back as the claims it was signed for, exactly at the
  epoch it was signed at and before it expires: a bump of the epoch, or the end of its time, refuses
  every cookie.
\<close>

theorem cookie_roundtrip:
  assumes "epoch < 2 ^ 64" "iat < 2 ^ 64" "expiry < 2 ^ 64" "length login = 16"
  shows "let v = sign hmac token epoch kind iat expiry login
    in from_cookie_header (Some (COOKIE_NAME @ ''='' @ v)) = Some v \<and>
       verify_claims hmac token current v now =
         (if current = epoch \<and> now < expiry
          then Some \<lparr>cl_iat = iat, cl_exp = expiry, cl_kind = kind, cl_login = login\<rparr> else None)"
  using parse_signed [OF assms, of hmac token kind] header_roundtrip [OF assms(4)]
  by (auto simp: verify_claims_def Let_def)

theorem cookie_roundtrip_witness:
  "verify_claims (\<lambda>k m. k @ m) ''secret'' 3
     (sign (\<lambda>k m. k @ m) ''secret'' 3 Remembered 1000 2000 (replicate 16 7)) 1999 =
   Some \<lparr>cl_iat = 1000, cl_exp = 2000, cl_kind = Remembered, cl_login = replicate 16 7\<rparr>"
  using cookie_roundtrip [of 3 1000 2000 "replicate 16 7" "\<lambda>k m. k @ m" "''secret''" Remembered 3 1999]
  by (simp add: Let_def)

text \<open>
  The text under the MAC determines the epoch and every claim: no two different claims have the same
  one, so their MACs differ unless the MAC itself collides.
\<close>

lemma show_nat_inject: "show_nat m = show_nat n \<Longrightarrow> m < 2 ^ 64 \<Longrightarrow> n < 2 ^ 64 \<Longrightarrow> m = n"
  by (metis parse_show_nat option.inject)

lemma mac_text_determines:
  assumes eq: "mac_text e c = mac_text e' c'"
    and ok: "e < 2 ^ 64" "e' < 2 ^ 64" "cl_iat c < 2 ^ 64" "cl_iat c' < 2 ^ 64" "cl_exp c < 2 ^ 64" "cl_exp c' < 2 ^ 64"
      "length (cl_login c) = 16" "length (cl_login c') = 16"
  shows "e = e' \<and> c = (c' :: claims)"
proof -
  have split: "splitn 6 (CHR ''|'') [] (mac_text e c) =
      [''4'', show_nat e, show_nat (cl_iat c), show_nat (cl_exp c), kind_tag (cl_kind c), to_base64url (cl_login c)]"
    for e and c :: claims
  proof -
    have "CHR ''|'' \<notin> set (show_nat n)" for n by (rule digits_no_sep) (rule separators_free)
    then show ?thesis
      using splitn_fields(1) [of "CHR ''|''" "''4''" "show_nat e" "show_nat (cl_iat c)" "show_nat (cl_exp c)"
          "kind_tag (cl_kind c)" "to_base64url (cl_login c)"]
      by (simp add: mac_text_def kind_tag_no_sep)
  qed
  have same: "show_nat e = show_nat e'" "show_nat (cl_iat c) = show_nat (cl_iat c')" "show_nat (cl_exp c) = show_nat (cl_exp c')"
    "kind_tag (cl_kind c) = kind_tag (cl_kind c')" "to_base64url (cl_login c) = to_base64url (cl_login c')"
    using split [of e c] split [of e' c'] eq by simp_all
  have "cl_kind c = cl_kind c'" using same(4) by (metis kind_roundtrip option.inject)
  moreover have "cl_login c = cl_login c'"
    using same(5) by (metis login_roundtrip ok(7,8) option.inject)
  ultimately show ?thesis
    using same(1-3)[THEN show_nat_inject] ok by (simp add: claims.equality)
qed

end
