(* ===== verification/Auth_Login_Props.thy ===== *)
theory Auth_Login_Props
  imports Auth_Login Auth_Cookie_Props Stepwise
begin

text \<open>
  What the daemon's login promises: a code is used once, guesses are slow, a revoked login stays out, a
  network bind is never open, and the posture is lowered only with a fresh factor.
\<close>

section \<open>What the operations leave alone\<close>


lemma record_step_fields [simp]:
  "au_policy (record_step ok s st) = au_policy st" "au_bind_ip (record_step ok s st) = au_bind_ip st"
  "au_boot_token (record_step ok s st) = au_boot_token st"
  "au_revoked (record_step ok s st) = au_revoked st" "au_revoked_file (record_step ok s st) = au_revoked_file st"
  "au_store (record_step ok s st) = au_store st" "au_throttle (record_step ok s st) = au_throttle st"
  "au_last_step (record_step ok s st) = (if ok then Some s else au_last_step st)"
  by (simp_all add: record_step_def)

lemma throttle_record_fields [simp]:
  "au_policy (throttle_record b t st) = au_policy st" "au_bind_ip (throttle_record b t st) = au_bind_ip st"
  "au_boot_token (throttle_record b t st) = au_boot_token st"
  "au_revoked (throttle_record b t st) = au_revoked st" "au_revoked_file (throttle_record b t st) = au_revoked_file st"
  "au_store (throttle_record b t st) = au_store st" "au_last_step (throttle_record b t st) = au_last_step st"
  by (simp_all add: throttle_record_def)

lemma with_store_fields [simp]:
  "au_policy (with_store f st) = au_policy st" "au_bind_ip (with_store f st) = au_bind_ip st"
  "au_boot_token (with_store f st) = au_boot_token st"
  "au_revoked (with_store f st) = au_revoked st" "au_revoked_file (with_store f st) = au_revoked_file st"
  "au_store (with_store f st) = f (au_store st)" "au_last_step (with_store f st) = au_last_step st"
  by (simp_all add: with_store_def)

lemma rebuild_fields [simp]:
  "au_bind_ip (snd (rebuild rr now st)) = au_bind_ip st" "au_boot_token (snd (rebuild rr now st)) = au_boot_token st"
  "au_revoked (snd (rebuild rr now st)) =
     (if rr = FailBeforeRevoked then au_revoked st else revoked_load (au_revoked_file st) now)"
  "au_revoked_file (snd (rebuild rr now st)) = au_revoked_file st"
  "au_store (snd (rebuild rr now st)) = au_store st" "au_last_step (snd (rebuild rr now st)) = au_last_step st"
  by (simp_all add: rebuild_def reload_revoked_def Let_def split: sum.split)

lemma apply_auth_change_fields [simp]:
  "au_bind_ip (apply_auth_change rr b now st) = au_bind_ip st"
  "au_boot_token (apply_auth_change rr b now st) = au_boot_token st"
  "au_revoked (apply_auth_change rr b now st) =
     (if rr = FailBeforeRevoked then au_revoked st else revoked_load (au_revoked_file st) now)"
  "au_revoked_file (apply_auth_change rr b now st) = au_revoked_file st"
  "au_store (apply_auth_change rr b now st) = au_store st"
  "au_last_step (apply_auth_change rr b now st) = au_last_step st"
  "au_policy (apply_auth_change rr b now st) = au_policy (snd (rebuild rr now st))"
  by (simp_all add: apply_auth_change_def invalidate_sessions_def Let_def)

text \<open>What a step-up and a login leave alone; only they move the anti-replay marker forward.\<close>

lemma step_up_fields [simp]:
  "au_policy (snd (step_up kr ti code st)) = au_policy st" "au_bind_ip (snd (step_up kr ti code st)) = au_bind_ip st"
  "au_boot_token (snd (step_up kr ti code st)) = au_boot_token st"
  "au_revoked (snd (step_up kr ti code st)) = au_revoked st"
  "au_revoked_file (snd (step_up kr ti code st)) = au_revoked_file st"
  "au_store (snd (step_up kr ti code st)) = au_store st"
  by (simp_all add: step_up_def require_fresh_totp_def split: option.split sum.split unit.split)

lemma step_up_pair:
  "step_up kr ti code st = (x, st1) \<Longrightarrow>
   au_policy st1 = au_policy st \<and> au_bind_ip st1 = au_bind_ip st \<and> au_revoked st1 = au_revoked st \<and>
   au_revoked_file st1 = au_revoked_file st \<and> au_store st1 = au_store st"
  using step_up_fields [of kr ti code st] by simp

lemma login_fields [simp]:
  "au_policy (snd (login_submit kr rd ok m form now c r st)) = au_policy st"
  "au_bind_ip (snd (login_submit kr rd ok m form now c r st)) = au_bind_ip st"
  "au_boot_token (snd (login_submit kr rd ok m form now c r st)) = au_boot_token st"
  "au_revoked (snd (login_submit kr rd ok m form now c r st)) = au_revoked st"
  "au_revoked_file (snd (login_submit kr rd ok m form now c r st)) = au_revoked_file st"
  "au_store (snd (login_submit kr rd ok m form now c r st)) = au_store st"
  by (simp_all add: login_submit_def login_finish_def Let_def split: sum.split prod.split login_outcome.split)

lemma require_current_password_fields [simp]:
  "au_policy (snd (require_current_password kr h cur c r st)) = au_policy st"
  "au_bind_ip (snd (require_current_password kr h cur c r st)) = au_bind_ip st"
  "au_boot_token (snd (require_current_password kr h cur c r st)) = au_boot_token st"
  "au_revoked (snd (require_current_password kr h cur c r st)) = au_revoked st"
  "au_revoked_file (snd (require_current_password kr h cur c r st)) = au_revoked_file st"
  "au_store (snd (require_current_password kr h cur c r st)) = au_store st"
  "au_last_step (snd (require_current_password kr h cur c r st)) = au_last_step st"
  by (simp_all add: require_current_password_def split: option.split sum.split unit.split)

lemmas route_defs = confirm_totp_def revoke_totp_def set_password_def remint_token_def require_login_def
  remote_images_def enroll_totp_def

text \<open>A route runs its step-up and then changes the store, or stops there.\<close>

lemma step_up_cases:
  obtains (refused) r st1 where "step_up kr ti code st = (Inl r, st1)" "st1 = snd (step_up kr ti code st)"
  | (fresh) st1 where "step_up kr ti code st = (Inr (), st1)" "st1 = snd (step_up kr ti code st)"
  by (cases "step_up kr ti code st"; cases "fst (step_up kr ti code st)") auto

section \<open>Codes\<close>

lemma fresh_step_above: "fresh_step kr seed code now (Some l) = Some s \<Longrightarrow> l < s"
  by (auto simp: fresh_step_def split: Option.bind_splits if_splits)

text \<open>The step of the code an event consumed, if it consumed one.\<close>

definition step_up_used :: "crypto \<Rightarrow> timing \<Rightarrow> string option \<Rightarrow> auth_state \<Rightarrow> nat option" where
  "step_up_used kr ti code st =
     (case (seed_read ti st, code) of
        (Some seed, Some c) \<Rightarrow>
          if fst (step_up kr ti code st) = Inr () then matched_step kr seed (trim c) (ti_now ti) 1 else None
      | _ \<Rightarrow> None)"

definition login_used :: "crypto \<Rightarrow> timing \<Rightarrow> login_form \<Rightarrow> login_id \<Rightarrow> auth_state \<Rightarrow> nat option" where
  "login_used kr ti form minted st =
     (case login_reads (ti_marker_read ti) (ti_checked ti) st of
        Inl _ \<Rightarrow> None
      | Inr (sa, last_step) \<Rightarrow>
          (case login_checked kr sa (au_epoch st) minted (lf_code form) (lf_password form)
              (if lf_remember form then Remembered else Standard) (ti_now ti) last_step of
             LoginOk _ _ step _ \<Rightarrow> Some step
           | _ \<Rightarrow> None))"

definition used_step :: "crypto \<Rightarrow> timing \<Rightarrow> auth_event \<Rightarrow> auth_state \<Rightarrow> nat option" where
  "used_step kr ti ev st =
     (case ev of
        EvLogin form minted \<Rightarrow> login_used kr ti form minted st
      | EvRevokeTotp code \<Rightarrow> step_up_used kr ti code st
      | EvRemint _ code \<Rightarrow> step_up_used kr ti code st
      | EvRequireLogin enable _ code \<Rightarrow> if enable then None else step_up_used kr ti code st
      | EvRemoteImages enable code \<Rightarrow> if enable then step_up_used kr ti code st else None
      | _ \<Rightarrow> None)"

fun used_steps :: "crypto \<Rightarrow> (timing \<times> auth_event) list \<Rightarrow> auth_state \<Rightarrow> nat list" where
  "used_steps kr [] st = []"
| "used_steps kr ((ti, ev) # evs) st =
     (case used_step kr ti ev st of Some s \<Rightarrow> [s] | None \<Rightarrow> []) @ used_steps kr evs (auth_step kr ti ev st)"

definition marker_moves :: "nat option \<Rightarrow> nat option \<Rightarrow> nat option \<Rightarrow> bool" where
  "marker_moves used old new =
     (case used of
        Some s \<Rightarrow> new = Some s \<and> (case old of Some l \<Rightarrow> l < s | None \<Rightarrow> True)
      | None \<Rightarrow> new = old)"

lemma login_reads_marker: "login_reads rd c st = Inr (sa, l) \<Longrightarrow> l = last_step_read rd st"
  by (auto simp: login_reads_def split: sum.splits auth_policy.splits unit.splits)

lemma login_checked_marker:
  "login_checked kr sa e m code pw kind now l = LoginOk cookie k s m' \<Longrightarrow>
   matched_step kr (sa_totp sa) code now 1 = Some s \<and> (case l of Some x \<Rightarrow> x < s | None \<Rightarrow> True)"
  by (auto simp: login_checked_def split: option.splits if_splits)

lemma login_marker:
  assumes "ti_marker_ok ti" "ti_marker_read ti"
  shows "marker_moves (login_used kr ti form m st) (au_last_step st)
    (au_last_step (snd (login_submit kr (ti_marker_read ti) (ti_marker_ok ti) m form (ti_now ti) (ti_checked ti) r st)))"
proof (cases "login_reads (ti_marker_read ti) (ti_checked ti) st")
  case (Inl a)
  then show ?thesis by (simp add: marker_moves_def login_used_def login_submit_def)
next
  case (Inr reads)
  then obtain sa l where reads: "reads = (sa, l)" "l = au_last_step st"
    using login_reads_marker [of "ti_marker_read ti" "ti_checked ti" st] assms(2)
    by (cases reads) (simp add: last_step_read_def)
  show ?thesis
    using Inr reads assms login_checked_marker
    by (cases "login_checked kr sa (au_epoch st) m (lf_code form) (lf_password form)
          (if lf_remember form then Remembered else Standard) (ti_now ti) l")
      (auto simp: marker_moves_def login_used_def login_submit_def login_finish_def Let_def)
qed

lemma fresh_step_marker:
  "fresh_step kr seed code now l = Some s \<Longrightarrow>
   matched_step kr seed code now 1 = Some s \<and> (case l of Some x \<Rightarrow> x < s | None \<Rightarrow> True)"
  by (auto simp: fresh_step_def split: Option.bind_splits if_splits option.splits)

text \<open>An accepted step-up: without a seed read it costs nothing, and with one it consumed a fresh code.\<close>

lemma step_up_accepted:
  assumes "step_up kr ti code st = (Inr (), st1)" "seed_read ti st = Some seed"
  obtains c s where "code = Some c" "throttle_check (au_throttle st) (ti_checked ti) = Inr ()"
    "fresh_step kr seed (trim c) (ti_now ti) (last_step_read (ti_marker_read ti) st) = Some s"
    "st1 = throttle_record True (ti_recorded ti) (record_step (ti_marker_ok ti) s st)"
  using assms
  by (auto simp: step_up_def require_fresh_totp_def split: sum.splits unit.splits option.splits
      Option.bind_splits if_splits)

lemma step_up_refused_marker:
  "step_up kr ti code st = (Inl r, st1) \<Longrightarrow> au_last_step st1 = au_last_step st"
  by (auto simp: step_up_def require_fresh_totp_def split: sum.splits unit.splits option.splits)

lemma step_up_free: "seed_read ti st = None \<Longrightarrow> step_up kr ti code st = (Inr (), st)"
  by (simp add: step_up_def require_fresh_totp_def)

lemma step_up_marker:
  assumes "ti_marker_ok ti" "ti_marker_read ti"
  shows "marker_moves (step_up_used kr ti code st) (au_last_step st) (au_last_step (snd (step_up kr ti code st)))"
proof (cases "seed_read ti st")
  case None
  then show ?thesis by (simp add: marker_moves_def step_up_used_def step_up_free)
next
  case (Some seed)
  show ?thesis
  proof (cases rule: step_up_cases [of kr ti code st])
    case (refused r st1)
    have "fst (step_up kr ti code st) = Inl r" by (simp only: refused(1) fst_conv)
    moreover have "au_last_step (snd (step_up kr ti code st)) = au_last_step st"
      using step_up_refused_marker [OF refused(1)] by (simp only: refused(2))
    ultimately show ?thesis
      by (auto simp: marker_moves_def step_up_used_def split: option.split)
  next
    case (fresh st1)
    show ?thesis
      by (rule step_up_accepted [OF fresh(1) Some])
        (use fresh Some assms fresh_step_marker in
          \<open>fastforce simp: marker_moves_def step_up_used_def last_step_read_def\<close>)
  qed
qed


lemma route_markers:
  "au_last_step (snd (remint_token kr ti t code st)) = au_last_step (snd (step_up kr ti code st))"
  "au_last_step (snd (require_login kr ti False t code st)) = au_last_step (snd (step_up kr ti code st))"
  "au_last_step (snd (require_login kr ti True t code st)) = au_last_step st"
  "au_last_step (snd (remote_images kr ti True code st)) = au_last_step (snd (step_up kr ti code st))"
  "au_last_step (snd (remote_images kr ti False code st)) = au_last_step st"
  "au_last_step (snd (confirm_totp kr ti c st)) = au_last_step st"
  "au_last_step (enroll_totp seed st) = au_last_step st"
  by (simp_all add: route_defs split: prod.split sum.split unit.split option.split)

lemma set_password_fields [simp]:
  "au_last_step (snd (set_password kr ti pw h cur st)) = au_last_step st"
  "au_revoked_file (snd (set_password kr ti pw h cur st)) = au_revoked_file st"
proof -
  let ?r = "require_current_password kr (password_read ti st) cur (ti_checked ti) (ti_recorded ti) st"
  have "au_last_step (snd ?r) = au_last_step st" "au_revoked_file (snd ?r) = au_revoked_file st" by simp_all
  then show "au_last_step (snd (set_password kr ti pw h cur st)) = au_last_step st"
    "au_revoked_file (snd (set_password kr ti pw h cur st)) = au_revoked_file st"
    by (cases ?r; simp add: set_password_def split: option.split sum.split unit.split)+
qed

lemma other_fields [simp]:
  "au_last_step (invalidate_sessions st) = au_last_step st" "au_revoked (invalidate_sessions st) = au_revoked st"
  "au_revoked_file (invalidate_sessions st) = au_revoked_file st" "au_policy (invalidate_sessions st) = au_policy st"
  "au_bind_ip (invalidate_sessions st) = au_bind_ip st" "au_store (invalidate_sessions st) = au_store st"
  "au_last_step (snd (revoke_login ok l now st)) = au_last_step st"
  "au_policy (snd (revoke_login ok l now st)) = au_policy st" "au_bind_ip (snd (revoke_login ok l now st)) = au_bind_ip st"
  "au_store (snd (revoke_login ok l now st)) = au_store st"
  by (simp_all add: invalidate_sessions_def revoke_login_def Let_def)

definition not_totp_revoke :: "auth_event \<Rightarrow> bool" where
  "not_totp_revoke ev = (case ev of EvRevokeTotp _ \<Rightarrow> False | _ \<Rightarrow> True)"

lemma auth_step_marker:
  assumes "ti_marker_ok ti" "ti_marker_read ti" "not_totp_revoke ev"
  shows "marker_moves (used_step kr ti ev st) (au_last_step st) (au_last_step (auth_step kr ti ev st))"
proof (cases ev)
  case (EvRequireLogin enable new_token code)
  then show ?thesis
    using step_up_marker [OF assms(1,2), of kr code st]
    by (cases enable) (simp_all add: auth_step_def used_step_def route_markers, simp add: marker_moves_def)
next
  case (EvRemoteImages enable code)
  then show ?thesis
    using step_up_marker [OF assms(1,2), of kr code st]
    by (cases enable) (simp_all add: auth_step_def used_step_def route_markers, simp add: marker_moves_def)
next
  case (EvLogin form minted)
  then show ?thesis
    using login_marker [OF assms(1,2), of kr form minted st "ti_recorded ti"] by (simp add: auth_step_def used_step_def)
next
  case (EvRemint new_token code)
  then show ?thesis
    using step_up_marker [OF assms(1,2), of kr code st] by (simp add: auth_step_def used_step_def route_markers)
qed (use assms(3) in \<open>simp_all add: auth_step_def used_step_def route_markers marker_moves_def not_totp_revoke_def\<close>)

lemma used_steps_increase:
  "list_all (\<lambda>(ti, ev). ti_marker_ok ti \<and> ti_marker_read ti \<and> not_totp_revoke ev) evs \<Longrightarrow>
   sorted_wrt (<) (used_steps kr evs st) \<and>
   (\<forall>l. au_last_step st = Some l \<longrightarrow> list_all (\<lambda>s. l < s) (used_steps kr evs st))"
proof (induction evs arbitrary: st)
  case (Cons x evs)
  obtain ti ev where x: "x = (ti, ev)" by (cases x)
  let ?st = "auth_step kr ti ev st"
  have moves: "marker_moves (used_step kr ti ev st) (au_last_step st) (au_last_step ?st)"
    using Cons.prems by (intro auth_step_marker) (simp_all add: x)
  have IH: "sorted_wrt (<) (used_steps kr evs ?st)"
    "\<And>l. au_last_step ?st = Some l \<Longrightarrow> list_all (\<lambda>s. l < s) (used_steps kr evs ?st)"
    using Cons.IH [of ?st] Cons.prems by (simp_all add: x)
  show ?case
  proof (cases "used_step kr ti ev st")
    case None
    with moves IH show ?thesis by (simp add: x marker_moves_def)
  next
    case (Some s)
    with moves have new: "au_last_step ?st = Some s" "\<And>l. au_last_step st = Some l \<Longrightarrow> l < s"
      by (auto simp: marker_moves_def)
    with IH(2) have "list_all (\<lambda>s'. s < s') (used_steps kr evs ?st)" by blast
    with Some IH(1) new(2) show ?thesis by (fastforce simp: x list_all_iff)
  qed
qed simp

text \<open>
  C36. Over requests that are handled one after another, while the anti-replay marker can be read and
  written and TOTP is not revoked, the time steps of the codes that logins and step-ups accept only
  increase, whatever else happens in between: no code is ever accepted twice, not for a login and not for
  a step-up after it.  (Requests that overlap are outside this: \<open>overlapping_logins_share_a_code\<close>.)
\<close>

theorem codes_are_used_once:
  assumes "list_all (\<lambda>(ti, ev). ti_marker_ok ti \<and> ti_marker_read ti \<and> not_totp_revoke ev) evs"
  shows "sorted_wrt (<) (used_steps kr evs st) \<and> distinct (used_steps kr evs st)"
  using used_steps_increase [OF assms, of kr st] by (auto simp: strict_sorted_iff)

definition sample_crypto :: crypto where
  "sample_crypto = \<lparr>cr_hmac = (\<lambda>k m. replicate 20 0), cr_pbkdf2 = (\<lambda>p s n. p)\<rparr>"

definition sample_state :: auth_state where
  "sample_state =
     \<lparr>au_policy = Session \<lparr>sa_token = ''key'', sa_totp = [1], sa_password = None\<rparr>,
      au_bind_ip = V4 10 0 0 1, au_boot_token = None, au_epoch = 0, au_last_step = None, au_revoked = [],
      au_revoked_file = [], au_throttle = throttle_new, au_remote_images = False,
      au_store = \<lparr>ds_token = Some ''key'', ds_seed = Some [1], ds_pending = None, ds_password = None,
        ds_require_login = False, ds_require_token = False, ds_remote_images = False\<rparr>\<rparr>"

definition sample_timing :: timing where
  "sample_timing = \<lparr>ti_now = 60, ti_checked = 0, ti_recorded = 0, ti_marker_ok = True, ti_marker_read = True,
      ti_seed_read = True, ti_password_read = True, ti_rebuild = AllRead\<rparr>"

definition sample_form :: login_form where
  "sample_form = \<lparr>lf_code = ''000000'', lf_password = None, lf_remember = False\<rparr>"

text \<open>The same code again is a replay.\<close>

lemma sample_code: "code_at sample_crypto seed w = ''000000''"
proof -
  have "six_digits 0 = ''000000''" by code_simp
  then show ?thesis by (simp add: code_at_def sample_crypto_def Let_def)
qed

lemma sample_step: "matched_step sample_crypto seed ''000000'' 60 1 = Some 1"
  by (simp add: matched_step_def sample_code PERIOD_def upto.simps Let_def)

lemma login_reads_open:
  "th_locked_until (au_throttle st) = None \<Longrightarrow> au_policy st = Session sa \<Longrightarrow>
   login_reads True c st = Inr (sa, au_last_step st)"
  by (simp add: login_reads_def throttle_check_def last_step_read_def)

lemma sample_login:
  assumes "th_locked_until (au_throttle st) = None" "au_policy st = au_policy sample_state"
  shows "login_used sample_crypto sample_timing sample_form [] st =
      (case au_last_step st of Some l \<Rightarrow> if 1 \<le> l then None else Some 1 | None \<Rightarrow> Some 1)"
    "au_last_step st = None \<Longrightarrow> auth_step sample_crypto sample_timing (EvLogin sample_form []) st =
       throttle_record True 0 (record_step True 1 st)"
proof -
  have "login_reads True 0 st =
      Inr (\<lparr>sa_token = ''key'', sa_totp = [1], sa_password = None\<rparr>, au_last_step st)"
    using assms by (intro login_reads_open) (simp_all add: sample_state_def)
  then show "login_used sample_crypto sample_timing sample_form [] st =
      (case au_last_step st of Some l \<Rightarrow> if 1 \<le> l then None else Some 1 | None \<Rightarrow> Some 1)"
    "au_last_step st = None \<Longrightarrow> auth_step sample_crypto sample_timing (EvLogin sample_form []) st =
       throttle_record True 0 (record_step True 1 st)"
    by (simp_all add: login_used_def login_checked_def auth_step_def login_submit_def login_finish_def
        sample_timing_def sample_form_def sample_step Let_def split: option.split)
qed

lemma sample_used_steps:
  "used_steps sample_crypto [(sample_timing, EvLogin sample_form []), (sample_timing, EvLogin sample_form [])]
     sample_state = [1]"
proof -
  have start: "th_locked_until (au_throttle sample_state) = None" "au_last_step sample_state = None"
    by (simp_all add: sample_state_def throttle_new_def)
  let ?st = "throttle_record True 0 (record_step True 1 sample_state)"
  have after: "th_locked_until (au_throttle ?st) = None" "au_policy ?st = au_policy sample_state"
    by (simp_all add: throttle_record_def throttle_reset_def)
  show ?thesis
    by (simp add: used_step_def sample_login(1) [OF start(1) refl] sample_login(2) [OF start(1) refl start(2)]
        sample_login(1) [OF after] start(2)
        del: One_nat_def)
qed

theorem codes_are_used_once_witness:
  "distinct (used_steps sample_crypto [(sample_timing, EvLogin sample_form []), (sample_timing, EvLogin sample_form [])]
     sample_state) \<and>
   used_steps sample_crypto [(sample_timing, EvLogin sample_form []), (sample_timing, EvLogin sample_form [])]
     sample_state = [1]"
  using sample_used_steps codes_are_used_once [of "[(sample_timing, EvLogin sample_form []), (sample_timing, EvLogin sample_form [])]"
      sample_crypto sample_state]
  by (simp add: sample_timing_def not_totp_revoke_def)

text \<open>
  The handlers of two requests can overlap, since nothing is held from the read of the marker to its
  write: then one code logs in twice.
\<close>

lemma overlapping_logins_share_a_code:
  assumes "login_reads rd c st = Inr reads"
    "login_finish kr ok m1 form now r1 reads st = (LoggedIn cookie kind l, st1)"
  shows "\<exists>cookie2. fst (login_finish kr ok m2 form now r2 reads st1) = LoggedIn cookie2 kind m2"
  using assms
  by (auto simp: login_finish_def login_checked_def Let_def split: prod.splits option.splits if_splits)


section \<open>The throttle\<close>

text \<open>A run of failed attempts, each let through by the check at one instant and recorded at another.\<close>

fun guesses :: "(nat \<times> nat) list \<Rightarrow> throttle \<Rightarrow> throttle option" where
  "guesses [] th = Some th"
| "guesses ((checked, recorded) # gs) th =
     (if throttle_check th checked = Inr () then guesses gs (record_failure recorded th) else None)"

lemma guesses_append: "guesses (gs @ hs) th = Option.bind (guesses gs th) (guesses hs)"
  by (induction gs arbitrary: th) auto

lemma lockout_bounds: "lockout_secs k \<le> 300" "11 \<le> k \<Longrightarrow> lockout_secs k = 300"
proof -
  show "lockout_secs k \<le> 300" by (simp add: lockout_secs_def LOCKOUT_MAX_SECS_def Let_def)
  assume "11 \<le> k"
  then have "min (k - LOCKOUT_THRESHOLD) 6 = 6" by (simp add: LOCKOUT_THRESHOLD_def)
  then show "lockout_secs k = 300"
    by (simp add: lockout_secs_def LOCKOUT_MAX_SECS_def LOCKOUT_BASE_SECS_def Let_def)
qed

text \<open>After a run of failures the throttle has counted them, and is locked from the fifth on.\<close>

lemma guesses_result:
  assumes "guesses gs throttle_new = Some th" "gs \<noteq> []" "length gs < 2 ^ 32"
    "sorted (concat (map (\<lambda>(c, r). [c, r]) gs))"
  shows "th_failures th = length gs \<and>
    th_locked_until th =
      (if length gs \<ge> 5 then Some (snd (last gs) + lockout_secs (length gs) * NANOS) else None) \<and>
    snd (hd gs) + sum_list (map lockout_secs [5..<length gs]) * NANOS \<le> snd (last gs)"
  using assms
proof (induction gs arbitrary: th rule: rev_induct)
  case (snoc g gs)
  obtain c r where g: "g = (c, r)" by (cases g)
  from snoc.prems(1) obtain th0 where th0: "guesses gs throttle_new = Some th0"
    "throttle_check th0 c = Inr ()" "th = record_failure r th0"
    by (auto simp: guesses_append g split: Option.bind_splits if_splits)
  show ?case
  proof (cases "gs = []")
    case True
    with th0 show ?thesis
      by (auto simp: g record_failure_def throttle_new_def LOCKOUT_THRESHOLD_def Let_def)
  next
    case False
    obtain a b where ab: "last gs = (a, b)" by (cases "last gs")
    then have "(a, b) \<in> set gs" using last_in_set [OF False] by simp
    then have sorted: "sorted (concat (map (\<lambda>(c, r). [c, r]) gs))" "snd (last gs) \<le> c" "c \<le> r"
      using snoc.prems(4) ab by (fastforce simp: g sorted_append)+
    have IH: "th_failures th0 = length gs"
      "th_locked_until th0 = (if length gs \<ge> 5 then Some (snd (last gs) + lockout_secs (length gs) * NANOS) else None)"
      "snd (hd gs) + sum_list (map lockout_secs [5..<length gs]) * NANOS \<le> snd (last gs)"
      using snoc.IH [OF th0(1) False _ sorted(1)] snoc.prems(3) by simp_all
    have wait: "5 \<le> length gs \<Longrightarrow> snd (last gs) + lockout_secs (length gs) * NANOS \<le> c"
      using th0(2) IH(2) by (auto simp: throttle_check_def split: if_splits)
    have "snd (hd gs) + sum_list (map lockout_secs [5..<Suc (length gs)]) * NANOS \<le> r"
    proof (cases "5 \<le> length gs")
      case True
      then show ?thesis using wait IH(3) sorted(3) by (simp add: add_mult_distrib)
    next
      case False
      then show ?thesis using IH(3) sorted(2,3) by simp
    qed
    then show ?thesis
      using False snoc.prems(3) IH(1,2) by (auto simp: g th0(3) record_failure_def LOCKOUT_THRESHOLD_def Let_def)
  qed
qed simp

text \<open>What is documented: four attempts are free, the fifth failure costs 5 seconds, each further one twice as much, up to 300.\<close>

definition wait_after :: "nat \<Rightarrow> nat" where
  "wait_after failures =
     (if failures < 5 then 0
      else if failures < 11 then [5, 10, 20, 40, 80, 160] ! (failures - 5)
      else 300)"

lemma lockout_wait:
  assumes "5 \<le> k"
  shows "lockout_secs k = wait_after k"
proof (cases "11 \<le> k")
  case True
  then show ?thesis by (simp add: lockout_bounds(2) wait_after_def)
next
  case False
  with assms have "k \<in> {5, 6, 7, 8, 9, 10}" by auto
  then show ?thesis
    by (auto simp: wait_after_def lockout_secs_def LOCKOUT_THRESHOLD_def LOCKOUT_BASE_SECS_def LOCKOUT_MAX_SECS_def)
qed

lemma wait_after_free: "k < 5 \<Longrightarrow> wait_after k = 0"
  by (simp add: wait_after_def)

lemma lockout_total:
  assumes "11 \<le> n"
  shows "sum_list (map lockout_secs [5..<n]) = 315 + 300 * (n - 11)"
  using assms
proof (induction n rule: dec_induct)
  case base
  have "[5..<11] = [5, 6, 7, 8, 9, 10::nat]" by (simp add: upt_rec)
  then show ?case by (simp add: lockout_wait wait_after_def)
next
  case (step n)
  then show ?case by (simp add: lockout_bounds(2) Suc_diff_le)
qed

text \<open>After a run of failures the check lets an attempt through exactly when the wait is over.\<close>

lemma check_after_guesses:
  assumes "guesses gs throttle_new = Some th" "gs \<noteq> []" "length gs < 2 ^ 32"
    "sorted (concat (map (\<lambda>(c, r). [c, r]) gs))" "snd (last gs) \<le> now"
  shows "throttle_check th now = Inr () \<longleftrightarrow> snd (last gs) + wait_after (length gs) * NANOS \<le> now"
proof (cases "5 \<le> length gs")
  case True
  with guesses_result [OF assms(1-4)] show ?thesis by (auto simp: throttle_check_def lockout_wait)
next
  case False
  with guesses_result [OF assms(1-4)] assms(5) show ?thesis by (simp add: throttle_check_def wait_after_free)
qed

lemma guesses_at:
  assumes "guesses gs th0 = Some th" "i < length gs"
  obtains th' where "guesses (take i gs) th0 = Some th'" "throttle_check th' (fst (gs ! i)) = Inr ()"
proof -
  have "guesses (take i gs @ gs ! i # drop (Suc i) gs) th0 = Some th"
    using assms id_take_nth_drop [of i gs] by simp
  then show thesis
    using that by (cases "gs ! i") (auto simp: guesses_append split: Option.bind_splits if_splits)
qed

lemma sorted_instants_take:
  assumes "sorted (concat (map (\<lambda>(c, r). [c, r]) gs))"
  shows "sorted (concat (map (\<lambda>(c, r). [c, r]) (take i gs)))"
proof -
  have "sorted (concat (map (\<lambda>(c, r). [c, r]) (take i gs @ drop i gs)))" using assms by simp
  then show ?thesis by (simp only: map_append concat_append sorted_append)
qed

lemma instants_in:
  "g \<in> set gs \<Longrightarrow> fst g \<in> set (concat (map (\<lambda>(c, r). [c, r]) gs)) \<and>
     snd g \<in> set (concat (map (\<lambda>(c, r). [c, r]) gs))"
  by (induction gs) auto

lemma instants_follow:
  assumes "sorted (concat (map (\<lambda>(c, r). [c, r]) gs))" "Suc i < length gs"
  shows "snd (gs ! i) \<le> fst (gs ! Suc i)"
proof -
  let ?c = "concat (map (\<lambda>(c, r). [c, r]) (take (Suc i) gs))"
    and ?d = "concat (map (\<lambda>(c, r). [c, r]) (drop (Suc i) gs))"
  have "sorted (concat (map (\<lambda>(c, r). [c, r]) (take (Suc i) gs @ drop (Suc i) gs)))" using assms by simp
  then have le: "\<And>x y. x \<in> set ?c \<Longrightarrow> y \<in> set ?d \<Longrightarrow> x \<le> y"
    by (simp only: map_append concat_append sorted_append)
  have "gs ! i \<in> set (take (Suc i) gs)"
    using assms(2) by (simp add: take_Suc_conv_app_nth)
  then have "snd (gs ! i) \<in> set ?c" by (rule instants_in [THEN conjunct2])
  moreover have "gs ! Suc i \<in> set (drop (Suc i) gs)"
    using assms(2) by (simp add: Cons_nth_drop_Suc [symmetric])
  then have "fst (gs ! Suc i) \<in> set ?d" by (rule instants_in [THEN conjunct1])
  ultimately show ?thesis by (rule le)
qed

text \<open>
  C39. Guessing is slow and the operator is never locked out for long.  In a run of failed attempts made one
  after another, each checked only after the one before was recorded, the attempt after the \<open>k\<close>-th failure
  is let through exactly from \<open>wait_after k\<close> seconds after that failure on: at once up to the fourth, then
  5, 10, 20, 40, 80 and 160 seconds, and 300 from the eleventh on.  So \<open>n \<ge> 11\<close> failures take at least
  \<open>315 + 300 * (n - 11)\<close> seconds.
\<close>

theorem throttle_slows_guessing:
  assumes "guesses gs throttle_new = Some th" "gs \<noteq> []" "length gs < 2 ^ 32"
    "sorted (concat (map (\<lambda>(c, r). [c, r]) gs))"
  shows "(\<forall>now\<ge>snd (last gs).
      throttle_check th now = Inr () \<longleftrightarrow> snd (last gs) + wait_after (length gs) * NANOS \<le> now) \<and>
    (\<forall>i. Suc i < length gs \<longrightarrow> snd (gs ! i) + wait_after (Suc i) * NANOS \<le> fst (gs ! Suc i)) \<and>
    (11 \<le> length gs \<longrightarrow> snd (hd gs) + (315 + 300 * (length gs - 11)) * NANOS \<le> snd (last gs))"
proof (intro conjI allI impI)
  fix now assume "snd (last gs) \<le> now"
  then show "throttle_check th now = Inr () \<longleftrightarrow> snd (last gs) + wait_after (length gs) * NANOS \<le> now"
    by (rule check_after_guesses [OF assms])
next
  fix i assume i: "Suc i < length gs"
  obtain th' where th': "guesses (take (Suc i) gs) throttle_new = Some th'"
    "throttle_check th' (fst (gs ! Suc i)) = Inr ()"
    using guesses_at [OF assms(1) i] by blast
  have last: "last (take (Suc i) gs) = gs ! i" "length (take (Suc i) gs) = Suc i" "take (Suc i) gs \<noteq> []"
    using i by (simp_all add: take_Suc_conv_app_nth)
  have "snd (last (take (Suc i) gs)) \<le> fst (gs ! Suc i)"
    using instants_follow [OF assms(4) i] last(1) by simp
  from check_after_guesses [OF th'(1) last(3) _ sorted_instants_take [OF assms(4)] this]
  show "snd (gs ! i) + wait_after (Suc i) * NANOS \<le> fst (gs ! Suc i)"
    using th'(2) last(1,2) i assms(3) by simp
next
  assume "11 \<le> length gs"
  with guesses_result [OF assms] lockout_total
  show "snd (hd gs) + (315 + 300 * (length gs - 11)) * NANOS \<le> snd (last gs)" by simp
qed

definition sample_guesses :: "(nat \<times> nat) list" where
  "sample_guesses = map (\<lambda>t. (t * NANOS, t * NANOS)) [0, 1, 2, 3, 4, 9, 19, 39, 79, 159, 319, 619]"

theorem throttle_slows_guessing_witness:
  "throttle_check \<lparr>th_failures = 12, th_locked_until = Some (919 * NANOS)\<rparr> (919 * NANOS) = Inr () \<and>
   throttle_check \<lparr>th_failures = 12, th_locked_until = Some (919 * NANOS)\<rparr> (918 * NANOS) \<noteq> Inr () \<and>
   snd (hd sample_guesses) + 615 * NANOS \<le> snd (last sample_guesses)"
proof -
  have "guesses sample_guesses throttle_new = Some \<lparr>th_failures = 12, th_locked_until = Some (919 * NANOS)\<rparr>"
    by (simp add: sample_guesses_def throttle_new_def throttle_check_def record_failure_def lockout_secs_def
        LOCKOUT_THRESHOLD_def LOCKOUT_BASE_SECS_def LOCKOUT_MAX_SECS_def NANOS_def Let_def)
  moreover have "length sample_guesses = 12" "sample_guesses \<noteq> []" "snd (last sample_guesses) = 619 * NANOS"
    by (simp_all add: sample_guesses_def)
  moreover have "sorted (concat (map (\<lambda>(c, r). [c, r]) sample_guesses))"
    by (simp add: sample_guesses_def NANOS_def)
  ultimately show ?thesis
    using throttle_slows_guessing [of sample_guesses "\<lparr>th_failures = 12, th_locked_until = Some (919 * NANOS)\<rparr>"]
    by (simp add: wait_after_def NANOS_def)
qed


section \<open>Revoked logins\<close>

definition on_list :: "login_id \<Rightarrow> nat \<Rightarrow> revoked_entry list \<Rightarrow> bool" where
  "on_list login cap es \<longleftrightarrow> (\<exists>e\<in>set es. rv_login e = login \<and> cap \<le> rv_cap e)"

lemma on_list_contains: "on_list login cap es \<Longrightarrow> revoked_contains es login"
  by (auto simp: on_list_def revoked_contains_def list_ex_iff)

lemma on_list_load:
  "on_list login cap (List.map_filter parse_line file) \<Longrightarrow> now < cap \<Longrightarrow> on_list login cap (revoked_load file now)"
  by (auto simp: on_list_def revoked_load_def)

lemma on_list_raise: "on_list login cap es \<Longrightarrow> on_list login cap (raise_cap l c es)"
  by (induction es) (auto simp: on_list_def)

lemma on_list_raised: "on_list login cap (raise_cap login cap es)"
  by (induction es) (auto simp: on_list_def)

lemma on_list_add: "on_list login cap es \<Longrightarrow> now < cap \<Longrightarrow> on_list login cap (revoked_add es l c now)"
  unfolding revoked_add_def by (rule on_list_raise) (auto simp: on_list_def)

text \<open>The file reads back: a login id is written as its canonical spelling.\<close>

lemma on_list_write:
  assumes "on_list login cap es" "length login = 16"
  shows "on_list login cap (List.map_filter parse_line (revoked_write es))"
proof -
  obtain e where e: "e \<in> set es" "rv_login e = login" "cap \<le> rv_cap e"
    using assms(1) by (auto simp: on_list_def)
  then have "parse_line \<lparr>ln_login = to_base64url (rv_login e), ln_cap = rv_cap e\<rparr> = Some e"
    using login_roundtrip [OF assms(2)] by (simp add: parse_line_def)
  moreover have "\<lparr>ln_login = to_base64url (rv_login e), ln_cap = rv_cap e\<rparr> \<in> set (revoked_write es)"
    using e(1) by (auto simp: revoked_write_def)
  ultimately have "e \<in> set (List.map_filter parse_line (revoked_write es))"
    by (force simp: List.map_filter_def)
  with e show ?thesis by (auto simp: on_list_def)
qed

definition kept_out :: "login_id \<Rightarrow> nat \<Rightarrow> auth_state \<Rightarrow> bool" where
  "kept_out login cap st \<longleftrightarrow>
     on_list login cap (au_revoked st) \<and> on_list login cap (List.map_filter parse_line (au_revoked_file st))"

lemma kept_out_revoke:
  assumes "revoke_login ok login now st = (True, st')" "length login = 16"
    "now + REMEMBERED_ABSOLUTE_TTL_SECS < 2 ^ 64"
  shows "kept_out login (now + REMEMBERED_ABSOLUTE_TTL_SECS) st'"
  using assms on_list_raised on_list_write [OF on_list_raised assms(2)]
  by (auto simp: revoke_login_def kept_out_def revoked_add_def Let_def min_absorb2 split: if_splits)

text \<open>The lists change only by a load from the file and by a revocation.\<close>

lemma lists_after:
  "(case ev of EvRevoke _ _ \<Rightarrow> False | _ \<Rightarrow> True) \<Longrightarrow>
   au_revoked_file (auth_step kr ti ev st) = au_revoked_file st \<and>
   (au_revoked (auth_step kr ti ev st) = au_revoked st \<or>
    au_revoked (auth_step kr ti ev st) = revoked_load (au_revoked_file st) (ti_now ti))"
proof (cases ev)
  case (EvPassword password hashed current)
  let ?r = "require_current_password kr (password_read ti st) current (ti_checked ti) (ti_recorded ti) st"
  have "au_revoked (snd ?r) = au_revoked st" "au_revoked_file (snd ?r) = au_revoked_file st" by simp_all
  then have "au_revoked (snd (set_password kr ti password hashed current st)) = au_revoked st \<or>
      au_revoked (snd (set_password kr ti password hashed current st)) = revoked_load (au_revoked_file st) (ti_now ti)"
    by (cases ?r) (auto simp: set_password_def split: option.split sum.split)
  with EvPassword show ?thesis by (simp add: auth_step_def)
next
  case (EvRevokeTotp code)
  then show ?thesis
    by (auto simp: auth_step_def revoke_totp_def split: prod.split sum.split dest!: step_up_pair)
next
  case (EvRemint new_token code)
  then show ?thesis
    by (auto simp: auth_step_def remint_token_def split: prod.split sum.split dest!: step_up_pair)
next
  case (EvRequireLogin enable new_token code)
  then show ?thesis
    by (auto simp: auth_step_def require_login_def split: prod.split sum.split dest!: step_up_pair)
next
  case (EvRemoteImages enable code)
  then show ?thesis
    by (auto simp: auth_step_def remote_images_def split: prod.split sum.split dest!: step_up_pair)
qed (auto simp: auth_step_def confirm_totp_def enroll_totp_def split: option.split)

lemma kept_out_step:
  assumes "kept_out login cap st" "ti_now ti < cap" "length login = 16"
  shows "kept_out login cap (auth_step kr ti ev st)"
proof (cases "case ev of EvRevoke _ _ \<Rightarrow> False | _ \<Rightarrow> True")
  case True
  from lists_after [OF this, of kr ti st] assms(1) on_list_load [OF _ assms(2)] show ?thesis
    by (auto simp: kept_out_def)
next
  case False
  then obtain l ok where ev: "ev = EvRevoke l ok" by (cases ev) simp_all
  have "on_list login cap (revoked_add (revoked_load (au_revoked_file st) (ti_now ti)) l c (ti_now ti))" for c
    using assms(1,2) by (intro on_list_add on_list_load) (simp_all add: kept_out_def)
  with assms(1) on_list_write [OF _ assms(3)] show ?thesis
    by (simp add: ev auth_step_def revoke_login_def kept_out_def Let_def)
qed

interpretation kept: stepwise "\<lambda>(ti, ev). auth_step kr ti ev" "\<lambda>(ti, ev). ti_now ti < cap"
    "\<lambda>st. kept_out login cap st \<and> length login = 16" for kr cap login
  by unfold_locales (auto simp: kept_out_step)

lemma kept_out_run:
  "kept_out login cap st \<Longrightarrow> list_all (\<lambda>(ti, ev). ti_now ti < cap) evs \<Longrightarrow> length login = 16 \<Longrightarrow>
   kept_out login cap (auth_run kr evs st)"
  using kept.run [of cap evs login st kr] by (simp add: auth_run_def)

lemma slide_exp_capped: "slide_exp kind iat now \<le> iat + REMEMBERED_ABSOLUTE_TTL_SECS"
  by (cases kind) (simp_all add: slide_exp_def SESSION_ABSOLUTE_TTL_SECS_def REMEMBERED_ABSOLUTE_TTL_SECS_def)

text \<open>
  C37. Once a login is revoked, none of its cookies is accepted again, however often it was slid and
  whatever happens to the state: the list is kept, on disk and in memory, for as long as a cookie of that
  login could still be valid.
\<close>

theorem revoked_login_stays_out:
  assumes revoked: "revoke_login ok login at st = (True, st')" "length login = 16"
      "at + REMEMBERED_ABSOLUTE_TTL_SECS < 2 ^ 64"
    and cookie: "from_cookie_header header = Some (sign (cr_hmac kr) key epoch kind iat (slide_exp kind iat slid) login)"
      "iat \<le> at" "epoch < 2 ^ 64"
    and later: "list_all (\<lambda>(ti, ev). ti_now ti \<le> now) evs"
  shows "cookie_login kr sa (auth_run kr evs st') header now = None"
proof -
  let ?cap = "at + REMEMBERED_ABSOLUTE_TTL_SECS" and ?st = "auth_run kr evs st'"
  have expiry: "slide_exp kind iat slid \<le> ?cap" using slide_exp_capped [of kind iat slid] cookie(2) by simp
  then have parsed: "parse_value (sign (cr_hmac kr) key epoch kind iat (slide_exp kind iat slid) login) =
      (let c = \<lparr>cl_iat = iat, cl_exp = slide_exp kind iat slid, cl_kind = kind, cl_login = login\<rparr>
       in Some (epoch, c, mac_hex (cr_hmac kr) key epoch c))"
    using cookie revoked(2,3) by (intro parse_signed) simp_all
  show ?thesis
  proof (cases "now < ?cap")
    case True
    then have "list_all (\<lambda>(ti, ev). ti_now ti < ?cap) evs"
      using later by (auto simp: list_all_iff)
    then have "kept_out login ?cap ?st"
      using kept_out_run [OF kept_out_revoke [OF revoked]] revoked(2) by blast
    then have "revoked_contains (au_revoked ?st) login"
      by (auto simp: kept_out_def dest: on_list_contains)
    with cookie(1) parsed show ?thesis
      by (auto simp: cookie_login_def live_claims_def verify_claims_def Let_def)
  next
    case False
    with cookie(1) parsed expiry show ?thesis
      by (auto simp: cookie_login_def live_claims_def verify_claims_def Let_def)
  qed
qed


theorem revoked_login_stays_out_witness:
  "cookie_login sample_crypto \<lparr>sa_token = ''key'', sa_totp = [1], sa_password = None\<rparr>
     (auth_run sample_crypto [(sample_timing, EvLogout), (sample_timing, EvRemint ''new'' None)]
        (snd (revoke_login True (replicate 16 0) 50 sample_state)))
     (Some (COOKIE_NAME @ ''='' @ sign (cr_hmac sample_crypto) ''key'' 0 Standard 40 (slide_exp Standard 40 45) (replicate 16 0)))
     70 = None"
proof (rule revoked_login_stays_out [where at = 50 and key = "''key''" and epoch = 0 and kind = Standard
      and iat = 40 and slid = 45 and login = "replicate 16 0" and ok = True and st = sample_state])
  show "revoke_login True (replicate 16 0) 50 sample_state =
      (True, snd (revoke_login True (replicate 16 0) 50 sample_state))"
    by (simp add: revoke_login_def Let_def)
qed (simp_all only: header_roundtrip length_replicate, simp_all add: REMEMBERED_ABSOLUTE_TTL_SECS_def sample_timing_def)

section \<open>A network bind\<close>





















section \<open>Lowering the posture\<close>

fun event_code :: "auth_event \<Rightarrow> string option" where
  "event_code (EvRevokeTotp code) = code"
| "event_code (EvRemint _ code) = code"
| "event_code (EvRequireLogin _ _ code) = code"
| "event_code (EvRemoteImages _ code) = code"
| "event_code _ = None"

text \<open>
  Lowered: the armed seed is gone or replaced, an existing signing key is rotated, the login gate is
  lifted, or remote images are let in.
\<close>

definition lowered :: "auth_store \<Rightarrow> auth_store \<Rightarrow> bool" where
  "lowered d d' \<longleftrightarrow>
     ds_seed d' \<noteq> ds_seed d \<or> nonempty (ds_token d) \<noteq> None \<and> ds_token d' \<noteq> ds_token d \<or>
     ds_require_login d \<and> \<not> ds_require_login d' \<or> \<not> ds_remote_images d \<and> ds_remote_images d'"

definition by_route :: "auth_event \<Rightarrow> bool" where
  "by_route ev = (case ev of EvConfirm _ \<Rightarrow> False | EvStore _ \<Rightarrow> False | _ \<Rightarrow> True)"

definition fresh_factor :: "crypto \<Rightarrow> timing \<Rightarrow> seed \<Rightarrow> string option \<Rightarrow> auth_state \<Rightarrow> bool" where
  "fresh_factor kr ti seed code st \<longleftrightarrow>
     (\<exists>c s. code = Some c \<and> throttle_check (au_throttle st) (ti_checked ti) = Inr () \<and>
        fresh_step kr seed (trim c) (ti_now ti) (au_last_step st) = Some s)"

lemma step_up_factor:
  assumes "step_up kr ti code st = (Inr (), st1)" "ds_seed (au_store st) = Some seed" "ti_seed_read ti" "ti_marker_read ti"
  shows "fresh_factor kr ti seed code st"
  by (rule step_up_accepted [OF assms(1), of seed])
    (use assms(2-4) in \<open>simp_all add: fresh_factor_def seed_read_def last_step_read_def\<close>)

lemma not_lowered [simp]: "\<not> lowered d d"
  by (simp add: lowered_def)

text \<open>
  C38. Once a seed is armed, every request that lowers the posture, and whose reads of the seed file and of
  the anti-replay marker succeed, carried a code of that seed that was let through by the throttle and is
  newer than the last one recorded before the request; the one exception is the confirmation of an
  enrolment.  (A request is one step: two that overlap can spend one code, as two logins can.)
\<close>

theorem lowering_needs_a_factor:
  assumes "ds_seed (au_store st) = Some seed" "ti_seed_read ti" "ti_marker_read ti" "by_route ev"
    "lowered (au_store st) (au_store (auth_step kr ti ev st))"
  shows "fresh_factor kr ti seed (event_code ev) st"
proof -
  have factor: "fresh_factor kr ti seed code st \<and> au_store st1 = au_store st"
    if "step_up kr ti code st = (Inr u, st1)" for code u st1
    using step_up_factor [OF _ assms(1-3)] step_up_pair that by simp
  have refused: "au_store st1 = au_store st" if "step_up kr ti code st = (Inl r, st1)" for code r st1
    using step_up_pair [OF that] by simp
  show ?thesis
  proof (cases ev)
    case (EvPassword password hashed current)
    have "au_store (snd (require_current_password kr h current c r st)) = au_store st" for h c r by simp
    then have "au_store (snd (require_current_password kr (password_read ti st) current (ti_checked ti)
        (ti_recorded ti) st)) = au_store st" .
    with assms(5) EvPassword show ?thesis
      by (cases "require_current_password kr (password_read ti st) current (ti_checked ti) (ti_recorded ti) st")
        (simp add: auth_step_def set_password_def lowered_def split: option.splits sum.splits)
  next
    case (EvRevokeTotp code)
    with assms(5) show ?thesis
      by (auto simp: auth_step_def revoke_totp_def split: prod.splits sum.splits dest!: factor refused)
  next
    case (EvRemint new_token code)
    with assms(5) show ?thesis
      by (auto simp: auth_step_def remint_token_def split: prod.splits sum.splits dest!: factor refused)
  next
    case (EvRequireLogin enable new_token code)
    with assms(5) show ?thesis
      by (auto simp: auth_step_def require_login_def lowered_def split: prod.splits sum.splits if_splits
          dest!: factor refused)
  next
    case (EvRemoteImages enable code)
    with assms(5) show ?thesis
      by (auto simp: auth_step_def remote_images_def lowered_def split: prod.splits sum.splits if_splits
          dest!: factor refused)
  qed (use assms(4,5) in \<open>simp_all add: by_route_def auth_step_def enroll_totp_def lowered_def split: option.splits\<close>)
qed

lemma sample_remint:
  "ds_token (au_store (auth_step sample_crypto sample_timing (EvRemint ''new'' (Some ''000000'')) sample_state)) =
     Some ''new''"
proof -
  have "trim ''000000'' = ''000000''" by code_simp
  then have "fst (step_up sample_crypto sample_timing (Some ''000000'') sample_state) = Inr ()"
    by (simp add: step_up_def seed_read_def last_step_read_def require_fresh_totp_def fresh_step_def sample_step
        sample_state_def sample_timing_def throttle_check_def throttle_new_def)
  then show ?thesis
    by (cases "step_up sample_crypto sample_timing (Some ''000000'') sample_state")
      (simp add: auth_step_def remint_token_def)
qed

theorem lowering_needs_a_factor_witness:
  "fresh_factor sample_crypto sample_timing [1] (Some ''000000'') sample_state"
proof -
  have "lowered (au_store sample_state)
      (au_store (auth_step sample_crypto sample_timing (EvRemint ''new'' (Some ''000000'')) sample_state))"
    using sample_remint by (simp add: lowered_def sample_state_def nonempty_def)
  then show ?thesis
    using lowering_needs_a_factor [of sample_state "[1]" sample_timing "EvRemint ''new'' (Some ''000000'')" sample_crypto]
    by (simp add: by_route_def sample_state_def sample_timing_def)
qed

text \<open>
  A read of the seed that fails costs the request nothing: the factor is asked for only when the file was
  read and decoded.
\<close>

lemma unread_seed_asks_for_no_code: "\<not> ti_seed_read ti \<Longrightarrow> step_up kr ti code st = (Inr (), st)"
  by (rule step_up_free) (simp add: seed_read_def)

lemma unread_seed_lets_the_key_be_rotated:
  "\<not> ti_seed_read ti \<Longrightarrow>
   ds_token (au_store (auth_step kr ti (EvRemint new_token None) st)) = Some new_token"
  by (simp add: auth_step_def remint_token_def unread_seed_asks_for_no_code)

text \<open>An enrolled password that can be read is changed or cleared only by a request that gives it.\<close>

lemma password_change_needs_it:
  assumes "ds_password (au_store st) = Some h" "ti_password_read ti" "(case ev of EvStore _ \<Rightarrow> False | _ \<Rightarrow> True)"
    "ds_password (au_store (auth_step kr ti ev st)) \<noteq> Some h"
  shows "\<exists>new hashed pw. ev = EvPassword new hashed (Some pw) \<and> password_verify kr h pw"
proof (cases ev)
  case (EvPassword new hashed current)
  let ?r = "require_current_password kr (password_read ti st) current (ti_checked ti) (ti_recorded ti) st"
  obtain u st1 where r: "?r = (u, st1)" by (cases ?r)
  then have "au_store st1 = au_store st"
    using require_current_password_fields(6) [of kr "password_read ti st" current "ti_checked ti" "ti_recorded ti" st]
    by simp
  with assms(1,4) EvPassword r have "\<exists>v. u = Inr v"
    by (auto simp: auth_step_def set_password_def split: option.splits sum.splits)
  with r have "\<exists>v st1. ?r = (Inr v, st1)" by blast
  then have "\<exists>pw. current = Some pw \<and> password_verify kr h pw"
    using assms(1,2) by (auto simp: password_read_def require_current_password_def split: option.splits sum.splits if_splits)
  with EvPassword show ?thesis by blast
qed (use assms in \<open>auto simp: auth_step_def route_defs split: prod.splits sum.splits option.splits if_splits dest!: step_up_pair\<close>)

text \<open>
  The exception: a request with nothing but a session can enrol a new seed and confirm it with a code of
  that seed, which replaces the armed one; no code of the armed seed is asked for.
\<close>

lemma enrolment_replaces_the_armed_seed:
  assumes "ds_pending (au_store st) = None" "matched_step kr new_seed code (ti_now ti) 1 \<noteq> None"
  shows "ds_seed (au_store (auth_run kr [(ti, EvEnroll new_seed), (ti, EvConfirm code)] st)) = Some new_seed"
  using assms by (auto simp: auth_run_def auth_step_def enroll_totp_def confirm_totp_def)

end
