(* ===== verification/Wire.thy ===== *)
theory Wire
  imports Prelude
begin

text \<open>
  The wire codec between the daemon and a page (\<^verbatim>\<open>protocol.rs\<close>, \<^verbatim>\<open>protocol/channel.rs\<close>): a frame is
  a tag byte and a payload, and an inner frame of a numbered channel travels cut into pieces.

  The JSON of a command and of a presence is written and read by \<^verbatim>\<open>serde_json\<close>, which is the
  parameter \<open>json_codec\<close>; a JSON value is a value of the type parameter \<open>'v\<close>.  Nothing is assumed of it:
  a value it writes need not read back.
\<close>

type_synonym bytes = "8 word list"

section \<open>Frames\<close>

record 'v command =
  cm_id :: u64
  cm_verb :: string
  cm_payload :: 'v

record presence =
  pr_name :: "string option"
  pr_avatar :: "string option"
  pr_uptime_secs :: u64
  pr_build :: "string option"

datatype 'v frame =
  TerminalFrame u64 bytes
| CommandFrame "'v command"
| PresenceFrame presence
| ChannelFrame u32 bool bytes

datatype channel_error = UnknownFlags "8 word" | OverCap

datatype frame_error =
  EmptyFrame | UnknownTag "8 word" | ShortTerminal | BadJson string | ShortChannel
| ChannelRefused channel_error

definition TAG_TERMINAL :: "8 word" where "TAG_TERMINAL = 0x01"
definition TAG_COMMAND :: "8 word" where "TAG_COMMAND = 0x02"
definition TAG_PRESENCE :: "8 word" where "TAG_PRESENCE = 0x03"
definition TAG_CHANNEL :: "8 word" where "TAG_CHANNEL = 0x04"

lemmas tags = TAG_TERMINAL_def TAG_COMMAND_def TAG_PRESENCE_def TAG_CHANNEL_def

definition FLAG_MORE :: "8 word" where "FLAG_MORE = 0b00000001"

definition MAX_PIECE :: nat where "MAX_PIECE = 16 * 1024"

definition MAX_IMAGE_BYTES :: nat where "MAX_IMAGE_BYTES = 4 * 1024 * 1024"

definition MAX_COMMAND_BYTES :: nat where
  "MAX_COMMAND_BYTES = (MAX_IMAGE_BYTES + 2) div 3 * 4 + 64 * 1024"

lemma MAX_COMMAND_BYTES_value: "MAX_COMMAND_BYTES = 5657944"
  by (simp add: MAX_COMMAND_BYTES_def MAX_IMAGE_BYTES_def)

text \<open>\<^verbatim>\<open>serde_json::to_vec\<close> and \<^verbatim>\<open>from_slice\<close> at the two structured payloads.\<close>

record 'v json_codec =
  jc_command :: "'v command \<Rightarrow> bytes"
  jc_read_command :: "bytes \<Rightarrow> string + 'v command"
  jc_presence :: "presence \<Rightarrow> bytes"
  jc_read_presence :: "bytes \<Rightarrow> string + presence"

section \<open>Big-endian integers\<close>

fun be_bytes :: "nat \<Rightarrow> nat \<Rightarrow> bytes" where
  "be_bytes 0 n = []"
| "be_bytes (Suc k) n = be_bytes k (n div 256) @ [of_nat n]"

definition from_be :: "bytes \<Rightarrow> nat" where
  "from_be bs = foldl (\<lambda>n b. n * 256 + unat b) 0 bs"

lemma length_be_bytes [simp]: "length (be_bytes k n) = k"
  by (induction k arbitrary: n) simp_all

lemma from_be_snoc: "from_be (bs @ [b]) = from_be bs * 256 + unat b"
  by (simp add: from_be_def)

lemma from_be_be_bytes: "from_be (be_bytes k n) = n mod 256 ^ k"
proof (induction k arbitrary: n)
  case 0
  then show ?case by (simp add: from_be_def)
next
  case (Suc k)
  have "from_be (be_bytes (Suc k) n) = n div 256 mod 256 ^ k * 256 + n mod 256"
    by (simp add: from_be_snoc Suc unat_of_nat)
  also have "\<dots> = n mod (256 * 256 ^ k)"
    by (simp add: mod_mult2_eq mult.commute)
  finally show ?case by simp
qed

lemma be_bytes_from_be: "be_bytes (length bs) (from_be bs) = bs"
proof (induction bs rule: rev_induct)
  case Nil
  then show ?case by simp
next
  case (snoc b bs)
  have "unat b < 256"
    using unsigned_less [of b] by simp
  moreover have "(256 :: 8 word) = 0"
    by simp
  ultimately have "(from_be bs * 256 + unat b) div 256 = from_be bs"
      and "(of_nat (from_be bs * 256 + unat b) :: 8 word) = b"
    by (simp, simp only: of_nat_add of_nat_mult of_nat_numeral, simp)
  with snoc show ?case
    by (simp add: from_be_snoc)
qed

lemma from_be_less: "from_be bs < 256 ^ length bs"
  using from_be_be_bytes [of "length bs" "from_be bs"]
  by (simp add: be_bytes_from_be) (metis mod_less_divisor zero_less_numeral zero_less_power)

definition u64_be :: "u64 \<Rightarrow> bytes" where "u64_be w = be_bytes 8 (unat w)"
definition u64_from_be :: "bytes \<Rightarrow> u64" where "u64_from_be bs = of_nat (from_be bs)"
definition u32_be :: "u32 \<Rightarrow> bytes" where "u32_be w = be_bytes 4 (unat w)"
definition u32_from_be :: "bytes \<Rightarrow> u32" where "u32_from_be bs = of_nat (from_be bs)"

lemma length_u64_be [simp]: "length (u64_be w) = 8"
  by (simp add: u64_be_def)

lemma length_u32_be [simp]: "length (u32_be w) = 4"
  by (simp add: u32_be_def)

lemma u64_from_be_be [simp]: "u64_from_be (u64_be w) = w"
proof -
  have "unat w < 18446744073709551616"
    using unsigned_less [of w] by simp
  then show ?thesis
    by (simp add: u64_from_be_def u64_be_def from_be_be_bytes)
qed

lemma u32_from_be_be [simp]: "u32_from_be (u32_be w) = w"
proof -
  have "unat w < 4294967296"
    using unsigned_less [of w] by simp
  then show ?thesis
    by (simp add: u32_from_be_def u32_be_def from_be_be_bytes)
qed

lemma u64_be_from_be: "length bs = 8 \<Longrightarrow> u64_be (u64_from_be bs) = bs"
  using from_be_less [of bs] be_bytes_from_be [of bs]
  by (simp add: u64_from_be_def u64_be_def unat_of_nat)

lemma u32_be_from_be: "length bs = 4 \<Longrightarrow> u32_be (u32_from_be bs) = bs"
  using from_be_less [of bs] be_bytes_from_be [of bs]
  by (simp add: u32_from_be_def u32_be_def unat_of_nat)

section \<open>Encoding and decoding\<close>

definition channel_encode :: "u32 \<Rightarrow> bool \<Rightarrow> bytes \<Rightarrow> bytes" where
  "channel_encode channel due piece =
     [TAG_CHANNEL] @ u32_be channel @ [if due then FLAG_MORE else 0] @ piece"

definition encode_json :: "8 word \<Rightarrow> bytes \<Rightarrow> bytes" where
  "encode_json tag value = [tag] @ value"

fun encode :: "'v json_codec \<Rightarrow> 'v frame \<Rightarrow> bytes" where
  "encode j (TerminalFrame session data) = [TAG_TERMINAL] @ u64_be session @ data"
| "encode j (CommandFrame c) = encode_json TAG_COMMAND (jc_command j c)"
| "encode j (PresenceFrame p) = encode_json TAG_PRESENCE (jc_presence j p)"
| "encode j (ChannelFrame channel due piece) = channel_encode channel due piece"

unbundle bit_operations_syntax

definition unknown_flags :: "8 word \<Rightarrow> bool" where
  "unknown_flags flags \<longleftrightarrow> flags AND NOT FLAG_MORE \<noteq> 0"

definition more_flag :: "8 word \<Rightarrow> bool" where
  "more_flag flags \<longleftrightarrow> flags AND FLAG_MORE \<noteq> 0"

definition channel_decode :: "bytes \<Rightarrow> frame_error + 'v frame" where
  "channel_decode rest =
     (if length rest < 5 then Inl ShortChannel
      else let flags = rest ! 4 in
        if unknown_flags flags then Inl (ChannelRefused (UnknownFlags flags))
        else Inr (ChannelFrame (u32_from_be (take 4 rest)) (more_flag flags) (drop 5 rest)))"

definition decode_frame :: "'v json_codec \<Rightarrow> bytes \<Rightarrow> frame_error + 'v frame" where
  "decode_frame j bs =
     (case bs of
        [] \<Rightarrow> Inl EmptyFrame
      | tag # rest \<Rightarrow>
          if tag = TAG_TERMINAL then
            (if length rest < 8 then Inl ShortTerminal
             else Inr (TerminalFrame (u64_from_be (take 8 rest)) (drop 8 rest)))
          else if tag = TAG_COMMAND then map_sum BadJson CommandFrame (jc_read_command j rest)
          else if tag = TAG_PRESENCE then map_sum BadJson PresenceFrame (jc_read_presence j rest)
          else if tag = TAG_CHANNEL then channel_decode rest
          else Inl (UnknownTag tag))"

lemma flags_known [simp]:
  "\<not> unknown_flags FLAG_MORE" "\<not> unknown_flags 0" "more_flag FLAG_MORE" "\<not> more_flag 0"
  by (simp_all add: unknown_flags_def more_flag_def FLAG_MORE_def)

lemma known_flags_cases:
  assumes "\<not> unknown_flags f"
  shows "f = (if more_flag f then FLAG_MORE else 0)"
proof -
  have low: "f AND NOT 1 = 0"
    using assms by (simp add: unknown_flags_def FLAG_MORE_def)
  have high: "\<not> bit f n" if "0 < n" for n
  proof
    assume "bit f n"
    then have "bit (f AND NOT 1) n"
      using that bit_imp_le_length [of f n]
      by (simp add: bit_and_iff bit_not_iff_eq bit_1_iff)
    with low show False
      by simp
  qed
  have "more_flag f \<longleftrightarrow> bit f 0"
    by (simp add: more_flag_def FLAG_MORE_def and_one_eq bit_0 odd_iff_mod_2_eq_one)
  then show ?thesis
    by (intro bit_word_eqI) (metis FLAG_MORE_def bit_1_iff bit_0_eq bot_apply bot_bool_def high gr0I numeral_One)
qed

section \<open>What a decoded frame says of its bytes\<close>

lemma split_at: "take n xs @ drop n xs = xs"
  by simp

lemma channel_roundtrip: "channel_decode (tl (channel_encode c due piece)) = Inr (ChannelFrame c due piece)"
  by (simp add: channel_encode_def channel_decode_def nth_append)

lemma channel_decode_exact:
  assumes "channel_decode rest = Inr f"
  shows "TAG_CHANNEL # rest = encode j f"
proof -
  from assms have len: "5 \<le> length rest" and known: "\<not> unknown_flags (rest ! 4)"
    and f: "f = ChannelFrame (u32_from_be (take 4 rest)) (more_flag (rest ! 4)) (drop 5 rest)"
    by (auto simp: channel_decode_def Let_def split: if_splits)
  have "take 4 rest @ rest ! 4 # drop (Suc 4) rest = rest"
    using len by (intro id_take_nth_drop [symmetric]) simp
  moreover have "encode j f = TAG_CHANNEL # take 4 rest @ rest ! 4 # drop 5 rest"
    using len known_flags_cases [OF known]
    by (simp add: f channel_encode_def u32_be_from_be split: if_splits)
  ultimately show ?thesis
    by simp
qed

lemma channel_decode_kind:
  "channel_decode rest \<noteq> Inr (CommandFrame c)" "channel_decode rest \<noteq> Inr (PresenceFrame p)"
  by (simp_all add: channel_decode_def Let_def)

lemma decode_encode:
  "decode_frame j (encode j f) =
     (case f of
        CommandFrame c \<Rightarrow> map_sum BadJson CommandFrame (jc_read_command j (jc_command j c))
      | PresenceFrame p \<Rightarrow> map_sum BadJson PresenceFrame (jc_read_presence j (jc_presence j p))
      | _ \<Rightarrow> Inr f)"
  by (cases f) (simp_all add: decode_frame_def tags encode_json_def channel_encode_def channel_decode_def nth_append)

text \<open>The frames whose payload is bytes are read as they were written and in no other way.\<close>

lemma decode_exact:
  assumes "decode_frame j bs = Inr f"
  shows "case f of
      TerminalFrame _ _ \<Rightarrow> encode j f = bs
    | ChannelFrame _ _ _ \<Rightarrow> encode j f = bs
    | CommandFrame c \<Rightarrow> \<exists>rest. bs = TAG_COMMAND # rest \<and> jc_read_command j rest = Inr c
    | PresenceFrame p \<Rightarrow> \<exists>rest. bs = TAG_PRESENCE # rest \<and> jc_read_presence j rest = Inr p"
  using assms channel_decode_kind
  by (auto simp: decode_frame_def u64_be_from_be split: list.splits if_splits frame.splits
      dest: channel_decode_exact [of _ _ j])

lemma decode_bytes_iff:
  "decode_frame j bs = Inr (TerminalFrame session data) \<longleftrightarrow> bs = encode j (TerminalFrame session data)"
  "decode_frame j bs = Inr (ChannelFrame channel due piece) \<longleftrightarrow> bs = encode j (ChannelFrame channel due piece)"
  using decode_exact [of j bs "TerminalFrame session data"] decode_exact [of j bs "ChannelFrame channel due piece"]
    decode_encode [of j "TerminalFrame session data"] decode_encode [of j "ChannelFrame channel due piece"]
  by (auto simp del: encode.simps)

lemma decode_json_iff:
  "decode_frame j bs = Inr (CommandFrame c) \<longleftrightarrow> (\<exists>rest. bs = TAG_COMMAND # rest \<and> jc_read_command j rest = Inr c)"
  "decode_frame j bs = Inr (PresenceFrame p) \<longleftrightarrow> (\<exists>rest. bs = TAG_PRESENCE # rest \<and> jc_read_presence j rest = Inr p)"
  using decode_exact [of j bs "CommandFrame c"] decode_exact [of j bs "PresenceFrame p"]
  by (auto simp: decode_frame_def tags)

text \<open>Which bytes are refused, and how.\<close>

lemma decode_refusals:
  "decode_frame j bs = Inl e \<longleftrightarrow>
     bs = [] \<and> e = EmptyFrame \<or>
     (\<exists>tag rest. bs = tag # rest \<and>
       (tag = TAG_TERMINAL \<and> length rest < 8 \<and> e = ShortTerminal \<or>
        tag = TAG_COMMAND \<and> (\<exists>m. jc_read_command j rest = Inl m \<and> e = BadJson m) \<or>
        tag = TAG_PRESENCE \<and> (\<exists>m. jc_read_presence j rest = Inl m \<and> e = BadJson m) \<or>
        tag = TAG_CHANNEL \<and> length rest < 5 \<and> e = ShortChannel \<or>
        tag = TAG_CHANNEL \<and> 5 \<le> length rest \<and> unknown_flags (rest ! 4) \<and>
          e = ChannelRefused (UnknownFlags (rest ! 4)) \<or>
        tag \<notin> {TAG_TERMINAL, TAG_COMMAND, TAG_PRESENCE, TAG_CHANNEL} \<and> e = UnknownTag tag))"
  by (auto simp: decode_frame_def channel_decode_def Let_def tags split: list.splits if_splits sum.splits)

section \<open>Cutting and joining\<close>

text \<open>Rust's \<^verbatim>\<open>chunks\<close>.\<close>

function chunks :: "nat \<Rightarrow> 'a list \<Rightarrow> 'a list list" where
  "chunks n xs = (if n = 0 \<or> xs = [] then [] else take n xs # chunks n (drop n xs))"
  by pat_completeness auto
termination
  by (relation "measure (length \<circ> snd)") auto

declare chunks.simps [simp del]

definition cut_pieces :: "bytes \<Rightarrow> bytes list" where
  "cut_pieces inner = (if inner = [] then [inner] else chunks MAX_PIECE inner)"

definition cut :: "u32 \<Rightarrow> bytes \<Rightarrow> 'v frame list" where
  "cut channel inner =
     (let pieces = cut_pieces inner; last = length pieces - 1
      in map (\<lambda>(i, piece). ChannelFrame channel (i < last) piece) (enumerate 0 pieces))"

type_synonym joiner = bytes

definition joiner_push :: "bool \<Rightarrow> bytes \<Rightarrow> joiner \<Rightarrow> (channel_error + bytes option) \<times> joiner" where
  "joiner_push due piece buf =
     (if length buf + length piece > MAX_COMMAND_BYTES then (Inl OverCap, [])
      else let buf = buf @ piece
        in if due then (Inr None, buf) else (Inr (Some buf), []))"

lemma chunks_Nil [simp]: "chunks n [] = []"
  by (simp add: chunks.simps)

lemma concat_chunks [simp]: "0 < n \<Longrightarrow> concat (chunks n xs) = xs"
  by (induction n xs rule: chunks.induct) (simp add: chunks.simps)

lemma chunks_pieces: "p \<in> set (chunks n xs) \<Longrightarrow> length p \<le> n \<and> p \<noteq> []"
  by (induction n xs rule: chunks.induct) (subst (asm) (2) chunks.simps, auto split: if_splits)

lemma concat_cut_pieces [simp]: "concat (cut_pieces inner) = inner"
  by (simp add: cut_pieces_def MAX_PIECE_def)

lemma cut_pieces_nonempty [simp]: "cut_pieces inner \<noteq> []"
  by (simp add: cut_pieces_def MAX_PIECE_def chunks.simps)

lemma concat_butlast_last: "concat (butlast (cut_pieces inner)) @ last (cut_pieces inner) = inner"
  using concat_cut_pieces [of inner] append_butlast_last_id [OF cut_pieces_nonempty [of inner]]
  by (metis concat.simps(1) concat.simps(2) concat_append append_Nil2)

lemma cut_piece_bound: "p \<in> set (cut_pieces inner) \<Longrightarrow> length p \<le> MAX_PIECE"
  by (auto simp: cut_pieces_def split: if_splits dest: chunks_pieces)

text \<open>The pieces with their flags: all but the last announce another piece.\<close>

lemma cut_butlast_last:
  "cut channel inner =
     map (ChannelFrame channel True) (butlast (cut_pieces inner)) @
     [ChannelFrame channel False (last (cut_pieces inner))]"
proof -
  obtain ps p where "cut_pieces inner = ps @ [p]"
    by (meson cut_pieces_nonempty rev_exhaust)
  then show ?thesis
    by (auto simp: cut_def enumerate_append_eq intro!: nth_equalityI simp: nth_enumerate_eq)
qed

section \<open>The codec is exact\<close>

text \<open>
  C23. The frame codec adds and loses nothing around its payloads, whatever the JSON library does: a
  terminal or channel frame reads back from its bytes as it was written, and from no other bytes; a command
  or presence reads back as what the library reads of the JSON it wrote, so as itself exactly when that JSON
  reads back; a message is a command or presence exactly when its tag says so and its JSON reads as one; and
  what is refused is exactly an empty message, an unknown tag, a terminal or channel frame too short for its
  header, a channel frame with an unknown flag, and JSON that does not parse.
\<close>

theorem frames_roundtrip:
  "decode_frame j (encode j f) =
     (case f of
        CommandFrame c \<Rightarrow> map_sum BadJson CommandFrame (jc_read_command j (jc_command j c))
      | PresenceFrame p \<Rightarrow> map_sum BadJson PresenceFrame (jc_read_presence j (jc_presence j p))
      | _ \<Rightarrow> Inr f) \<and>
   (decode_frame j bs = Inr (TerminalFrame session data) \<longleftrightarrow> bs = encode j (TerminalFrame session data)) \<and>
   (decode_frame j bs = Inr (ChannelFrame channel due piece) \<longleftrightarrow> bs = encode j (ChannelFrame channel due piece)) \<and>
   (decode_frame j bs = Inr (CommandFrame c) \<longleftrightarrow> (\<exists>rest. bs = TAG_COMMAND # rest \<and> jc_read_command j rest = Inr c)) \<and>
   (decode_frame j bs = Inr (PresenceFrame p) \<longleftrightarrow> (\<exists>rest. bs = TAG_PRESENCE # rest \<and> jc_read_presence j rest = Inr p)) \<and>
   (decode_frame j bs = Inl e \<longleftrightarrow>
      bs = [] \<and> e = EmptyFrame \<or>
      (\<exists>tag rest. bs = tag # rest \<and>
        (tag = TAG_TERMINAL \<and> length rest < 8 \<and> e = ShortTerminal \<or>
         tag = TAG_COMMAND \<and> (\<exists>m. jc_read_command j rest = Inl m \<and> e = BadJson m) \<or>
         tag = TAG_PRESENCE \<and> (\<exists>m. jc_read_presence j rest = Inl m \<and> e = BadJson m) \<or>
         tag = TAG_CHANNEL \<and> length rest < 5 \<and> e = ShortChannel \<or>
         tag = TAG_CHANNEL \<and> 5 \<le> length rest \<and> unknown_flags (rest ! 4) \<and>
           e = ChannelRefused (UnknownFlags (rest ! 4)) \<or>
         tag \<notin> {TAG_TERMINAL, TAG_COMMAND, TAG_PRESENCE, TAG_CHANNEL} \<and> e = UnknownTag tag)))"
  by (intro conjI decode_encode decode_bytes_iff decode_json_iff decode_refusals)

text \<open>
  A codec at work: a text is its bytes, each announced by a 1 and ended by a 0.  As \<^verbatim>\<open>serde_json\<close> does
  with a number that is not finite, it writes the payload \<open>NaN\<close> as \<open>null\<close>.
\<close>

fun pack :: "string \<Rightarrow> bytes" where
  "pack [] = [0]"
| "pack (c # cs) = 1 # of_nat (of_char c) # pack cs"

fun unpack :: "bytes \<Rightarrow> string \<times> bytes" where
  "unpack (b # bs) =
     (if b = 0 then ([], bs)
      else case bs of [] \<Rightarrow> ([], []) | c # cs \<Rightarrow> (case unpack cs of (s, r) \<Rightarrow> (char_of (unat c) # s, r)))"
| "unpack [] = ([], [])"

definition pack_option :: "string option \<Rightarrow> bytes" where
  "pack_option x = (case x of None \<Rightarrow> [0] | Some s \<Rightarrow> 1 # pack s)"

definition unpack_option :: "bytes \<Rightarrow> string option \<times> bytes" where
  "unpack_option bs =
     (case bs of [] \<Rightarrow> (None, []) | b # bs \<Rightarrow> if b = 0 then (None, bs) else apfst Some (unpack bs))"

definition packing :: "string json_codec" where
  "packing =
     \<lparr>jc_command = \<lambda>c. u64_be (cm_id c) @ pack (cm_verb c) @
        pack (if cm_payload c = ''NaN'' then ''null'' else cm_payload c),
      jc_read_command = \<lambda>bs.
        (let (verb, bs') = unpack (drop 8 bs); (payload, _) = unpack bs'
         in Inr \<lparr>cm_id = u64_from_be (take 8 bs), cm_verb = verb, cm_payload = payload\<rparr>),
      jc_presence = \<lambda>p.
        u64_be (pr_uptime_secs p) @ pack_option (pr_name p) @ pack_option (pr_avatar p) @ pack_option (pr_build p),
      jc_read_presence = \<lambda>bs.
        (let (name, bs') = unpack_option (drop 8 bs); (avatar, bs') = unpack_option bs'; (build, _) = unpack_option bs'
         in Inr \<lparr>pr_name = name, pr_avatar = avatar, pr_uptime_secs = u64_from_be (take 8 bs), pr_build = build\<rparr>)\<rparr>"

lemma unpack_pack [simp]: "unpack (pack s @ r) = (s, r)"
proof (induction s)
  case (Cons c s)
  have "char_of (unat (of_nat (of_char c) :: 8 word)) = c"
    by (simp add: unat_of_nat)
  with Cons show ?case by simp
qed simp

lemma unpack_pack_Nil [simp]: "unpack (pack s) = (s, [])"
  using unpack_pack [of s "[]"] by simp

lemma unpack_option_pack [simp]: "unpack_option (pack_option x @ r) = (x, r)"
  by (cases x) (simp_all add: pack_option_def unpack_option_def)

lemma unpack_option_pack_Nil [simp]: "unpack_option (pack_option x) = (x, [])"
  using unpack_option_pack [of x "[]"] by simp

theorem frames_roundtrip_witness:
  "decode_frame packing (encode packing (CommandFrame \<lparr>cm_id = 99, cm_verb = ''forge.list'', cm_payload = ''all''\<rparr>)) =
     Inr (CommandFrame \<lparr>cm_id = 99, cm_verb = ''forge.list'', cm_payload = ''all''\<rparr>) \<and>
   decode_frame packing (encode packing (CommandFrame \<lparr>cm_id = 99, cm_verb = ''forge.list'', cm_payload = ''NaN''\<rparr>)) =
     Inr (CommandFrame \<lparr>cm_id = 99, cm_verb = ''forge.list'', cm_payload = ''null''\<rparr>) \<and>
   decode_frame packing [0x09] = Inl (UnknownTag 9)"
proof (intro conjI)
  show "decode_frame packing (encode packing (CommandFrame \<lparr>cm_id = 99, cm_verb = ''forge.list'', cm_payload = ''all''\<rparr>)) =
     Inr (CommandFrame \<lparr>cm_id = 99, cm_verb = ''forge.list'', cm_payload = ''all''\<rparr>)"
    by (subst frames_roundtrip [THEN conjunct1]) (simp add: packing_def del: pack.simps unpack.simps)
  show "decode_frame packing (encode packing (CommandFrame \<lparr>cm_id = 99, cm_verb = ''forge.list'', cm_payload = ''NaN''\<rparr>)) =
     Inr (CommandFrame \<lparr>cm_id = 99, cm_verb = ''forge.list'', cm_payload = ''null''\<rparr>)"
    by (subst frames_roundtrip [THEN conjunct1]) (simp add: packing_def del: pack.simps unpack.simps)
  show "decode_frame packing [0x09] = Inl (UnknownTag 9)"
    by (subst decode_refusals) (simp add: tags)
qed

end
