(* ===== verification/Mux_Writer.thy ===== *)
theory Mux_Writer
  imports Wire
begin

text \<open>
  The writer of one page socket (\<^verbatim>\<open>mux/writer.rs\<close>): one bounded queue per channel, and a task that
  sends at most one wire message of each channel per turn.

  The task and the senders run at the same time.  An \<open>action\<close> is one step of either: the task yields at
  every message it sends, so one queue visited in a turn is one action, and the senders' actions may fall
  between any two of them.  A tokio queue is the list of its items, with the room its permits hold and
  whether a sender still lives; \<open>mx_put\<close> and \<open>mx_log\<close> record the items the queues took and what the task
  did, each with its channel.
\<close>

section \<open>Queues\<close>

datatype out_item = OutFrame bytes | OutPing bytes | OutSent nat

datatype message = Binary bytes | PingMessage bytes

text \<open>What the task does for an item: a message on the socket, or the answer to a \<^verbatim>\<open>sent\<close> wait.\<close>

datatype sent = Wired message | Answered nat

record wqueue =
  wq_channel :: u32
  wq_depth :: nat
  wq_frames :: "out_item list"
  wq_permits :: nat
  wq_senders :: bool
  wq_pieces :: "message list"
  wq_closed :: bool

definition QUEUE_FRAMES :: nat where "QUEUE_FRAMES = 64"

definition frame_messages :: "'v json_codec \<Rightarrow> u32 \<Rightarrow> bytes \<Rightarrow> message list" where
  "frame_messages j channel inner =
     (if channel = 0 then [Binary inner]
      else map (\<lambda>piece. Binary (encode j piece)) (cut channel inner))"

fun load :: "'v json_codec \<Rightarrow> out_item \<Rightarrow> wqueue \<Rightarrow> wqueue \<times> sent list" where
  "load j (OutFrame inner) q = (q\<lparr>wq_pieces := frame_messages j (wq_channel q) inner\<rparr>, [])"
| "load j (OutPing payload) q = (q\<lparr>wq_pieces := [PingMessage payload]\<rparr>, [])"
| "load j (OutSent answer) q = (q\<lparr>wq_pieces := []\<rparr>, [Answered answer])"

text \<open>\<^verbatim>\<open>try_recv\<close>: an item, nothing yet, or no item and no sender any more.\<close>

datatype received = Received out_item | Empty | Disconnected

definition try_recv :: "wqueue \<Rightarrow> received \<times> wqueue" where
  "try_recv q =
     (case wq_frames q of
        x # xs \<Rightarrow> (Received x, q\<lparr>wq_frames := xs\<rparr>)
      | [] \<Rightarrow> (if wq_senders q \<or> 0 < wq_permits q then Empty else Disconnected, q))"

definition refill :: "'v json_codec \<Rightarrow> wqueue \<Rightarrow> wqueue \<times> sent list" where
  "refill j q =
     (if wq_pieces q \<noteq> [] \<or> wq_closed q then (q, [])
      else case try_recv q of
        (Received inner, q') \<Rightarrow> load j inner q'
      | (Empty, q') \<Rightarrow> (q', [])
      | (Disconnected, q') \<Rightarrow> (q'\<lparr>wq_closed := True\<rparr>, []))"

text \<open>\<^verbatim>\<open>poll_refill\<close>: whether it was ready, and what it did.\<close>

definition poll_refill :: "'v json_codec \<Rightarrow> wqueue \<Rightarrow> bool \<times> wqueue \<times> sent list" where
  "poll_refill j q =
     (case try_recv q of
        (Received inner, q') \<Rightarrow> (True, load j inner q')
      | (Disconnected, q') \<Rightarrow> (True, q'\<lparr>wq_closed := True\<rparr>, [])
      | (Empty, q') \<Rightarrow> (False, q', []))"

definition finished :: "wqueue \<Rightarrow> bool" where
  "finished q \<longleftrightarrow> wq_closed q \<and> wq_pieces q = []"

section \<open>The socket\<close>

record mux =
  mx_handles :: bool
  mx_opened :: "wqueue list"
  mx_listens :: bool
  mx_queues :: "wqueue list"
  mx_turn :: "(nat \<times> bool) option"
  mx_running :: bool
  mx_turns :: nat
  mx_ids :: "u32 list"
  mx_put :: "(u32 \<times> out_item) list"
  mx_log :: "(u32 \<times> sent) list"

text \<open>
  \<open>mx_opened\<close> are the new queues the task has not taken yet and \<open>mx_listens\<close> says whether it still
  expects some.  \<open>mx_turn\<close> is the number of queues visited in the current turn and whether one of them sent
  a message, or \<open>None\<close> while the task waits in \<^verbatim>\<open>poll_wake\<close>.  \<open>mx_turns\<close> counts the completed turns,
  and \<open>mx_ids\<close> are the ids opened so far.
\<close>

definition take_opened :: "mux \<Rightarrow> mux" where
  "take_opened st =
     st\<lparr>mx_queues := mx_queues st @ mx_opened st, mx_opened := [],
        mx_listens := mx_listens st \<and> mx_handles st\<rparr>"

text \<open>The start of the loop of \<^verbatim>\<open>run\<close>: take the opened queues and begin a turn.\<close>

definition begin_turn :: "mux \<Rightarrow> mux" where
  "begin_turn st = (take_opened st)\<lparr>mx_turn := Some (0, False)\<rparr>"

definition writer_start :: mux where
  "writer_start =
     begin_turn \<lparr>mx_handles = True, mx_opened = [], mx_listens = True, mx_queues = [], mx_turn = None,
       mx_running = True, mx_turns = 0, mx_ids = [], mx_put = [], mx_log = []\<rparr>"

definition stop_writer :: "mux \<Rightarrow> mux" where
  "stop_writer st = st\<lparr>mx_running := False, mx_opened := [], mx_queues := [], mx_turn := None\<rparr>"

definition logged :: "u32 \<Rightarrow> sent list \<Rightarrow> mux \<Rightarrow> mux" where
  "logged c evs st = st\<lparr>mx_log := mx_log st @ map (Pair c) evs\<rparr>"

text \<open>One queue of the loop of \<^verbatim>\<open>turn\<close>; \<open>ok\<close> is whether the socket took the message.\<close>

definition visit_channel :: "'v json_codec \<Rightarrow> bool \<Rightarrow> mux \<Rightarrow> mux" where
  "visit_channel j ok st =
     (case mx_turn st of
        None \<Rightarrow> st
      | Some (i, any) \<Rightarrow>
          if i < length (mx_queues st) then
            (let (q, evs) = refill j (mx_queues st ! i); c = wq_channel q
             in case wq_pieces q of
                  [] \<Rightarrow> logged c evs (st\<lparr>mx_queues := (mx_queues st)[i := q], mx_turn := Some (i + 1, any)\<rparr>)
                | m # ms \<Rightarrow>
                    if ok then logged c (evs @ [Wired m])
                      (st\<lparr>mx_queues := (mx_queues st)[i := q\<lparr>wq_pieces := ms\<rparr>], mx_turn := Some (i + 1, True)\<rparr>)
                    else stop_writer (logged c evs st))
          else st)"

text \<open>The end of a turn: the finished queues are freed, and the loop goes on, waits or ends.\<close>

definition end_turn :: "mux \<Rightarrow> mux" where
  "end_turn st =
     (case mx_turn st of
        Some (i, any) \<Rightarrow>
          if i < length (mx_queues st) then st
          else let st = st\<lparr>mx_queues := filter (\<lambda>q. \<not> finished q) (mx_queues st), mx_turns := mx_turns st + 1\<rparr>
            in if any then begin_turn st
               else if \<not> mx_listens st \<and> mx_queues st = [] then stop_writer st
               else st\<lparr>mx_turn := None\<rparr>
      | None \<Rightarrow> st)"

fun poll_queues :: "'v json_codec \<Rightarrow> wqueue list \<Rightarrow> bool \<times> wqueue list \<times> (u32 \<times> sent) list" where
  "poll_queues j [] = (False, [], [])"
| "poll_queues j (q # qs) =
     (let (woke, q', evs) = poll_refill j q; (woke', qs', evs') = poll_queues j qs
      in (woke \<or> woke', q' # qs', map (Pair (wq_channel q)) evs @ evs'))"

text \<open>One poll of \<^verbatim>\<open>poll_wake\<close>.\<close>

definition wake :: "'v json_codec \<Rightarrow> mux \<Rightarrow> mux" where
  "wake j st =
     (if mx_turn st \<noteq> None \<or> \<not> mx_running st then st
      else let (woke, qs, evs) = poll_queues j (mx_queues st);
          st = st\<lparr>mx_queues := qs, mx_log := mx_log st @ evs\<rparr>;
          (woke', st) =
            (if \<not> mx_listens st then (False, st)
             else case mx_opened st of
                 q # rest \<Rightarrow> (True, st\<lparr>mx_queues := mx_queues st @ [q], mx_opened := rest\<rparr>)
               | [] \<Rightarrow> if mx_handles st then (False, st) else (True, st\<lparr>mx_listens := False\<rparr>))
        in if woke \<or> woke' then begin_turn st else st)"

section \<open>The senders\<close>

definition new_queue :: "u32 \<Rightarrow> nat \<Rightarrow> wqueue" where
  "new_queue channel depth =
     \<lparr>wq_channel = channel, wq_depth = max depth 1, wq_frames = [], wq_permits = 0, wq_senders = True,
      wq_pieces = [], wq_closed = False\<rparr>"

definition all_queues :: "mux \<Rightarrow> wqueue list" where
  "all_queues st = mx_queues st @ mx_opened st"

definition channel_with_depth :: "u32 \<Rightarrow> nat \<Rightarrow> mux \<Rightarrow> mux" where
  "channel_with_depth channel depth st =
     (let st = st\<lparr>mx_ids := channel # mx_ids st\<rparr>
      in if mx_running st \<and> mx_listens st \<and> mx_handles st
         then st\<lparr>mx_opened := mx_opened st @ [new_queue channel depth]\<rparr> else st)"

definition channel :: "u32 \<Rightarrow> mux \<Rightarrow> mux" where
  "channel c = channel_with_depth c QUEUE_FRAMES"

definition on_queue :: "u32 \<Rightarrow> (wqueue \<Rightarrow> wqueue) \<Rightarrow> mux \<Rightarrow> mux" where
  "on_queue c f st =
     (let g = map (\<lambda>q. if wq_channel q = c then f q else q)
      in st\<lparr>mx_queues := g (mx_queues st), mx_opened := g (mx_opened st)\<rparr>)"

definition queue_of :: "u32 \<Rightarrow> mux \<Rightarrow> wqueue option" where
  "queue_of c st = find (\<lambda>q. wq_channel q = c) (all_queues st)"

definition has_room :: "wqueue \<Rightarrow> bool" where
  "has_room q \<longleftrightarrow> length (wq_frames q) + wq_permits q < wq_depth q"

definition enqueue :: "out_item \<Rightarrow> wqueue \<Rightarrow> wqueue" where
  "enqueue x q = q\<lparr>wq_frames := wq_frames q @ [x]\<rparr>"

text \<open>A send that has returned, that still waits for room, or that found the writer ended.\<close>

datatype turn_outcome = Queued | Waiting | WriterClosed

definition put :: "u32 \<Rightarrow> out_item \<Rightarrow> mux \<Rightarrow> turn_outcome \<times> mux" where
  "put c x st =
     (case queue_of c st of
        None \<Rightarrow> (WriterClosed, st)
      | Some q \<Rightarrow>
          if \<not> wq_senders q then (WriterClosed, st)
          else if has_room q then
            (Queued, (on_queue c (enqueue x) st)\<lparr>mx_put := mx_put st @ [(c, x)]\<rparr>)
          else (Waiting, st))"

definition reserve :: "u32 \<Rightarrow> mux \<Rightarrow> turn_outcome \<times> mux" where
  "reserve c st =
     (case queue_of c st of
        None \<Rightarrow> (WriterClosed, st)
      | Some q \<Rightarrow>
          if \<not> wq_senders q then (WriterClosed, st)
          else if has_room q then (Queued, on_queue c (\<lambda>q. q\<lparr>wq_permits := wq_permits q + 1\<rparr>) st)
          else (Waiting, st))"

text \<open>A permit is used for an item, or dropped unused; both do nothing once the writer has ended.\<close>

definition permit_put :: "u32 \<Rightarrow> out_item \<Rightarrow> mux \<Rightarrow> mux" where
  "permit_put c x st =
     (case queue_of c st of
        None \<Rightarrow> st
      | Some q \<Rightarrow>
          if wq_permits q = 0 then st
          else (on_queue c (\<lambda>q. enqueue x q\<lparr>wq_permits := wq_permits q - 1\<rparr>) st)\<lparr>mx_put := mx_put st @ [(c, x)]\<rparr>)"

definition permit_drop :: "u32 \<Rightarrow> mux \<Rightarrow> mux" where
  "permit_drop c = on_queue c (\<lambda>q. q\<lparr>wq_permits := wq_permits q - 1\<rparr>)"

definition drop_senders :: "u32 \<Rightarrow> mux \<Rightarrow> mux" where
  "drop_senders c = on_queue c (\<lambda>q. q\<lparr>wq_senders := False\<rparr>)"

definition drop_handles :: "mux \<Rightarrow> mux" where
  "drop_handles st = st\<lparr>mx_handles := False\<rparr>"

section \<open>Runs\<close>

datatype action =
  Put u32 out_item | Reserve u32 | PermitPut u32 out_item | PermitDrop u32 | DropSenders u32
| OpenChannel u32 nat | DropHandles | Visit bool | EndTurn | Wake | Abort

text \<open>The caller opens each id once: an open of an id that was opened is not a step.\<close>

fun mux_step :: "'v json_codec \<Rightarrow> action \<Rightarrow> mux \<Rightarrow> mux" where
  "mux_step j (Put c x) st = snd (put c x st)"
| "mux_step j (Reserve c) st = snd (reserve c st)"
| "mux_step j (PermitPut c x) st = permit_put c x st"
| "mux_step j (PermitDrop c) st = permit_drop c st"
| "mux_step j (DropSenders c) st = drop_senders c st"
| "mux_step j (OpenChannel c depth) st = (if c \<in> set (mx_ids st) then st else channel_with_depth c depth st)"
| "mux_step j DropHandles st = drop_handles st"
| "mux_step j (Visit ok) st = visit_channel j ok st"
| "mux_step j EndTurn st = end_turn st"
| "mux_step j Wake st = wake j st"
| "mux_step j Abort st = stop_writer st"

definition mux_run :: "'v json_codec \<Rightarrow> action list \<Rightarrow> mux \<Rightarrow> mux" where
  "mux_run j = fold (mux_step j)"

end
