(* ===== verification/Mux_Props.thy ===== *)
theory Mux_Props
  imports Mux_Writer Stepwise
begin

text \<open>
  What the writer does for a channel: the messages it sends are those of the items its queue took, in
  order, and the rest is still owed (\<open>mux_ok\<close>); every completed turn pays at least one.
\<close>

section \<open>The items of one channel\<close>

definition of_channel :: "u32 \<Rightarrow> (u32 \<times> 'a) list \<Rightarrow> 'a list" where
  "of_channel c xs = map snd (filter (\<lambda>p. fst p = c) xs)"

lemma of_channel_simps [simp]:
  "of_channel c [] = []"
  "of_channel c (xs @ ys) = of_channel c xs @ of_channel c ys"
  "of_channel c ((d, x) # xs) = (if d = c then x # of_channel c xs else of_channel c xs)"
  by (simp_all add: of_channel_def)

lemma of_channel_tagged [simp]: "of_channel c (map (Pair d) xs) = (if d = c then xs else [])"
  by (induction xs) auto

fun item_wires :: "'v json_codec \<Rightarrow> u32 \<Rightarrow> out_item \<Rightarrow> sent list" where
  "item_wires j c (OutFrame inner) = map Wired (frame_messages j c inner)"
| "item_wires j c (OutPing payload) = [Wired (PingMessage payload)]"
| "item_wires j c (OutSent answer) = [Answered answer]"

definition wires :: "'v json_codec \<Rightarrow> u32 \<Rightarrow> out_item list \<Rightarrow> sent list" where
  "wires j c xs = concat (map (item_wires j c) xs)"

lemma wires_simps [simp]:
  "wires j c [] = []"
  "wires j c (x # xs) = item_wires j c x @ wires j c xs"
  "wires j c (xs @ ys) = wires j c xs @ wires j c ys"
  by (simp_all add: wires_def)

lemma frame_messages_nonempty [simp]: "frame_messages j c inner \<noteq> []"
  by (simp add: frame_messages_def cut_butlast_last)

lemma item_wires_nonempty [simp]: "item_wires j c x \<noteq> []"
  by (cases x) simp_all

definition owed :: "'v json_codec \<Rightarrow> wqueue \<Rightarrow> sent list" where
  "owed j q = map Wired (wq_pieces q) @ wires j (wq_channel q) (wq_frames q)"

definition owed_on :: "'v json_codec \<Rightarrow> u32 \<Rightarrow> wqueue list \<Rightarrow> sent list" where
  "owed_on j c qs = concat (map (owed j) (filter (\<lambda>q. wq_channel q = c) qs))"

lemma owed_on_simps [simp]:
  "owed_on j c [] = []"
  "owed_on j c (q # qs) = (if wq_channel q = c then owed j q else []) @ owed_on j c qs"
  "owed_on j c (ps @ qs) = owed_on j c ps @ owed_on j c qs"
  by (simp_all add: owed_on_def)

lemma owed_on_none: "c \<notin> wq_channel ` set qs \<Longrightarrow> owed_on j c qs = []"
  by (induction qs) auto

section \<open>A queue\<close>

definition queue_ok :: "wqueue \<Rightarrow> bool" where
  "queue_ok q \<longleftrightarrow>
     0 < wq_depth q \<and> length (wq_frames q) + wq_permits q \<le> wq_depth q \<and>
     (wq_closed q \<longrightarrow> wq_frames q = [] \<and> \<not> wq_senders q \<and> wq_permits q = 0)"

lemma load_spec:
  assumes "load j x q = (q', evs)"
  shows "wq_channel q' = wq_channel q"
    and "wq_pieces q = [] \<Longrightarrow> item_wires j (wq_channel q) x = evs @ map Wired (wq_pieces q')"
    and "q' = q\<lparr>wq_pieces := wq_pieces q'\<rparr>"
  using assms by (cases x; auto)+

lemma try_recv_spec:
  assumes "try_recv q = (r, q')"
  shows "(\<exists>x xs. r = Received x \<and> wq_frames q = x # xs \<and> q' = q\<lparr>wq_frames := xs\<rparr>) \<or>
     (r = Empty \<and> wq_frames q = [] \<and> q' = q) \<or>
     (r = Disconnected \<and> wq_frames q = [] \<and> \<not> wq_senders q \<and> wq_permits q = 0 \<and> q' = q)"
  using assms by (auto simp: try_recv_def split: list.splits if_splits)

lemma poll_refill_spec:
  assumes "poll_refill j q = (woke, q', evs)" and "wq_pieces q = []" and "queue_ok q"
  shows "owed j q = evs @ owed j q'" and "wq_channel q' = wq_channel q" and "queue_ok q'"
    and "\<not> woke \<Longrightarrow> q' = q \<and> evs = [] \<and> wq_frames q = []"
    and "wq_pieces q' = [] \<Longrightarrow> owed j q \<noteq> [] \<Longrightarrow> evs \<noteq> []"
    and "wq_frames q \<noteq> [] \<Longrightarrow> woke"
proof -
  obtain r p where r: "try_recv q = (r, p)"
    by fastforce
  from try_recv_spec [OF r] assms
  have *: "owed j q = evs @ owed j q' \<and> wq_channel q' = wq_channel q \<and> queue_ok q' \<and>
      (\<not> woke \<longrightarrow> q' = q \<and> evs = [] \<and> wq_frames q = []) \<and>
      (wq_pieces q' = [] \<longrightarrow> owed j q \<noteq> [] \<longrightarrow> evs \<noteq> []) \<and> (wq_frames q \<noteq> [] \<longrightarrow> woke)"
  proof (elim disjE exE conjE)
    fix x xs
    assume x: "r = Received x" "wq_frames q = x # xs" "p = q\<lparr>wq_frames := xs\<rparr>"
    with assms r have l: "load j x p = (q', evs)" and woke
      by (auto simp: poll_refill_def)
    with load_spec [OF l] x assms show ?thesis
      by (cases x) (auto simp: owed_def queue_ok_def)
  qed (use r assms in \<open>auto simp: poll_refill_def owed_def queue_ok_def\<close>)
  then show "owed j q = evs @ owed j q'" "wq_channel q' = wq_channel q" "queue_ok q'"
    "\<not> woke \<Longrightarrow> q' = q \<and> evs = [] \<and> wq_frames q = []"
    "wq_pieces q' = [] \<Longrightarrow> owed j q \<noteq> [] \<Longrightarrow> evs \<noteq> []" "wq_frames q \<noteq> [] \<Longrightarrow> woke"
    by blast+
qed

lemma refill_cases:
  "refill j q = (if wq_pieces q \<noteq> [] \<or> wq_closed q then (q, []) else snd (poll_refill j q))"
  by (simp add: refill_def poll_refill_def split: prod.splits received.splits)

lemma refill_spec:
  assumes "refill j q = (q', evs)" and "queue_ok q"
  shows "owed j q = evs @ owed j q'" and "wq_channel q' = wq_channel q" and "queue_ok q'"
    and "wq_pieces q' = [] \<Longrightarrow> owed j q \<noteq> [] \<Longrightarrow> evs \<noteq> []"
proof -
  have "owed j q = evs @ owed j q' \<and> wq_channel q' = wq_channel q \<and> queue_ok q' \<and>
      (wq_pieces q' = [] \<longrightarrow> owed j q \<noteq> [] \<longrightarrow> evs \<noteq> [])"
  proof (cases "wq_pieces q \<noteq> [] \<or> wq_closed q")
    case True
    with assms show ?thesis
      by (auto simp: refill_cases owed_def queue_ok_def)
  next
    case False
    then have p: "poll_refill j q = (fst (poll_refill j q), q', evs)"
      using assms(1) by (simp add: refill_cases prod_eq_iff)
    from False poll_refill_spec [OF p _ assms(2)] show ?thesis
      by blast
  qed
  then show "owed j q = evs @ owed j q'" "wq_channel q' = wq_channel q" "queue_ok q'"
    "wq_pieces q' = [] \<Longrightarrow> owed j q \<noteq> [] \<Longrightarrow> evs \<noteq> []"
    by blast+
qed

section \<open>The invariant of the socket\<close>

abbreviation channels :: "wqueue list \<Rightarrow> u32 list" where
  "channels \<equiv> map wq_channel"

definition drained :: "wqueue \<Rightarrow> bool" where
  "drained q \<longleftrightarrow> wq_pieces q = []"

definition idle_ok :: "mux \<Rightarrow> bool" where
  "idle_ok st \<longleftrightarrow>
     (case mx_turn st of
        None \<Rightarrow> list_all drained (mx_queues st)
      | Some (i, any) \<Rightarrow>
          i \<le> length (mx_queues st) \<and> (\<not> any \<longrightarrow> list_all drained (take i (mx_queues st))))"

definition paid :: "'v json_codec \<Rightarrow> mux \<Rightarrow> bool" where
  "paid j st \<longleftrightarrow>
     (\<forall>c. wires j c (of_channel c (mx_put st)) =
        of_channel c (mx_log st) @ owed_on j c (all_queues st))"

definition frames_in_order :: "'v json_codec \<Rightarrow> mux \<Rightarrow> bool" where
  "frames_in_order j st \<longleftrightarrow>
     (\<forall>c. prefix (of_channel c (mx_log st)) (wires j c (of_channel c (mx_put st))))"

definition mux_ok :: "'v json_codec \<Rightarrow> mux \<Rightarrow> bool" where
  "mux_ok j st \<longleftrightarrow>
     distinct (channels (all_queues st)) \<and> set (channels (all_queues st)) \<subseteq> set (mx_ids st) \<and>
     list_all queue_ok (all_queues st) \<and> list_all drained (mx_opened st) \<and>
     (mx_listens st \<or> mx_opened st = []) \<and> idle_ok st \<and>
     (if mx_running st then paid j st else frames_in_order j st \<and> all_queues st = [] \<and> mx_turn st = None)"

lemma paid_in_order: "paid j st \<Longrightarrow> frames_in_order j st"
  by (simp add: paid_def frames_in_order_def)

lemma mux_ok_in_order: "mux_ok j st \<Longrightarrow> frames_in_order j st"
  by (auto simp: mux_ok_def paid_in_order split: if_splits)

lemmas mux_defs = mux_ok_def all_queues_def

lemma idle_ok_cong:
  "mx_turn st' = mx_turn st \<Longrightarrow> mx_queues st' = mx_queues st \<Longrightarrow> idle_ok st' = idle_ok st"
  by (simp add: idle_ok_def split: option.split)

lemma paid_cong:
  "mx_put st' = mx_put st \<Longrightarrow> mx_log st' = mx_log st \<Longrightarrow> all_queues st' = all_queues st \<Longrightarrow>
     paid j st' = paid j st"
  by (simp add: paid_def)

lemma in_order_cong:
  "mx_put st' = mx_put st \<Longrightarrow> mx_log st' = mx_log st \<Longrightarrow> frames_in_order j st' = frames_in_order j st"
  by (simp add: frames_in_order_def)

lemma start_ok: "mux_ok j writer_start"
  by (simp add: writer_start_def begin_turn_def take_opened_def mux_defs idle_ok_def paid_def)

section \<open>The senders\<close>

lemma owed_on_map:
  assumes "distinct (channels qs)"
    and "\<And>q. q \<in> set qs \<Longrightarrow> wq_channel q = c \<Longrightarrow> wq_channel (f q) = c \<and> owed j (f q) = owed j q @ ws"
  shows "owed_on j d (map (\<lambda>q. if wq_channel q = c then f q else q) qs) =
      owed_on j d qs @ (if d = c \<and> c \<in> set (channels qs) then ws else [])"
  using assms
proof (induction qs)
  case Nil
  then show ?case by simp
next
  case (Cons q qs)
  note IH = Cons.IH [OF _ Cons.prems(2)]
  show ?case
  proof (cases "wq_channel q = c")
    case True
    with Cons.prems(1) have "\<forall>x \<in> set qs. wq_channel x \<noteq> c"
      by (metis distinct.simps(2) image_eqI list.set_map list.simps(9))
    then have "map (\<lambda>q. if wq_channel q = c then f q else q) qs = qs"
      by (auto intro!: map_idI)
    moreover have "wq_channel (f q) = c" "owed j (f q) = owed j q @ ws"
      using Cons.prems(2) [of q] True by simp_all
    ultimately show ?thesis
      using Cons.prems(1) True by (auto simp: owed_on_none)
  next
    case False
    with IH Cons.prems(1) show ?thesis
      by simp
  qed
qed

lemma on_queue_ok:
  assumes ok: "mux_ok j st"
    and f: "\<And>q. q \<in> set (all_queues st) \<Longrightarrow> wq_channel q = c \<Longrightarrow>
        wq_channel (f q) = c \<and> wq_pieces (f q) = wq_pieces q \<and> queue_ok (f q) \<and> owed j (f q) = owed j q @ wires j c xs"
    and xs: "xs \<noteq> [] \<Longrightarrow> c \<in> set (channels (all_queues st))"
  shows "mux_ok j ((on_queue c f st)\<lparr>mx_put := mx_put st @ map (Pair c) xs\<rparr>)"
proof -
  let ?g = "\<lambda>q. if wq_channel q = c then f q else q"
  let ?st = "(on_queue c f st)\<lparr>mx_put := mx_put st @ map (Pair c) xs\<rparr>"
  have qs: "all_queues ?st = map ?g (all_queues st)"
    by (simp add: on_queue_def all_queues_def Let_def)
  have g: "wq_channel (?g q) = wq_channel q" "drained (?g q) = drained q"
    if "q \<in> set (all_queues st)" for q
    using f [OF that] by (simp_all add: drained_def)
  then have same: "channels (map ?g qs) = channels qs" "list_all drained (map ?g qs) = list_all drained qs"
    if "set qs \<subseteq> set (all_queues st)" for qs
    using that by (induction qs) simp_all
  have distinct: "distinct (channels (all_queues st))"
    using ok by (simp add: mux_ok_def)
  have live: "c \<in> set (channels (all_queues st)) \<or> xs = []"
    using xs by blast
  have "owed_on j d (all_queues ?st) = owed_on j d (all_queues st) @ (if d = c then wires j c xs else [])" for d
    unfolding qs
    by (subst owed_on_map [where ws = "wires j c xs", OF distinct]) (use f live in auto)
  then have "paid j st \<Longrightarrow> paid j ?st"
    by (simp add: paid_def on_queue_def Let_def)
  moreover have "idle_ok ?st"
    using ok same [of "mx_queues st"] same [of "take i (mx_queues st)" for i] set_take_subset
    by (fastforce simp: mux_defs idle_ok_def on_queue_def Let_def take_map split: option.splits)
  moreover have "list_all queue_ok (all_queues ?st)"
    using ok f by (auto simp: qs mux_ok_def list_all_iff)
  moreover have "channels (all_queues ?st) = channels (all_queues st)"
    unfolding qs by (rule same) simp
  moreover have "list_all drained (mx_opened ?st) = list_all drained (mx_opened st)"
      and "mx_opened ?st = [] \<longleftrightarrow> mx_opened st = []"
    using same [of "mx_opened st"] by (auto simp: on_queue_def Let_def all_queues_def)
  moreover have "mx_ids ?st = mx_ids st" "mx_running ?st = mx_running st" "mx_turn ?st = mx_turn st"
      "mx_listens ?st = mx_listens st"
    by (simp_all add: on_queue_def Let_def)
  moreover have "frames_in_order j st \<Longrightarrow> all_queues st = [] \<Longrightarrow> frames_in_order j ?st \<and> all_queues ?st = []"
    using live qs in_order_cong [of ?st st] by (auto simp: on_queue_def Let_def)
  ultimately show ?thesis
    using ok unfolding mux_ok_def by (auto split: if_splits)
qed

lemma queue_of_Some:
  assumes "mux_ok j st" and "queue_of c st = Some q"
  shows "q \<in> set (all_queues st)" and "wq_channel q = c" and "queue_ok q"
    and "p \<in> set (all_queues st) \<Longrightarrow> wq_channel p = c \<Longrightarrow> p = q"
proof -
  show q: "q \<in> set (all_queues st)" "wq_channel q = c"
    using find_Some_in assms(2) unfolding queue_of_def by fastforce+
  show "queue_ok q"
    using assms(1) q by (auto simp: mux_ok_def list_all_iff)
  show "p \<in> set (all_queues st) \<Longrightarrow> wq_channel p = c \<Longrightarrow> p = q"
    using assms(1) q by (auto simp: mux_ok_def distinct_map dest: inj_onD)
qed

lemma put_ok: "mux_ok j st \<Longrightarrow> mux_ok j (snd (put c x st))"
proof (cases "queue_of c st")
  case (Some q)
  assume ok: "mux_ok j st"
  note q = queue_of_Some [OF ok Some]
  have "mux_ok j ((on_queue c (enqueue x) st)\<lparr>mx_put := mx_put st @ map (Pair c) [x]\<rparr>)"
    if "wq_senders q" "has_room q"
  proof (rule on_queue_ok [OF ok])
    fix p
    assume "p \<in> set (all_queues st)" "wq_channel p = c"
    then have "p = q"
      by (rule q(4))
    with that q(2,3) show "wq_channel (enqueue x p) = c \<and> wq_pieces (enqueue x p) = wq_pieces p \<and>
        queue_ok (enqueue x p) \<and> owed j (enqueue x p) = owed j p @ wires j c [x]"
      by (auto simp: enqueue_def queue_ok_def owed_def has_room_def)
  qed (use q(1,2) in auto)
  with Some ok show ?thesis
    by (simp add: put_def)
qed (simp add: put_def)

lemma permit_put_ok: "mux_ok j st \<Longrightarrow> mux_ok j (permit_put c x st)"
proof (cases "queue_of c st")
  case (Some q)
  assume ok: "mux_ok j st"
  note q = queue_of_Some [OF ok Some]
  let ?f = "\<lambda>q. enqueue x q\<lparr>wq_permits := wq_permits q - 1\<rparr>"
  have "mux_ok j ((on_queue c ?f st)\<lparr>mx_put := mx_put st @ map (Pair c) [x]\<rparr>)" if "wq_permits q \<noteq> 0"
  proof (rule on_queue_ok [OF ok])
    fix p
    assume "p \<in> set (all_queues st)" "wq_channel p = c"
    then have "p = q"
      by (rule q(4))
    with that q(2,3) show "wq_channel (?f p) = c \<and> wq_pieces (?f p) = wq_pieces p \<and>
        queue_ok (?f p) \<and> owed j (?f p) = owed j p @ wires j c [x]"
      by (auto simp: enqueue_def queue_ok_def owed_def)
  qed (use q(1,2) in auto)
  with Some ok show ?thesis
    by (simp add: permit_put_def)
qed (simp add: permit_put_def)

text \<open>An action of a sender that queues nothing.\<close>

lemma quiet_ok:
  assumes "mux_ok j st"
    and "\<And>q. q \<in> set (all_queues st) \<Longrightarrow> wq_channel q = c \<Longrightarrow>
        wq_channel (f q) = c \<and> wq_pieces (f q) = wq_pieces q \<and> queue_ok (f q) \<and> wq_frames (f q) = wq_frames q"
  shows "mux_ok j (on_queue c f st)"
  using on_queue_ok [OF assms(1), where c = c and f = f and xs = "[]"] assms(2)
  by (simp add: owed_def on_queue_def Let_def)

lemma reserve_ok: "mux_ok j st \<Longrightarrow> mux_ok j (snd (reserve c st))"
proof (cases "queue_of c st")
  case (Some q)
  assume ok: "mux_ok j st"
  note q = queue_of_Some [OF ok Some]
  have "mux_ok j (on_queue c (\<lambda>q. q\<lparr>wq_permits := wq_permits q + 1\<rparr>) st)" if "wq_senders q" "has_room q"
    using that q(2,3) by (intro quiet_ok [OF ok]) (drule (1) q(4), auto simp: queue_ok_def has_room_def)
  with Some ok show ?thesis
    by (simp add: reserve_def)
qed (simp add: reserve_def)

lemma drops_ok: "mux_ok j st \<Longrightarrow> mux_ok j (permit_drop c st)" "mux_ok j st \<Longrightarrow> mux_ok j (drop_senders c st)"
  unfolding permit_drop_def drop_senders_def
  by (rule quiet_ok; auto simp: mux_ok_def list_all_iff queue_ok_def)+

lemma open_ok: "mux_ok j st \<Longrightarrow> c \<notin> set (mx_ids st) \<Longrightarrow> mux_ok j (channel_with_depth c depth st)"
proof -
  assume ok: "mux_ok j st" and c: "c \<notin> set (mx_ids st)"
  let ?st = "channel_with_depth c depth st"
  have idle: "idle_ok ?st = idle_ok st"
    by (rule idle_ok_cong) (simp_all add: channel_with_depth_def Let_def)
  have order: "frames_in_order j ?st = frames_in_order j st"
    by (rule in_order_cong) (simp_all add: channel_with_depth_def Let_def)
  have "owed_on j d (all_queues ?st) = owed_on j d (all_queues st)" for d
    by (simp add: channel_with_depth_def all_queues_def Let_def new_queue_def owed_def)
  then have paid: "paid j ?st = paid j st"
    by (simp add: paid_def) (simp add: channel_with_depth_def Let_def)
  have "c \<notin> set (channels (all_queues st))"
    using ok c by (auto simp: mux_ok_def)
  with ok show ?thesis
    unfolding mux_ok_def idle order paid
    by (auto simp: channel_with_depth_def all_queues_def Let_def new_queue_def queue_ok_def drained_def)
qed

lemma drop_handles_ok: "mux_ok j st \<Longrightarrow> mux_ok j (drop_handles st)"
  unfolding mux_ok_def
  by (auto simp: drop_handles_def all_queues_def idle_ok_cong [of "st\<lparr>mx_handles := False\<rparr>" st]
      paid_cong [of "st\<lparr>mx_handles := False\<rparr>" st] in_order_cong [of "st\<lparr>mx_handles := False\<rparr>" st] split: if_splits)

section \<open>The task\<close>

lemma owed_on_update:
  assumes "distinct (channels (ps @ q # rest))"
    and "wq_channel q' = wq_channel q" and "owed j q = evs @ owed j q'"
  shows "owed_on j c (ps @ q # rest) =
      (if wq_channel q = c then evs else []) @ owed_on j c (ps @ q' # rest)"
proof (cases "wq_channel q = c")
  case True
  with assms(1) have "owed_on j c ps = []"
    by (intro owed_on_none) auto
  with True assms show ?thesis
    by simp
qed (use assms in simp)

lemma stop_ok: "mux_ok j st \<Longrightarrow> mux_ok j (stop_writer st)"
  by (drule mux_ok_in_order) (simp add: mux_ok_def stop_writer_def all_queues_def idle_ok_def frames_in_order_def)

lemma visit_cases:
  assumes ok: "mux_ok j st" and turn: "mx_turn st = Some (i, any)" and i: "i < length (mx_queues st)"
  obtains q q' evs m where "mx_queues st ! i = q" and "wq_channel q' = wq_channel q" and "queue_ok q'"
    and "owed j q = evs @ owed j q'"
    and "visit_channel j True st = logged (wq_channel q) evs
        (st\<lparr>mx_queues := (mx_queues st)[i := q'], mx_turn := Some (i + 1, m)\<rparr>)"
    and "\<not> m \<Longrightarrow> drained q' \<and> \<not> any" and "owed j q \<noteq> [] \<Longrightarrow> evs \<noteq> []"
    and "\<exists>evs'. visit_channel j False st = visit_channel j True st \<or>
        visit_channel j False st = stop_writer (logged (wq_channel q) evs' st) \<and> prefix evs' evs"
proof -
  let ?q = "mx_queues st ! i"
  obtain r evs where r: "refill j ?q = (r, evs)"
    by fastforce
  have "queue_ok ?q"
    using ok i by (auto simp: mux_ok_def all_queues_def list_all_iff)
  note r_spec = refill_spec [OF r this]
  show thesis
  proof (cases "wq_pieces r")
    case Nil
    then have "visit_channel j b st = logged (wq_channel ?q) evs
        (st\<lparr>mx_queues := (mx_queues st)[i := r], mx_turn := Some (i + 1, any)\<rparr>)" for b
      by (simp add: visit_channel_def turn i r r_spec(2))
    with r_spec(4) [OF Nil] Nil show thesis
      by (intro that [OF refl r_spec(2,3,1), of any]) (simp_all add: drained_def)
  next
    case (Cons m ms)
    let ?r = "r\<lparr>wq_pieces := ms\<rparr>"
    have v: "visit_channel j True st = logged (wq_channel ?q) (evs @ [Wired m])
        (st\<lparr>mx_queues := (mx_queues st)[i := ?r], mx_turn := Some (i + 1, True)\<rparr>)"
      and f: "visit_channel j False st = stop_writer (logged (wq_channel ?q) evs st)"
      using Cons by (simp_all add: visit_channel_def turn i r r_spec(2))
    have "owed j r = Wired m # owed j ?r"
      using Cons by (simp add: owed_def)
    with r_spec(1) have owed: "owed j ?q = (evs @ [Wired m]) @ owed j ?r"
      by simp
    have "wq_channel ?r = wq_channel ?q" "queue_ok ?r"
      using r_spec(2,3) by (simp_all add: queue_ok_def)
    from that [OF refl this owed v] f show thesis
      by (auto intro!: exI [of _ evs])
  qed
qed

lemma visit_True_ok:
  assumes ok: "mux_ok j st"
  shows "mux_ok j (visit_channel j True st)"
proof (cases "\<exists>i any. mx_turn st = Some (i, any) \<and> i < length (mx_queues st)")
  case False
  then have "visit_channel j True st = st"
    by (auto simp: visit_channel_def split: option.splits)
  with ok show ?thesis by simp
next
  case True
  then obtain i any where turn: "mx_turn st = Some (i, any)" and i: "i < length (mx_queues st)"
    by blast
  obtain q q' evs m where q: "mx_queues st ! i = q" and q': "wq_channel q' = wq_channel q" "queue_ok q'"
      "owed j q = evs @ owed j q'" and m: "\<not> m \<Longrightarrow> drained q' \<and> \<not> any"
      and v: "visit_channel j True st = logged (wq_channel q) evs
        (st\<lparr>mx_queues := (mx_queues st)[i := q'], mx_turn := Some (i + 1, m)\<rparr>)"
    using visit_cases [OF ok turn i] by metis
  obtain ps rest where qs: "mx_queues st = ps @ q # rest" and len: "length ps = i"
    using id_take_nth_drop [OF i] q i by (metis length_take min.absorb4)
  have all: "all_queues st = ps @ q # rest @ mx_opened st"
    and after: "all_queues (visit_channel j True st) = ps @ q' # rest @ mx_opened st"
    using len by (auto simp: all_queues_def v logged_def qs)
  have running: "mx_running st" and distinct: "distinct (channels (ps @ q # rest @ mx_opened st))"
    and paid: "paid j st"
    using ok turn by (auto simp: mux_ok_def all split: if_splits)
  from paid owed_on_update [OF distinct q'(1,3)] have "paid j (visit_channel j True st)"
    unfolding paid_def after all by (simp add: v logged_def)
  moreover have "idle_ok (visit_channel j True st)"
    using ok turn len m by (auto simp: v logged_def idle_ok_def mux_ok_def qs)
  ultimately show ?thesis
    using ok running q'(1,2) unfolding mux_ok_def after all by (simp add: v logged_def)
qed

lemma stopped_ok: "frames_in_order j st \<Longrightarrow> mux_ok j (stop_writer st)"
  by (simp add: mux_ok_def stop_writer_def all_queues_def idle_ok_def frames_in_order_def)

lemma visit_ok:
  assumes ok: "mux_ok j st"
  shows "mux_ok j (visit_channel j b st)"
proof (cases "b \<or> (\<forall>i any. mx_turn st = Some (i, any) \<longrightarrow> \<not> i < length (mx_queues st))")
  case True
  then show ?thesis
    using ok visit_True_ok [OF ok] by (cases b) (auto simp: visit_channel_def split: option.splits)
next
  case False
  then obtain i any where turn: "mx_turn st = Some (i, any)" and i: "i < length (mx_queues st)" and "\<not> b"
    by blast
  obtain q q' evs m where q: "mx_queues st ! i = q" and q': "wq_channel q' = wq_channel q" "queue_ok q'"
      "owed j q = evs @ owed j q'"
      and f: "\<exists>evs'. visit_channel j False st = visit_channel j True st \<or>
        visit_channel j False st = stop_writer (logged (wq_channel q) evs' st) \<and> prefix evs' evs"
    using visit_cases [OF ok turn i] by metis
  obtain ps rest where qs: "mx_queues st = ps @ q # rest"
    using id_take_nth_drop [OF i] q i by metis
  have all: "all_queues st = ps @ q # rest @ mx_opened st"
    by (simp add: all_queues_def qs)
  have distinct: "distinct (channels (ps @ q # rest @ mx_opened st))" and paid: "paid j st"
    using ok turn by (auto simp: mux_ok_def all split: if_splits)
  have flow: "wires j c (of_channel c (mx_put st)) = of_channel c (mx_log st) @
      (if wq_channel q = c then evs else []) @ owed_on j c (ps @ q' # rest @ mx_opened st)" for c
    using paid owed_on_update [OF distinct q'(1,3)] unfolding paid_def all by simp
  have failed: "frames_in_order j (logged (wq_channel q) evs' st)" if "prefix evs' evs" for evs'
    using that unfolding frames_in_order_def logged_def by (auto simp: flow prefix_def simp del: owed_on_simps)
  from f show ?thesis
  proof (elim exE disjE conjE)
    fix evs'
    assume "visit_channel j False st = stop_writer (logged (wq_channel q) evs' st)" "prefix evs' evs"
    with stopped_ok [OF failed] \<open>\<not> b\<close> show ?thesis
      by simp
  qed (use visit_True_ok [OF ok] \<open>\<not> b\<close> in simp)
qed

lemma begin_ok:
  assumes "mux_ok j (st\<lparr>mx_turn := Some (0, False)\<rparr>)"
  shows "mux_ok j (begin_turn st)"
proof -
  have "all_queues (begin_turn st) = all_queues (st\<lparr>mx_turn := Some (0, False)\<rparr>)"
    by (simp add: begin_turn_def take_opened_def all_queues_def)
  with assms show ?thesis
    by (auto simp: mux_ok_def begin_turn_def take_opened_def idle_ok_def paid_def split: if_splits)
qed

lemma turn_ok:
  assumes "mux_ok j st" and "mx_running st" and "idle_ok (st\<lparr>mx_turn := t\<rparr>)"
  shows "mux_ok j (st\<lparr>mx_turn := t\<rparr>)"
proof -
  have "all_queues (st\<lparr>mx_turn := t\<rparr>) = all_queues st" "paid j (st\<lparr>mx_turn := t\<rparr>) = paid j st"
    by (simp_all add: all_queues_def paid_def)
  with assms show ?thesis
    by (simp add: mux_ok_def)
qed

lemma finished_owes_nothing: "queue_ok q \<Longrightarrow> finished q \<Longrightarrow> owed j q = []"
  by (simp add: queue_ok_def finished_def owed_def)

lemma owed_on_finished:
  "list_all queue_ok qs \<Longrightarrow> owed_on j c (filter (\<lambda>q. \<not> finished q) qs) = owed_on j c qs"
  by (induction qs) (auto simp: finished_owes_nothing)

definition freed :: "mux \<Rightarrow> mux" where
  "freed st = st\<lparr>mx_queues := filter (\<lambda>q. \<not> finished q) (mx_queues st), mx_turns := mx_turns st + 1\<rparr>"

lemma end_turn_cases:
  "end_turn st =
     (case mx_turn st of
        Some (i, any) \<Rightarrow>
          if i < length (mx_queues st) then st
          else if any then begin_turn (freed st)
          else if \<not> mx_listens st \<and> mx_queues (freed st) = [] then stop_writer (freed st)
          else (freed st)\<lparr>mx_turn := None\<rparr>
      | None \<Rightarrow> st)"
  by (simp add: end_turn_def freed_def Let_def split: option.split)

lemma freed_ok:
  assumes ok: "mux_ok j st" and turn: "mx_turn st = Some (i, any)"
  shows "mux_ok j ((freed st)\<lparr>mx_turn := Some (0, False)\<rparr>)"
proof -
  let ?st = "(freed st)\<lparr>mx_turn := Some (0, False)\<rparr>"
  let ?keep = "filter (\<lambda>q. \<not> finished q)"
  have all: "all_queues ?st = ?keep (mx_queues st) @ mx_opened st"
    by (simp add: freed_def all_queues_def)
  have running: "mx_running st"
    using ok turn by (auto simp: mux_ok_def split: if_splits)
  have "list_all queue_ok (mx_queues st)"
    using ok by (simp add: mux_defs)
  then have "owed_on j c (all_queues ?st) = owed_on j c (all_queues st)" for c
    by (simp add: all owed_on_finished) (simp add: all_queues_def)
  then have "paid j ?st = paid j st"
    by (simp add: paid_def freed_def)
  moreover have "distinct (channels (all_queues ?st))"
    using ok unfolding mux_ok_def by (auto simp: all_queues_def freed_def distinct_map_filter)
  ultimately show ?thesis
    using ok running unfolding mux_ok_def
    by (auto simp: all_queues_def freed_def idle_ok_def list_all_iff)
qed

lemma end_turn_ok:
  assumes ok: "mux_ok j st"
  shows "mux_ok j (end_turn st)"
proof (cases "\<exists>i any. mx_turn st = Some (i, any) \<and> \<not> i < length (mx_queues st)")
  case False
  with ok show ?thesis
    by (auto simp: end_turn_cases split: option.split)
next
  case True
  then obtain i any where turn: "mx_turn st = Some (i, any)" and i: "\<not> i < length (mx_queues st)"
    by blast
  note free = freed_ok [OF ok turn]
  have order: "frames_in_order j (freed st)"
    using mux_ok_in_order [OF free] by (simp add: frames_in_order_def)
  have "mux_ok j ((freed st)\<lparr>mx_turn := None\<rparr>)" if "\<not> any"
  proof -
    have "mx_running st"
      using ok turn by (auto simp: mux_ok_def split: if_splits)
    moreover have "list_all drained (mx_queues st)"
      using ok turn i that by (simp add: mux_ok_def idle_ok_def)
    ultimately show ?thesis
      using turn_ok [OF free, of None] by (auto simp: idle_ok_def freed_def list_all_iff)
  qed
  then show ?thesis
    using turn i begin_ok [OF free] stopped_ok [OF order] by (simp add: end_turn_cases)
qed

lemma poll_queues_spec:
  assumes "poll_queues j qs = (woke, qs', evs)" and "list_all drained qs" and "list_all queue_ok qs"
  shows "channels qs' = channels qs \<and> list_all queue_ok qs' \<and>
     (\<not> woke \<longrightarrow> qs' = qs \<and> evs = [] \<and> list_all (\<lambda>q. wq_frames q = []) qs)"
    and "distinct (channels qs) \<Longrightarrow> owed_on j c qs = of_channel c evs @ owed_on j c qs'"
    and "set (map fst evs) \<subseteq> set (channels qs)"
proof -
  have "channels qs' = channels qs \<and> list_all queue_ok qs' \<and>
      (\<not> woke \<longrightarrow> qs' = qs \<and> evs = [] \<and> list_all (\<lambda>q. wq_frames q = []) qs) \<and>
      (distinct (channels qs) \<longrightarrow> (\<forall>c. owed_on j c qs = of_channel c evs @ owed_on j c qs')) \<and>
      set (map fst evs) \<subseteq> set (channels qs)"
    using assms
  proof (induction qs arbitrary: woke qs' evs)
    case Nil
    then show ?case by simp
  next
    case (Cons q qs)
    obtain w q' ev where p: "poll_refill j q = (w, q', ev)"
      by (metis prod_cases3)
    obtain w' qs2 ev2 where ps: "poll_queues j qs = (w', qs2, ev2)"
      by (metis prod_cases3)
    have split: "woke = (w \<or> w')" "qs' = q' # qs2" "evs = map (Pair (wq_channel q)) ev @ ev2"
      using Cons.prems(1) p ps by auto
    have q: "wq_pieces q = []" "queue_ok q"
      using Cons.prems(2,3) by (simp_all add: drained_def)
    note one = poll_refill_spec [OF p q]
    have IH: "channels qs2 = channels qs \<and> list_all queue_ok qs2 \<and>
        (\<not> w' \<longrightarrow> qs2 = qs \<and> ev2 = [] \<and> list_all (\<lambda>q. wq_frames q = []) qs) \<and>
        (distinct (channels qs) \<longrightarrow> (\<forall>c. owed_on j c qs = of_channel c ev2 @ owed_on j c qs2)) \<and>
        set (map fst ev2) \<subseteq> set (channels qs)"
      using Cons.IH [OF ps] Cons.prems(2,3) by simp
    have "owed_on j c (q # qs) = of_channel c evs @ owed_on j c qs'" if d: "distinct (channels (q # qs))" for c
    proof (cases "wq_channel q = c")
      case True
      then have "c \<notin> set (channels qs)"
        using d by simp
      moreover from this have "of_channel c ev2 = []"
        using IH unfolding of_channel_def by (auto simp: filter_empty_conv)
      ultimately show ?thesis
        using True IH one(1,2) by (simp add: split owed_on_none [of c qs2] owed_on_none [of c qs] flip: set_map)
    next
      case False
      with IH d one(2) show ?thesis
        by (simp add: split)
    qed
    then show ?case
      using IH one(2,3,4) by (auto simp: split)
  qed
  then show "channels qs' = channels qs \<and> list_all queue_ok qs' \<and>
     (\<not> woke \<longrightarrow> qs' = qs \<and> evs = [] \<and> list_all (\<lambda>q. wq_frames q = []) qs)"
    "distinct (channels qs) \<Longrightarrow> owed_on j c qs = of_channel c evs @ owed_on j c qs'"
    "set (map fst evs) \<subseteq> set (channels qs)"
    by blast+
qed

lemma wake_ok:
  assumes ok: "mux_ok j st"
  shows "mux_ok j (wake j st)"
proof (cases "mx_turn st = None \<and> mx_running st")
  case False
  with ok show ?thesis
    by (auto simp: wake_def)
next
  case idle: True
  obtain woke qs evs where p: "poll_queues j (mx_queues st) = (woke, qs, evs)"
    by (metis prod_cases3)
  let ?st = "st\<lparr>mx_queues := qs, mx_log := mx_log st @ evs\<rparr>"
  have pre: "list_all drained (mx_queues st)" "list_all queue_ok (mx_queues st)" "distinct (channels (mx_queues st))"
      and paid: "paid j st"
    using ok idle by (simp_all add: mux_defs idle_ok_def)
  note spec = poll_queues_spec [OF p pre(1,2)]
  have "paid j ?st"
    using paid spec(2) [OF pre(3)] by (simp add: paid_def all_queues_def)
  moreover have "set (channels qs) = set (channels (mx_queues st))"
    using spec(1) by metis
  ultimately have mid: "mux_ok j (?st\<lparr>mx_turn := Some (0, False)\<rparr>)"
    using ok spec(1) idle by (auto simp: mux_defs idle_ok_def paid_def)
  show ?thesis
  proof (cases "mx_listens st \<and> (mx_opened st \<noteq> [] \<or> \<not> mx_handles st)")
    case True
    show ?thesis
    proof (cases "mx_opened st")
      case Nil
      have "mux_ok j (?st\<lparr>mx_listens := False, mx_turn := Some (0, False)\<rparr>)"
        using mid Nil idle by (simp add: mux_defs idle_ok_def paid_def)
      with True Nil show ?thesis
        using idle begin_ok [of j "?st\<lparr>mx_listens := False\<rparr>"]
        by (simp add: wake_def p)
    next
      case (Cons q rest)
      let ?st' = "?st\<lparr>mx_queues := qs @ [q], mx_opened := rest\<rparr>"
      have "mux_ok j (?st'\<lparr>mx_turn := Some (0, False)\<rparr>)"
        using mid Cons idle True by (auto simp: mux_defs idle_ok_def paid_def)
      with True Cons show ?thesis
        using idle begin_ok [of j ?st']
        by (simp add: wake_def p)
    qed
  next
    case False
    then have "wake j st = (if woke then begin_turn ?st else ?st)"
      using idle by (auto simp: wake_def p Let_def split: list.splits)
    with begin_ok [OF mid] ok spec(1) show ?thesis
      by (cases woke) simp_all
  qed
qed

lemma mux_step_ok: "mux_ok j st \<Longrightarrow> mux_ok j (mux_step j a st)"
  by (cases a) (auto intro: put_ok reserve_ok permit_put_ok drops_ok open_ok drop_handles_ok visit_ok
      end_turn_ok wake_ok stop_ok)

interpretation writer: stepwise "mux_step j" "\<lambda>_. True" "mux_ok j"
  by unfold_locales (rule mux_step_ok)

lemma run_ok: "mux_ok j (mux_run j as writer_start)"
  unfolding mux_run_def by (rule writer.run) (simp_all add: start_ok list_all_iff)

end
