(* ===== verification/Mux_Delivery.thy ===== *)
theory Mux_Delivery
  imports Mux_Props
begin

text \<open>
  What a page sees of the writer: every frame whole and in order on its channel, whatever the other
  channels send, and none held back by them.
\<close>

section \<open>The receiving side\<close>

text \<open>
  A receiver that collects the pieces of each channel until one without the MORE flag and joins them, with
  no bound on what it collects; a message that is no channel frame is a frame of channel 0.
\<close>

definition collect :: "bool \<Rightarrow> bytes \<Rightarrow> bytes \<Rightarrow> bytes option \<times> bytes" where
  "collect due piece buf = (if due then (None, buf @ piece) else (Some (buf @ piece), []))"

fun deliver :: "'v json_codec \<Rightarrow> (u32 \<Rightarrow> bytes) \<Rightarrow> message list \<Rightarrow> (u32 \<times> bytes) list" where
  "deliver j bufs [] = []"
| "deliver j bufs (PingMessage payload # ms) = deliver j bufs ms"
| "deliver j bufs (Binary bs # ms) =
     (case decode_frame j bs of
        Inr (ChannelFrame c due piece) \<Rightarrow>
          (case collect due piece (bufs c) of
             (Some inner, buf) \<Rightarrow> (c, inner) # deliver j (bufs(c := buf)) ms
           | (_, buf) \<Rightarrow> deliver j (bufs(c := buf)) ms)
      | _ \<Rightarrow> (0, bs) # deliver j bufs ms)"

fun wire_message :: "sent \<Rightarrow> message option" where
  "wire_message (Wired m) = Some m"
| "wire_message (Answered a) = None"

definition wire_messages :: "(u32 \<times> sent) list \<Rightarrow> message list" where
  "wire_messages log = List.map_filter (wire_message \<circ> snd) log"

fun item_frame :: "out_item \<Rightarrow> bytes option" where
  "item_frame (OutFrame inner) = Some inner"
| "item_frame _ = None"

definition frames :: "out_item list \<Rightarrow> bytes list" where
  "frames xs = List.map_filter item_frame xs"

text \<open>The frames a caller may queue: a bare frame is no channel frame.\<close>

definition sendable :: "u32 \<times> out_item \<Rightarrow> bool" where
  "sendable p \<longleftrightarrow>
     (case p of (c, OutFrame inner) \<Rightarrow> \<not> (c = 0 \<and> prefix [TAG_CHANNEL] inner) | _ \<Rightarrow> True)"

text \<open>What one channel's receiver makes of that channel's events alone.\<close>

fun own :: "'v json_codec \<Rightarrow> bytes \<Rightarrow> sent list \<Rightarrow> bytes list" where
  "own j buf [] = []"
| "own j buf (Answered a # es) = own j buf es"
| "own j buf (Wired (PingMessage payload) # es) = own j buf es"
| "own j buf (Wired (Binary bs) # es) =
     (case decode_frame j bs of
        Inr (ChannelFrame c due piece) \<Rightarrow>
          (case collect due piece buf of
             (Some inner, buf) \<Rightarrow> inner # own j buf es
           | (_, buf) \<Rightarrow> own j buf es)
      | _ \<Rightarrow> bs # own j buf es)"

fun tagged :: "'v json_codec \<Rightarrow> u32 \<times> sent \<Rightarrow> bool" where
  "tagged j (c, Wired (Binary bs)) =
     (case decode_frame j bs of Inr (ChannelFrame d due piece) \<Rightarrow> d = c | _ \<Rightarrow> c = 0)"
| "tagged j _ = True"

lemma wire_messages_simps [simp]:
  "wire_messages [] = []"
  "wire_messages ((c, Wired m) # es) = m # wire_messages es"
  "wire_messages ((c, Answered a) # es) = wire_messages es"
  by (simp_all add: wire_messages_def)

lemma frames_simps [simp]:
  "frames [] = []"
  "frames (OutFrame inner # xs) = inner # frames xs"
  "frames (OutPing payload # xs) = frames xs"
  "frames (OutSent answer # xs) = frames xs"
  by (simp_all add: frames_def)

lemma deliver_own:
  "list_all (tagged j) log \<Longrightarrow> of_channel c (deliver j bufs (wire_messages log)) = own j (bufs c) (of_channel c log)"
proof (induction log arbitrary: bufs)
  case Nil
  then show ?case by simp
next
  case (Cons e log)
  obtain d s where e: "e = (d, s)"
    by fastforce
  from Cons show ?case
    by (cases s) (auto simp: e split: message.splits sum.splits frame.splits option.splits prod.splits
        elim!: tagged.elims)
qed

lemma own_prefix: "prefix (own j buf es) (own j buf (es @ fs))"
  by (induction j buf es rule: own.induct) (auto split: sum.splits frame.splits option.splits prod.splits)

section \<open>A frame in pieces\<close>

lemma decode_channel_frame [simp]:
  "decode_frame j (encode j (ChannelFrame c due piece)) = Inr (ChannelFrame c due piece)"
  by (simp add: decode_frame_def tags channel_encode_def channel_decode_def nth_append)

lemma own_pieces:
  "own j buf (map (\<lambda>p. Wired (Binary (encode j (ChannelFrame c True p)))) ps @ es) =
     own j (buf @ concat ps) es"
  by (induction ps arbitrary: buf) (simp_all add: collect_def del: encode.simps)

lemma own_frame:
  assumes "sendable (c, OutFrame inner)"
  shows "own j [] (map Wired (frame_messages j c inner) @ es) = inner # own j [] es"
proof (cases "c = 0")
  case True
  with assms have "\<not> prefix [TAG_CHANNEL] inner"
    by (simp add: sendable_def)
  then have "\<nexists>d due piece. decode_frame j inner = Inr (ChannelFrame d due piece)"
    by (auto simp: decode_frame_def split: list.splits if_splits sum.splits)
  with True show ?thesis
    by (auto simp: frame_messages_def split: sum.splits frame.splits)
next
  case False
  let ?ps = "cut_pieces inner"
  have whole: "concat (butlast ?ps) @ last ?ps = inner"
    by (rule concat_butlast_last)
  with False show ?thesis
    by (simp add: frame_messages_def cut_butlast_last own_pieces collect_def comp_def del: encode.simps)
qed

lemma own_wires:
  "list_all (\<lambda>x. sendable (c, x)) xs \<Longrightarrow> own j [] (wires j c xs) = frames xs"
proof (induction xs)
  case (Cons x xs)
  then show ?case
    by (cases x) (simp_all add: own_frame)
qed simp

lemma item_wires_tagged:
  "sendable (c, x) \<Longrightarrow> e \<in> set (item_wires j c x) \<Longrightarrow> tagged j (c, e)"
proof (cases x)
  case (OutFrame inner)
  assume s: "sendable (c, x)" and e: "e \<in> set (item_wires j c x)"
  show ?thesis
  proof (cases "c = 0")
    case True
    with s OutFrame have "\<not> prefix [TAG_CHANNEL] inner"
      by (simp add: sendable_def)
    then have "decode_frame j inner \<noteq> Inr (ChannelFrame d due piece)" for d due piece
      by (auto simp: decode_frame_def split: list.splits if_splits sum.splits)
    with True e OutFrame show ?thesis
      by (auto simp: frame_messages_def split: sum.splits frame.splits)
  next
    case False
    with e OutFrame show ?thesis
      by (auto simp: frame_messages_def cut_butlast_last simp del: encode.simps)
  qed
qed auto

lemma in_order_event:
  assumes "frames_in_order j st" and "(c, e) \<in> set (mx_log st)"
  shows "\<exists>x. (c, x) \<in> set (mx_put st) \<and> e \<in> set (item_wires j c x)"
proof -
  have "e \<in> set (of_channel c (mx_log st))"
    using assms(2) by (force simp: of_channel_def)
  then have "e \<in> set (wires j c (of_channel c (mx_put st)))"
    using assms(1) set_mono_prefix unfolding frames_in_order_def by blast
  then show ?thesis
    by (auto simp: wires_def of_channel_def)
qed

text \<open>A message of a channel above 0 carries at most one piece and its header.\<close>

lemma pieces_fit:
  assumes "frames_in_order j st" and "(c, Wired (Binary bs)) \<in> set (mx_log st)" and "c \<noteq> 0"
  shows "length bs \<le> MAX_PIECE + 6"
proof -
  obtain x where x: "Wired (Binary bs) \<in> set (item_wires j c x)"
    using in_order_event [OF assms(1,2)] by blast
  then obtain inner where "x = OutFrame inner"
    by (cases x) auto
  with x assms(3) have "(\<exists>p \<in> set (butlast (cut_pieces inner)). bs = encode j (ChannelFrame c True p)) \<or>
      bs = encode j (ChannelFrame c False (last (cut_pieces inner)))"
    by (auto simp: frame_messages_def cut_butlast_last simp del: encode.simps)
  then obtain p due where p: "p \<in> set (cut_pieces inner)" and "bs = encode j (ChannelFrame c due p)"
    by (metis cut_pieces_nonempty in_set_butlastD last_in_set)
  with cut_piece_bound [OF p] show ?thesis
    by (simp add: channel_encode_def)
qed

lemma delivered_own:
  assumes "frames_in_order j st" and "list_all sendable (mx_put st)"
  shows "of_channel c (deliver j (\<lambda>_. []) (wire_messages (mx_log st))) = own j [] (of_channel c (mx_log st))"
proof (rule deliver_own)
  show "list_all (tagged j) (mx_log st)"
    using assms in_order_event [OF assms(1)] item_wires_tagged
    by (fastforce simp: list_all_iff)
qed

lemma sendable_channel:
  "list_all sendable xs \<Longrightarrow> list_all (\<lambda>x. sendable (c, x)) (of_channel c xs)"
  by (auto simp: list_all_iff of_channel_def)

text \<open>
  C13. However the senders and the task interleave, the page's receiver has on every channel a prefix of
  the frames queued on it, whole and in order, and a \<^verbatim>\<open>sent\<close> wait is answered only after everything
  queued before it on its channel; once nothing is owed on a channel, the page has all its frames.
\<close>

theorem frames_arrive_in_order:
  assumes st: "st = mux_run j actions writer_start" and sendable: "list_all sendable (mx_put st)"
  shows "prefix (of_channel c (deliver j (\<lambda>_. []) (wire_messages (mx_log st)))) (frames (of_channel c (mx_put st))) \<and>
    prefix (of_channel c (mx_log st)) (wires j c (of_channel c (mx_put st))) \<and>
    (mx_running st \<and> owed_on j c (all_queues st) = [] \<longrightarrow>
      of_channel c (deliver j (\<lambda>_. []) (wire_messages (mx_log st))) = frames (of_channel c (mx_put st)))"
proof -
  have ok: "mux_ok j st"
    by (simp add: st run_ok)
  note order = mux_ok_in_order [OF ok]
  note got = delivered_own [OF order sendable]
  have all: "own j [] (wires j c (of_channel c (mx_put st))) = frames (of_channel c (mx_put st))"
    by (rule own_wires [OF sendable_channel [OF sendable]])
  have log: "prefix (of_channel c (mx_log st)) (wires j c (of_channel c (mx_put st)))"
    using order by (simp add: frames_in_order_def)
  then have "prefix (own j [] (of_channel c (mx_log st))) (own j [] (wires j c (of_channel c (mx_put st))))"
    by (auto elim!: prefixE intro: own_prefix)
  moreover have "wires j c (of_channel c (mx_put st)) = of_channel c (mx_log st)"
    if "mx_running st" "owed_on j c (all_queues st) = []"
    using ok that by (simp add: mux_ok_def paid_def)
  ultimately show ?thesis
    using log all by (auto simp: got)
qed

section \<open>No channel is held back\<close>

definition visited :: "u32 \<Rightarrow> mux \<Rightarrow> nat" where
  "visited c st =
     (case mx_turn st of
        None \<Rightarrow> 0
      | Some (i, any) \<Rightarrow> if c \<in> set (channels (drop i (mx_queues st))) then 0 else 1)"

text \<open>
  \<open>served\<close>: of a channel whose items made \<open>goal\<close> events in all, \<open>start\<close> of them when \<open>base\<close> turns were
  complete, all are done or one more was done in every completed turn but one.
\<close>

definition served :: "u32 \<Rightarrow> nat \<Rightarrow> nat \<Rightarrow> nat \<Rightarrow> mux \<Rightarrow> bool" where
  "served c goal start base st \<longleftrightarrow>
     goal \<le> length (of_channel c (mx_log st)) \<or>
     start + mx_turns st + visited c st \<le> length (of_channel c (mx_log st)) + 1 + base"

lemma paid_goal:
  assumes "mux_ok j st" and "mx_running st" and "owed_on j c (all_queues st) = []"
  shows "length (of_channel c (mx_log st)) = length (wires j c (of_channel c (mx_put st)))"
  using assms by (simp add: mux_ok_def paid_def)

lemma begin_turn_fields [simp]:
  "mx_log (begin_turn st) = mx_log st" "mx_put (begin_turn st) = mx_put st" "mx_turns (begin_turn st) = mx_turns st"
  "mx_running (begin_turn st) = mx_running st" "all_queues (begin_turn st) = all_queues st"
  "mx_turn (begin_turn st) = Some (0, False)" "mx_queues (begin_turn st) = all_queues st"
  by (simp_all add: begin_turn_def take_opened_def all_queues_def)

lemma on_queue_fields [simp]:
  "mx_log (on_queue c f st) = mx_log st" "mx_turns (on_queue c f st) = mx_turns st" "mx_turn (on_queue c f st) = mx_turn st"
  "mx_put (on_queue c f st) = mx_put st" "mx_running (on_queue c f st) = mx_running st"
  by (simp_all add: on_queue_def Let_def)

lemma visited_on_queue:
  "(\<And>q. wq_channel (f q) = wq_channel q) \<Longrightarrow> visited d (on_queue c f st) = visited d st"
  by (auto simp: visited_def on_queue_def Let_def drop_map image_iff split: option.split)

lemma visited_cong:
  "mx_turn st' = mx_turn st \<Longrightarrow> mx_queues st' = mx_queues st \<Longrightarrow> visited c st' = visited c st"
  by (simp add: visited_def split: option.split)

lemma visited_put [simp]: "visited c (st\<lparr>mx_put := ps\<rparr>) = visited c st"
  by (rule visited_cong) simp_all

text \<open>An action of a sender changes nothing of what is served.\<close>

definition from_task :: "action \<Rightarrow> bool" where
  "from_task a \<longleftrightarrow> (case a of Visit _ \<Rightarrow> True | EndTurn \<Rightarrow> True | Wake \<Rightarrow> True | Abort \<Rightarrow> True | _ \<Rightarrow> False)"

lemma sender_step:
  assumes "\<not> from_task a"
  shows "mx_log (mux_step j a st) = mx_log st \<and> mx_turns (mux_step j a st) = mx_turns st \<and>
    visited c (mux_step j a st) = visited c st \<and> mx_running (mux_step j a st) = mx_running st"
proof (cases a)
  case (Put d x)
  have "visited c ((on_queue d (enqueue x) st)\<lparr>mx_put := ps\<rparr>) = visited c st" for ps
    using visited_on_queue [of "enqueue x" c d st] by (simp add: enqueue_def)
  then show ?thesis
    by (simp add: Put put_def split: option.split)
next
  case (PermitPut d x)
  let ?f = "\<lambda>q. enqueue x q\<lparr>wq_permits := wq_permits q - 1\<rparr>"
  have "visited c ((on_queue d ?f st)\<lparr>mx_put := ps\<rparr>) = visited c st" for ps
    using visited_on_queue [of ?f c d st] by (simp add: enqueue_def)
  then show ?thesis
    by (simp add: PermitPut permit_put_def split: option.split)
next
  case (OpenChannel d depth)
  show ?thesis
    by (auto simp: OpenChannel channel_with_depth_def Let_def intro!: visited_cong)
qed (use assms in \<open>auto simp: from_task_def reserve_def permit_drop_def drop_senders_def drop_handles_def
    visited_on_queue intro!: visited_cong split: option.split\<close>)

lemma step_log: "prefix (mx_log st) (mx_log (mux_step j a st)) \<and> prefix (mx_put st) (mx_put (mux_step j a st))"
proof (cases a)
  case (Visit b)
  then show ?thesis
    by (auto simp: visit_channel_def logged_def stop_writer_def Let_def split: option.split prod.split list.split)
next
  case EndTurn
  then show ?thesis
    by (auto simp: end_turn_cases freed_def stop_writer_def split: option.split)
next
  case Wake
  then show ?thesis
    by (auto simp: wake_def Let_def split: prod.split list.split)
qed (auto simp: put_def reserve_def permit_put_def permit_drop_def drop_senders_def drop_handles_def
    channel_with_depth_def stop_writer_def Let_def split: option.split)

lemma of_channel_prefix: "prefix xs ys \<Longrightarrow> prefix (of_channel c xs) (of_channel c ys)"
  by (auto simp: prefix_def)

lemma wires_prefix: "prefix xs ys \<Longrightarrow> prefix (wires j c xs) (wires j c ys)"
  by (auto simp: prefix_def)

lemma step_goal: "length (of_channel c (mx_log st)) \<le> length (of_channel c (mx_log (mux_step j a st)))"
  using step_log of_channel_prefix prefix_length_le by blast

lemma visit_serves:
  assumes ok: "mux_ok j st" and running: "mx_running (visit_channel j b st)"
    and goal: "goal \<le> length (wires j c (of_channel c (mx_put st)))" and served: "served c goal start base st"
  shows "served c goal start base (visit_channel j b st)"
proof (cases "\<exists>i any. mx_turn st = Some (i, any) \<and> i < length (mx_queues st)")
  case False
  then have "visit_channel j b st = st"
    by (auto simp: visit_channel_def split: option.splits)
  with served show ?thesis by simp
next
  case True
  then obtain i any where turn: "mx_turn st = Some (i, any)" and i: "i < length (mx_queues st)"
    by blast
  obtain q q' evs m where q: "mx_queues st ! i = q" and q': "wq_channel q' = wq_channel q"
      and pays: "owed j q \<noteq> [] \<Longrightarrow> evs \<noteq> []"
      and v: "visit_channel j True st = logged (wq_channel q) evs
        (st\<lparr>mx_queues := (mx_queues st)[i := q'], mx_turn := Some (i + 1, m)\<rparr>)"
      and f: "\<exists>evs'. visit_channel j False st = visit_channel j True st \<or>
        visit_channel j False st = stop_writer (logged (wq_channel q) evs' st) \<and> prefix evs' evs"
    using visit_cases [OF ok turn i] by metis
  have v': "visit_channel j b st = visit_channel j True st"
    using f running by (cases b) (auto simp: stop_writer_def)
  obtain ps rest where qs: "mx_queues st = ps @ q # rest" and len: "length ps = i"
    using id_take_nth_drop [OF i] q i by (metis length_take min.absorb4)
  have fields: "mx_turns (visit_channel j True st) = mx_turns st"
      "of_channel c (mx_log (visit_channel j True st)) = of_channel c (mx_log st) @ (if wq_channel q = c then evs else [])"
      "visited c (visit_channel j True st) = (if c \<in> set (channels rest) then 0 else 1)"
      "visited c st = (if c \<in> set (channels (q # rest)) then 0 else 1)"
    using len turn by (auto simp: v logged_def visited_def qs)
  show ?thesis
  proof (cases "wq_channel q = c \<and> length (of_channel c (mx_log st)) < goal")
    case True
    have "mx_running st"
      using running by (auto simp: v' v logged_def)
    moreover have "owed j q \<noteq> []"
    proof
      assume "owed j q = []"
      moreover have "distinct (channels (ps @ q # rest @ mx_opened st))"
        using ok by (simp add: mux_ok_def all_queues_def qs)
      ultimately have "owed_on j c (all_queues st) = []"
        using True owed_on_update [of ps q "rest @ mx_opened st" q j "[]"]
        by (auto simp: all_queues_def qs owed_on_none)
      with paid_goal [OF ok \<open>mx_running st\<close>] goal True show False
        by simp
    qed
    then have "1 \<le> length evs"
      using pays by (cases evs) auto
    ultimately show ?thesis
      using served True by (auto simp: served_def v' fields)
  next
    case False
    then show ?thesis
      using served by (auto simp: served_def v' fields split: if_splits)
  qed
qed

text \<open>A channel with no queue left has nothing owed.\<close>

lemma gone_goal:
  assumes "mux_ok j st" and "mx_running st" and "c \<notin> set (channels (all_queues st))"
    and "goal \<le> length (wires j c (of_channel c (mx_put st)))"
  shows "goal \<le> length (of_channel c (mx_log st))"
  using paid_goal [OF assms(1,2)] owed_on_none assms(3,4) by fastforce

lemma begin_serves:
  assumes "mux_ok j (begin_turn st)" and "mx_running st"
    and "goal \<le> length (wires j c (of_channel c (mx_put st)))"
    and "start + mx_turns st \<le> length (of_channel c (mx_log st)) + 1 + base"
  shows "served c goal start base (begin_turn st)"
proof (cases "c \<in> set (channels (all_queues st))")
  case True
  then show ?thesis
    using assms(4) by (simp add: served_def visited_def)
next
  case False
  then show ?thesis
    using gone_goal [OF assms(1)] assms(2,3) by (simp add: served_def)
qed

lemma served_goal:
  "served c goal start base st \<Longrightarrow> goal \<le> length (of_channel c (mx_log st)) \<or>
     start + mx_turns st + visited c st \<le> length (of_channel c (mx_log st)) + 1 + base"
  by (simp add: served_def)

lemma freed_fields [simp]:
  "mx_log (freed st) = mx_log st" "mx_put (freed st) = mx_put st" "mx_running (freed st) = mx_running st"
  "mx_turns (freed st) = mx_turns st + 1"
  by (simp_all add: freed_def)

lemma end_turn_serves:
  assumes ok: "mux_ok j st" and running: "mx_running (end_turn st)"
    and goal: "goal \<le> length (wires j c (of_channel c (mx_put st)))" and served: "served c goal start base st"
  shows "served c goal start base (end_turn st)"
proof (cases "\<exists>i any. mx_turn st = Some (i, any) \<and> \<not> i < length (mx_queues st)")
  case False
  with served show ?thesis
    by (auto simp: end_turn_cases split: option.split)
next
  case True
  then obtain i any where turn: "mx_turn st = Some (i, any)" and i: "\<not> i < length (mx_queues st)"
    by blast
  have e: "end_turn st = (if any then begin_turn (freed st)
      else if \<not> mx_listens st \<and> mx_queues (freed st) = [] then stop_writer (freed st)
      else (freed st)\<lparr>mx_turn := None\<rparr>)"
    by (simp add: end_turn_cases turn i)
  have "visited c st = 1"
    using turn i by (simp add: visited_def)
  show ?thesis
  proof (cases "goal \<le> length (of_channel c (mx_log st))")
    case True
    then show ?thesis
      by (simp add: e served_def stop_writer_def)
  next
    case False
    with served \<open>visited c st = 1\<close>
    have bound: "start + mx_turns (freed st) \<le> length (of_channel c (mx_log (freed st))) + 1 + base"
      by (simp add: served_def)
    have "served c goal start base (begin_turn (freed st))" if "any"
      using begin_serves [OF _ _ _ bound, of j goal] that end_turn_ok [OF ok] running goal by (simp add: e)
    moreover have "served c goal start base ((freed st)\<lparr>mx_turn := None\<rparr>)"
      using bound by (simp add: served_def visited_def)
    ultimately show ?thesis
      using running by (auto simp: e stop_writer_def split: if_splits)
  qed
qed

lemma wake_cases:
  obtains "wake j st = st"
  | evs st' where "mx_turn st = None" and "wake j st = st'" and "mx_turn st' = None"
      and "mx_log st' = mx_log st @ evs" and "mx_turns st' = mx_turns st"
  | evs st' where "mx_turn st = None" and "wake j st = begin_turn st'" and "mx_running st" and "mx_running st'"
      and "mx_log st' = mx_log st @ evs" and "mx_turns st' = mx_turns st" and "mx_put st' = mx_put st"
proof (cases "mx_turn st = None \<and> mx_running st")
  case False
  then have "wake j st = st"
    by (auto simp: wake_def)
  then show thesis
    by (rule that(1))
next
  case True
  obtain woke qs evs where p: "poll_queues j (mx_queues st) = (woke, qs, evs)"
    by (metis prod_cases3)
  let ?st = "st\<lparr>mx_queues := qs, mx_log := mx_log st @ evs\<rparr>"
  have "wake j st = ?st \<or> wake j st = begin_turn ?st \<or> wake j st = begin_turn (?st\<lparr>mx_listens := False\<rparr>) \<or>
      (\<exists>q rest. wake j st = begin_turn (?st\<lparr>mx_queues := qs @ [q], mx_opened := rest\<rparr>))"
    using True by (simp add: wake_def p Let_def split: list.split) blast
  then show thesis
    using True that(2) [of ?st evs] that(3) [of ?st evs] that(3) [of "?st\<lparr>mx_listens := False\<rparr>" evs]
      that(3) [of "?st\<lparr>mx_queues := qs @ [q], mx_opened := rest\<rparr>" evs for q rest]
    by fastforce
qed

lemma wake_serves:
  assumes ok: "mux_ok j st"
    and goal: "goal \<le> length (wires j c (of_channel c (mx_put st)))" and served: "served c goal start base st"
  shows "served c goal start base (wake j st)"
proof (cases rule: wake_cases [of j st])
  case 1
  with served show ?thesis by simp
next
  case (2 evs st')
  with served show ?thesis
    by (auto simp: served_def visited_def)
next
  case (3 evs st')
  show ?thesis
  proof (cases "goal \<le> length (of_channel c (mx_log st))")
    case True
    with 3 show ?thesis
      by (simp add: served_def)
  next
    case False
    with served 3 have "start + mx_turns st' \<le> length (of_channel c (mx_log st')) + 1 + base"
      by (simp add: served_def visited_def)
    then show ?thesis
      using 3 begin_serves [of j st' goal c start base] wake_ok [OF ok] goal by simp
  qed
qed

lemma step_serves:
  assumes ok: "mux_ok j st" and running: "mx_running (mux_step j a st)"
    and goal: "goal \<le> length (wires j c (of_channel c (mx_put st)))" and served: "served c goal start base st"
  shows "served c goal start base (mux_step j a st)"
proof (cases "from_task a")
  case False
  with served show ?thesis
    using sender_step [OF False, of j st c] by (simp add: served_def)
next
  case True
  then show ?thesis
    using visit_serves [OF ok _ goal served] end_turn_serves [OF ok _ goal served]
      wake_serves [OF ok goal served] running
    by (cases a) (auto simp: from_task_def stop_writer_def)
qed

lemma step_running: "mx_running (mux_step j a st) \<Longrightarrow> mx_running st"
proof (cases "from_task a")
  case True
  assume "mx_running (mux_step j a st)"
  then show ?thesis
    using True
    by (cases a; cases rule: wake_cases [of j st])
      (auto simp: from_task_def visit_channel_def end_turn_cases stop_writer_def logged_def wake_def Let_def
        split: option.splits prod.splits list.splits if_splits)
qed (use sender_step in blast)

lemma run_running: "mx_running (mux_run j as st) \<Longrightarrow> mx_running st"
  unfolding mux_run_def by (induction as arbitrary: st) (auto dest: step_running)

lemma run_serves:
  "mux_ok j st \<Longrightarrow> mx_running (mux_run j as st) \<Longrightarrow> goal \<le> length (wires j c (of_channel c (mx_put st))) \<Longrightarrow>
     served c goal start base st \<Longrightarrow> served c goal start base (mux_run j as st)"
proof (induction as arbitrary: st)
  case Nil
  then show ?case by (simp add: mux_run_def)
next
  case (Cons a as)
  let ?st = "mux_step j a st"
  have run: "mux_run j (a # as) st = mux_run j as ?st"
    by (simp add: mux_run_def)
  have "length (wires j c (of_channel c (mx_put st))) \<le> length (wires j c (of_channel c (mx_put ?st)))"
    using step_log wires_prefix of_channel_prefix prefix_length_le by blast
  moreover have "mx_running ?st"
    using Cons.prems(2) run_running unfolding run by blast
  then have "served c goal start base ?st"
    by (rule step_serves [OF Cons.prems(1) _ Cons.prems(3,4)])
  ultimately show ?case
    using Cons.IH [of ?st] mux_step_ok [OF Cons.prems(1)] Cons.prems(2,3) by (simp add: run)
qed

lemma run_log: "prefix (mx_log st) (mx_log (mux_run j as st)) \<and> prefix (mx_put st) (mx_put (mux_run j as st))"
proof (induction as arbitrary: st)
  case (Cons a as)
  then show ?case
    unfolding mux_run_def fold_Cons comp_apply by (meson prefix_order.trans step_log)
qed (simp add: mux_run_def)

text \<open>The task can always complete a turn, unless it waits and owes nothing.\<close>

lemma visits_end:
  "mx_turn st = Some (i, any) \<Longrightarrow> i \<le> length (mx_queues st) \<Longrightarrow>
     mx_turns (mux_run j (replicate (length (mx_queues st) - i) (Visit True) @ [EndTurn]) st) = mx_turns st + 1"
proof (induction "length (mx_queues st) - i" arbitrary: st i any)
  case 0
  then show ?case
    by (simp add: mux_run_def end_turn_cases stop_writer_def)
next
  case (Suc n)
  let ?st = "visit_channel j True st"
  have i: "i < length (mx_queues st)"
    using Suc.hyps(2) by simp
  obtain q evs where "refill j (mx_queues st ! i) = (q, evs)"
    by fastforce
  then have "\<exists>any'. mx_turn ?st = Some (i + 1, any') \<and> length (mx_queues ?st) = length (mx_queues st) \<and>
      mx_turns ?st = mx_turns st"
    using Suc.prems i by (cases "wq_pieces q") (auto simp: visit_channel_def logged_def Let_def)
  then obtain any' where v: "mx_turn ?st = Some (i + 1, any')" "length (mx_queues ?st) = length (mx_queues st)"
      "mx_turns ?st = mx_turns st"
    by blast
  have n: "n = length (mx_queues ?st) - (i + 1)"
    using Suc.hyps(2) v(2) by simp
  have "mx_turns (mux_run j (replicate n (Visit True) @ [EndTurn]) ?st) = mx_turns st + 1"
    using Suc.hyps(1) [OF n v(1)] v i unfolding n [symmetric] by simp
  then show ?case
    unfolding Suc.hyps(2) [symmetric] by (simp add: mux_run_def)
qed

lemma owing_wakes:
  assumes ok: "mux_ok j st" and running: "mx_running st" and "mx_turn st = None"
    and owes: "owed_on j c (all_queues st) \<noteq> []"
  shows "mx_turn (wake j st) = Some (0, False)"
proof -
  obtain woke qs evs where p: "poll_queues j (mx_queues st) = (woke, qs, evs)"
    by (metis prod_cases3)
  have drained: "list_all drained (mx_queues st)" and "list_all queue_ok (mx_queues st)"
    using ok \<open>mx_turn st = None\<close> by (simp_all add: mux_defs idle_ok_def)
  note spec = poll_queues_spec(1) [OF p this]
  have "woke" if "mx_opened st = []"
  proof (rule ccontr)
    assume "\<not> woke"
    with spec have "list_all (\<lambda>q. wq_frames q = []) (mx_queues st)"
      by blast
    with drained have "owed j q = []" if "q \<in> set (mx_queues st)" for q
      using that by (auto simp: list_all_iff owed_def drained_def)
    then have "owed_on j c (mx_queues st) = []"
      by (simp add: owed_on_def)
    with owes that show False
      by (simp add: all_queues_def)
  qed
  moreover have "mx_listens st" if "mx_opened st \<noteq> []"
    using ok that by (auto simp: mux_ok_def)
  ultimately show ?thesis
    using running \<open>mx_turn st = None\<close>
    by (auto simp: wake_def p Let_def split: list.split)
qed

text \<open>
  C14. What is owed on a channel is on the socket after as many completed turns as there are messages
  owed, and one more, whatever the other channels queue meanwhile; and while something is owed the task
  alone can complete a turn.
\<close>

theorem no_channel_is_starved:
  assumes s: "s = mux_run j earlier writer_start" and t: "t = mux_run j later s" and running: "mx_running t"
    and turns: "mx_turns s + length (owed_on j c (all_queues s)) + 1 \<le> mx_turns t"
  shows "prefix (wires j c (of_channel c (mx_put s))) (of_channel c (mx_log t)) \<and>
    (owed_on j d (all_queues t) \<noteq> [] \<longrightarrow>
      (\<exists>n. mx_turns (mux_run j (Wake # replicate n (Visit True) @ [EndTurn]) t) = mx_turns t + 1))"
proof -
  have ok_s: "mux_ok j s"
    unfolding s by (rule run_ok)
  have "t = mux_run j (earlier @ later) writer_start"
    by (simp add: t s mux_run_def)
  then have ok: "mux_ok j t"
    by (simp add: run_ok)
  have "mx_running s"
    using running run_running unfolding t by blast
  then have paid: "wires j c (of_channel c (mx_put s)) = of_channel c (mx_log s) @ owed_on j c (all_queues s)"
    using ok_s by (simp add: mux_ok_def paid_def)
  define goal where "goal = length (wires j c (of_channel c (mx_put s)))"
  have "served c goal (length (of_channel c (mx_log s))) (mx_turns s) s"
    by (auto simp: served_def visited_def split: option.split)
  then have "served c goal (length (of_channel c (mx_log s))) (mx_turns s) t"
    unfolding t using run_serves [OF ok_s] running by (simp add: t goal_def)
  then have "goal \<le> length (of_channel c (mx_log t))"
    using turns by (auto simp: served_def goal_def paid)
  moreover have "prefix (wires j c (of_channel c (mx_put s))) (wires j c (of_channel c (mx_put t)))"
    unfolding t using run_log wires_prefix of_channel_prefix by blast
  moreover have "prefix (of_channel c (mx_log t)) (wires j c (of_channel c (mx_put t)))"
    using mux_ok_in_order [OF ok] by (simp add: frames_in_order_def)
  ultimately have all: "prefix (wires j c (of_channel c (mx_put s))) (of_channel c (mx_log t))"
    unfolding goal_def by (rule_tac prefix_length_prefix)
  have "\<exists>n. mx_turns (mux_run j (Wake # replicate n (Visit True) @ [EndTurn]) t) = mx_turns t + 1"
    if owes: "owed_on j d (all_queues t) \<noteq> []"
  proof (cases "mx_turn t")
    case None
    have "mx_turns (wake j t) = mx_turns t"
      by (cases rule: wake_cases [of j t]) simp_all
    then show ?thesis
      using visits_end [OF owing_wakes [OF ok running None owes], of j] by (auto simp: mux_run_def)
  next
    case (Some ia)
    then obtain i any where turn: "mx_turn t = Some (i, any)"
      by (cases ia) simp
    then have "wake j t = t" "i \<le> length (mx_queues t)"
      using ok by (simp_all add: wake_def mux_ok_def idle_ok_def)
    then show ?thesis
      using visits_end [OF turn, of j] by (auto simp: mux_run_def)
  qed
  with all show ?thesis
    by blast
qed

section \<open>A run\<close>

text \<open>A JSON codec that is enough to run the writer, whose own frames carry no JSON.\<close>

definition no_json :: "unit json_codec" where
  "no_json = \<lparr>jc_command = \<lambda>_. [], jc_read_command = \<lambda>_. Inl [], jc_presence = \<lambda>_. [], jc_read_presence = \<lambda>_. Inl []\<rparr>"

definition opening_actions :: "action list" where
  "opening_actions = [OpenChannel 1 2, EndTurn, Wake, Put 1 (OutFrame [0x2A]), Put 1 (OutSent 9)]"

definition turn_actions :: "action list" where
  "turn_actions = [Visit True, EndTurn]"

definition later_actions :: "action list" where
  "later_actions = [Put 1 (OutFrame [0x07]), Wake, Visit True, EndTurn]"

lemmas run_simps =
  later_actions_def opening_actions_def turn_actions_def writer_start_def mux_run_def begin_turn_def take_opened_def
  end_turn_def channel_with_depth_def new_queue_def wake_def put_def queue_of_def all_queues_def has_room_def
  enqueue_def on_queue_def visit_channel_def refill_def poll_refill_def try_recv_def logged_def
  frame_messages_def finished_def
  owed_on_def owed_def wires_def cut_butlast_last cut_pieces_def chunks.simps MAX_PIECE_def

theorem frames_arrive_in_order_witness:
  "of_channel 1 (deliver no_json (\<lambda>_. [])
     (wire_messages (mx_log (mux_run no_json (opening_actions @ turn_actions @ turn_actions) writer_start)))) =
   [[0x2A]]"
proof -
  let ?st = "mux_run no_json (opening_actions @ turn_actions @ turn_actions) writer_start"
  have put: "mx_put ?st = [(1, OutFrame [0x2A]), (1, OutSent 9)]"
    and rest: "mx_running ?st" "owed_on no_json 1 (all_queues ?st) = []"
    by (simp_all add: run_simps)
  have "list_all sendable (mx_put ?st)"
    by (simp add: put sendable_def MAX_COMMAND_BYTES_value)
  from frames_arrive_in_order [OF refl this, of 1] rest show ?thesis
    by (simp add: put)
qed

theorem no_channel_is_starved_witness:
  "prefix (wires no_json 1 [OutFrame [0x2A], OutSent 9])
     (of_channel 1 (mx_log (mux_run no_json (turn_actions @ turn_actions @ later_actions)
        (mux_run no_json opening_actions writer_start))))"
proof -
  let ?s = "mux_run no_json opening_actions writer_start"
  let ?t = "mux_run no_json (turn_actions @ turn_actions @ later_actions) ?s"
  have put: "of_channel 1 (mx_put ?s) = [OutFrame [0x2A], OutSent 9]"
    and rest: "mx_running ?t" "mx_turns ?s + length (owed_on no_json 1 (all_queues ?s)) + 1 \<le> mx_turns ?t"
    by (simp_all add: run_simps)
  from no_channel_is_starved [OF refl refl rest, of 0] show ?thesis
    by (simp add: put)
qed

end
