(* ===== verification/Mux_Reader.thy ===== *)
theory Mux_Reader
  imports Mux_Writer Auth_Login "HOL-Library.AList"
begin

text \<open>
  The reader of a page socket (\<^verbatim>\<open>mux/socket/read.rs\<close>, \<^verbatim>\<open>mux/socket.rs\<close>, \<^verbatim>\<open>mux/kinds.rs\<close>): the table of
  the open channels, the frames the page sends on them, and the answers on channel 0.

  What the reader does to the rest of the daemon is the list \<open>rd_effects\<close>.  A channel's kind is a task
  of its own: its input queue is \<open>oc_inbound\<close>, and a step of the kind takes a frame of it or ends.  Whether
  the socket's writer still runs and what the login is now are arguments of a step.  Reading a JSON value is
  the parameter \<open>json_view\<close>.
\<close>

section \<open>Kinds of channel\<close>

datatype channel_kind = KConsole | KTree | KRuns | KChanges | KSpawn

definition kind_parse :: "string \<Rightarrow> channel_kind option" where
  "kind_parse name =
     (if name = ''console'' then Some KConsole
      else if name = ''tree'' then Some KTree
      else if name = ''runs'' then Some KRuns
      else if name = ''changes'' then Some KChanges
      else if name = ''spawn'' then Some KSpawn
      else None)"

definition CONSOLE_QUEUE_FRAMES :: nat where "CONSOLE_QUEUE_FRAMES = 1"

fun queue_depth :: "channel_kind \<Rightarrow> nat option" where
  "queue_depth KConsole = Some CONSOLE_QUEUE_FRAMES"
| "queue_depth _ = None"

datatype close_reason = Refused | TooLarge | ChannelDone | Overflow

fun close_wire :: "close_reason \<Rightarrow> string" where
  "close_wire Refused = ''refused''"
| "close_wire TooLarge = ''too-large''"
| "close_wire ChannelDone = ''done''"
| "close_wire Overflow = ''overflow''"

text \<open>
  \<open>jv_get\<close>, \<open>jv_str\<close> and \<open>jv_u64\<close> are \<^verbatim>\<open>Value::get\<close>, \<^verbatim>\<open>as_str\<close> and \<^verbatim>\<open>as_u64\<close>; \<open>jv_command\<close> and
  \<open>jv_session_query\<close> say whether a value reads as a \<^verbatim>\<open>Command\<close> and as a \<^verbatim>\<open>SessionQuery\<close>; \<open>jv_closed\<close> is the
  object a \<^verbatim>\<open>channel.closed\<close> carries.
\<close>

record 'v json_view =
  jv_get :: "'v \<Rightarrow> string \<Rightarrow> 'v option"
  jv_str :: "'v \<Rightarrow> string option"
  jv_u64 :: "'v \<Rightarrow> nat option"
  jv_command :: "'v \<Rightarrow> bool"
  jv_session_query :: "'v \<Rightarrow> bool"
  jv_closed :: "u32 \<Rightarrow> string \<Rightarrow> 'v"

definition closed_frame :: "'v json_codec \<Rightarrow> 'v json_view \<Rightarrow> u32 \<Rightarrow> close_reason \<Rightarrow> bytes" where
  "closed_frame j jv c reason =
     encode j (CommandFrame
       \<lparr>cm_id = 0, cm_verb = ''channel.closed'', cm_payload = jv_closed jv c (close_wire reason)\<rparr>)"

definition channel_id :: "'v json_view \<Rightarrow> 'v \<Rightarrow> u32 option" where
  "channel_id jv payload =
     Option.bind (Option.bind (jv_get jv payload ''channel'') (jv_u64 jv)) (\<lambda>n.
       if n < 2 ^ 32 \<and> 1 \<le> n then Some (of_nat n) else None)"

record 'v open_request =
  rq_channel :: u32
  rq_kind :: "channel_kind option"
  rq_payload :: 'v

definition request_parse :: "'v json_view \<Rightarrow> 'v \<Rightarrow> 'v open_request option" where
  "request_parse jv payload =
     map_option (\<lambda>c. \<lparr>rq_channel = c,
         rq_kind = Option.bind (Option.bind (jv_get jv payload ''kind'') (jv_str jv)) kind_parse,
         rq_payload = payload\<rparr>)
       (channel_id jv payload)"

text \<open>\<^verbatim>\<open>kinds::open\<close>: a console needs a session query and a spawn a command.\<close>

fun kind_open :: "'v json_view \<Rightarrow> channel_kind \<Rightarrow> 'v \<Rightarrow> close_reason + unit" where
  "kind_open jv KConsole payload = (if jv_session_query jv payload then Inr () else Inl Refused)"
| "kind_open jv KSpawn payload =
     (case jv_get jv payload ''command'' of
        Some c \<Rightarrow> if jv_command jv c then Inr () else Inl Refused
      | None \<Rightarrow> Inl Refused)"
| "kind_open jv _ payload = Inr ()"

section \<open>The login of the socket\<close>

record page_login =
  pl_epoch :: nat
  pl_policy :: string
  pl_login :: "login_id option"

definition login_of :: "auth_state \<Rightarrow> login_id option \<Rightarrow> page_login" where
  "login_of st login = \<lparr>pl_epoch = au_epoch st, pl_policy = policy_name (au_policy st), pl_login = login\<rparr>"

definition login_changed :: "page_login \<Rightarrow> auth_state \<Rightarrow> bool" where
  "login_changed l st \<longleftrightarrow>
     au_epoch st \<noteq> pl_epoch l \<or> policy_name (au_policy st) \<noteq> pl_policy l \<or>
     (case pl_login l of None \<Rightarrow> False | Some login \<Rightarrow> revoked_contains (au_revoked st) login)"

section \<open>The table\<close>

definition INBOUND_FRAMES :: nat where "INBOUND_FRAMES = 64"
definition MAX_OPEN_BYTES :: nat where "MAX_OPEN_BYTES = 4 * 1024"
definition MAX_CHANNELS :: nat where "MAX_CHANNELS = 256"
definition MAX_REPORT_BYTES :: nat where "MAX_REPORT_BYTES = 256 + 256"

record open_channel =
  oc_joiner :: joiner
  oc_inbound :: "bytes list"
  oc_ended :: bool

datatype 'v effect =
  QueueOpened u32 nat
| KindStarted u32 channel_kind 'v
| Handed u32 bytes
| KindClosed u32
| KindStopped u32
| ChannelClosed u32 close_reason
| Reported 'v
| Drained

record 'v reader =
  rd_login :: page_login
  rd_open :: "(u32 \<times> open_channel) list"
  rd_used :: "u32 set"
  rd_effects :: "'v effect list"

text \<open>
  \<open>Drained\<close> is the wait for the writer to send a refusal before the socket ends; \<open>KindStopped\<close> is the drop
  of a channel, which aborts its task, and \<open>KindClosed\<close> the end of its input.
\<close>

definition reader_new :: "page_login \<Rightarrow> 'v reader" where
  "reader_new l = \<lparr>rd_login = l, rd_open = [], rd_used = {}, rd_effects = []\<rparr>"

definition does :: "'v effect \<Rightarrow> 'v reader \<Rightarrow> 'v reader" where
  "does e r = r\<lparr>rd_effects := rd_effects r @ [e]\<rparr>"

definition use_id :: "u32 \<Rightarrow> 'v reader \<Rightarrow> 'v reader" where
  "use_id c r = r\<lparr>rd_used := insert c (rd_used r)\<rparr>"

text \<open>\<^verbatim>\<open>answer\<close>: the frame on channel 0, which fails once the writer has ended.\<close>

definition answer :: "bool \<Rightarrow> u32 \<Rightarrow> close_reason \<Rightarrow> 'v reader \<Rightarrow> bool \<times> 'v reader" where
  "answer alive c reason r = (if alive then (True, does (ChannelClosed c reason) r) else (False, r))"

definition prune :: "'v reader \<Rightarrow> 'v reader" where
  "prune r = r\<lparr>rd_open := filter (\<lambda>(c, oc). \<not> oc_ended oc) (rd_open r)\<rparr>"

definition remove_open :: "u32 \<Rightarrow> 'v effect \<Rightarrow> 'v reader \<Rightarrow> 'v reader" where
  "remove_open c e r =
     (case map_of (rd_open r) c of
        None \<Rightarrow> r
      | Some _ \<Rightarrow> does e (r\<lparr>rd_open := AList.delete c (rd_open r)\<rparr>))"

definition end_channel :: "bool \<Rightarrow> u32 \<Rightarrow> close_reason \<Rightarrow> 'v reader \<Rightarrow> bool \<times> 'v reader" where
  "end_channel alive c reason r =
     answer alive c reason (use_id c (remove_open c (KindStopped c) r))"

definition refuse_after_login_change :: "bool \<Rightarrow> u32 \<Rightarrow> 'v reader \<Rightarrow> bool \<times> 'v reader" where
  "refuse_after_login_change alive c r =
     (case answer alive c Refused (use_id c r) of
        (True, r) \<Rightarrow> (False, does Drained r)
      | (False, r) \<Rightarrow> (False, r))"

definition on_open :: "'v json_view \<Rightarrow> bool \<Rightarrow> auth_state \<Rightarrow> 'v \<Rightarrow> 'v reader \<Rightarrow> bool \<times> 'v reader" where
  "on_open jv alive auth payload r =
     (case request_parse jv payload of
        None \<Rightarrow> (True, r)
      | Some request \<Rightarrow>
          let c = rq_channel request in
          if login_changed (rd_login r) auth then refuse_after_login_change alive c r
          else let r = prune r in
            if c \<in> rd_used r then answer alive c Refused r
            else let r = use_id c r in
              case rq_kind request of
                None \<Rightarrow> answer alive c Refused r
              | Some kind \<Rightarrow>
                  if length (rd_open r) \<ge> MAX_CHANNELS then answer alive c Refused r
                  else let r = does (QueueOpened c (case queue_depth kind of Some d \<Rightarrow> d | None \<Rightarrow> QUEUE_FRAMES)) r
                    in case kind_open jv kind (rq_payload request) of
                         Inr _ \<Rightarrow> (True, does (KindStarted c kind (rq_payload request))
                           (r\<lparr>rd_open := (c, \<lparr>oc_joiner = [], oc_inbound = [], oc_ended = False\<rparr>) # rd_open r\<rparr>))
                       | Inl reason \<Rightarrow> answer alive c reason r)"

definition on_close :: "'v json_view \<Rightarrow> 'v \<Rightarrow> 'v reader \<Rightarrow> 'v reader" where
  "on_close jv payload r =
     (case channel_id jv payload of
        None \<Rightarrow> r
      | Some c \<Rightarrow> use_id c (remove_open c (KindClosed c) r))"

definition set_open :: "u32 \<Rightarrow> open_channel \<Rightarrow> 'v reader \<Rightarrow> 'v reader" where
  "set_open c oc r = r\<lparr>rd_open := AList.update c oc (rd_open r)\<rparr>"

text \<open>\<^verbatim>\<open>hand\<close>: the input queue of the kind takes the frame, is full, or is closed because the kind ended.\<close>

definition hand :: "bool \<Rightarrow> u32 \<Rightarrow> bytes \<Rightarrow> 'v reader \<Rightarrow> bool \<times> 'v reader" where
  "hand alive c inner r =
     (case map_of (rd_open r) c of
        None \<Rightarrow> (True, r)
      | Some oc \<Rightarrow>
          if oc_ended oc then (True, remove_open c (KindStopped c) r)
          else if length (oc_inbound oc) < INBOUND_FRAMES then
            (True, does (Handed c inner) (set_open c (oc\<lparr>oc_inbound := oc_inbound oc @ [inner]\<rparr>) r))
          else end_channel alive c Overflow r)"

definition on_piece :: "bool \<Rightarrow> u32 \<Rightarrow> bool \<Rightarrow> bytes \<Rightarrow> 'v reader \<Rightarrow> bool \<times> 'v reader" where
  "on_piece alive c due piece r =
     (if c = 0 then (True, r)
      else let r = prune r in
        case map_of (rd_open r) c of
          None \<Rightarrow> if c \<in> rd_used r then (True, r) else answer alive c Refused (use_id c r)
        | Some oc \<Rightarrow>
            (case joiner_push due piece (oc_joiner oc) of
               (res, buf) \<Rightarrow>
                 let r = set_open c (oc\<lparr>oc_joiner := buf\<rparr>) r in
                 (case res of
                    Inr None \<Rightarrow> (True, r)
                  | Inr (Some inner) \<Rightarrow> hand alive c inner r
                  | Inl _ \<Rightarrow> end_channel alive c TooLarge r)))"

definition channel_of :: "bytes \<Rightarrow> u32 option" where
  "channel_of bs = (if length bs < 5 then None else Some (u32_from_be (take 4 (drop 1 bs))))"

definition take_piece :: "'v json_codec \<Rightarrow> bool \<Rightarrow> bytes \<Rightarrow> 'v reader \<Rightarrow> bool \<times> 'v reader" where
  "take_piece j alive bs r =
     (case decode_frame j bs of
        Inr (ChannelFrame c due piece) \<Rightarrow> on_piece alive c due piece r
      | Inl (ChannelRefused (UnknownFlags _)) \<Rightarrow>
          (case channel_of bs of
             Some c \<Rightarrow> if c \<ge> 1 then end_channel alive c Refused r else (True, r)
           | None \<Rightarrow> (True, r))
      | _ \<Rightarrow> (True, r))"

definition take_command :: "'v json_view \<Rightarrow> bool \<Rightarrow> auth_state \<Rightarrow> 'v command \<Rightarrow> 'v reader \<Rightarrow> bool \<times> 'v reader" where
  "take_command jv alive auth c r =
     (if cm_verb c = ''presence.report'' then (True, does (Reported (cm_payload c)) r)
      else if cm_verb c = ''channel.open'' then on_open jv alive auth (cm_payload c) r
      else if cm_verb c = ''channel.close'' then (True, on_close jv (cm_payload c) r)
      else (True, r))"

definition take_message :: "'v json_codec \<Rightarrow> 'v json_view \<Rightarrow> bool \<Rightarrow> auth_state \<Rightarrow> bytes \<Rightarrow> 'v reader
    \<Rightarrow> bool \<times> 'v reader" where
  "take_message j jv alive auth bs r =
     (if (case bs of [] \<Rightarrow> False | b # _ \<Rightarrow> b = TAG_CHANNEL) then take_piece j alive bs r
      else if length bs > MAX_OPEN_BYTES then (False, r)
      else case decode_frame j bs of
        Inr (CommandFrame c) \<Rightarrow>
          if length bs > MAX_REPORT_BYTES \<and> cm_verb c \<noteq> ''channel.open'' then (False, r)
          else take_command jv alive auth c r
      | _ \<Rightarrow> (length bs \<le> MAX_REPORT_BYTES, r))"

definition close_all :: "'v reader \<Rightarrow> 'v reader" where
  "close_all r = r\<lparr>rd_open := [], rd_effects := rd_effects r @ map (\<lambda>(c, oc). KindClosed c) (rd_open r)\<rparr>"

section \<open>The read loop\<close>

datatype ws_message = WsBinary bytes | WsOther | WsClose

text \<open>One message of the socket; \<open>False\<close> ends the loop.\<close>

fun read_one :: "'v json_codec \<Rightarrow> 'v json_view \<Rightarrow> bool \<Rightarrow> auth_state \<Rightarrow> ws_message \<Rightarrow> 'v reader \<Rightarrow> bool \<times> 'v reader" where
  "read_one j jv alive auth (WsBinary bs) r = take_message j jv alive auth bs r"
| "read_one j jv alive auth WsOther r = (True, r)"
| "read_one j jv alive auth WsClose r = (False, r)"

text \<open>A step is a message of the page, or a kind that takes a frame of its input or ends.\<close>

datatype reader_event = PageSends bool auth_state ws_message | KindReads u32 | KindEnds u32

definition on_kind :: "u32 \<Rightarrow> (open_channel \<Rightarrow> open_channel) \<Rightarrow> 'v reader \<Rightarrow> 'v reader" where
  "on_kind c f r =
     (case map_of (rd_open r) c of None \<Rightarrow> r | Some oc \<Rightarrow> set_open c (f oc) r)"

fun reader_step :: "'v json_codec \<Rightarrow> 'v json_view \<Rightarrow> reader_event \<Rightarrow> bool \<times> 'v reader \<Rightarrow> bool \<times> 'v reader" where
  "reader_step j jv e (False, r) = (False, r)"
| "reader_step j jv (KindReads c) (True, r) = (True, on_kind c (\<lambda>oc. oc\<lparr>oc_inbound := tl (oc_inbound oc)\<rparr>) r)"
| "reader_step j jv (KindEnds c) (True, r) = (True, on_kind c (\<lambda>oc. oc\<lparr>oc_ended := True\<rparr>) r)"
| "reader_step j jv (PageSends alive auth m) (True, r) =
     (case read_one j jv alive auth m r of
        (True, r) \<Rightarrow> (True, r)
      | (False, r) \<Rightarrow> (False, close_all r))"

definition reader_run :: "'v json_codec \<Rightarrow> 'v json_view \<Rightarrow> reader_event list \<Rightarrow> page_login \<Rightarrow> bool \<times> 'v reader" where
  "reader_run j jv es l = fold (reader_step j jv) es (True, reader_new l)"

end
