(* ===== verification/Mux_Reader_Props.thy ===== *)
theory Mux_Reader_Props
  imports Mux_Reader Stepwise
begin

text \<open>
  The table of channels of a page socket: every id has at most one life, a message about one channel
  leaves the others alone, the pieces of a frame arrive as the frame, and a page that was logged out
  opens nothing.
\<close>

section \<open>The life of a channel\<close>

datatype phase = Unused | HasQueue | Serving | Over

fun effect_id :: "'v effect \<Rightarrow> u32 option" where
  "effect_id (QueueOpened c d) = Some c"
| "effect_id (KindStarted c k p) = Some c"
| "effect_id (Handed c inner) = Some c"
| "effect_id (KindClosed c) = Some c"
| "effect_id (KindStopped c) = Some c"
| "effect_id _ = None"

fun next_phase :: "'v effect \<Rightarrow> phase \<Rightarrow> phase option" where
  "next_phase (QueueOpened c d) Unused = Some HasQueue"
| "next_phase (KindStarted c k p) HasQueue = Some Serving"
| "next_phase (Handed c inner) Serving = Some Serving"
| "next_phase (KindClosed c) Serving = Some Over"
| "next_phase (KindStopped c) Serving = Some Over"
| "next_phase _ _ = None"

definition live_step :: "u32 \<Rightarrow> 'v effect \<Rightarrow> phase option \<Rightarrow> phase option" where
  "live_step c e p = (if effect_id e = Some c then Option.bind p (next_phase e) else p)"

text \<open>The phase the effects on \<open>c\<close> lead to; \<open>None\<close> when one came out of turn.\<close>

definition life :: "u32 \<Rightarrow> 'v effect list \<Rightarrow> phase option" where
  "life c es = fold (live_step c) es (Some Unused)"

lemma life_append [simp]: "life c (es @ fs) = fold (live_step c) fs (life c es)"
  by (simp add: life_def)

lemma life_Nil [simp]: "life c [] = Some Unused"
  by (simp add: life_def)

definition channel_ok :: "open_channel \<Rightarrow> bool" where
  "channel_ok oc \<longleftrightarrow> length (oc_joiner oc) \<le> MAX_COMMAND_BYTES \<and> length (oc_inbound oc) \<le> INBOUND_FRAMES \<and>
     list_all (\<lambda>f. length f \<le> MAX_COMMAND_BYTES) (oc_inbound oc)"

definition reader_ok :: "'v reader \<Rightarrow> bool" where
  "reader_ok r \<longleftrightarrow>
     distinct (map fst (rd_open r)) \<and> length (rd_open r) \<le> MAX_CHANNELS \<and>
     list_all (channel_ok \<circ> snd) (rd_open r) \<and> 0 \<notin> rd_used r \<and>
     (\<forall>c. life c (rd_effects r) \<noteq> None \<and>
        (c \<in> fst ` set (rd_open r) \<longrightarrow> c \<in> rd_used r \<and> life c (rd_effects r) = Some Serving) \<and>
        (c \<notin> rd_used r \<longrightarrow> life c (rd_effects r) = Some Unused))"

lemma reader_okD:
  assumes "reader_ok r" and "(c, oc) \<in> set (rd_open r)"
  shows "c \<in> rd_used r \<and> life c (rd_effects r) = Some Serving \<and> channel_ok oc"
proof -
  have "c \<in> fst ` set (rd_open r)"
    using assms(2) by (metis fst_conv image_eqI)
  moreover have "channel_ok oc"
    using assms unfolding reader_ok_def list_all_iff by (metis comp_apply snd_conv)
  ultimately show ?thesis
    using assms(1) unfolding reader_ok_def by blast
qed

lemma reader_fields [simp]:
  "rd_open (does e r) = rd_open r" "rd_open (use_id c r) = rd_open r" "rd_used (does e r) = rd_used r"
  "rd_effects (does e r) = rd_effects r @ [e]" "rd_effects (use_id c r) = rd_effects r"
  by (simp_all add: does_def use_id_def)

lemma new_ok: "reader_ok (reader_new l)"
  by (simp add: reader_ok_def reader_new_def)

lemma silent_ok: "effect_id e = None \<Longrightarrow> reader_ok r \<Longrightarrow> reader_ok (does e r)"
  by (simp add: reader_ok_def does_def live_step_def)

lemma use_ok: "c \<noteq> 0 \<Longrightarrow> reader_ok r \<Longrightarrow> reader_ok (use_id c r)"
  by (auto simp: reader_ok_def use_id_def)

lemma answer_ok: "reader_ok r \<Longrightarrow> reader_ok (snd (answer alive c reason r))"
  by (simp add: answer_def silent_ok)

lemma prune_ok:
  assumes "reader_ok r"
  shows "reader_ok (prune r)"
proof -
  have "distinct (map fst (filter P (rd_open r)))" for P
    using assms by (simp add: reader_ok_def distinct_map_filter)
  moreover have "length (filter P (rd_open r)) \<le> MAX_CHANNELS" for P
    using assms le_trans [OF length_filter_le [of P "rd_open r"]] by (simp add: reader_ok_def)
  ultimately show ?thesis
    using assms unfolding reader_ok_def prune_def by (auto simp: list_all_iff)
qed

lemma delete_keys: "fst ` set (AList.delete c xs) = fst ` set xs - {c}"
  by (auto simp: AList.delete_eq)

lemma delete_sub: "x \<in> set (AList.delete c xs) \<Longrightarrow> x \<in> set xs"
  by (auto simp: AList.delete_eq)

lemma remove_ok:
  assumes ok: "reader_ok r" and e: "e = KindStopped c \<or> e = KindClosed c"
  shows "reader_ok (remove_open c e r)" and "c \<notin> fst ` set (rd_open (remove_open c e r))"
proof -
  show "c \<notin> fst ` set (rd_open (remove_open c e r))"
    by (auto simp: remove_open_def does_def delete_keys map_of_eq_None_iff split: option.split)
  show "reader_ok (remove_open c e r)"
  proof (cases "map_of (rd_open r) c")
    case (Some oc)
    then have serving: "life c (rd_effects r) = Some Serving" and used: "c \<in> rd_used r"
      using reader_okD [OF ok map_of_SomeD [OF Some]] by simp_all
    have "length (AList.delete c (rd_open r)) \<le> MAX_CHANNELS"
      using ok le_trans [OF length_delete_le [of c "rd_open r"]] by (simp add: reader_ok_def)
    moreover have "distinct (map fst (AList.delete c (rd_open r)))"
      using ok by (simp add: reader_ok_def distinct_delete)
    ultimately show ?thesis
      using ok e serving used unfolding reader_ok_def
      by (auto simp: remove_open_def Some does_def live_step_def delete_keys list_all_iff dest: delete_sub)
  qed (use ok in \<open>simp add: remove_open_def\<close>)
qed

lemma end_channel_ok: "reader_ok r \<Longrightarrow> c \<noteq> 0 \<Longrightarrow> reader_ok (snd (end_channel alive c reason r))"
  by (simp add: end_channel_def answer_ok use_ok remove_ok)

lemma update_keys: "c \<in> fst ` set xs \<Longrightarrow> map fst (AList.update c v xs) = map fst xs"
  by (induction xs) auto

lemma set_open_ok:
  assumes ok: "reader_ok r" and "map_of (rd_open r) c = Some oc" and "channel_ok oc'"
  shows "reader_ok (set_open c oc' r)"
proof -
  have c: "c \<in> fst ` set (rd_open r)"
    using assms(2) by (force dest: map_of_SomeD)
  note keys = update_keys [OF this, of oc']
  have "length (AList.update c oc' (rd_open r)) = length (rd_open r)"
    using keys by (metis length_map)
  moreover have "list_all (channel_ok \<circ> snd) (AList.update c oc' xs)" if "list_all (channel_ok \<circ> snd) xs" for xs
    using that assms(3) by (induction xs) auto
  moreover have "fst ` set (AList.update c oc' (rd_open r)) = fst ` set (rd_open r)"
    using keys by (metis list.set_map)
  ultimately show ?thesis
    using ok keys unfolding reader_ok_def set_open_def by simp
qed

lemma handed_ok:
  assumes "reader_ok r" and "c \<in> fst ` set (rd_open r)"
  shows "reader_ok (does (Handed c inner) r)"
  using assms unfolding reader_ok_def by (simp add: does_def live_step_def)

lemma set_open_keys:
  "map_of (rd_open r) c = Some oc \<Longrightarrow> c \<in> fst ` set (rd_open (set_open c oc' r))"
  by (simp add: set_open_def dom_update)

lemma hand_ok:
  assumes ok: "reader_ok r" and "c \<noteq> 0" and "length inner \<le> MAX_COMMAND_BYTES"
  shows "reader_ok (snd (hand alive c inner r))"
proof (cases "map_of (rd_open r) c")
  case (Some oc)
  let ?oc = "oc\<lparr>oc_inbound := oc_inbound oc @ [inner]\<rparr>"
  have "channel_ok oc"
    using reader_okD [OF ok map_of_SomeD [OF Some]] by simp
  then have "reader_ok (does (Handed c inner) (set_open c ?oc r))" if "length (oc_inbound oc) < INBOUND_FRAMES"
    using that assms(3) by (intro handed_ok set_open_ok [OF ok Some] set_open_keys [OF Some]) (simp add: channel_ok_def)
  then show ?thesis
    using Some ok assms(2) by (simp add: hand_def remove_ok end_channel_ok)
qed (use ok in \<open>simp add: hand_def\<close>)

lemma joiner_bound: "length buf \<le> MAX_COMMAND_BYTES \<Longrightarrow> length (snd (joiner_push due piece buf)) \<le> MAX_COMMAND_BYTES"
  by (simp add: joiner_push_def Let_def)

lemma joined_bound: "joiner_push due piece buf = (Inr (Some inner), buf') \<Longrightarrow> length inner \<le> MAX_COMMAND_BYTES"
  by (auto simp: joiner_push_def Let_def split: if_splits)

lemma on_piece_ok:
  assumes "reader_ok r"
  shows "reader_ok (snd (on_piece alive c due piece r))"
proof (cases "c = 0")
  case False
  let ?r = "prune r"
  have ok: "reader_ok ?r"
    using assms by (rule prune_ok)
  show ?thesis
  proof (cases "map_of (rd_open ?r) c")
    case None
    then show ?thesis
      using ok False by (simp add: on_piece_def Let_def answer_ok use_ok)
  next
    case (Some oc)
    obtain res buf where push: "joiner_push due piece (oc_joiner oc) = (res, buf)"
      by fastforce
    have "channel_ok (oc\<lparr>oc_joiner := buf\<rparr>)"
      using reader_okD [OF ok map_of_SomeD [OF Some]] joiner_bound [of "oc_joiner oc" due piece] push
      by (simp add: channel_ok_def)
    then have "reader_ok (set_open c (oc\<lparr>oc_joiner := buf\<rparr>) ?r)"
      by (rule set_open_ok [OF ok Some])
    then show ?thesis
      using False Some push joined_bound [of due piece "oc_joiner oc" _ buf]
      by (simp add: on_piece_def Let_def hand_ok end_channel_ok split: sum.split option.split)
  qed
qed (use assms in \<open>simp add: on_piece_def\<close>)

lemma channel_id_nonzero: "channel_id jv payload = Some c \<Longrightarrow> c \<noteq> 0"
proof -
  have "(of_nat n :: u32) \<noteq> 0" if "n < 2 ^ 32" "1 \<le> n" for n
  proof
    assume "(of_nat n :: u32) = 0"
    then have "unat (of_nat n :: u32) = 0"
      by simp
    then show False
      using that by (simp add: unat_of_nat)
  qed
  then show "channel_id jv payload = Some c \<Longrightarrow> c \<noteq> 0"
    by (auto simp: channel_id_def bind_eq_Some_conv split: if_splits)
qed

lemma positive_id: "1 \<le> (c :: u32) \<Longrightarrow> c \<noteq> 0"
  by auto

lemma started_ok:
  assumes ok: "reader_ok r" and c: "c \<notin> rd_used r" "c \<noteq> 0" and room: "length (rd_open r) < MAX_CHANNELS"
  shows "reader_ok (does (QueueOpened c d) (use_id c r))"
    and "reader_ok (does (KindStarted c k p) ((does (QueueOpened c d) (use_id c r))\<lparr>rd_open :=
        (c, \<lparr>oc_joiner = [], oc_inbound = [], oc_ended = False\<rparr>) # rd_open r\<rparr>))"
proof -
  have fresh: "c \<notin> fst ` set (rd_open r)" "life c (rd_effects r) = Some Unused"
    using ok c unfolding reader_ok_def by blast+
  show "reader_ok (does (QueueOpened c d) (use_id c r))"
    using ok c fresh unfolding reader_ok_def by (auto simp: does_def use_id_def live_step_def)
  show "reader_ok (does (KindStarted c k p) ((does (QueueOpened c d) (use_id c r))\<lparr>rd_open :=
        (c, \<lparr>oc_joiner = [], oc_inbound = [], oc_ended = False\<rparr>) # rd_open r\<rparr>))"
    using ok c fresh room unfolding reader_ok_def
    by (auto simp: does_def use_id_def live_step_def channel_ok_def)
qed

lemma on_open_ok:
  assumes ok: "reader_ok r"
  shows "reader_ok (snd (on_open jv alive auth payload r))"
proof (cases "request_parse jv payload")
  case (Some request)
  let ?c = "rq_channel request" and ?r = "prune r"
  have c: "?c \<noteq> 0"
    using Some by (auto simp: request_parse_def dest: channel_id_nonzero)
  have pruned: "reader_ok ?r"
    using ok by (rule prune_ok)
  have "reader_ok (snd (refuse_after_login_change alive ?c r))"
    by (cases alive) (simp_all add: refuse_after_login_change_def answer_def silent_ok use_ok [OF c ok])
  moreover have "reader_ok (snd (answer alive ?c reason (does (QueueOpened ?c d) (use_id ?c ?r))))"
    if "?c \<notin> rd_used ?r" "length (rd_open ?r) < MAX_CHANNELS" for reason d
    by (rule answer_ok [OF started_ok(1) [OF pruned that(1) c that(2)]])
  ultimately show ?thesis
    using Some c answer_ok [OF pruned] answer_ok [OF use_ok [OF c pruned]]
      started_ok(2) [OF pruned _ c, where p = "rq_payload request"]
    by (simp add: on_open_def Let_def not_le split: option.split sum.split)
qed (use ok in \<open>simp add: on_open_def\<close>)

lemma on_close_ok: "reader_ok r \<Longrightarrow> reader_ok (on_close jv payload r)"
  by (auto simp: on_close_def use_ok remove_ok dest: channel_id_nonzero split: option.split)

lemma take_message_ok:
  assumes "reader_ok r"
  shows "reader_ok (snd (take_message j jv alive auth bs r))"
proof -
  have "reader_ok (snd (take_piece j alive bs r))"
    using assms on_piece_ok [OF assms]
    by (auto simp: take_piece_def end_channel_ok dest!: positive_id
        split: sum.split frame.split frame_error.split channel_error.split option.split)
  moreover have "reader_ok (snd (take_command jv alive auth c r))" for c
    using assms by (simp add: take_command_def on_open_ok on_close_ok silent_ok)
  ultimately show ?thesis
    using assms by (simp add: take_message_def split: sum.split frame.split)
qed

lemma on_kind_ok:
  assumes ok: "reader_ok r" and f: "\<And>oc. channel_ok oc \<Longrightarrow> channel_ok (f oc)"
  shows "reader_ok (on_kind c f r)"
proof (cases "map_of (rd_open r) c")
  case (Some oc)
  then have "channel_ok (f oc)"
    using reader_okD [OF ok map_of_SomeD [OF Some]] f by simp
  from set_open_ok [OF ok Some this] Some show ?thesis
    by (simp add: on_kind_def)
qed (use ok in \<open>simp add: on_kind_def\<close>)

lemma closes_life:
  "distinct (map fst xs) \<Longrightarrow> fold (live_step c) (map (\<lambda>(d, oc). KindClosed d :: 'v effect) xs) p =
     (if c \<in> fst ` set xs then Option.bind p (next_phase (KindClosed c :: 'v effect)) else p)"
  by (induction xs arbitrary: p) (auto simp: live_step_def)

lemma close_all_ok:
  assumes "reader_ok r"
  shows "reader_ok (close_all r)"
proof -
  have "distinct (map fst (rd_open r))"
    using assms by (simp add: reader_ok_def)
  then show ?thesis
    using assms unfolding reader_ok_def by (auto simp: close_all_def closes_life)
qed

lemma channel_ok_tl: "channel_ok oc \<Longrightarrow> channel_ok (oc\<lparr>oc_inbound := tl (oc_inbound oc)\<rparr>)"
  by (cases "oc_inbound oc") (simp_all add: channel_ok_def)

lemma reader_step_ok: "reader_ok (snd s) \<Longrightarrow> reader_ok (snd (reader_step j jv e s))"
proof -
  assume ok: "reader_ok (snd s)"
  obtain go r where s: "s = (go, r)"
    by fastforce
  show ?thesis
  proof (cases go)
    case False
    with ok s show ?thesis by simp
  next
    case True
    show ?thesis
    proof (cases e)
      case (PageSends alive auth m)
      have "reader_ok (snd (read_one j jv alive auth m r))"
        using ok s by (cases m) (simp_all add: take_message_ok)
      then show ?thesis
        using True s PageSends
        by (cases "read_one j jv alive auth m r"; cases "fst (read_one j jv alive auth m r)")
          (simp_all add: close_all_ok)
    next
      case (KindReads c)
      with True s ok show ?thesis
        by (simp add: on_kind_ok channel_ok_tl)
    next
      case (KindEnds c)
      with True s ok show ?thesis
        by (auto intro!: on_kind_ok simp: channel_ok_def)
    qed
  qed
qed

interpretation page_reader: stepwise "reader_step j jv" "\<lambda>_. True" "\<lambda>s. reader_ok (snd s)"
  by unfold_locales (rule reader_step_ok)

lemma reader_run_ok: "reader_ok (snd (reader_run j jv es l))"
  unfolding reader_run_def by (rule page_reader.run) (simp_all add: new_ok list_all_iff)

text \<open>
  C20. Whatever a page sends and however the kinds read and end, every channel id has at most one life on
  the socket (a queue, a kind, its frames, one end), and channel 0 none; at most 256 channels are open,
  each with at most \<open>MAX_COMMAND_BYTES\<close> of bytes not yet joined and 64 frames not yet read, each of at most
  \<open>MAX_COMMAND_BYTES\<close>.
\<close>

theorem one_life_per_channel:
  "life c (rd_effects (snd (reader_run j jv es l))) \<noteq> None \<and>
   life 0 (rd_effects (snd (reader_run j jv es l))) = Some Unused \<and>
   length (rd_open (snd (reader_run j jv es l))) \<le> MAX_CHANNELS \<and>
   list_all (\<lambda>(c, oc). length (oc_joiner oc) \<le> MAX_COMMAND_BYTES \<and> length (oc_inbound oc) \<le> INBOUND_FRAMES \<and>
       list_all (\<lambda>f. length f \<le> MAX_COMMAND_BYTES) (oc_inbound oc))
     (rd_open (snd (reader_run j jv es l)))"
proof -
  have ok: "reader_ok (snd (reader_run j jv es l))"
    by (rule reader_run_ok)
  then have "list_all (channel_ok \<circ> snd) (rd_open (snd (reader_run j jv es l)))"
    by (simp add: reader_ok_def)
  then have "list_all (\<lambda>(c, oc). length (oc_joiner oc) \<le> MAX_COMMAND_BYTES \<and> length (oc_inbound oc) \<le> INBOUND_FRAMES \<and>
       list_all (\<lambda>f. length f \<le> MAX_COMMAND_BYTES) (oc_inbound oc))
     (rd_open (snd (reader_run j jv es l)))"
    by (auto simp: list_all_iff channel_ok_def)
  with ok show ?thesis
    unfolding reader_ok_def by blast
qed

section \<open>One channel at a time\<close>

text \<open>The channel a message is about: of a piece, or of an open or a close.\<close>

definition concerns :: "'v json_codec \<Rightarrow> 'v json_view \<Rightarrow> u32 \<Rightarrow> ws_message \<Rightarrow> bool" where
  "concerns j jv d m =
     (case m of
        WsBinary bs \<Rightarrow>
          (case decode_frame j bs of
             Inr (ChannelFrame c due piece) \<Rightarrow> c = d
           | Inr (CommandFrame c) \<Rightarrow> cm_verb c \<in> {''channel.open'', ''channel.close''} \<and> channel_id jv (cm_payload c) = Some d
           | Inl (ChannelRefused e) \<Rightarrow> channel_of bs = Some d
           | _ \<Rightarrow> False)
      | _ \<Rightarrow> False)"

definition pieces_about :: "u32 \<Rightarrow> 'v effect \<Rightarrow> bool" where
  "pieces_about d e \<longleftrightarrow> effect_id e = Some d \<or> (case e of ChannelClosed c reason \<Rightarrow> c = d | _ \<Rightarrow> False)"

definition untouched :: "u32 \<Rightarrow> 'v reader \<Rightarrow> 'v reader \<Rightarrow> bool" where
  "untouched d r r' \<longleftrightarrow>
     (\<forall>oc. map_of (rd_open r) d = Some oc \<and> \<not> oc_ended oc \<longrightarrow> map_of (rd_open r') d = Some oc) \<and>
     filter (pieces_about d) (rd_effects r') = filter (pieces_about d) (rd_effects r)"

lemma untouched_refl [simp]: "untouched d r r"
  by (simp add: untouched_def)

lemma untouched_trans: "untouched d r r' \<Longrightarrow> untouched d r' r'' \<Longrightarrow> untouched d r r''"
  by (simp add: untouched_def)

lemma map_of_filter_kept:
  "map_of xs d = Some oc \<Longrightarrow> P (d, oc) \<Longrightarrow> map_of (filter P xs) d = Some oc"
  by (induction xs) (auto split: if_splits)

lemma untouched_prims:
  "untouched d r (prune r)" "untouched d r (use_id c r)"
  "\<not> pieces_about d e \<Longrightarrow> untouched d r (does e r)"
  "c \<noteq> d \<Longrightarrow> untouched d r (set_open c oc r)"
  "c \<noteq> d \<Longrightarrow> \<not> pieces_about d e \<Longrightarrow> untouched d r (remove_open c e r)"
  "c \<noteq> d \<Longrightarrow> untouched d r (snd (answer alive c reason r))"
  "c \<noteq> d \<Longrightarrow> untouched d r (r\<lparr>rd_open := (c, oc) # rd_open r\<rparr>)"
  by (auto simp: untouched_def prune_def use_id_def does_def set_open_def remove_open_def answer_def pieces_about_def
      update_conv' delete_conv' intro!: map_of_filter_kept split: option.split)

lemma untouched_end: "c \<noteq> d \<Longrightarrow> untouched d r (snd (end_channel alive c reason r))"
  unfolding end_channel_def
  by (rule untouched_trans [OF untouched_trans [OF untouched_prims(5) untouched_prims(2)] untouched_prims(6)])
    (simp_all add: pieces_about_def)

lemma untouched_hand: "c \<noteq> d \<Longrightarrow> untouched d r (snd (hand alive c inner r))"
  by (auto simp: hand_def pieces_about_def split: option.split
      intro: untouched_end untouched_prims(5) untouched_trans [OF untouched_prims(4) untouched_prims(3)])

lemma untouched_piece: "c \<noteq> d \<Longrightarrow> untouched d r (snd (on_piece alive c due piece r))"
proof -
  assume c: "c \<noteq> d"
  have *: "untouched d r (set_open c oc (prune r))" for oc
    by (rule untouched_trans [OF untouched_prims(1) untouched_prims(4) [OF c]])
  show ?thesis
    unfolding on_piece_def Let_def
    by (auto split: option.split sum.split prod.split
        intro: untouched_prims(1) * untouched_trans [OF * untouched_hand [OF c]] untouched_trans [OF * untouched_end [OF c]]
          untouched_trans [OF untouched_trans [OF untouched_prims(1) untouched_prims(2)] untouched_prims(6) [OF c]])
qed

lemma untouched_open:
  assumes "channel_id jv payload \<noteq> Some d"
  shows "untouched d r (snd (on_open jv alive auth payload r))"
proof (cases "request_parse jv payload")
  case (Some request)
  let ?c = "rq_channel request"
  have c: "?c \<noteq> d"
    using assms Some by (auto simp: request_parse_def)
  have refuse: "untouched d r (snd (refuse_after_login_change alive ?c r))"
    using untouched_trans [OF untouched_prims(2) untouched_prims(6) [OF c, of _ alive Refused]]
      untouched_trans [OF untouched_trans [OF untouched_prims(2) untouched_prims(6) [OF c, of _ alive Refused]]
        untouched_prims(3) [of d Drained]]
    by (cases alive) (simp_all add: refuse_after_login_change_def answer_def pieces_about_def)
  have used: "untouched d r (use_id ?c (prune r))"
    by (rule untouched_trans [OF untouched_prims(1) untouched_prims(2)])
  have queued: "untouched d r (does (QueueOpened ?c n) (use_id ?c (prune r)))" for n
    by (rule untouched_trans [OF used untouched_prims(3)]) (use c in \<open>simp add: pieces_about_def\<close>)
  have started: "untouched d r (does (KindStarted ?c k p)
      (does (QueueOpened ?c n) (use_id ?c (prune r))\<lparr>rd_open := (?c, oc) # rd_open (prune r)\<rparr>))" for k p n oc
    using untouched_trans [OF untouched_trans [OF queued [of n] untouched_prims(7) [OF c, of _ oc]] untouched_prims(3)
        [of d "KindStarted ?c k p"]] c
    by (simp add: pieces_about_def use_id_def does_def)
  show ?thesis
    using Some refuse started untouched_prims(1) [of d r]
      untouched_trans [OF untouched_prims(1) untouched_prims(6) [OF c]]
      untouched_trans [OF used untouched_prims(6) [OF c]] untouched_trans [OF queued untouched_prims(6) [OF c]]
    by (auto simp: on_open_def Let_def split: option.split sum.split)
qed (simp add: on_open_def)

lemma untouched_close:
  "channel_id jv payload \<noteq> Some d \<Longrightarrow> untouched d r (on_close jv payload r)"
  by (auto simp: on_close_def pieces_about_def split: option.split
      intro!: untouched_trans [OF untouched_prims(5) untouched_prims(2)])

lemma untouched_message:
  assumes "\<not> concerns j jv d m"
  shows "untouched d r (snd (read_one j jv alive auth m r))"
proof (cases m)
  case (WsBinary bs)
  have "untouched d r (snd (take_piece j alive bs r))"
    using assms WsBinary
    by (auto simp: take_piece_def concerns_def untouched_piece untouched_end
        split: sum.splits frame.splits frame_error.splits channel_error.splits option.splits)
  moreover have "untouched d r (snd (take_command jv alive auth c r))" if "decode_frame j bs = Inr (CommandFrame c)" for c
    using assms WsBinary that
    by (auto simp: take_command_def concerns_def untouched_open untouched_close pieces_about_def intro: untouched_prims(3))
  ultimately show ?thesis
    by (auto simp: WsBinary take_message_def split: sum.split frame.split)
qed simp_all

definition on_channel :: "'v json_codec \<Rightarrow> 'v json_view \<Rightarrow> u32 \<Rightarrow> reader_event \<Rightarrow> bool" where
  "on_channel j jv d e =
     (case e of PageSends alive auth m \<Rightarrow> concerns j jv d m | KindReads c \<Rightarrow> c = d | KindEnds c \<Rightarrow> c = d)"

lemma untouched_step:
  assumes "\<not> on_channel j jv d e" and "fst (reader_step j jv e (True, r))"
  shows "untouched d r (snd (reader_step j jv e (True, r)))"
proof (cases e)
  case (PageSends alive auth m)
  with assms untouched_message [of j jv d m, where alive = alive and auth = auth and r = r] show ?thesis
    by (cases "read_one j jv alive auth m r"; cases "fst (read_one j jv alive auth m r)") (simp_all add: on_channel_def)
next
  case (KindReads c)
  with assms(1) show ?thesis
    by (auto simp: on_channel_def on_kind_def intro: untouched_prims(4) split: option.split)
next
  case (KindEnds c)
  with assms(1) show ?thesis
    by (auto simp: on_channel_def on_kind_def intro: untouched_prims(4) split: option.split)
qed

lemma stopped_stays: "fst (fold (reader_step j jv) es s) \<Longrightarrow> fst s"
proof (induction es arbitrary: s)
  case (Cons e es)
  then have "fst (reader_step j jv e s)"
    by simp
  then show ?case
    by (cases s; cases "fst s") auto
qed simp

lemma untouched_run:
  "list_all (\<lambda>e. \<not> on_channel j jv d e) es \<Longrightarrow> fst (fold (reader_step j jv) es (True, r)) \<Longrightarrow>
     untouched d r (snd (fold (reader_step j jv) es (True, r)))"
proof (induction es arbitrary: r)
  case (Cons e es)
  let ?s = "reader_step j jv e (True, r)"
  have go: "fst ?s"
    using Cons.prems(2) stopped_stays by fastforce
  then have s: "?s = (True, snd ?s)"
    by (simp add: prod_eq_iff)
  have "untouched d r (snd ?s)"
    using untouched_step [OF _ go] Cons.prems(1) by simp
  moreover have "untouched d (snd ?s) (snd (fold (reader_step j jv) es (True, snd ?s)))"
    using Cons.IH [of "snd ?s"] Cons.prems s by (metis fold_simps(2) list.pred_inject(2))
  ultimately show ?case
    using s by (metis fold_simps(2) untouched_trans)
qed simp

section \<open>A frame in pieces\<close>

text \<open>A frame for a kind whose queue is full ends the channel, and is not handed over.\<close>

lemma full_queue_ends_channel:
  assumes "map_of (rd_open r) c = Some oc" and "\<not> oc_ended oc" and "length (oc_inbound oc) = INBOUND_FRAMES"
  shows "hand True c inner r = end_channel True c Overflow r"
    and "rd_effects (snd (hand True c inner r)) = rd_effects r @ [KindStopped c, ChannelClosed c Overflow]"
  using assms by (simp_all add: hand_def end_channel_def answer_def remove_open_def does_def use_id_def)

fun sent_bytes :: "reader_event \<Rightarrow> bytes option" where
  "sent_bytes (PageSends alive auth (WsBinary bs)) = Some bs"
| "sent_bytes _ = None"

lemma prune_kept: "map_of (rd_open r) c = Some oc \<Longrightarrow> \<not> oc_ended oc \<Longrightarrow> map_of (rd_open (prune r)) c = Some oc"
  by (auto simp: prune_def intro!: map_of_filter_kept)

lemma prune_effects [simp]: "rd_effects (prune r) = rd_effects r"
  by (simp add: prune_def)

lemma set_open_of [simp]: "map_of (rd_open (set_open c oc r)) c = Some oc" "rd_effects (set_open c oc r) = rd_effects r"
  by (simp_all add: set_open_def update_conv')

lemma piece_step:
  assumes "e = PageSends alive auth (WsBinary (encode j (ChannelFrame c due piece)))" and "c \<noteq> 0"
    and "map_of (rd_open r) c = Some oc" and "\<not> oc_ended oc" and "length (oc_inbound oc) < INBOUND_FRAMES"
    and "length (oc_joiner oc) + length piece \<le> MAX_COMMAND_BYTES"
  shows "\<exists>r'. reader_step j jv e (True, r) = (True, r') \<and>
     (if due then map_of (rd_open r') c = Some (oc\<lparr>oc_joiner := oc_joiner oc @ piece\<rparr>) \<and> rd_effects r' = rd_effects r
      else map_of (rd_open r') c = Some (oc\<lparr>oc_joiner := [], oc_inbound := oc_inbound oc @ [oc_joiner oc @ piece]\<rparr>) \<and>
        rd_effects r' = rd_effects r @ [Handed c (oc_joiner oc @ piece)])"
proof -
  have "decode_frame j (encode j (ChannelFrame c b piece)) = Inr (ChannelFrame c b piece)" for b
    by (simp add: decode_frame_def tags channel_encode_def channel_decode_def nth_append)
  then have step: "read_one j jv alive auth (WsBinary (encode j (ChannelFrame c b piece))) r = on_piece alive c b piece r" for b
    by (simp add: take_message_def take_piece_def) (simp add: channel_encode_def)
  note kept = prune_kept [OF assms(3,4)]
  let ?buf = "oc_joiner oc @ piece"
  have push: "joiner_push due piece (oc_joiner oc) = (if due then (Inr None, ?buf) else (Inr (Some ?buf), []))"
    using assms(6) by (simp add: joiner_push_def)
  let ?r = "set_open c (oc\<lparr>oc_joiner := if due then ?buf else []\<rparr>) (prune r)"
  have "hand alive c ?buf ?r = (True, does (Handed c ?buf) (set_open c
      (oc\<lparr>oc_joiner := [], oc_inbound := oc_inbound oc @ [?buf]\<rparr>) ?r))" if "\<not> due"
    using that assms(4,5) by (simp add: hand_def)
  then have "on_piece alive c due piece r = (True, if due then ?r else does (Handed c ?buf)
      (set_open c (oc\<lparr>oc_joiner := [], oc_inbound := oc_inbound oc @ [?buf]\<rparr>) ?r))"
    using assms(2) by (simp add: on_piece_def kept push)
  then show ?thesis
    unfolding assms(1) by (cases due) (simp_all add: step del: encode.simps read_one.simps)
qed

lemma about_Handed [simp]: "pieces_about c (Handed c inner)"
  by (simp add: pieces_about_def)

lemma last_piece:
  assumes "map sent_bytes (filter (on_channel j jv c) (e # es)) = Some bs # rest" and "on_channel j jv c e"
  shows "\<exists>alive auth. e = PageSends alive auth (WsBinary bs)" and "map sent_bytes (filter (on_channel j jv c) es) = rest"
  using assms by (auto elim!: sent_bytes.elims)

lemma skip_event:
  assumes "fst (fold (reader_step j jv) (e # es) (True, r))" and "\<not> on_channel j jv c e"
  obtains r' where "reader_step j jv e (True, r) = (True, r')" and "untouched c r r'"
proof -
  have "fst (reader_step j jv e (True, r))"
    using assms(1) stopped_stays by fastforce
  with untouched_step [OF assms(2) this] that [of "snd (reader_step j jv e (True, r))"] show thesis
    by (simp add: prod_eq_iff)
qed

lemma pieces_arrive:
  assumes "map sent_bytes (filter (on_channel j jv c) es) =
      map (\<lambda>p. Some (encode j (ChannelFrame c True p))) ps @ [Some (encode j (ChannelFrame c False q))]"
    and "map_of (rd_open r) c = Some oc" and "\<not> oc_ended oc" and "length (oc_inbound oc) < INBOUND_FRAMES" and "c \<noteq> 0"
    and "length (oc_joiner oc) + length (concat ps) + length q \<le> MAX_COMMAND_BYTES"
    and "fst (fold (reader_step j jv) es (True, r))"
  shows "filter (pieces_about c) (rd_effects (snd (fold (reader_step j jv) es (True, r)))) =
      filter (pieces_about c) (rd_effects r) @ [Handed c (oc_joiner oc @ concat ps @ q)]"
  using assms
proof (induction es arbitrary: r oc ps)
  case (Cons e es)
  note prems = Cons.prems
  show ?case
  proof (cases "on_channel j jv c e")
    case False
    obtain r' where r': "reader_step j jv e (True, r) = (True, r')" and un: "untouched c r r'"
      using skip_event [OF prems(7) False] .
    have "map_of (rd_open r') c = Some oc"
      using un prems(2,3) by (simp add: untouched_def)
    with Cons.IH [of ps r' oc] prems False un r' show ?thesis
      by (simp add: untouched_def del: encode.simps)
  next
    case on: True
    show ?thesis
    proof (cases ps)
      case Nil
      have first: "map sent_bytes (filter (on_channel j jv c) (e # es)) = Some (encode j (ChannelFrame c False q)) # []"
        using prems(1) Nil by simp
      obtain alive auth where e: "e = PageSends alive auth (WsBinary (encode j (ChannelFrame c False q)))"
        and rest: "map sent_bytes (filter (on_channel j jv c) es) = []"
        using last_piece [OF first on] by blast
      obtain r' where r': "reader_step j jv e (True, r) = (True, r')"
        and eff: "rd_effects r' = rd_effects r @ [Handed c (oc_joiner oc @ q)]"
        using piece_step [OF e prems(5,2,3,4)] prems(6) Nil by auto
      have "list_all (\<lambda>e. \<not> on_channel j jv c e) es"
        using rest by (simp add: filter_empty_conv list_all_iff)
      then have "untouched c r' (snd (fold (reader_step j jv) es (True, r')))"
        by (rule untouched_run) (use prems(7) r' in simp)
      then show ?thesis
        using r' eff Nil by (simp add: untouched_def)
    next
      case (Cons p ps')
      have first: "map sent_bytes (filter (on_channel j jv c) (e # es)) = Some (encode j (ChannelFrame c True p)) #
          (map (\<lambda>p. Some (encode j (ChannelFrame c True p))) ps' @ [Some (encode j (ChannelFrame c False q))])"
        using prems(1) Cons by simp
      obtain alive auth where e: "e = PageSends alive auth (WsBinary (encode j (ChannelFrame c True p)))"
        and rest: "map sent_bytes (filter (on_channel j jv c) es) =
          map (\<lambda>p. Some (encode j (ChannelFrame c True p))) ps' @ [Some (encode j (ChannelFrame c False q))]"
        using last_piece [OF first on] by blast
      obtain r' where r': "reader_step j jv e (True, r) = (True, r')"
        and oc: "map_of (rd_open r') c = Some (oc\<lparr>oc_joiner := oc_joiner oc @ p\<rparr>)" and eff: "rd_effects r' = rd_effects r"
        using piece_step [OF e prems(5,2,3,4)] prems(6) Cons by auto
      show ?thesis
        using Cons.IH [OF rest oc] prems(3-7) r' eff Cons by simp
    qed
  qed
qed simp

text \<open>
  C21. A frame of at most \<open>MAX_COMMAND_BYTES\<close> which a page cut for an open channel reaches its kind whole and
  once, its pieces sent in order among any messages about other channels and any steps of the kinds of
  those: provided the socket lasts, the kind has not ended and takes no step meanwhile, no part of another
  frame is waiting on the channel, and the kind's queue has room (with a full queue the channel ends
  instead, \<open>full_queue_ends_channel\<close>).  Nothing else happens on the channel.
\<close>

theorem page_frame_arrives_whole:
  assumes "map sent_bytes (filter (on_channel j jv c) es) = map (Some \<circ> encode j) (cut c inner)"
    and "map_of (rd_open r) c = Some oc" and "oc_joiner oc = []" and "\<not> oc_ended oc"
    and "length (oc_inbound oc) < INBOUND_FRAMES" and "c \<noteq> 0" and "length inner \<le> MAX_COMMAND_BYTES"
    and "fst (fold (reader_step j jv) es (True, r))"
  shows "filter (pieces_about c) (rd_effects (snd (fold (reader_step j jv) es (True, r)))) =
      filter (pieces_about c) (rd_effects r) @ [Handed c inner]"
proof -
  let ?ps = "butlast (cut_pieces inner)" and ?q = "last (cut_pieces inner)"
  have whole: "concat ?ps @ ?q = inner"
    by (rule concat_butlast_last)
  then have "length (concat ?ps) + length ?q = length inner"
    by (metis length_append)
  with pieces_arrive [of j jv c es ?ps ?q r oc] assms whole show ?thesis
    by (simp add: cut_butlast_last comp_def del: encode.simps)
qed

definition example_channel :: open_channel where
  "example_channel = \<lparr>oc_joiner = [], oc_inbound = [], oc_ended = False\<rparr>"

definition example_reader :: "string reader" where
  "example_reader = \<lparr>rd_login = \<lparr>pl_epoch = 1, pl_policy = ''localhost'', pl_login = None\<rparr>,
     rd_open = [(7, example_channel)], rd_used = {7}, rd_effects = []\<rparr>"

definition example_view :: "string json_view" where
  "example_view = \<lparr>jv_get = \<lambda>_ _. None, jv_str = \<lambda>_. None, jv_u64 = \<lambda>_. None, jv_command = \<lambda>_. False,
     jv_session_query = \<lambda>_. False, jv_closed = \<lambda>_ reason. reason\<rparr>"

definition example_auth :: auth_state where
  "example_auth =
     \<lparr>au_policy = Localhost, au_bind_ip = V4 127 0 0 1, au_boot_token = None, au_epoch = 1, au_last_step = None,
      au_revoked = [], au_revoked_file = [], au_throttle = throttle_new, au_remote_images = False,
      au_store = \<lparr>ds_token = None, ds_seed = None, ds_pending = None, ds_password = None,
        ds_require_login = False, ds_require_token = False, ds_remote_images = False\<rparr>\<rparr>"

lemma example_codec: "decode_frame packing (encode packing (ChannelFrame c due piece)) = Inr (ChannelFrame c due piece)"
  by (simp add: decode_encode del: encode.simps)

theorem page_frame_arrives_whole_witness:
  "filter (pieces_about 7) (rd_effects (snd (fold (reader_step packing example_view)
      [PageSends True example_auth (WsBinary (encode packing (ChannelFrame 9 False [0x05]))),
       PageSends True example_auth (WsBinary (encode packing (ChannelFrame 7 False [0x2A]))), KindEnds 9] (True, example_reader)))) =
   [Handed 7 [0x2A]]"
proof -
  let ?es = "[PageSends True example_auth (WsBinary (encode packing (ChannelFrame 9 False [0x05]))),
       PageSends True example_auth (WsBinary (encode packing (ChannelFrame 7 False [0x2A]))), KindEnds 9]"
  have cut: "cut 7 [0x2A] = [ChannelFrame 7 False [0x2A]]"
    by (simp add: cut_butlast_last cut_pieces_def chunks.simps MAX_PIECE_def)
  have on: "map sent_bytes (filter (on_channel packing example_view 7) ?es) = map (Some \<circ> encode packing) (cut 7 [0x2A])"
    by (simp add: on_channel_def concerns_def example_codec cut del: encode.simps)
  have "read_one packing example_view True example_auth (WsBinary (encode packing (ChannelFrame c False p))) r =
      on_piece True c False p r" for c p r
    using example_codec [of c False p]
    by (simp add: take_message_def take_piece_def del: encode.simps) (simp add: channel_encode_def)
  then have go: "fst (fold (reader_step packing example_view) ?es (True, example_reader))"
    by (simp add: on_piece_def prune_def example_reader_def example_channel_def joiner_push_def MAX_COMMAND_BYTES_value
        hand_def answer_def INBOUND_FRAMES_def set_open_def does_def use_id_def del: encode.simps read_one.simps)
  have "map_of (rd_open example_reader) 7 = Some example_channel"
    by (simp add: example_reader_def)
  from page_frame_arrives_whole [OF on this] go show ?thesis
    by (simp add: example_channel_def INBOUND_FRAMES_def MAX_COMMAND_BYTES_value example_reader_def)
qed

section \<open>The contract of the writer\<close>

text \<open>The queues a reader opens have each their own id, which the writer asks of its caller.\<close>

fun opens_queue :: "u32 \<Rightarrow> 'v effect \<Rightarrow> bool" where
  "opens_queue c (QueueOpened d n) = (d = c)"
| "opens_queue c _ = False"

lemma life_opens:
  "life c es = Some p \<Longrightarrow> length (filter (opens_queue c) es) = (if p = Unused then 0 else 1)"
proof (induction es arbitrary: p rule: rev_induct)
  case (snoc e es)
  then obtain p' where p': "life c es = Some p'"
    by (cases "life c es") (auto simp: live_step_def split: if_splits)
  from snoc.prems p' snoc.IH [OF p'] show ?case
    by (cases e; cases p') (auto simp: live_step_def split: if_splits)
qed simp

lemma opens_are_fresh:
  "length (filter (opens_queue c) (rd_effects (snd (reader_run j jv es l)))) \<le> 1 \<and>
     (c = 0 \<longrightarrow> filter (opens_queue c) (rd_effects (snd (reader_run j jv es l))) = [])"
proof -
  have ok: "reader_ok (snd (reader_run j jv es l))"
    by (rule reader_run_ok)
  then obtain p where "life c (rd_effects (snd (reader_run j jv es l))) = Some p"
    unfolding reader_ok_def by blast
  moreover have "life 0 (rd_effects (snd (reader_run j jv es l))) = Some Unused"
    using ok unfolding reader_ok_def by blast
  ultimately show ?thesis
    using life_opens by force
qed

section \<open>A page that was logged out\<close>

lemma logout_changes_login:
  "au_epoch st < 2 ^ 64 \<Longrightarrow> login_changed (login_of st login) (invalidate_sessions st)"
proof -
  assume "au_epoch st < 2 ^ 64"
  then have "(au_epoch st + 1) mod 2 ^ 64 \<noteq> au_epoch st"
    by (cases "au_epoch st + 1 = 2 ^ 64") auto
  then show ?thesis
    by (simp add: login_changed_def login_of_def invalidate_sessions_def)
qed

fun starts :: "'v effect \<Rightarrow> bool" where
  "starts (QueueOpened c d) = True"
| "starts (KindStarted c k p) = True"
| "starts _ = False"

definition settled_reader :: "page_login \<Rightarrow> 'v effect list \<Rightarrow> 'v reader \<Rightarrow> bool" where
  "settled_reader l es r \<longleftrightarrow> rd_login r = l \<and> filter starts (rd_effects r) = es"

lemma settled_prims [simp]:
  "settled_reader l es (use_id c r) = settled_reader l es r" "settled_reader l es (prune r) = settled_reader l es r"
  "settled_reader l es (set_open c oc r) = settled_reader l es r" "\<not> starts e \<Longrightarrow> settled_reader l es (does e r) = settled_reader l es r"
  "settled_reader l es (snd (answer alive c reason r)) = settled_reader l es r"
  by (simp_all add: settled_reader_def use_id_def prune_def set_open_def does_def answer_def)

lemma settled_remove [simp]: "\<not> starts e \<Longrightarrow> settled_reader l es (remove_open c e r) = settled_reader l es r"
  by (simp add: remove_open_def split: option.split) (simp add: settled_reader_def does_def)

lemma settled_end [simp]: "settled_reader l es (snd (end_channel alive c reason r)) = settled_reader l es r"
  by (simp add: end_channel_def)

lemma settled_hand: "settled_reader l es r \<Longrightarrow> settled_reader l es (snd (hand alive c inner r))"
  by (simp add: hand_def split: option.split)

lemma settled_piece: "settled_reader l es r \<Longrightarrow> settled_reader l es (snd (on_piece alive c due piece r))"
  by (auto simp: on_piece_def Let_def settled_hand split: option.split prod.split sum.split)

lemma settled_open:
  "login_changed l auth \<Longrightarrow> settled_reader l es r \<Longrightarrow> settled_reader l es (snd (on_open jv alive auth payload r))"
  by (cases alive)
    (auto simp: on_open_def settled_reader_def Let_def refuse_after_login_change_def answer_def does_def use_id_def
      split: option.split)

lemma settled_message:
  assumes "login_changed l auth" and "settled_reader l es r"
  shows "settled_reader l es (snd (read_one j jv alive auth m r))"
proof (cases m)
  case (WsBinary bs)
  have "settled_reader l es (snd (take_piece j alive bs r))"
    using assms(2) settled_piece [OF assms(2)]
    by (auto simp: take_piece_def split: sum.split frame.split frame_error.split channel_error.split option.split)
  moreover have "settled_reader l es (snd (take_command jv alive auth c r))" for c
    using assms by (simp add: take_command_def settled_open on_close_def split: option.split)
  ultimately show ?thesis
    using assms(2) by (simp add: WsBinary take_message_def split: sum.split frame.split)
qed (use assms(2) in simp_all)

lemma settled_step:
  assumes "case e of PageSends alive auth m \<Rightarrow> login_changed l auth | _ \<Rightarrow> True" and "settled_reader l es (snd s)"
  shows "settled_reader l es (snd (reader_step j jv e s))"
proof (cases s)
  case (Pair go r)
  have closes: "settled_reader l es (close_all r')" if "settled_reader l es r'" for r' :: "'a reader"
    using that by (auto simp: settled_reader_def close_all_def filter_empty_conv)
  show ?thesis
  proof (cases e)
    case (PageSends alive auth m)
    with assms Pair have "settled_reader l es (snd (read_one j jv alive auth m r))"
      by (simp add: settled_message)
    with closes assms(2) Pair PageSends show ?thesis
      by (cases go; cases "read_one j jv alive auth m r"; cases "fst (read_one j jv alive auth m r)") simp_all
  qed (use assms(2) Pair in \<open>cases go; simp add: on_kind_def split: option.split\<close>)+
qed

interpretation logged_out: stepwise "reader_step j jv"
    "\<lambda>e. case e of PageSends alive auth m \<Rightarrow> login_changed l auth | _ \<Rightarrow> True" "\<lambda>s. settled_reader l es (snd s)"
  by unfold_locales (rule settled_step)

lemma login_changed_iff:
  "login_changed l auth \<longleftrightarrow>
     au_epoch auth \<noteq> pl_epoch l \<or> policy_name (au_policy auth) \<noteq> pl_policy l \<or>
     (\<exists>login. pl_login l = Some login \<and> login \<in> rv_login ` set (au_revoked auth))"
  by (auto simp: login_changed_def revoked_contains_def list_ex_iff split: option.split)

text \<open>
  C22. A page opens nothing more on its socket, no queue and no kind, whatever it sends, once its messages are
  read under an epoch other than that of the socket's opening (a logout moves it on), under another policy,
  or with the page's login on the list of the revoked ones.
\<close>

theorem logged_out_page_opens_nothing:
  assumes "list_all (\<lambda>e. case e of
      PageSends alive auth m \<Rightarrow>
        au_epoch auth \<noteq> pl_epoch (rd_login r) \<or> policy_name (au_policy auth) \<noteq> pl_policy (rd_login r) \<or>
        (\<exists>login. pl_login (rd_login r) = Some login \<and> login \<in> rv_login ` set (au_revoked auth))
    | _ \<Rightarrow> True) es"
  shows "filter starts (rd_effects (snd (fold (reader_step j jv) es (True, r)))) = filter starts (rd_effects r)"
proof -
  have "settled_reader (rd_login r) (filter starts (rd_effects r)) (snd (True, r))"
    by (simp add: settled_reader_def)
  from logged_out.run [OF assms [folded login_changed_iff] this, of j jv] show ?thesis
    by (simp add: settled_reader_def)
qed

definition opening_view :: "string json_view" where
  "opening_view = example_view\<lparr>jv_get := \<lambda>v _. Some v, jv_str := \<lambda>_. Some ''tree'', jv_u64 := \<lambda>_. Some 8\<rparr>"

definition open_bytes :: bytes where
  "open_bytes = encode packing (CommandFrame \<lparr>cm_id = 0, cm_verb = ''channel.open'', cm_payload = ''8''\<rparr>)"

definition example_login :: login_id where
  "example_login = replicate 16 7"

text \<open>A socket of the login, with the channel 7 open, and the effects of the message sent on it.\<close>

definition opens_under :: "auth_state \<Rightarrow> string effect list" where
  "opens_under auth = filter starts (rd_effects (snd (fold (reader_step packing opening_view)
     [PageSends True auth (WsBinary open_bytes)]
     (True, example_reader\<lparr>rd_login := login_of example_auth (Some example_login)\<rparr>))))"

lemma opens_while_logged_in: "opens_under example_auth \<noteq> []"
proof -
  have "decode_frame packing open_bytes = Inr (CommandFrame \<lparr>cm_id = 0, cm_verb = ''channel.open'', cm_payload = ''8''\<rparr>)"
    by (simp add: open_bytes_def decode_encode packing_def del: encode.simps pack.simps unpack.simps)
  moreover have "\<not> (case open_bytes of [] \<Rightarrow> False | b # _ \<Rightarrow> b = TAG_CHANNEL)" "length open_bytes = 37"
    by (simp_all add: open_bytes_def encode_json_def tags packing_def)
  ultimately show ?thesis
    by (simp add: opens_under_def take_message_def take_command_def on_open_def request_parse_def channel_id_def
        opening_view_def example_view_def kind_parse_def login_changed_def login_of_def revoked_contains_def
        example_reader_def example_auth_def policy_name_def prune_def example_channel_def MAX_OPEN_BYTES_def
        MAX_REPORT_BYTES_def MAX_CHANNELS_def use_id_def does_def)
qed

lemma revoked_at_once: "login \<in> rv_login ` set (au_revoked (snd (revoke_login True login now st)))"
proof -
  have "login \<in> rv_login ` set (raise_cap login cap es)" for cap es
    by (induction es) (auto simp: image_iff)
  then show ?thesis
    by (simp add: revoke_login_def revoked_add_def Let_def)
qed

text \<open>The message opens channel 8 while the login stands, and nothing after a logout, a new policy or a revoke.\<close>

theorem logged_out_page_opens_nothing_witness:
  "opens_under (invalidate_sessions example_auth) = [] \<and>
   opens_under (example_auth\<lparr>au_policy := Bearer ''t''\<rparr>) = [] \<and>
   opens_under (snd (revoke_login True example_login 5 example_auth)) = [] \<and>
   opens_under example_auth \<noteq> []"
proof -
  have none: "opens_under auth = []"
    if "au_epoch auth \<noteq> 1 \<or> policy_name (au_policy auth) \<noteq> ''localhost'' \<or>
      example_login \<in> rv_login ` set (au_revoked auth)" for auth
    unfolding opens_under_def using that
    by (subst logged_out_page_opens_nothing)
      (simp_all add: example_reader_def login_of_def example_auth_def policy_name_def)
  show ?thesis
    using opens_while_logged_in revoked_at_once
    by (simp add: none) (simp add: none invalidate_sessions_def example_auth_def policy_name_def)
qed

end
