(* ===== verification/Desk.thy ===== *)
theory Desk
  imports Complex_Main Prelude
begin

text \<open>
  The desk store (\<^verbatim>\<open>desk.rs\<close>): the windows, fences and note cards on the stage and the selected
  checkouts, with the caps of each kind and the checks a stored record passes.

  A \<^verbatim>\<open>f64\<close> is a rational number, an infinity or a NaN; the two zeros are one, as every comparison of the
  sources takes them.  A \<^verbatim>\<open>BTreeMap\<close> is its list of entries.
\<close>

section \<open>Numbers and maps\<close>

datatype stage_f64 = Fin rat | PosInf | NegInf | NaN

definition is_finite :: "stage_f64 \<Rightarrow> bool" where
  "is_finite x = (case x of Fin r \<Rightarrow> True | _ \<Rightarrow> False)"

definition f64_eq :: "stage_f64 \<Rightarrow> stage_f64 \<Rightarrow> bool" where
  "f64_eq a b \<longleftrightarrow> a \<noteq> NaN \<and> a = b"

fun non_negative :: "stage_f64 \<Rightarrow> bool" where
  "non_negative (Fin r) = (0 \<le> r)"
| "non_negative PosInf = True"
| "non_negative _ = False"

fun bytes_less :: "string \<Rightarrow> string \<Rightarrow> bool" where
  "bytes_less [] t = (t \<noteq> [])"
| "bytes_less (a # s) [] = False"
| "bytes_less (a # s) (b # t) =
     ((of_char a :: nat) < of_char b \<or> (a = b \<and> bytes_less s t))"

type_synonym 'v btree = "(string \<times> 'v) list"

fun tree_insert :: "string \<Rightarrow> 'v \<Rightarrow> 'v btree \<Rightarrow> 'v btree" where
  "tree_insert k v [] = [(k, v)]"
| "tree_insert k v ((l, w) # m) =
     (if k = l then (k, v) # m else if bytes_less k l then (k, v) # (l, w) # m else (l, w) # tree_insert k v m)"

definition tree_remove :: "string \<Rightarrow> 'v btree \<Rightarrow> 'v btree" where
  "tree_remove k m = filter (\<lambda>(l, w). l \<noteq> k) m"

lemma map_of_tree_insert [simp]: "map_of (tree_insert k v m) = (map_of m)(k \<mapsto> v)"
  by (induction k v m rule: tree_insert.induct) auto

lemma tree_insert_values: "(l, w) \<in> set (tree_insert k v m) \<Longrightarrow> w = v \<or> (l, w) \<in> set m"
  by (induction k v m rule: tree_insert.induct) (auto split: if_splits)

section \<open>Records\<close>

record desk_rect =
  dr_left :: stage_f64
  dr_top :: stage_f64
  dr_width :: stage_f64
  dr_height :: stage_f64

record desk_record =
  dw_id :: string
  dw_repo :: string
  dw_agent :: string
  dw_kind :: string
  dw_rect :: desk_rect
  dw_max :: bool
  dw_session_id :: "u64 option"
  dw_daemon_id :: "string option"
  dw_environment :: "string option"
  dw_checkout :: "string option"
  dw_locked :: bool
  dw_console_name :: "string option"
  dw_done_mark :: bool
  dw_ts :: int

record desk_fence =
  df_id :: string
  df_name :: string
  df_rect :: desk_rect
  df_locked :: bool
  df_ts :: int

record desk_note =
  dn_id :: string
  dn_repo :: string
  dn_path :: string
  dn_checkout :: "string option"
  dn_rect :: desk_rect
  dn_locked :: bool
  dn_ts :: int

record desk_store =
  dk_rev :: u64
  dk_generation :: u64
  dk_windows :: "desk_record list"
  dk_fences :: "desk_fence list"
  dk_notes :: "desk_note list"
  dk_checkouts :: "string btree"

definition empty_desk :: desk_store where
  "empty_desk = \<lparr>dk_rev = 0, dk_generation = 0, dk_windows = [], dk_fences = [], dk_notes = [], dk_checkouts = []\<rparr>"

definition DESK_MAX :: nat where "DESK_MAX = 30"
definition NOTE_MAX :: nat where "NOTE_MAX = 32"
definition FENCE_MAX :: nat where "FENCE_MAX = 12"
definition CONSOLE_NAME_MAX :: nat where "CONSOLE_NAME_MAX = 40"

definition rect_eq :: "desk_rect \<Rightarrow> desk_rect \<Rightarrow> bool" where
  "rect_eq a b \<longleftrightarrow>
     f64_eq (dr_left a) (dr_left b) \<and> f64_eq (dr_top a) (dr_top b) \<and>
     f64_eq (dr_width a) (dr_width b) \<and> f64_eq (dr_height a) (dr_height b)"

definition rect_is_sane :: "desk_rect \<Rightarrow> bool" where
  "rect_is_sane r \<longleftrightarrow>
     is_finite (dr_left r) \<and> is_finite (dr_top r) \<and> is_finite (dr_width r) \<and> is_finite (dr_height r) \<and>
     non_negative (dr_left r) \<and> non_negative (dr_top r)"

text \<open>A blank name is no name, and a long one is cut after its fortieth character.\<close>

definition cap_console_name :: "desk_record \<Rightarrow> desk_record" where
  "cap_console_name r =
     (let named =
        (case dw_console_name r of
           Some n \<Rightarrow> if trim n = [] then r\<lparr>dw_console_name := None\<rparr> else r
         | None \<Rightarrow> r)
      in case dw_console_name named of
           None \<Rightarrow> named
         | Some name \<Rightarrow>
             if CONSOLE_NAME_MAX < length (chars name)
             then named\<lparr>dw_console_name := Some (concat (take CONSOLE_NAME_MAX (chars name)))\<rparr>
             else named)"

section \<open>Keeping the newest\<close>

text \<open>
  \<^verbatim>\<open>sort_by\<close> is stable: of two records with one \<^verbatim>\<open>ts\<close> the earlier of the layout is kept.  The indices
  sorted newest first and cut are the set \<open>newest\<close>.
\<close>

definition newest :: "('a \<Rightarrow> int) \<Rightarrow> nat \<Rightarrow> 'a list \<Rightarrow> nat list \<Rightarrow> nat list" where
  "newest ts room items is = take room (sort_key (\<lambda>i. - ts (items ! i)) is)"

definition keep_newest_by_ts :: "'a list \<Rightarrow> nat \<Rightarrow> ('a \<Rightarrow> int) \<Rightarrow> 'a list" where
  "keep_newest_by_ts items limit ts =
     (if length items \<le> limit then items
      else let keep = newest ts limit items [0..<length items]
        in map snd (filter (\<lambda>(i, r). i \<in> set keep) (enumerate 0 items)))"

definition prune_windows :: "desk_record list \<Rightarrow> string set \<Rightarrow> desk_record list" where
  "prune_windows records live =
     (if length records \<le> DESK_MAX then records
      else let pinned = length (filter (\<lambda>r. dw_id r \<in> live) records);
          room = DESK_MAX - pinned;
          keep = newest dw_ts room records (filter (\<lambda>i. dw_id (records ! i) \<notin> live) [0..<length records])
        in map snd (filter (\<lambda>(i, r). dw_id r \<in> live \<or> i \<in> set keep) (enumerate 0 records)))"

definition prune_fences :: "desk_fence list \<Rightarrow> desk_fence list" where
  "prune_fences fences = keep_newest_by_ts fences FENCE_MAX df_ts"

definition prune_notes :: "desk_note list \<Rightarrow> desk_note list" where
  "prune_notes notes = keep_newest_by_ts notes NOTE_MAX dn_ts"

section \<open>Checkout names\<close>

text \<open>\<^verbatim>\<open>Path::components\<close>, for the separator of Unix: a root, the normal names, and the dots that stay.\<close>

datatype component = RootDir | CurDir | ParentDir | Normal string

fun split_on :: "char \<Rightarrow> string \<Rightarrow> string list" where
  "split_on sep [] = [[]]"
| "split_on sep (c # cs) =
     (case split_on sep cs of
        s # ss \<Rightarrow> if c = sep then [] # s # ss else (c # s) # ss
      | [] \<Rightarrow> [])"

definition component_of :: "string \<Rightarrow> component" where
  "component_of s = (if s = ''..'' then ParentDir else Normal s)"

definition components :: "string \<Rightarrow> component list" where
  "components path =
     (let parts = split_on (CHR ''/'') path;
          root = (case path of c # _ \<Rightarrow> c = CHR ''/'' | [] \<Rightarrow> False);
          lead = (if root then [RootDir] else if hd parts = ''.'' then [CurDir] else [])
      in lead @ map component_of (filter (\<lambda>s. s \<noteq> [] \<and> s \<noteq> ''.'') parts))"

definition checkout_lexical :: "string \<Rightarrow> bool" where
  "checkout_lexical name \<longleftrightarrow>
     (case components name of [Normal s] \<Rightarrow> True | _ \<Rightarrow> False) \<and>
     CHR ''/'' \<notin> set name \<and> CHR 0x5C \<notin> set name \<and> CHR '':'' \<notin> set name \<and> name \<noteq> ''.'' \<and> name \<noteq> ''..''"

section \<open>A sound desk\<close>

definition checkout_ok :: "string option \<Rightarrow> bool" where
  "checkout_ok x = (case x of None \<Rightarrow> True | Some n \<Rightarrow> checkout_lexical n)"

definition name_ok :: "string option \<Rightarrow> bool" where
  "name_ok x = (case x of None \<Rightarrow> True | Some n \<Rightarrow> length (chars n) \<le> CONSOLE_NAME_MAX)"

definition window_ok :: "desk_record \<Rightarrow> bool" where
  "window_ok w \<longleftrightarrow> rect_is_sane (dw_rect w) \<and> checkout_ok (dw_checkout w) \<and> name_ok (dw_console_name w)"

definition fence_ok :: "desk_fence \<Rightarrow> bool" where
  "fence_ok f \<longleftrightarrow> rect_is_sane (df_rect f)"

definition note_ok :: "desk_note \<Rightarrow> bool" where
  "note_ok n \<longleftrightarrow> rect_is_sane (dn_rect n) \<and> checkout_ok (dn_checkout n)"

lemma cap_console_name_ok: "name_ok (dw_console_name (cap_console_name r))"
  by (auto simp: cap_console_name_def name_ok_def Let_def chars_concat_take CONSOLE_NAME_MAX_def split: option.splits)

lemma sane_rect_eq: "rect_is_sane r \<Longrightarrow> rect_eq r r"
  by (auto simp: rect_is_sane_def rect_eq_def f64_eq_def is_finite_def)

end
