(* ===== verification/Desk_Apply.thy ===== *)
theory Desk_Apply
  imports Desk
begin

text \<open>
  The desk upload as a list of changes (\<^verbatim>\<open>desk/apply.rs\<close>, \<^verbatim>\<open>desk/apply/changes.rs\<close>).  An operation
  returns the desk it leaves beside its result, since the source writes the desk in place and an error does
  not take a write back.  Reading a JSON value as a shape is the parameter \<open>change_reader\<close> (\<^verbatim>\<open>serde\<close>).
\<close>

section \<open>Changes\<close>

record session_fields =
  sf_session_id :: "u64 option"
  sf_daemon_id :: "string option"
  sf_environment :: "string option"

record window_fields =
  wf_rect :: "desk_rect option"
  wf_max :: "bool option"
  wf_locked :: "bool option"
  wf_console_name :: "string option"
  wf_done_mark :: "bool option"
  wf_checkout :: "string option option"
  wf_session :: "session_fields option"

record fence_fields =
  ff_rect :: "desk_rect option"
  ff_name :: "string option"
  ff_locked :: "bool option"

record file_fields =
  fl_repo :: string
  fl_path :: string
  fl_checkout :: "string option"

record note_fields =
  nf_rect :: "desk_rect option"
  nf_locked :: "bool option"
  nf_file :: "file_fields option"

datatype record_type = WindowType | FenceType | NoteType

datatype change =
  CreateWindow desk_record
| CreateFence desk_fence
| CreateNote desk_note
| SetWindow string window_fields
| SetFence string fence_fields
| SetNote string note_fields
| Remove record_type string
| Checkout string string
| CheckoutClear string string

text \<open>
  \<open>cr_op\<close> is the \<^verbatim>\<open>op\<close> key as a text; the others read the value, less that key, as the shape of its
  operation, and a nested value as a record.
\<close>

record 'v change_reader =
  cr_op :: "'v \<Rightarrow> string option"
  cr_create :: "'v \<Rightarrow> string + (record_type \<times> 'v)"
  cr_set :: "'v \<Rightarrow> string + (record_type \<times> string \<times> 'v)"
  cr_remove :: "'v \<Rightarrow> string + (record_type \<times> string)"
  cr_checkout :: "'v \<Rightarrow> string + (string \<times> string)"
  cr_checkout_clear :: "'v \<Rightarrow> string + (string \<times> string)"
  cr_window :: "'v \<Rightarrow> string + desk_record"
  cr_fence :: "'v \<Rightarrow> string + desk_fence"
  cr_note :: "'v \<Rightarrow> string + desk_note"
  cr_window_fields :: "'v \<Rightarrow> string + window_fields"
  cr_fence_fields :: "'v \<Rightarrow> string + fence_fields"
  cr_note_fields :: "'v \<Rightarrow> string + note_fields"

definition and_then :: "'e + 'a \<Rightarrow> ('a \<Rightarrow> 'e + 'b) \<Rightarrow> 'e + 'b" where
  "and_then x f = (case x of Inl e \<Rightarrow> Inl e | Inr a \<Rightarrow> f a)"

definition parse_change :: "'v change_reader \<Rightarrow> 'v \<Rightarrow> string + change" where
  "parse_change shapes v =
     (case cr_op shapes v of
        None \<Rightarrow> Inl ''a change needs an `op`''
      | Some op \<Rightarrow>
          if op = ''create'' then
            and_then (cr_create shapes v) (\<lambda>(kind, r).
              case kind of
                WindowType \<Rightarrow> map_sum (\<lambda>e. e) CreateWindow (cr_window shapes r)
              | FenceType \<Rightarrow> map_sum (\<lambda>e. e) CreateFence (cr_fence shapes r)
              | NoteType \<Rightarrow> map_sum (\<lambda>e. e) CreateNote (cr_note shapes r))
          else if op = ''set'' then
            and_then (cr_set shapes v) (\<lambda>(kind, rid, fs).
              case kind of
                WindowType \<Rightarrow> map_sum (\<lambda>e. e) (SetWindow rid) (cr_window_fields shapes fs)
              | FenceType \<Rightarrow> map_sum (\<lambda>e. e) (SetFence rid) (cr_fence_fields shapes fs)
              | NoteType \<Rightarrow> map_sum (\<lambda>e. e) (SetNote rid) (cr_note_fields shapes fs))
          else if op = ''remove'' then map_sum (\<lambda>e. e) (\<lambda>(kind, rid). Remove kind rid) (cr_remove shapes v)
          else if op = ''checkout'' then map_sum (\<lambda>e. e) (\<lambda>(repo, name). Checkout repo name) (cr_checkout shapes v)
          else if op = ''checkout-clear'' then
            map_sum (\<lambda>e. e) (\<lambda>(repo, name). CheckoutClear repo name) (cr_checkout_clear shapes v)
          else Inl (''unknown op '' @ op))"

section \<open>Writing a slot\<close>

text \<open>\<open>put_slot\<close> is \<^verbatim>\<open>put\<close> with the running \<^verbatim>\<open>did\<close>; the equality is an argument because \<^verbatim>\<open>f64\<close> has its own.\<close>

definition put_slot :: "('r \<Rightarrow> 'a) \<Rightarrow> ('a \<Rightarrow> 'r \<Rightarrow> 'r) \<Rightarrow> ('a \<Rightarrow> 'a \<Rightarrow> bool) \<Rightarrow> 'a \<Rightarrow> bool \<times> 'r \<Rightarrow> bool \<times> 'r" where
  "put_slot get write eq v p = (case p of (did, r) \<Rightarrow> if eq (get r) v then (did, r) else (True, write v r))"

definition put_given :: "('r \<Rightarrow> 'a) \<Rightarrow> ('a \<Rightarrow> 'r \<Rightarrow> 'r) \<Rightarrow> ('a \<Rightarrow> 'a \<Rightarrow> bool) \<Rightarrow> 'a option \<Rightarrow> bool \<times> 'r \<Rightarrow> bool \<times> 'r" where
  "put_given get write eq x p = (case x of None \<Rightarrow> p | Some v \<Rightarrow> put_slot get write eq v p)"

text \<open>\<^verbatim>\<open>iter_mut().find\<close>: the first record with the id, changed in place.\<close>

fun update_found :: "('r \<Rightarrow> bool) \<Rightarrow> ('r \<Rightarrow> bool \<times> 'r) \<Rightarrow> 'r list \<Rightarrow> (bool \<times> 'r list) option" where
  "update_found P f [] = None"
| "update_found P f (r # rs) =
     (if P r then (case f r of (did, r') \<Rightarrow> Some (did, r' # rs))
      else map_option (\<lambda>(did, rs'). (did, r # rs')) (update_found P f rs))"

definition stamped :: "(int \<Rightarrow> 'r \<Rightarrow> 'r) \<Rightarrow> int \<Rightarrow> bool \<times> 'r \<Rightarrow> bool \<times> 'r" where
  "stamped write now p = (case p of (did, r) \<Rightarrow> (did, if did then write now r else r))"

section \<open>Checks\<close>

definition sane :: "string \<Rightarrow> string \<Rightarrow> desk_rect \<Rightarrow> string + unit" where
  "sane what rid rect =
     (if rect_is_sane rect then Inr () else Inl (what @ '' '' @ rid @ '' has an out-of-frame rect''))"

definition checkout_name :: "string \<Rightarrow> string option \<Rightarrow> string + unit" where
  "checkout_name rid name =
     (case name of
        Some n \<Rightarrow>
          if checkout_lexical n then Inr ()
          else Inl (''checkout '' @ n @ '' on record '' @ rid @ '' is not a valid name'')
      | None \<Rightarrow> Inr ())"

section \<open>One change\<close>

type_synonym desk_outcome = "desk_store \<times> (string + bool)"

definition DESK_CREATE_SLACK :: nat where "DESK_CREATE_SLACK = 5"

definition put_session :: "u64 option \<Rightarrow> string option \<Rightarrow> string option \<Rightarrow> bool \<times> desk_record \<Rightarrow> bool \<times> desk_record" where
  "put_session session daemon environment p =
     put_slot dw_environment (\<lambda>v. dw_environment_update (\<lambda>_. v)) (=) environment
       (put_slot dw_daemon_id (\<lambda>v. dw_daemon_id_update (\<lambda>_. v)) (=) daemon
         (put_slot dw_session_id (\<lambda>v. dw_session_id_update (\<lambda>_. v)) (=) session p))"

definition create_window :: "desk_store \<Rightarrow> desk_record \<Rightarrow> int \<Rightarrow> desk_outcome" where
  "create_window desk r now =
     (case sane ''record'' (dw_id r) (dw_rect r) of
        Inl e \<Rightarrow> (desk, Inl e)
      | Inr _ \<Rightarrow>
          case checkout_name (dw_id r) (dw_checkout r) of
            Inl e \<Rightarrow> (desk, Inl e)
          | Inr _ \<Rightarrow>
              case update_found (\<lambda>w. dw_id w = dw_id r)
                  (\<lambda>w. stamped (\<lambda>t. dw_ts_update (\<lambda>_. t)) now
                    (put_session (dw_session_id r) (dw_daemon_id r) (dw_environment r) (False, w)))
                  (dk_windows desk) of
                Some (did, ws) \<Rightarrow> (desk\<lparr>dk_windows := ws\<rparr>, Inr did)
              | None \<Rightarrow>
                  if length (dk_windows desk) \<ge> DESK_MAX + DESK_CREATE_SLACK
                  then (desk, Inl (''the desk already holds '' @ show_nat (length (dk_windows desk)) @ '' consoles''))
                  else (desk\<lparr>dk_windows := dk_windows desk @ [(cap_console_name r)\<lparr>dw_ts := now\<rparr>]\<rparr>, Inr True))"

definition create_fence :: "desk_store \<Rightarrow> desk_fence \<Rightarrow> int \<Rightarrow> desk_outcome" where
  "create_fence desk f now =
     (case sane ''fence'' (df_id f) (df_rect f) of
        Inl e \<Rightarrow> (desk, Inl e)
      | Inr _ \<Rightarrow>
          if list_ex (\<lambda>x. df_id x = df_id f) (dk_fences desk) then (desk, Inr False)
          else if length (dk_fences desk) \<ge> FENCE_MAX
          then (desk, Inl (''the desk already holds '' @ show_nat FENCE_MAX @ '' fences''))
          else (desk\<lparr>dk_fences := dk_fences desk @ [f\<lparr>df_ts := now\<rparr>]\<rparr>, Inr True))"

definition create_note :: "desk_store \<Rightarrow> desk_note \<Rightarrow> int \<Rightarrow> desk_outcome" where
  "create_note desk n now =
     (case sane ''note'' (dn_id n) (dn_rect n) of
        Inl e \<Rightarrow> (desk, Inl e)
      | Inr _ \<Rightarrow>
          case checkout_name (dn_id n) (dn_checkout n) of
            Inl e \<Rightarrow> (desk, Inl e)
          | Inr _ \<Rightarrow>
              if list_ex (\<lambda>x. dn_id x = dn_id n) (dk_notes desk) then (desk, Inr False)
              else if length (dk_notes desk) \<ge> NOTE_MAX
              then (desk, Inl (''the desk already holds '' @ show_nat NOTE_MAX @ '' notes''))
              else (desk\<lparr>dk_notes := dk_notes desk @ [n\<lparr>dn_ts := now\<rparr>]\<rparr>, Inr True))"

definition default_rect :: desk_rect where
  "default_rect = \<lparr>dr_left = Fin 0, dr_top = Fin 0, dr_width = Fin 0, dr_height = Fin 0\<rparr>"

definition default_record :: desk_record where
  "default_record =
     \<lparr>dw_id = [], dw_repo = [], dw_agent = [], dw_kind = [], dw_rect = default_rect, dw_max = False,
      dw_session_id = None, dw_daemon_id = None, dw_environment = None, dw_checkout = None, dw_locked = False,
      dw_console_name = None, dw_done_mark = False, dw_ts = 0\<rparr>"

definition put_console_name :: "string \<Rightarrow> bool \<times> desk_record \<Rightarrow> bool \<times> desk_record" where
  "put_console_name name p =
     (case dw_console_name (cap_console_name (default_record\<lparr>dw_console_name := Some name\<rparr>)) of
        Some n \<Rightarrow> put_slot dw_console_name (\<lambda>v. dw_console_name_update (\<lambda>_. v)) (=) (Some n) p
      | None \<Rightarrow> p)"

definition put_done_mark :: "bool option \<Rightarrow> bool \<times> desk_record \<Rightarrow> bool \<times> desk_record" where
  "put_done_mark = put_given dw_done_mark (\<lambda>v. dw_done_mark_update (\<lambda>_. v)) (=)"

definition merge_window :: "window_fields \<Rightarrow> desk_record \<Rightarrow> bool \<times> desk_record" where
  "merge_window fs w =
     (let p = put_given dw_rect (\<lambda>v. dw_rect_update (\<lambda>_. v)) rect_eq (wf_rect fs) (False, w);
          p = put_given dw_max (\<lambda>v. dw_max_update (\<lambda>_. v)) (=) (wf_max fs) p;
          p = put_given dw_locked (\<lambda>v. dw_locked_update (\<lambda>_. v)) (=) (wf_locked fs) p;
          p = (case wf_console_name fs of None \<Rightarrow> p | Some name \<Rightarrow> put_console_name name p);
          p = put_done_mark (wf_done_mark fs) p;
          p = put_given dw_checkout (\<lambda>v. dw_checkout_update (\<lambda>_. v)) (=) (wf_checkout fs) p
      in case wf_session fs of
           None \<Rightarrow> p
         | Some s \<Rightarrow> put_session (sf_session_id s) (sf_daemon_id s) (sf_environment s) p)"

definition set_window :: "desk_store \<Rightarrow> string \<Rightarrow> window_fields \<Rightarrow> int \<Rightarrow> desk_outcome" where
  "set_window desk rid fs now =
     (case (case wf_rect fs of None \<Rightarrow> Inr () | Some rect \<Rightarrow> sane ''record'' rid rect) of
        Inl e \<Rightarrow> (desk, Inl e)
      | Inr _ \<Rightarrow>
          case (case wf_checkout fs of Some (Some name) \<Rightarrow> checkout_name rid (Some name) | _ \<Rightarrow> Inr ()) of
            Inl e \<Rightarrow> (desk, Inl e)
          | Inr _ \<Rightarrow>
              case update_found (\<lambda>w. dw_id w = rid)
                  (\<lambda>w. stamped (\<lambda>t. dw_ts_update (\<lambda>_. t)) now (merge_window fs w)) (dk_windows desk) of
                None \<Rightarrow> (desk, Inr False)
              | Some (did, ws) \<Rightarrow> (desk\<lparr>dk_windows := ws\<rparr>, Inr did))"

definition merge_fence :: "fence_fields \<Rightarrow> desk_fence \<Rightarrow> bool \<times> desk_fence" where
  "merge_fence fs f =
     (let p = put_given df_rect (\<lambda>v. df_rect_update (\<lambda>_. v)) rect_eq (ff_rect fs) (False, f);
          p = put_given df_name (\<lambda>v. df_name_update (\<lambda>_. v)) (=) (ff_name fs) p
      in put_given df_locked (\<lambda>v. df_locked_update (\<lambda>_. v)) (=) (ff_locked fs) p)"

definition set_fence :: "desk_store \<Rightarrow> string \<Rightarrow> fence_fields \<Rightarrow> int \<Rightarrow> desk_outcome" where
  "set_fence desk rid fs now =
     (case (case ff_rect fs of None \<Rightarrow> Inr () | Some rect \<Rightarrow> sane ''fence'' rid rect) of
        Inl e \<Rightarrow> (desk, Inl e)
      | Inr _ \<Rightarrow>
          case update_found (\<lambda>f. df_id f = rid)
              (\<lambda>f. stamped (\<lambda>t. df_ts_update (\<lambda>_. t)) now (merge_fence fs f)) (dk_fences desk) of
            None \<Rightarrow> (desk, Inr False)
          | Some (did, fs') \<Rightarrow> (desk\<lparr>dk_fences := fs'\<rparr>, Inr did))"

definition merge_note :: "note_fields \<Rightarrow> desk_note \<Rightarrow> bool \<times> desk_note" where
  "merge_note fs n =
     (let p = put_given dn_rect (\<lambda>v. dn_rect_update (\<lambda>_. v)) rect_eq (nf_rect fs) (False, n);
          p = put_given dn_locked (\<lambda>v. dn_locked_update (\<lambda>_. v)) (=) (nf_locked fs) p
      in case nf_file fs of
           None \<Rightarrow> p
         | Some f \<Rightarrow>
             put_slot dn_checkout (\<lambda>v. dn_checkout_update (\<lambda>_. v)) (=) (fl_checkout f)
               (put_slot dn_path (\<lambda>v. dn_path_update (\<lambda>_. v)) (=) (fl_path f)
                 (put_slot dn_repo (\<lambda>v. dn_repo_update (\<lambda>_. v)) (=) (fl_repo f) p)))"

definition set_note :: "desk_store \<Rightarrow> string \<Rightarrow> note_fields \<Rightarrow> int \<Rightarrow> desk_outcome" where
  "set_note desk rid fs now =
     (case (case nf_rect fs of None \<Rightarrow> Inr () | Some rect \<Rightarrow> sane ''note'' rid rect) of
        Inl e \<Rightarrow> (desk, Inl e)
      | Inr _ \<Rightarrow>
          case (case nf_file fs of None \<Rightarrow> Inr () | Some f \<Rightarrow> checkout_name rid (fl_checkout f)) of
            Inl e \<Rightarrow> (desk, Inl e)
          | Inr _ \<Rightarrow>
              case update_found (\<lambda>n. dn_id n = rid)
                  (\<lambda>n. stamped (\<lambda>t. dn_ts_update (\<lambda>_. t)) now (merge_note fs n)) (dk_notes desk) of
                None \<Rightarrow> (desk, Inr False)
              | Some (did, ns) \<Rightarrow> (desk\<lparr>dk_notes := ns\<rparr>, Inr did))"

definition remove_record :: "desk_store \<Rightarrow> record_type \<Rightarrow> string \<Rightarrow> desk_outcome" where
  "remove_record desk kind rid =
     (case kind of
        WindowType \<Rightarrow>
          let ws = filter (\<lambda>w. dw_id w \<noteq> rid) (dk_windows desk)
          in (desk\<lparr>dk_windows := ws\<rparr>, Inr (length ws \<noteq> length (dk_windows desk)))
      | FenceType \<Rightarrow>
          let fs = filter (\<lambda>f. df_id f \<noteq> rid) (dk_fences desk)
          in (desk\<lparr>dk_fences := fs\<rparr>, Inr (length fs \<noteq> length (dk_fences desk)))
      | NoteType \<Rightarrow>
          let ns = filter (\<lambda>n. dn_id n \<noteq> rid) (dk_notes desk)
          in (desk\<lparr>dk_notes := ns\<rparr>, Inr (length ns \<noteq> length (dk_notes desk))))"

definition select_checkout :: "desk_store \<Rightarrow> string \<Rightarrow> string \<Rightarrow> desk_outcome" where
  "select_checkout desk repo name =
     (if \<not> checkout_lexical name
      then (desk, Inl (''checkout '' @ name @ '' for '' @ repo @ '' is not a valid name''))
      else if map_of (dk_checkouts desk) repo = Some name then (desk, Inr False)
      else (desk\<lparr>dk_checkouts := tree_insert repo name (dk_checkouts desk)\<rparr>, Inr True))"

definition checkout_clear :: "desk_store \<Rightarrow> string \<Rightarrow> string \<Rightarrow> desk_outcome" where
  "checkout_clear desk repo if_name =
     (if map_of (dk_checkouts desk) repo \<noteq> Some if_name then (desk, Inr False)
      else (desk\<lparr>dk_checkouts := tree_remove repo (dk_checkouts desk)\<rparr>, Inr True))"

fun apply_one :: "desk_store \<Rightarrow> change \<Rightarrow> int \<Rightarrow> desk_outcome" where
  "apply_one desk (CreateWindow r) now = create_window desk r now"
| "apply_one desk (CreateFence f) now = create_fence desk f now"
| "apply_one desk (CreateNote n) now = create_note desk n now"
| "apply_one desk (SetWindow rid fs) now = set_window desk rid fs now"
| "apply_one desk (SetFence rid fs) now = set_fence desk rid fs now"
| "apply_one desk (SetNote rid fs) now = set_note desk rid fs now"
| "apply_one desk (Remove kind rid) now = remove_record desk kind rid"
| "apply_one desk (Checkout repo name) now = select_checkout desk repo name"
| "apply_one desk (CheckoutClear repo if_name) now = checkout_clear desk repo if_name"

section \<open>A list of changes\<close>

type_synonym aliases = "string btree"

definition canonical :: "aliases \<Rightarrow> string \<Rightarrow> string" where
  "canonical al repo = (case map_of al repo of Some to \<Rightarrow> to | None \<Rightarrow> repo)"

fun rekey :: "aliases \<Rightarrow> change \<Rightarrow> change" where
  "rekey al (CreateWindow r) = CreateWindow (r\<lparr>dw_repo := canonical al (dw_repo r)\<rparr>)"
| "rekey al (CreateNote n) = CreateNote (n\<lparr>dn_repo := canonical al (dn_repo n)\<rparr>)"
| "rekey al (SetNote rid fs) =
     SetNote rid (fs\<lparr>nf_file := map_option (\<lambda>f. f\<lparr>fl_repo := canonical al (fl_repo f)\<rparr>) (nf_file fs)\<rparr>)"
| "rekey al (Checkout repo name) = Checkout (canonical al repo) name"
| "rekey al (CheckoutClear repo if_name) = CheckoutClear (canonical al repo) if_name"
| "rekey al c = c"

record applied =
  ap_desk :: desk_store
  ap_changed :: bool
  ap_refused :: "(nat \<times> string) list"

definition apply_raw :: "'v change_reader \<Rightarrow> aliases \<Rightarrow> int \<Rightarrow> nat \<times> 'v \<Rightarrow> applied \<Rightarrow> applied" where
  "apply_raw shapes al now raw a =
     (case raw of (index, v) \<Rightarrow>
        case parse_change shapes v of
          Inl e \<Rightarrow> a\<lparr>ap_refused := ap_refused a @ [(index, e)]\<rparr>
        | Inr c \<Rightarrow>
            (case apply_one (ap_desk a) (rekey al c) now of
               (desk, Inr did) \<Rightarrow> a\<lparr>ap_desk := desk, ap_changed := ap_changed a \<or> did\<rparr>
             | (desk, Inl e) \<Rightarrow> a\<lparr>ap_desk := desk, ap_refused := ap_refused a @ [(index, e)]\<rparr>))"

definition apply_changes :: "'v change_reader \<Rightarrow> desk_store \<Rightarrow> 'v list \<Rightarrow> aliases \<Rightarrow> int \<Rightarrow> applied" where
  "apply_changes shapes desk changes al now =
     fold (apply_raw shapes al now) (enumerate 0 changes) \<lparr>ap_desk = desk, ap_changed = False, ap_refused = []\<rparr>"

end
