(* ===== verification/Desk_History.thy ===== *)
theory Desk_History
  imports Desk_Apply
begin

text \<open>
  The desk history (\<^verbatim>\<open>desk/history.rs\<close>, \<^verbatim>\<open>desk/membership.rs\<close>): when two desks show one layout, which
  writes start a version, and the desk a restore builds.  The version directory is the list of its file ids in
  ascending order with what each file reads as; the sums of two \<^verbatim>\<open>f64\<close> are the parameter \<open>f64_arith\<close>, since
  they round.  What the JSON of a desk reads back as is the parameter \<open>desk_json\<close>: \<^verbatim>\<open>serde_json\<close> writes a
  number that is not finite as \<^verbatim>\<open>null\<close>, and that version cannot be read; a finite one may come back rounded.
\<close>

section \<open>Comparing numbers\<close>

fun f64_less :: "stage_f64 \<Rightarrow> stage_f64 \<Rightarrow> bool" where
  "f64_less (Fin a) (Fin b) = (a < b)"
| "f64_less (Fin a) PosInf = True"
| "f64_less NegInf (Fin b) = True"
| "f64_less NegInf PosInf = True"
| "f64_less _ _ = False"

definition f64_le :: "stage_f64 \<Rightarrow> stage_f64 \<Rightarrow> bool" where
  "f64_le a b \<longleftrightarrow> f64_less a b \<or> f64_eq a b"

definition f64_min :: "stage_f64 \<Rightarrow> stage_f64 \<Rightarrow> stage_f64" where
  "f64_min a b = (if a = NaN then b else if b = NaN then a else if f64_less b a then b else a)"

fun f64_abs :: "stage_f64 \<Rightarrow> stage_f64" where
  "f64_abs (Fin r) = Fin \<bar>r\<bar>"
| "f64_abs NegInf = PosInf"
| "f64_abs x = x"

record f64_arith =
  fa_add :: "stage_f64 \<Rightarrow> stage_f64 \<Rightarrow> stage_f64"
  fa_sub :: "stage_f64 \<Rightarrow> stage_f64 \<Rightarrow> stage_f64"
  fa_half :: "stage_f64 \<Rightarrow> stage_f64"

section \<open>Which fence holds a record\<close>

definition TITLE_MID :: stage_f64 where "TITLE_MID = Fin 16"

definition title_bar_point :: "f64_arith \<Rightarrow> desk_rect \<Rightarrow> stage_f64 \<times> stage_f64" where
  "title_bar_point ar r =
     (fa_add ar (dr_left r) (fa_half ar (dr_width r)),
      fa_add ar (dr_top r) (f64_min TITLE_MID (fa_half ar (dr_height r))))"

definition holds :: "f64_arith \<Rightarrow> desk_rect \<Rightarrow> stage_f64 \<times> stage_f64 \<Rightarrow> bool" where
  "holds ar fence p =
     (case p of (x, y) \<Rightarrow>
        f64_le (dr_left fence) x \<and> f64_less x (fa_add ar (dr_left fence) (dr_width fence)) \<and>
        f64_le (dr_top fence) y \<and> f64_less y (fa_add ar (dr_top fence) (dr_height fence)))"

definition fence_of :: "f64_arith \<Rightarrow> desk_fence list \<Rightarrow> desk_rect \<Rightarrow> string option" where
  "fence_of ar fences rect =
     map_option df_id (find (\<lambda>f. holds ar (df_rect f) (title_bar_point ar rect)) fences)"

section \<open>One layout\<close>

definition MOVE_MIN_PX :: stage_f64 where "MOVE_MIN_PX = Fin 32"

definition layout_of :: "desk_store \<Rightarrow> desk_store" where
  "layout_of desk =
     desk\<lparr>dk_generation := 0, dk_rev := 0,
       dk_windows := map (\<lambda>w. w\<lparr>dw_ts := 0, dw_session_id := None, dw_max := False, dw_done_mark := False,
         dw_rect := default_rect\<rparr>) (dk_windows desk),
       dk_fences := map (\<lambda>f. f\<lparr>df_ts := 0, df_rect := default_rect\<rparr>) (dk_fences desk),
       dk_notes := map (\<lambda>n. n\<lparr>dn_ts := 0, dn_rect := default_rect\<rparr>) (dk_notes desk)\<rparr>"

definition rects_of :: "desk_store \<Rightarrow> desk_rect list" where
  "rects_of desk = map dw_rect (dk_windows desk) @ map df_rect (dk_fences desk) @ map dn_rect (dk_notes desk)"

definition edges_near :: "f64_arith \<Rightarrow> desk_rect \<Rightarrow> desk_rect \<Rightarrow> bool" where
  "edges_near ar a b =
     (let near = (\<lambda>p q. f64_less (f64_abs (fa_sub ar p q)) MOVE_MIN_PX)
      in near (dr_left a) (dr_left b) \<and> near (dr_top a) (dr_top b) \<and>
         near (fa_add ar (dr_left a) (dr_width a)) (fa_add ar (dr_left b) (dr_width b)) \<and>
         near (fa_add ar (dr_top a) (dr_height a)) (fa_add ar (dr_top b) (dr_height b)))"

definition fences_held :: "f64_arith \<Rightarrow> desk_store \<Rightarrow> string option list" where
  "fences_held ar desk =
     map (fence_of ar (dk_fences desk)) (map dw_rect (dk_windows desk) @ map dn_rect (dk_notes desk))"

definition same_layout :: "f64_arith \<Rightarrow> desk_store \<Rightarrow> desk_store \<Rightarrow> bool" where
  "same_layout ar a b \<longleftrightarrow>
     layout_of a = layout_of b \<and> list_all (\<lambda>(p, q). edges_near ar p q) (zip (rects_of a) (rects_of b)) \<and>
     fences_held ar a = fences_held ar b"

definition is_empty_desk :: "desk_store \<Rightarrow> bool" where
  "is_empty_desk desk \<longleftrightarrow> dk_windows desk = [] \<and> dk_fences desk = [] \<and> dk_notes desk = []"

section \<open>Versions\<close>

definition HISTORY_MAX :: nat where "HISTORY_MAX = 50"
definition COALESCE_MS :: int where "COALESCE_MS = 60000"
definition VERSION_KIND :: string where "VERSION_KIND = ''ralphy-desk-version''"

datatype reason = Changed | BeforeRestore | Restored | Uploaded

record version =
  vs_kind :: string
  vs_id :: int
  vs_started_at :: int
  vs_saved_at :: int
  vs_reason :: reason
  vs_desk :: desk_store

text \<open>A file that does not parse is \<open>None\<close>.\<close>

type_synonym desk_history = "(int \<times> version option) list"

datatype capture_step = Nothing | Overwrite | Append bool

definition capture_step_of :: "f64_arith \<Rightarrow> version option \<Rightarrow> desk_store \<Rightarrow> desk_store \<Rightarrow> int \<Rightarrow> capture_step" where
  "capture_step_of ar latest prior after now =
     (if (case latest of Some v \<Rightarrow> same_layout ar (vs_desk v) after | None \<Rightarrow> False) then Nothing
      else if (case latest of
             Some v \<Rightarrow> vs_reason v \<noteq> BeforeRestore \<and> now - vs_started_at v < COALESCE_MS
           | None \<Rightarrow> False)
      then Overwrite
      else let held = (case latest of Some v \<Rightarrow> same_layout ar (vs_desk v) prior | None \<Rightarrow> False)
        in Append (\<not> held \<and> \<not> is_empty_desk prior \<and> \<not> same_layout ar prior after))"

definition newest_two :: "desk_history \<Rightarrow> version option \<times> version option" where
  "newest_two h =
     (case rev (List.map_filter snd h) of
        [] \<Rightarrow> (None, None)
      | [v] \<Rightarrow> (Some v, None)
      | v # u # _ \<Rightarrow> (Some v, Some u))"

definition undoes :: "f64_arith \<Rightarrow> version \<Rightarrow> version option \<Rightarrow> desk_store \<Rightarrow> bool" where
  "undoes ar latest previous after \<longleftrightarrow>
     vs_reason latest = Changed \<and>
     (case previous of Some p \<Rightarrow> same_layout ar (vs_desk p) after | None \<Rightarrow> False)"

type_synonym desk_json = "desk_store \<Rightarrow> desk_store option"

definition read_back :: "desk_json \<Rightarrow> version \<Rightarrow> version option" where
  "read_back jd v = map_option (\<lambda>d. v\<lparr>vs_desk := d\<rparr>) (jd (vs_desk v))"

text \<open>Writing a file over the one of its id, or beside the others in the order of the ids.\<close>

fun write_file :: "int \<Rightarrow> version option \<Rightarrow> desk_history \<Rightarrow> desk_history" where
  "write_file n f [] = [(n, f)]"
| "write_file n f ((i, x) # h) =
     (if n = i then (i, f) # h
      else if n < i then (n, f) # (i, x) # h
      else (i, x) # write_file n f h)"

definition write_version :: "desk_json \<Rightarrow> version \<Rightarrow> desk_history \<Rightarrow> desk_history" where
  "write_version jd v h = write_file (vs_id v) (read_back jd v) h"

text \<open>The next id, in an \<^verbatim>\<open>i64\<close> that wraps.\<close>

definition i64_succ :: "int \<Rightarrow> int" where
  "i64_succ i = (if i = 2 ^ 63 - 1 then - (2 ^ 63) else i + 1)"

definition delete_version :: "int \<Rightarrow> desk_history \<Rightarrow> desk_history" where
  "delete_version i h = filter (\<lambda>(j, x). j \<noteq> i) h"

definition prune_history :: "desk_history \<Rightarrow> desk_history" where
  "prune_history h = drop (length h - HISTORY_MAX) h"

definition unnumbered :: "desk_store \<Rightarrow> desk_store" where
  "unnumbered desk = desk\<lparr>dk_generation := 0, dk_rev := 0\<rparr>"

definition append_version :: "desk_json \<Rightarrow> desk_history \<Rightarrow> desk_store \<Rightarrow> reason \<Rightarrow> int \<Rightarrow> desk_history" where
  "append_version jd h desk why now =
     (let i = (if h = [] then now else max now (i64_succ (fst (last h))))
      in prune_history (write_version jd
           \<lparr>vs_kind = VERSION_KIND, vs_id = i, vs_started_at = now, vs_saved_at = now, vs_reason = why,
            vs_desk = unnumbered desk\<rparr> h))"

definition capture :: "f64_arith \<Rightarrow> desk_json \<Rightarrow> desk_history \<Rightarrow> desk_store \<Rightarrow> desk_store \<Rightarrow> int \<Rightarrow> desk_history" where
  "capture ar jd h prior after now =
     (case newest_two h of (latest, previous) \<Rightarrow>
        case capture_step_of ar latest prior after now of
          Nothing \<Rightarrow> h
        | Overwrite \<Rightarrow>
            (case latest of
               None \<Rightarrow> h
             | Some v \<Rightarrow>
                 if undoes ar v previous after then delete_version (vs_id v) h
                 else write_version jd (v\<lparr>vs_desk := unnumbered after, vs_saved_at := now\<rparr>) h)
        | Append keep_before \<Rightarrow>
            append_version jd (if keep_before then append_version jd h prior Changed now else h) after Changed now)"

record version_info =
  vi_id :: int
  vi_started_at :: int
  vi_saved_at :: int
  vi_reason :: reason
  vi_windows :: nat
  vi_fences :: nat
  vi_notes :: nat

definition version_info_of :: "version \<Rightarrow> version_info" where
  "version_info_of v =
     \<lparr>vi_id = vs_id v, vi_started_at = vs_started_at v, vi_saved_at = vs_saved_at v, vi_reason = vs_reason v,
      vi_windows = length (dk_windows (vs_desk v)), vi_fences = length (dk_fences (vs_desk v)),
      vi_notes = length (dk_notes (vs_desk v))\<rparr>"

definition list_versions :: "desk_history \<Rightarrow> version_info list" where
  "list_versions h = map version_info_of (rev (List.map_filter snd h))"

section \<open>Restoring\<close>

definition same_session :: "desk_record \<Rightarrow> desk_record \<Rightarrow> bool" where
  "same_session a b \<longleftrightarrow>
     dw_session_id a \<noteq> None \<and> dw_session_id a = dw_session_id b \<and> dw_daemon_id a = dw_daemon_id b \<and>
     dw_repo a = dw_repo b \<and> dw_agent a = dw_agent b \<and> dw_kind a = dw_kind b"

fun position_of :: "('a \<Rightarrow> bool) \<Rightarrow> 'a list \<Rightarrow> nat option" where
  "position_of P [] = None"
| "position_of P (x # xs) = (if P x then Some 0 else map_option Suc (position_of P xs))"

definition is_some_and :: "('a \<Rightarrow> bool) \<Rightarrow> 'a option \<Rightarrow> bool" where
  "is_some_and P x = (case x of Some a \<Rightarrow> P a | None \<Rightarrow> False)"

definition find_console :: "desk_record \<Rightarrow> desk_record option list \<Rightarrow> nat option" where
  "find_console v left =
     (case position_of (is_some_and (\<lambda>c. dw_id c = dw_id v)) left of
        Some i \<Rightarrow> Some i
      | None \<Rightarrow> position_of (is_some_and (\<lambda>c. same_session c v)) left)"

definition restore_window ::
    "int \<Rightarrow> desk_record \<Rightarrow> desk_record list \<times> desk_record option list \<Rightarrow> desk_record list \<times> desk_record option list" where
  "restore_window now w p =
     (case p of (windows, left) \<Rightarrow>
        let v = cap_console_name w
        in case find_console v left of
             Some i \<Rightarrow>
               (case left ! i of
                  Some c \<Rightarrow>
                    (windows @ [v\<lparr>dw_id := dw_id c, dw_session_id := dw_session_id c, dw_daemon_id := dw_daemon_id c,
                       dw_environment := dw_environment c, dw_done_mark := dw_done_mark c, dw_ts := now\<rparr>],
                     left[i := None])
                | None \<Rightarrow> (windows @ [v\<lparr>dw_done_mark := False, dw_ts := now\<rparr>], left))
           | None \<Rightarrow> (windows @ [v\<lparr>dw_done_mark := False, dw_ts := now\<rparr>], left))"

definition restore_desk :: "desk_store \<Rightarrow> desk_store \<Rightarrow> int \<Rightarrow> desk_store \<times> string set" where
  "restore_desk current version now =
     (case fold (restore_window now) (dk_windows version) ([], map Some (dk_windows current)) of
        (windows, left) \<Rightarrow>
          let kept = filter (\<lambda>c. dw_session_id c \<noteq> None) (List.map_filter (\<lambda>c. c) left)
          in (\<lparr>dk_rev = dk_rev current, dk_generation = dk_generation current, dk_windows = windows @ kept,
               dk_fences = map (\<lambda>f. f\<lparr>df_ts := now\<rparr>) (dk_fences version),
               dk_notes = map (\<lambda>n. n\<lparr>dn_ts := now\<rparr>) (dk_notes version), dk_checkouts = dk_checkouts current\<rparr>,
              set (map dw_id kept)))"

end
