(* ===== verification/Desk_Routes.thy ===== *)
theory Desk_Routes
  imports Desk_History Artifacts
begin

text \<open>
  The desk routes (\<^verbatim>\<open>routes/api_desk.rs\<close>, \<^verbatim>\<open>routes/api_desk/history.rs\<close>) and the repository keys a desk is
  served under (\<^verbatim>\<open>rekey.rs\<close>).  The state is what the routes share under the desk lock: the file, the upload
  numbers of the tabs, the history and the pushes sent.  What the disk, the clock and the registry answer is
  the record \<open>desk_env\<close>.
\<close>

section \<open>Former keys\<close>

definition rekey_checkouts :: "string btree \<Rightarrow> aliases \<Rightarrow> string btree" where
  "rekey_checkouts old al =
     (let canon = fold (\<lambda>(repo, name) m. if map_of al repo = None then tree_insert repo name m else m) old []
      in fold (\<lambda>(repo, name) m.
           case map_of al repo of
             None \<Rightarrow> m
           | Some to \<Rightarrow> if map_of m to = None then tree_insert to name m else m) old canon)"

definition rekey_desk :: "desk_store \<Rightarrow> aliases \<Rightarrow> desk_store" where
  "rekey_desk store al =
     (if al = [] then store
      else store\<lparr>
        dk_windows := map (\<lambda>r. r\<lparr>dw_repo := canonical al (dw_repo r)\<rparr>) (dk_windows store),
        dk_notes := map (\<lambda>n. n\<lparr>dn_repo := canonical al (dn_repo n)\<rparr>) (dk_notes store),
        dk_checkouts := rekey_checkouts (dk_checkouts store) al\<rparr>)"

section \<open>The upload numbers of the tabs\<close>

definition TAB_SEQS :: nat where "TAB_SEQS = 64"

type_synonym tab_seqs = "(string \<times> u64) list"

definition seq_is_old :: "tab_seqs \<Rightarrow> string \<Rightarrow> u64 \<Rightarrow> bool" where
  "seq_is_old seqs tab s = list_ex (\<lambda>(t, latest). t = tab \<and> s \<le> latest) seqs"

definition seq_record :: "tab_seqs \<Rightarrow> string \<Rightarrow> u64 \<Rightarrow> tab_seqs" where
  "seq_record seqs tab s = take TAB_SEQS ((tab, s) # filter (\<lambda>(t, latest). t \<noteq> tab) seqs)"

section \<open>State and answers\<close>

datatype disk = Missing | Stored desk_store | Damaged string | Offline string

datatype load_error = ParseError string | ReadError string

definition load_from :: "disk \<Rightarrow> load_error + desk_store" where
  "load_from d =
     (case d of
        Missing \<Rightarrow> Inr empty_desk
      | Stored store \<Rightarrow> Inr store
      | Damaged e \<Rightarrow> Inl (ParseError e)
      | Offline e \<Rightarrow> Inl (ReadError e))"

definition is_parse_error :: "load_error \<Rightarrow> bool" where
  "is_parse_error e = (case e of ParseError x \<Rightarrow> True | ReadError x \<Rightarrow> False)"

record desk_state =
  ds_disk :: disk
  ds_seqs :: tab_seqs
  ds_history :: desk_history
  ds_pushes :: "string option list"

text \<open>
  \<open>de_history_fault\<close> is what a history write that fails leaves of the directory, and \<open>de_json\<close> what the
  JSON of a desk reads back as.
\<close>

record desk_env =
  de_now :: int
  de_later :: int
  de_aliases :: aliases
  de_saves :: bool
  de_moves :: bool
  de_history_fault :: "(desk_history \<Rightarrow> desk_history) option"
  de_json :: desk_json
  de_keeps_before :: bool
  de_sessions :: "string list"

datatype desk_reply =
  DeskIs desk_store "(nat \<times> string) list"
| Unreadable string
| Unavailable string
| ReloadFirst string
| StillReadable
| BadRequest string
| Unprocessable string
| NotFound string
| ServerError string
| RestoredAs u64
| MovedAside

definition unreadable :: "load_error \<Rightarrow> desk_reply" where
  "unreadable e = (case e of ParseError x \<Rightarrow> Unreadable x | ReadError x \<Rightarrow> Unavailable x)"

definition saved_history :: "desk_env \<Rightarrow> (desk_history \<Rightarrow> desk_history) \<Rightarrow> desk_history \<Rightarrow> desk_history" where
  "saved_history env write h = (case de_history_fault env of None \<Rightarrow> write h | Some f \<Rightarrow> f h)"

definition desk_get_route :: "desk_state \<Rightarrow> desk_env \<Rightarrow> desk_reply" where
  "desk_get_route s env =
     (case load_from (ds_disk s) of
        Inr store \<Rightarrow> DeskIs (rekey_desk store (de_aliases env)) []
      | Inl e \<Rightarrow> unreadable e)"

section \<open>The upload\<close>

text \<open>
  Reading the body is the parameter \<open>body_reader\<close>: the JSON of the bytes, whether an object holds the key
  \<^verbatim>\<open>changes\<close>, and the body a value is.
\<close>

record ('r, 'v) body_reader =
  by_json :: "'r \<Rightarrow> string + 'v"
  by_object_has_changes :: "'v \<Rightarrow> bool option"
  by_body :: "'v \<Rightarrow> string + (u64 \<times> u64 \<times> 'v list)"

definition read_put_body :: "('r, 'v) body_reader \<Rightarrow> 'r \<Rightarrow> desk_reply + (u64 \<times> u64 \<times> 'v list)" where
  "read_put_body rd raw =
     (case by_json rd raw of
        Inl e \<Rightarrow> Inl (BadRequest (''the desk upload is not JSON: '' @ e))
      | Inr v \<Rightarrow>
          if by_object_has_changes rd v = Some False
          then Inl (ReloadFirst ''this page was loaded by an older version of Ralphy; reload it'')
          else case by_body rd v of
                 Inl e \<Rightarrow> Inl (Unprocessable (''the desk upload is not a list of changes: '' @ e))
               | Inr body \<Rightarrow> Inr body)"

definition record_tab :: "string option \<Rightarrow> u64 \<Rightarrow> desk_state \<Rightarrow> desk_state" where
  "record_tab tab s st =
     (case tab of Some t \<Rightarrow> st\<lparr>ds_seqs := seq_record (ds_seqs st) t s\<rparr> | None \<Rightarrow> st)"

definition desk_put_route ::
    "('r, 'v) body_reader \<Rightarrow> 'v change_reader \<Rightarrow> f64_arith \<Rightarrow> desk_env \<Rightarrow> string option \<Rightarrow> 'r \<Rightarrow> desk_state
       \<Rightarrow> desk_state \<times> desk_reply" where
  "desk_put_route rd shapes ar env tab raw s =
     (case read_put_body rd raw of
        Inl refusal \<Rightarrow> (s, refusal)
      | Inr (sq, generation, changes) \<Rightarrow>
          case load_from (ds_disk s) of
            Inl e \<Rightarrow> (s, unreadable e)
          | Inr store \<Rightarrow>
              let stored = rekey_desk store (de_aliases env)
              in if generation < dk_generation stored
                 then (s, ReloadFirst ''the desk was restored from its history after this page read it'')
                 else if is_some_and (\<lambda>t. seq_is_old (ds_seqs s) t sq) tab then (s, DeskIs stored [])
                 else let applied = apply_changes shapes stored changes (de_aliases env) (de_now env)
                   in if \<not> ap_changed applied
                      then (record_tab tab sq s, DeskIs (ap_desk applied) (ap_refused applied))
                      else let store = (ap_desk applied)\<lparr>dk_rev := dk_rev stored + 1\<rparr>
                        in if \<not> de_saves env then (s, ServerError ''the desk was not saved'')
                           else (record_tab tab sq
                                   (s\<lparr>ds_disk := Stored store,
                                      ds_history := saved_history env
                                        (\<lambda>h. capture ar (de_json env) h stored store (de_later env)) (ds_history s),
                                      ds_pushes := ds_pushes s @ [tab]\<rparr>),
                                 DeskIs store (ap_refused applied)))"

definition desk_new_route :: "desk_env \<Rightarrow> desk_state \<Rightarrow> desk_state \<times> desk_reply" where
  "desk_new_route env s =
     (case load_from (ds_disk s) of
        Inr store \<Rightarrow> (s, StillReadable)
      | Inl e \<Rightarrow>
          if \<not> is_parse_error e then (s, unreadable e)
          else let fresh = empty_desk\<lparr>dk_rev := 1,
                   dk_generation := (if 0 \<le> de_now env then of_int (de_now env) else 1)\<rparr>
            in if \<not> de_moves env then (s, ServerError ''the desk was not moved'')
               else if \<not> de_saves env then (s\<lparr>ds_disk := Missing\<rparr>, ServerError ''the desk was not saved'')
               else (s\<lparr>ds_disk := Stored fresh, ds_pushes := ds_pushes s @ [None]\<rparr>, MovedAside))"

section \<open>The restore\<close>

definition refuse_records :: "desk_store \<Rightarrow> desk_reply option" where
  "refuse_records d =
     (case find (\<lambda>r. \<not> rect_is_sane (dw_rect r)) (dk_windows d) of
        Some bad \<Rightarrow> Some (BadRequest (''record '' @ dw_id bad @ '' has an out-of-frame rect''))
      | None \<Rightarrow>
      case find (\<lambda>f. \<not> rect_is_sane (df_rect f)) (dk_fences d) of
        Some bad \<Rightarrow> Some (BadRequest (''fence '' @ df_id bad @ '' has an out-of-frame rect''))
      | None \<Rightarrow>
      case find (\<lambda>n. \<not> rect_is_sane (dn_rect n)) (dk_notes d) of
        Some bad \<Rightarrow> Some (BadRequest (''note '' @ dn_id bad @ '' has an out-of-frame rect''))
      | None \<Rightarrow>
      case find (\<lambda>(repo, name). \<not> checkout_lexical name) (dk_checkouts d) of
        Some (repo, name) \<Rightarrow> Some (BadRequest (''checkout '' @ name @ '' for '' @ repo @ '' is not a valid name''))
      | None \<Rightarrow>
      case find (\<lambda>(i, name). \<not> checkout_lexical name)
          (List.map_filter (\<lambda>(i, c). map_option (Pair i) c)
            (map (\<lambda>r. (dw_id r, dw_checkout r)) (dk_windows d) @ map (\<lambda>n. (dn_id n, dn_checkout n)) (dk_notes d))) of
        Some (i, name) \<Rightarrow> Some (BadRequest (''checkout '' @ name @ '' on record '' @ i @ '' is not a valid name''))
      | None \<Rightarrow> None)"

definition restore_source :: "desk_history \<Rightarrow> int option \<Rightarrow> version option \<Rightarrow> desk_reply + (desk_store \<times> reason)" where
  "restore_source h i v =
     (case (i, v) of
        (Some i, None) \<Rightarrow>
          (case map_of h i of
             Some (Some u) \<Rightarrow> Inr (vs_desk u, Restored)
           | None \<Rightarrow> Inl (NotFound (''no desk version '' @ show_int i))
           | Some None \<Rightarrow> Inl (ServerError ''the version was not read''))
      | (None, Some u) \<Rightarrow>
          if vs_kind u \<noteq> VERSION_KIND then Inl (BadRequest ''the file is not a desk version'')
          else (case refuse_records (vs_desk u) of
                  Some refusal \<Rightarrow> Inl refusal
                | None \<Rightarrow> Inr (vs_desk u, Uploaded))
      | _ \<Rightarrow> Inl (BadRequest ''send either `id` or `version`''))"

definition desk_history_restore_route ::
    "desk_env \<Rightarrow> int option \<Rightarrow> version option \<Rightarrow> desk_state \<Rightarrow> desk_state \<times> desk_reply" where
  "desk_history_restore_route env i v s =
     (case restore_source (ds_history s) i v of
        Inl refusal \<Rightarrow> (s, refusal)
      | Inr (saved, why) \<Rightarrow>
          case load_from (ds_disk s) of
            Inl e \<Rightarrow> (s, unreadable e)
          | Inr current \<Rightarrow>
              if \<not> de_keeps_before env
              then (s, ServerError ''could not save the current desk before the restore'')
              else let s = s\<lparr>ds_history := append_version (de_json env) (ds_history s) current BeforeRestore (de_now env)\<rparr>
                in case restore_desk current saved (de_now env) of (restored, running) \<Rightarrow>
                  let pinned = running \<union> set (de_sessions env);
                      generation = (if 0 \<le> de_now env then of_int (de_now env) else 1);
                      store = rekey_desk
                        \<lparr>dk_rev = dk_rev restored + 1, dk_generation = generation,
                         dk_windows = prune_windows (dk_windows restored) pinned,
                         dk_fences = prune_fences (dk_fences restored), dk_notes = prune_notes (dk_notes restored),
                         dk_checkouts = dk_checkouts restored\<rparr> (de_aliases env)
                  in if \<not> de_saves env then (s, ServerError ''the desk was not saved'')
                     else (s\<lparr>ds_disk := Stored store,
                             ds_history := saved_history env (\<lambda>h. append_version (de_json env) h store why (de_now env)) (ds_history s),
                             ds_pushes := ds_pushes s @ [None]\<rparr>,
                           RestoredAs generation))"

end
