(* ===== verification/Desk_Props.thy ===== *)
theory Desk_Props
  imports Desk_Apply "HOL-Library.Sublist"
begin

text \<open>
  What a list of desk changes does: the caps, the checks and the uniqueness of the ids survive every upload; a
  refused or idle change writes nothing; a change applied twice is applied once; and a refused change leaves
  the others as they are.
\<close>

section \<open>Slots\<close>

named_theorems slot_simps \<open>what a slot write does to a field\<close>

definition still :: "bool \<times> 'r \<Rightarrow> bool \<times> 'r \<Rightarrow> bool" where
  "still p q \<longleftrightarrow> \<not> fst q \<longrightarrow> q = p"

lemma stillD: "\<lbrakk>still p q; \<not> fst q\<rbrakk> \<Longrightarrow> q = p"
  by (simp add: still_def)

lemma still_refl [intro!]: "still p p"
  by (simp add: still_def)

lemma still_put_slot [intro!]: "still p q \<Longrightarrow> still p (put_slot get write eq v q)"
  by (cases q) (auto simp: still_def put_slot_def)

lemma still_put_given [intro!]: "still p q \<Longrightarrow> still p (put_given get write eq x q)"
  by (cases x) (auto simp: put_given_def)

lemma other_put_slot:
  "(\<And>v r. other (write v r) = other r) \<Longrightarrow> other (snd (put_slot get write eq v p)) = other (snd p)"
  by (simp add: put_slot_def split: prod.splits)

lemma other_put_given:
  "(\<And>v r. other (write v r) = other r) \<Longrightarrow> other (snd (put_given get write eq x p)) = other (snd p)"
  by (cases x) (simp_all add: put_given_def other_put_slot)

lemma put_slot_settles:
  "\<lbrakk>\<And>r. get (write v r) = v; eq v v\<rbrakk> \<Longrightarrow> eq (get (snd (put_slot get write eq v p))) v"
  by (simp add: put_slot_def split: prod.splits)

lemma put_slot_field:
  "(\<And>r. get (write v r) = v) \<Longrightarrow>
   get (snd (put_slot get write eq v p)) = (if eq (get (snd p)) v then get (snd p) else v)"
  by (simp add: put_slot_def split: prod.splits)

lemma put_slot_idle: "eq (get (snd p)) v \<Longrightarrow> put_slot get write eq v p = p"
  by (cases p) (simp add: put_slot_def)

definition given_holds :: "('a \<Rightarrow> 'a \<Rightarrow> bool) \<Rightarrow> 'a option \<Rightarrow> 'a \<Rightarrow> bool" where
  "given_holds eq x a = (case x of None \<Rightarrow> True | Some v \<Rightarrow> eq a v)"

lemma put_given_settles:
  "\<lbrakk>\<And>v r. get (write v r) = v; given_holds (\<lambda>_ v. eq v v) x undefined\<rbrakk>
   \<Longrightarrow> given_holds eq x (get (snd (put_given get write eq x p)))"
  by (cases x) (auto simp: given_holds_def put_given_def intro: put_slot_settles)

lemma put_given_idle: "given_holds eq x (get (snd p)) \<Longrightarrow> put_given get write eq x p = p"
  by (cases x) (simp_all add: given_holds_def put_given_def put_slot_idle)

lemma put_given_field:
  "(\<And>v r. get (write v r) = v) \<Longrightarrow>
   get (snd (put_given get write eq x p)) =
     (case x of None \<Rightarrow> get (snd p) | Some v \<Rightarrow> if eq (get (snd p)) v then get (snd p) else v)"
  by (cases x) (simp_all add: put_given_def put_slot_field)

section \<open>The first record with an id\<close>

lemma update_first_None: "update_found P f rs = None \<longleftrightarrow> \<not> list_ex P rs"
  by (induction rs) (auto split: prod.splits)

lemma update_first_missing: "update_found (\<lambda>w. key w = k) f rs = None \<longleftrightarrow> k \<notin> key ` set rs"
  by (auto simp: update_first_None list_ex_iff)

lemma update_first_at:
  "\<lbrakk>list_all (\<lambda>u. \<not> P u) us; P r\<rbrakk>
   \<Longrightarrow> update_found P f (us @ r # vs) = Some (fst (f r), us @ snd (f r) # vs)"
  by (induction us) (auto simp: prod.case_eq_if)

lemma update_first_split:
  assumes "update_found P f rs = Some (did, rs')"
  obtains us r vs where "rs = us @ r # vs" "P r" "list_all (\<lambda>u. \<not> P u) us"
    "did = fst (f r)" "rs' = us @ snd (f r) # vs"
proof -
  have "list_ex P rs"
    using assms update_first_None[of P f rs] by auto
  then have "\<exists>r\<in>set rs. P r"
    by (simp add: list_ex_iff)
  then obtain us r vs where "rs = us @ r # vs" "P r" "\<forall>u\<in>set us. \<not> P u"
    using split_list_first_prop[of rs P] by auto
  moreover have "list_all (\<lambda>u. \<not> P u) us"
    using calculation(3) by (simp add: list_all_iff)
  ultimately show thesis
    using that assms update_first_at[of P us r f vs] by simp
qed

lemma update_first_keys:
  "\<lbrakk>update_found P f rs = Some (did, rs'); \<And>r. key (snd (f r)) = key r\<rbrakk> \<Longrightarrow> map key rs' = map key rs"
  by (erule update_first_split) simp

lemma update_first_all:
  "\<lbrakk>update_found P f rs = Some (did, rs'); list_all Q rs; \<And>r. Q r \<Longrightarrow> Q (snd (f r))\<rbrakk> \<Longrightarrow> list_all Q rs'"
  by (erule update_first_split) simp

lemma update_first_still:
  "\<lbrakk>update_found P f rs = Some (False, rs'); \<And>r. \<not> fst (f r) \<Longrightarrow> snd (f r) = r\<rbrakk> \<Longrightarrow> rs' = rs"
  by (erule update_first_split) simp

lemma update_first_again:
  "\<lbrakk>update_found P f rs = Some (did, rs'); \<And>r. P (snd (f r)) = P r; \<And>r. g (snd (f r)) = (False, snd (f r))\<rbrakk>
   \<Longrightarrow> update_found P g rs' = Some (False, rs')"
  by (erule update_first_split) (simp add: update_first_at)

lemma update_first_some: "update_found P f rs = Some (did, rs') \<Longrightarrow> list_ex P rs"
  using update_first_None[of P f rs] by auto

section \<open>Merging a record\<close>

lemma still_session [intro!]: "still p q \<Longrightarrow> still p (put_session s d e q)"
  by (auto simp: put_session_def)

lemma still_console_name [intro!]: "still p q \<Longrightarrow> still p (put_console_name n q)"
  by (auto simp: put_console_name_def split: option.split)

lemma still_done_mark [intro!]: "still p q \<Longrightarrow> still p (put_done_mark x q)"
  by (auto simp: put_done_mark_def)

lemmas slot_others [slot_simps] =
  other_put_slot[where other = dw_id] other_put_slot[where other = dw_rect] other_put_slot[where other = dw_max] other_put_slot[where other = dw_locked] other_put_slot[where other = dw_console_name]
  other_put_slot[where other = dw_done_mark] other_put_slot[where other = dw_checkout] other_put_slot[where other = dw_session_id] other_put_slot[where other = dw_daemon_id] other_put_slot[where other = dw_environment]
  other_put_slot[where other = df_id] other_put_slot[where other = df_rect] other_put_slot[where other = df_name] other_put_slot[where other = df_locked]
  other_put_slot[where other = dn_id] other_put_slot[where other = dn_rect] other_put_slot[where other = dn_locked] other_put_slot[where other = dn_repo] other_put_slot[where other = dn_path]
  other_put_slot[where other = dn_checkout]

lemmas given_others [slot_simps] =
  other_put_given[where other = dw_id] other_put_given[where other = dw_rect] other_put_given[where other = dw_max] other_put_given[where other = dw_locked] other_put_given[where other = dw_console_name]
  other_put_given[where other = dw_done_mark] other_put_given[where other = dw_checkout] other_put_given[where other = dw_session_id] other_put_given[where other = dw_daemon_id] other_put_given[where other = dw_environment]
  other_put_given[where other = df_id] other_put_given[where other = df_rect] other_put_given[where other = df_name] other_put_given[where other = df_locked]
  other_put_given[where other = dn_id] other_put_given[where other = dn_rect] other_put_given[where other = dn_locked] other_put_given[where other = dn_repo] other_put_given[where other = dn_path]
  other_put_given[where other = dn_checkout]

lemmas slot_fields [slot_simps] =
  put_slot_field[where get = dw_rect] put_slot_field[where get = dw_max] put_slot_field[where get = dw_locked] put_slot_field[where get = dw_console_name]
  put_slot_field[where get = dw_done_mark] put_slot_field[where get = dw_checkout] put_slot_field[where get = dw_session_id] put_slot_field[where get = dw_daemon_id] put_slot_field[where get = dw_environment]
  put_slot_field[where get = df_rect] put_slot_field[where get = df_name] put_slot_field[where get = df_locked]
  put_slot_field[where get = dn_rect] put_slot_field[where get = dn_locked] put_slot_field[where get = dn_repo] put_slot_field[where get = dn_path]
  put_slot_field[where get = dn_checkout]

lemmas given_fields [slot_simps] =
  put_given_field[where get = dw_rect] put_given_field[where get = dw_max] put_given_field[where get = dw_locked] put_given_field[where get = dw_console_name]
  put_given_field[where get = dw_done_mark] put_given_field[where get = dw_checkout] put_given_field[where get = dw_session_id] put_given_field[where get = dw_daemon_id] put_given_field[where get = dw_environment]
  put_given_field[where get = df_rect] put_given_field[where get = df_name] put_given_field[where get = df_locked]
  put_given_field[where get = dn_rect] put_given_field[where get = dn_locked] put_given_field[where get = dn_repo] put_given_field[where get = dn_path]
  put_given_field[where get = dn_checkout]

lemma session_field [slot_simps]:
  "dw_session_id (snd (put_session s d e p)) = s"
  "dw_daemon_id (snd (put_session s d e p)) = d"
  "dw_environment (snd (put_session s d e p)) = e"
  by (simp_all add: put_session_def slot_simps)

lemma other_put_session:
  "\<lbrakk>\<And>v r. other (dw_session_id_update (\<lambda>_. v) r) = other r; \<And>v r. other (dw_daemon_id_update (\<lambda>_. v) r) = other r;
    \<And>v r. other (dw_environment_update (\<lambda>_. v) r) = other r\<rbrakk>
   \<Longrightarrow> other (snd (put_session s d e p)) = other (snd p)"
  unfolding put_session_def by (subst other_put_slot, assumption)+ (rule refl)

lemma session_idle:
  "\<lbrakk>dw_session_id (snd p) = s; dw_daemon_id (snd p) = d; dw_environment (snd p) = e\<rbrakk> \<Longrightarrow> put_session s d e p = p"
  by (cases p) (simp add: put_session_def put_slot_def)

lemma other_put_console_name:
  "(\<And>v r. other (dw_console_name_update (\<lambda>_. v) r) = other r) \<Longrightarrow> other (snd (put_console_name n p)) = other (snd p)"
  unfolding put_console_name_def by (cases "dw_console_name (cap_console_name (default_record\<lparr>dw_console_name := Some n\<rparr>))")
    (simp, simp only: option.case other_put_slot)

lemma other_put_done_mark:
  "(\<And>v r. other (dw_done_mark_update (\<lambda>_. v) r) = other r) \<Longrightarrow> other (snd (put_done_mark n p)) = other (snd p)"
  unfolding put_done_mark_def by (rule other_put_given)

lemmas session_others [slot_simps] =
  other_put_session[where other = dw_id] other_put_session[where other = dw_rect] other_put_session[where other = dw_max] other_put_session[where other = dw_locked] other_put_session[where other = dw_console_name]
  other_put_session[where other = dw_done_mark] other_put_session[where other = dw_checkout] other_put_session[where other = dw_session_id] other_put_session[where other = dw_daemon_id] other_put_session[where other = dw_environment]

lemmas console_name_others [slot_simps] =
  other_put_console_name[where other = dw_id] other_put_console_name[where other = dw_rect] other_put_console_name[where other = dw_max] other_put_console_name[where other = dw_locked] other_put_console_name[where other = dw_console_name]
  other_put_console_name[where other = dw_done_mark] other_put_console_name[where other = dw_checkout] other_put_console_name[where other = dw_session_id] other_put_console_name[where other = dw_daemon_id] other_put_console_name[where other = dw_environment]

lemmas done_mark_others [slot_simps] =
  other_put_done_mark[where other = dw_id] other_put_done_mark[where other = dw_rect] other_put_done_mark[where other = dw_max] other_put_done_mark[where other = dw_locked] other_put_done_mark[where other = dw_console_name]
  other_put_done_mark[where other = dw_done_mark] other_put_done_mark[where other = dw_checkout] other_put_done_mark[where other = dw_session_id] other_put_done_mark[where other = dw_daemon_id] other_put_done_mark[where other = dw_environment]

lemma merge_window_still: "still (False, w) (merge_window fs w)"
  by (auto simp: merge_window_def Let_def split: option.split)

lemma merge_fence_still: "still (False, f) (merge_fence fs f)"
  by (auto simp: merge_fence_def Let_def)

lemma merge_note_still: "still (False, n) (merge_note fs n)"
  by (auto simp: merge_note_def Let_def split: option.split)

text \<open>A record is settled on a set of fields when each given one is there already.\<close>

definition rect_given_sane :: "desk_rect option \<Rightarrow> bool" where
  "rect_given_sane x = (case x of None \<Rightarrow> True | Some r \<Rightarrow> rect_is_sane r)"

definition capped :: "string \<Rightarrow> string option" where
  "capped name = dw_console_name (cap_console_name (default_record\<lparr>dw_console_name := Some name\<rparr>))"

definition wanted_name :: "string option \<Rightarrow> string option \<Rightarrow> bool" where
  "wanted_name x a = (case x of None \<Rightarrow> True | Some name \<Rightarrow> capped name = None \<or> a = capped name)"

definition settled_window :: "window_fields \<Rightarrow> desk_record \<Rightarrow> bool" where
  "settled_window fs w \<longleftrightarrow>
     given_holds rect_eq (wf_rect fs) (dw_rect w) \<and> given_holds (=) (wf_max fs) (dw_max w) \<and>
     given_holds (=) (wf_locked fs) (dw_locked w) \<and> wanted_name (wf_console_name fs) (dw_console_name w) \<and>
     given_holds (=) (wf_done_mark fs) (dw_done_mark w) \<and> given_holds (=) (wf_checkout fs) (dw_checkout w) \<and>
     (case wf_session fs of None \<Rightarrow> True
      | Some s \<Rightarrow> dw_session_id w = sf_session_id s \<and> dw_daemon_id w = sf_daemon_id s \<and> dw_environment w = sf_environment s)"

definition settled_fence :: "fence_fields \<Rightarrow> desk_fence \<Rightarrow> bool" where
  "settled_fence fs f \<longleftrightarrow>
     given_holds rect_eq (ff_rect fs) (df_rect f) \<and> given_holds (=) (ff_name fs) (df_name f) \<and>
     given_holds (=) (ff_locked fs) (df_locked f)"

definition settled_note :: "note_fields \<Rightarrow> desk_note \<Rightarrow> bool" where
  "settled_note fs n \<longleftrightarrow>
     given_holds rect_eq (nf_rect fs) (dn_rect n) \<and> given_holds (=) (nf_locked fs) (dn_locked n) \<and>
     (case nf_file fs of None \<Rightarrow> True
      | Some f \<Rightarrow> dn_repo n = fl_repo f \<and> dn_path n = fl_path f \<and> dn_checkout n = fl_checkout f)"

lemma console_name_idle: "wanted_name (Some name) (dw_console_name (snd p)) \<Longrightarrow> put_console_name name p = p"
  by (cases "capped name") (auto simp: put_console_name_def wanted_name_def capped_def intro: put_slot_idle)

lemma console_name_field [slot_simps]:
  "dw_console_name (snd (put_console_name name p)) =
     (case capped name of None \<Rightarrow> dw_console_name (snd p) | Some n \<Rightarrow> Some n)"
  by (simp add: put_console_name_def capped_def slot_simps split: option.split)

lemma done_mark_field [slot_simps]:
  "dw_done_mark (snd (put_done_mark x p)) = (case x of None \<Rightarrow> dw_done_mark (snd p) | Some v \<Rightarrow> v)"
  by (cases x) (auto simp: put_done_mark_def slot_simps)

lemma settled_idle_window: "settled_window fs w \<Longrightarrow> merge_window fs w = (False, w)"
  by (cases "wf_console_name fs"; cases "wf_session fs")
    (simp_all add: settled_window_def merge_window_def Let_def put_given_idle put_done_mark_def
      console_name_idle session_idle)

lemma settled_idle_fence: "settled_fence fs f \<Longrightarrow> merge_fence fs f = (False, f)"
  by (simp add: settled_fence_def merge_fence_def Let_def put_given_idle)

lemma settled_idle_note: "settled_note fs n \<Longrightarrow> merge_note fs n = (False, n)"
  by (cases "nf_file fs") (simp_all add: settled_note_def merge_note_def Let_def put_given_idle put_slot_idle)

lemma given_holds_put:
  "given_holds (=) x (case x of None \<Rightarrow> a | Some v \<Rightarrow> if a = v then a else v)"
  "given_holds (=) x (case x of None \<Rightarrow> a | Some v \<Rightarrow> v)"
  by (simp_all add: given_holds_def split: option.split)

lemma given_rect_put:
  "rect_given_sane y \<Longrightarrow> given_holds rect_eq y (case y of None \<Rightarrow> r | Some v \<Rightarrow> if rect_eq r v then r else v)"
  by (simp add: given_holds_def rect_given_sane_def sane_rect_eq split: option.splits)

lemma merge_window_settles: "rect_given_sane (wf_rect fs) \<Longrightarrow> settled_window fs (snd (merge_window fs w))"
  unfolding settled_window_def merge_window_def Let_def
  by (cases "wf_session fs"; cases "wf_console_name fs")
    (simp_all add: slot_simps given_holds_put given_rect_put, auto simp: wanted_name_def split: option.split)

lemma merge_fence_settles: "rect_given_sane (ff_rect fs) \<Longrightarrow> settled_fence fs (snd (merge_fence fs f))"
  by (simp add: settled_fence_def merge_fence_def Let_def slot_simps given_holds_put given_rect_put)

lemma merge_note_settles: "rect_given_sane (nf_rect fs) \<Longrightarrow> settled_note fs (snd (merge_note fs n))"
  by (cases "nf_file fs") (simp_all add: settled_note_def merge_note_def Let_def slot_simps given_holds_put given_rect_put)

lemma merge_ids [simp]:
  "dw_id (snd (merge_window fs w)) = dw_id w"
  "df_id (snd (merge_fence gs f)) = df_id f"
  "dn_id (snd (merge_note hs n)) = dn_id n"
  by (simp_all add: merge_window_def merge_fence_def merge_note_def Let_def slot_simps split: option.split)

lemma merge_window_ok:
  assumes "window_ok w" "rect_given_sane (wf_rect fs)"
    and "case wf_checkout fs of Some x \<Rightarrow> checkout_ok x | None \<Rightarrow> True"
  shows "window_ok (snd (merge_window fs w))"
proof -
  have "name_ok (capped n)" for n
    by (simp add: capped_def cap_console_name_ok)
  then have "capped n = Some m \<Longrightarrow> name_ok (Some m)" for n m
    by metis
  then show ?thesis
    using assms unfolding window_ok_def merge_window_def Let_def rect_given_sane_def
    by (auto simp: slot_simps split: option.splits)
qed

lemma merge_fence_ok: "\<lbrakk>fence_ok f; rect_given_sane (ff_rect fs)\<rbrakk> \<Longrightarrow> fence_ok (snd (merge_fence fs f))"
  unfolding fence_ok_def merge_fence_def Let_def rect_given_sane_def by (simp add: slot_simps split: option.splits)

lemma merge_note_ok:
  "\<lbrakk>note_ok n; rect_given_sane (nf_rect fs); case nf_file fs of Some f \<Rightarrow> checkout_ok (fl_checkout f) | None \<Rightarrow> True\<rbrakk>
   \<Longrightarrow> note_ok (snd (merge_note fs n))"
  unfolding note_ok_def merge_note_def Let_def rect_given_sane_def by (auto simp: slot_simps split: option.splits)

section \<open>One change\<close>

definition desk_ok :: "desk_store \<Rightarrow> bool" where
  "desk_ok d \<longleftrightarrow>
     list_all window_ok (dk_windows d) \<and> distinct (map dw_id (dk_windows d)) \<and>
     length (dk_windows d) \<le> DESK_MAX + DESK_CREATE_SLACK \<and>
     list_all fence_ok (dk_fences d) \<and> distinct (map df_id (dk_fences d)) \<and> length (dk_fences d) \<le> FENCE_MAX \<and>
     list_all note_ok (dk_notes d) \<and> distinct (map dn_id (dk_notes d)) \<and> length (dk_notes d) \<le> NOTE_MAX \<and>
     list_all (\<lambda>(repo, name). checkout_lexical name) (dk_checkouts d)"

lemma empty_desk_ok: "desk_ok empty_desk"
  by (simp add: desk_ok_def empty_desk_def)

lemma sane_split [simp]:
  "(sane what rid r = Inr u) = rect_is_sane r"
  "(sane what rid r = Inl e) = (\<not> rect_is_sane r \<and> e = what @ '' '' @ rid @ '' has an out-of-frame rect'')"
  by (auto simp: sane_def)

lemma checkout_name_split [simp]: "(checkout_name rid x = Inr u) = checkout_ok x"
  by (auto simp: checkout_name_def checkout_ok_def split: option.splits)

lemma checkout_name_ok [simp]: "checkout_ok x \<Longrightarrow> checkout_name rid x = Inr ()"
  by (auto simp: checkout_name_def checkout_ok_def split: option.splits)

lemma sane_ok [simp]: "rect_is_sane r \<Longrightarrow> sane what rid r = Inr ()"
  by (simp add: sane_def)

lemma stamped_simps [simp]:
  "fst (stamped write now p) = fst p"
  "snd (stamped write now p) = (if fst p then write now (snd p) else snd p)"
  by (simp_all add: stamped_def prod.case_eq_if)

lemma settled_stamp [simp]:
  "settled_window fs (w\<lparr>dw_ts := t\<rparr>) = settled_window fs w"
  "settled_fence gs (f\<lparr>df_ts := t\<rparr>) = settled_fence gs f"
  "settled_note hs (n\<lparr>dn_ts := t\<rparr>) = settled_note hs n"
  "window_ok (w\<lparr>dw_ts := t\<rparr>) = window_ok w"
  "fence_ok (f\<lparr>df_ts := t\<rparr>) = fence_ok f"
  "note_ok (n\<lparr>dn_ts := t\<rparr>) = note_ok n"
  by (simp_all add: settled_window_def settled_fence_def settled_note_def window_ok_def fence_ok_def note_ok_def
      split: option.split)

lemma stamped_idle: "p = (False, r) \<Longrightarrow> stamped write now p = (False, r)"
  by (simp add: stamped_def)

lemma stamped_still: "\<lbrakk>still (False, r) p; \<not> fst (stamped write now p)\<rbrakk> \<Longrightarrow> snd (stamped write now p) = r"
  by (cases p) (auto simp: still_def)

lemma filter_same: "length (filter P xs) = length xs \<Longrightarrow> filter P xs = xs"
  by (metis filter_True length_filter_less linorder_neq_iff)

lemma map_of_tree_remove: "map_of (tree_remove k m) l = (if l = k then None else map_of m l)"
  by (induction m) (auto simp: tree_remove_def)

text \<open>The three ends of a change over the records with an id: it writes nothing when it says so, the same
  change again says so, and a rule of the records holds through it.\<close>

lemma touch_still:
  "\<lbrakk>update_found P (\<lambda>r. stamped wts now (merge r)) rs = Some (did, rs'); \<And>r. still (False, r) (merge r)\<rbrakk>
   \<Longrightarrow> did \<or> rs' = rs"
  by (cases did) (auto intro: update_first_still stamped_still)

lemma touch_again:
  "\<lbrakk>update_found P (\<lambda>r. stamped wts now (merge r)) rs = Some (did, rs');
    \<And>r. P (snd (stamped wts now (merge r))) = P r;
    \<And>r. merge (snd (stamped wts now (merge r))) = (False, snd (stamped wts now (merge r)))\<rbrakk>
   \<Longrightarrow> update_found P (\<lambda>r. stamped wts later (merge r)) rs' = Some (False, rs')"
  by (erule update_first_again) (auto intro: stamped_idle)

lemma session_still: "still (False, w) (put_session s d e (False, w))"
  by (intro still_session still_refl)

lemma session_settled:
  "put_session s d e (False, snd (stamped (\<lambda>t. dw_ts_update (\<lambda>_. t)) now (put_session s d e (False, w)))) =
     (False, snd (stamped (\<lambda>t. dw_ts_update (\<lambda>_. t)) now (put_session s d e (False, w))))"
  by (rule session_idle) (simp_all add: slot_simps)

lemmas outcome_splits = sum.splits option.splits prod.splits if_splits

lemma idle_create_window: "\<lbrakk>create_window desk r now = (d, res); res \<noteq> Inr True\<rbrakk> \<Longrightarrow> d = desk"
  by (auto simp: create_window_def split: outcome_splits dest: touch_still[OF _ session_still])

lemma idle_set_window: "\<lbrakk>set_window desk rid fs now = (d, res); res \<noteq> Inr True\<rbrakk> \<Longrightarrow> d = desk"
  unfolding set_window_def
  by (auto split: outcome_splits dest: touch_still[OF _ merge_window_still])

lemma idle_set_fence: "\<lbrakk>set_fence desk rid fs now = (d, res); res \<noteq> Inr True\<rbrakk> \<Longrightarrow> d = desk"
  unfolding set_fence_def
  by (auto split: outcome_splits dest: touch_still[OF _ merge_fence_still])

lemma idle_set_note: "\<lbrakk>set_note desk rid fs now = (d, res); res \<noteq> Inr True\<rbrakk> \<Longrightarrow> d = desk"
  unfolding set_note_def
  by (auto split: outcome_splits dest: touch_still[OF _ merge_note_still])

lemma idle_remove: "\<lbrakk>remove_record desk kind rid = (d, res); res \<noteq> Inr True\<rbrakk> \<Longrightarrow> d = desk"
  by (cases kind) (auto simp: remove_record_def Let_def dest!: filter_same)

lemma idle_change: "\<lbrakk>apply_one desk c now = (d, res); res \<noteq> Inr True\<rbrakk> \<Longrightarrow> d = desk"
  by (cases c)
    (auto simp: create_fence_def create_note_def select_checkout_def checkout_clear_def split: outcome_splits
      dest: idle_create_window idle_set_window idle_set_fence idle_set_note idle_remove)

lemma cap_console_name_keeps [simp]:
  "dw_id (cap_console_name r) = dw_id r" "dw_session_id (cap_console_name r) = dw_session_id r"
  "dw_daemon_id (cap_console_name r) = dw_daemon_id r" "dw_environment (cap_console_name r) = dw_environment r"
  "dw_rect (cap_console_name r) = dw_rect r" "dw_checkout (cap_console_name r) = dw_checkout r"
  by (simp_all add: cap_console_name_def Let_def split: option.split)

lemma again_create_window:
  assumes "create_window desk r now = (d, Inr did)"
  shows "create_window d r later = (d, Inr False)"
proof -
  let ?P = "\<lambda>w. dw_id w = dw_id r"
  let ?f = "\<lambda>t w. stamped (\<lambda>t. dw_ts_update (\<lambda>_. t)) t
      (put_session (dw_session_id r) (dw_daemon_id r) (dw_environment r) (False, w))"
  have ok: "rect_is_sane (dw_rect r)" "checkout_ok (dw_checkout r)"
    using assms by (auto simp: create_window_def split: outcome_splits)
  then have step: "create_window x r t =
      (case update_found ?P (?f t) (dk_windows x) of
         Some (did, ws) \<Rightarrow> (x\<lparr>dk_windows := ws\<rparr>, Inr did)
       | None \<Rightarrow>
           if length (dk_windows x) \<ge> DESK_MAX + DESK_CREATE_SLACK
           then (x, Inl (''the desk already holds '' @ show_nat (length (dk_windows x)) @ '' consoles''))
           else (x\<lparr>dk_windows := dk_windows x @ [(cap_console_name r)\<lparr>dw_ts := t\<rparr>]\<rparr>, Inr True))" for x t
    by (simp add: create_window_def)
  have "update_found ?P (?f later) (dk_windows d) = Some (False, dk_windows d)"
  proof (cases "update_found ?P (?f now) (dk_windows desk)")
    case None
    then have "d = desk\<lparr>dk_windows := dk_windows desk @ [(cap_console_name r)\<lparr>dw_ts := now\<rparr>]\<rparr>"
      "list_all (\<lambda>w. \<not> ?P w) (dk_windows desk)"
      using assms step update_first_None[of ?P "?f now" "dk_windows desk"]
      by (auto simp: list_ex_iff list_all_iff split: if_splits)
    then show ?thesis
      by (simp add: update_first_at session_idle stamped_def)
  next
    case (Some p)
    then have "update_found ?P (?f now) (dk_windows desk) = Some (did, dk_windows d)"
      using assms step by (auto split: prod.splits)
    then show ?thesis
      by (rule touch_again[where merge =
        "\<lambda>w. put_session (dw_session_id r) (dw_daemon_id r) (dw_environment r) (False, w)"])
        (simp add: slot_simps, rule session_settled)
  qed
  then show ?thesis
    using step[of d later] by simp
qed

lemma again_set_window:
  assumes "set_window desk rid fs now = (d, Inr did)"
  shows "set_window d rid fs later = (d, Inr False)"
proof -
  have sane: "rect_given_sane (wf_rect fs)"
    using assms by (auto simp: set_window_def rect_given_sane_def split: outcome_splits)
  have "update_found (\<lambda>w. dw_id w = rid)
      (\<lambda>w. stamped (\<lambda>t. dw_ts_update (\<lambda>_. t)) now (merge_window fs w)) (dk_windows desk) = None \<and> d = desk \<or>
    update_found (\<lambda>w. dw_id w = rid)
      (\<lambda>w. stamped (\<lambda>t. dw_ts_update (\<lambda>_. t)) now (merge_window fs w)) (dk_windows desk) = Some (did, dk_windows d)"
    using assms by (auto simp: set_window_def split: outcome_splits)
  then have "update_found (\<lambda>w. dw_id w = rid)
      (\<lambda>w. stamped (\<lambda>t. dw_ts_update (\<lambda>_. t)) later (merge_window fs w)) (dk_windows d) \<in> {None, Some (False, dk_windows d)}"
    using touch_again[where merge = "merge_window fs" and P = "\<lambda>w. dw_id w = rid"] sane
    by (auto simp: update_first_None settled_idle_window merge_window_settles)
  then show ?thesis
    using assms by (auto simp: set_window_def split: outcome_splits)
qed

lemma again_set_fence:
  assumes "set_fence desk rid fs now = (d, Inr did)"
  shows "set_fence d rid fs later = (d, Inr False)"
proof -
  have sane: "rect_given_sane (ff_rect fs)"
    using assms by (auto simp: set_fence_def rect_given_sane_def split: outcome_splits)
  have "update_found (\<lambda>f. df_id f = rid)
      (\<lambda>f. stamped (\<lambda>t. df_ts_update (\<lambda>_. t)) now (merge_fence fs f)) (dk_fences desk) = None \<and> d = desk \<or>
    update_found (\<lambda>f. df_id f = rid)
      (\<lambda>f. stamped (\<lambda>t. df_ts_update (\<lambda>_. t)) now (merge_fence fs f)) (dk_fences desk) = Some (did, dk_fences d)"
    using assms by (auto simp: set_fence_def split: outcome_splits)
  then have "update_found (\<lambda>f. df_id f = rid)
      (\<lambda>f. stamped (\<lambda>t. df_ts_update (\<lambda>_. t)) later (merge_fence fs f)) (dk_fences d) \<in> {None, Some (False, dk_fences d)}"
    using touch_again[where merge = "merge_fence fs" and P = "\<lambda>f. df_id f = rid"] sane
    by (auto simp: update_first_None settled_idle_fence merge_fence_settles)
  then show ?thesis
    using assms by (auto simp: set_fence_def split: outcome_splits)
qed

lemma again_set_note:
  assumes "set_note desk rid fs now = (d, Inr did)"
  shows "set_note d rid fs later = (d, Inr False)"
proof -
  have sane: "rect_given_sane (nf_rect fs)"
    using assms by (auto simp: set_note_def rect_given_sane_def split: outcome_splits)
  have "update_found (\<lambda>n. dn_id n = rid)
      (\<lambda>n. stamped (\<lambda>t. dn_ts_update (\<lambda>_. t)) now (merge_note fs n)) (dk_notes desk) = None \<and> d = desk \<or>
    update_found (\<lambda>n. dn_id n = rid)
      (\<lambda>n. stamped (\<lambda>t. dn_ts_update (\<lambda>_. t)) now (merge_note fs n)) (dk_notes desk) = Some (did, dk_notes d)"
    using assms by (auto simp: set_note_def split: outcome_splits)
  then have "update_found (\<lambda>n. dn_id n = rid)
      (\<lambda>n. stamped (\<lambda>t. dn_ts_update (\<lambda>_. t)) later (merge_note fs n)) (dk_notes d) \<in> {None, Some (False, dk_notes d)}"
    using touch_again[where merge = "merge_note fs" and P = "\<lambda>n. dn_id n = rid"] sane
    by (auto simp: update_first_None settled_idle_note merge_note_settles)
  then show ?thesis
    using assms by (auto simp: set_note_def split: outcome_splits)
qed

lemma again_change:
  assumes "apply_one desk c now = (d, Inr did)"
  shows "apply_one d c later = (d, Inr False)"
proof (cases c)
  case (CreateFence f)
  with assms show ?thesis
    by (auto simp: create_fence_def split: outcome_splits)
next
  case (CreateNote n)
  with assms show ?thesis
    by (auto simp: create_note_def split: outcome_splits)
next
  case (Remove kind rid)
  with assms show ?thesis
    by (cases kind) (auto simp: remove_record_def Let_def)
next
  case (Checkout repo name)
  with assms show ?thesis
    by (auto simp: select_checkout_def split: outcome_splits)
next
  case (CheckoutClear repo name)
  with assms show ?thesis
    by (auto simp: checkout_clear_def map_of_tree_remove split: outcome_splits)
qed (use assms in \<open>auto intro: again_create_window again_set_window again_set_fence again_set_note\<close>)

section \<open>The invariant\<close>

lemma ok_windows:
  "\<lbrakk>desk_ok desk; list_all window_ok ws; distinct (map dw_id ws); length ws \<le> DESK_MAX + DESK_CREATE_SLACK\<rbrakk>
   \<Longrightarrow> desk_ok (desk\<lparr>dk_windows := ws\<rparr>)"
  by (simp add: desk_ok_def)

lemma ok_fences:
  "\<lbrakk>desk_ok desk; list_all fence_ok fs; distinct (map df_id fs); length fs \<le> FENCE_MAX\<rbrakk> \<Longrightarrow> desk_ok (desk\<lparr>dk_fences := fs\<rparr>)"
  by (simp add: desk_ok_def)

lemma ok_notes:
  "\<lbrakk>desk_ok desk; list_all note_ok ns; distinct (map dn_id ns); length ns \<le> NOTE_MAX\<rbrakk> \<Longrightarrow> desk_ok (desk\<lparr>dk_notes := ns\<rparr>)"
  by (simp add: desk_ok_def)

lemma touch_ok:
  assumes "update_found P (\<lambda>r. stamped wts now (merge r)) rs = Some (did, rs')" "list_all Q rs"
    and "\<And>r. Q r \<Longrightarrow> Q (snd (merge r))" "\<And>r. Q (wts now r) = Q r"
    and "\<And>r. key (snd (merge r)) = key r" "\<And>r. key (wts now r) = key r"
  shows "list_all Q rs'" "map key rs' = map key rs" "length rs' = length rs"
proof -
  show "list_all Q rs'"
    using assms by (auto elim!: update_first_all)
  show "map key rs' = map key rs"
    by (rule update_first_keys[OF assms(1)]) (simp add: assms(5,6))
  then show "length rs' = length rs"
    by (rule map_eq_imp_length_eq)
qed

lemma ok_create_window:
  assumes "desk_ok desk" "create_window desk r now = (d, res)"
  shows "desk_ok d"
proof (cases "res = Inr True")
  case False
  then show ?thesis
    using assms idle_create_window by blast
next
  case True
  have ok: "rect_is_sane (dw_rect r)" "checkout_ok (dw_checkout r)"
    using assms(2) True by (auto simp: create_window_def split: outcome_splits)
  let ?u = "update_found (\<lambda>w. dw_id w = dw_id r)
    (\<lambda>w. stamped (\<lambda>t. dw_ts_update (\<lambda>_. t)) now
      (put_session (dw_session_id r) (dw_daemon_id r) (dw_environment r) (False, w))) (dk_windows desk)"
  show ?thesis
  proof (cases ?u)
    case None
    then have "d = desk\<lparr>dk_windows := dk_windows desk @ [(cap_console_name r)\<lparr>dw_ts := now\<rparr>]\<rparr>"
      "length (dk_windows desk) < DESK_MAX + DESK_CREATE_SLACK" "dw_id r \<notin> dw_id ` set (dk_windows desk)"
      using assms(2) ok True update_first_missing[of dw_id "dw_id r"]
      by (auto simp: create_window_def split: if_splits)
    moreover have "window_ok (cap_console_name r)"
      using ok by (simp add: window_ok_def cap_console_name_ok)
    ultimately show ?thesis
      using assms(1) by (auto simp: desk_ok_def)
  next
    case (Some p)
    then obtain did ws where u: "?u = Some (did, ws)"
      by (cases p) auto
    have "list_all window_ok (dk_windows desk)"
      using assms(1) by (simp add: desk_ok_def)
    note kept = touch_ok[OF u this, where key = dw_id]
    have "list_all window_ok ws" "map dw_id ws = map dw_id (dk_windows desk)" "length ws = length (dk_windows desk)"
      by (rule kept; simp add: window_ok_def slot_simps)+
    then show ?thesis
      using assms ok u by (auto simp: create_window_def desk_ok_def)
  qed
qed

lemma ok_set_window:
  assumes "desk_ok desk" "set_window desk rid fs now = (d, res)"
  shows "desk_ok d"
proof (cases "res = Inr True")
  case False
  then show ?thesis
    using assms idle_set_window by blast
next
  case True
  then obtain did ws where u: "update_found (\<lambda>w. dw_id w = rid)
      (\<lambda>w. stamped (\<lambda>t. dw_ts_update (\<lambda>_. t)) now (merge_window fs w)) (dk_windows desk) = Some (did, ws)"
    and d: "d = desk\<lparr>dk_windows := ws\<rparr>" and sane: "rect_given_sane (wf_rect fs)"
    and names: "case wf_checkout fs of Some x \<Rightarrow> checkout_ok x | None \<Rightarrow> True"
    using assms(2) by (auto simp: set_window_def rect_given_sane_def checkout_ok_def split: outcome_splits)
  have "list_all window_ok (dk_windows desk)"
    using assms(1) by (simp add: desk_ok_def)
  note kept = touch_ok[OF u this, where key = dw_id]
  have "list_all window_ok ws" "map dw_id ws = map dw_id (dk_windows desk)" "length ws = length (dk_windows desk)"
    by (rule kept; simp add: merge_window_ok sane names)+
  then show ?thesis
    using assms(1) d by (simp add: desk_ok_def)
qed

lemma ok_set_fence:
  assumes "desk_ok desk" "set_fence desk rid fs now = (d, res)"
  shows "desk_ok d"
proof (cases "res = Inr True")
  case False
  then show ?thesis
    using assms idle_set_fence by blast
next
  case True
  then obtain did ws where u: "update_found (\<lambda>f. df_id f = rid)
      (\<lambda>f. stamped (\<lambda>t. df_ts_update (\<lambda>_. t)) now (merge_fence fs f)) (dk_fences desk) = Some (did, ws)"
    and d: "d = desk\<lparr>dk_fences := ws\<rparr>" and sane: "rect_given_sane (ff_rect fs)"
    using assms(2) by (auto simp: set_fence_def rect_given_sane_def split: outcome_splits)
  have "list_all fence_ok (dk_fences desk)"
    using assms(1) by (simp add: desk_ok_def)
  note kept = touch_ok[OF u this, where key = df_id]
  have "list_all fence_ok ws" "map df_id ws = map df_id (dk_fences desk)" "length ws = length (dk_fences desk)"
    by (rule kept; simp add: merge_fence_ok sane)+
  then show ?thesis
    using assms(1) d by (simp add: desk_ok_def)
qed

lemma ok_set_note:
  assumes "desk_ok desk" "set_note desk rid fs now = (d, res)"
  shows "desk_ok d"
proof (cases "res = Inr True")
  case False
  then show ?thesis
    using assms idle_set_note by blast
next
  case True
  then obtain did ws where u: "update_found (\<lambda>n. dn_id n = rid)
      (\<lambda>n. stamped (\<lambda>t. dn_ts_update (\<lambda>_. t)) now (merge_note fs n)) (dk_notes desk) = Some (did, ws)"
    and d: "d = desk\<lparr>dk_notes := ws\<rparr>" and sane: "rect_given_sane (nf_rect fs)"
    and names: "case nf_file fs of Some x \<Rightarrow> checkout_ok (fl_checkout x) | None \<Rightarrow> True"
    using assms(2) by (auto simp: set_note_def rect_given_sane_def split: outcome_splits)
  have "list_all note_ok (dk_notes desk)"
    using assms(1) by (simp add: desk_ok_def)
  note kept = touch_ok[OF u this, where key = dn_id]
  have "list_all note_ok ws" "map dn_id ws = map dn_id (dk_notes desk)" "length ws = length (dk_notes desk)"
    by (rule kept; simp add: merge_note_ok sane names)+
  then show ?thesis
    using assms(1) d by (simp add: desk_ok_def)
qed

lemma list_ex_key: "list_ex (\<lambda>x. key x = k) xs \<longleftrightarrow> k \<in> key ` set xs"
  by (auto simp: list_ex_iff)

lemma list_all_filter: "list_all Q xs \<Longrightarrow> list_all Q (filter P xs)"
  by (simp add: list_all_iff)

lemma length_filter_bound: "length xs \<le> n \<Longrightarrow> length (filter P xs) \<le> n"
  using length_filter_le le_trans by blast

lemma ok_remove: "\<lbrakk>desk_ok desk; remove_record desk kind rid = (d, res)\<rbrakk> \<Longrightarrow> desk_ok d"
  by (cases kind)
    (auto simp: remove_record_def Let_def desk_ok_def list_all_filter length_filter_bound distinct_map_filter)

lemma checkouts_insert:
  "\<lbrakk>list_all (\<lambda>(repo, name). checkout_lexical name) m; checkout_lexical name\<rbrakk>
   \<Longrightarrow> list_all (\<lambda>(repo, name). checkout_lexical name) (tree_insert repo name m)"
  by (auto simp: list_all_iff dest!: tree_insert_values)

lemma ok_change:
  assumes "desk_ok desk" "apply_one desk c now = (d, res)"
  shows "desk_ok d"
proof (cases c)
  case (CreateFence f)
  with assms show ?thesis
    by (auto simp: create_fence_def desk_ok_def list_ex_key fence_ok_def split: outcome_splits)
next
  case (CreateNote n)
  with assms show ?thesis
    by (auto simp: create_note_def desk_ok_def list_ex_key note_ok_def split: outcome_splits)
next
  case (Checkout repo name)
  with assms show ?thesis
    by (auto simp: select_checkout_def desk_ok_def checkouts_insert split: outcome_splits)
next
  case (CheckoutClear repo name)
  with assms show ?thesis
    by (auto simp: checkout_clear_def desk_ok_def tree_remove_def list_all_filter split: outcome_splits)
qed (use assms in \<open>auto intro: ok_create_window ok_set_window ok_set_fence ok_set_note ok_remove\<close>)

section \<open>A list of changes\<close>

text \<open>The run of a list, seen as one result per change.\<close>

definition result_of :: "'v change_reader \<Rightarrow> aliases \<Rightarrow> int \<Rightarrow> 'v \<Rightarrow> desk_store \<Rightarrow> desk_outcome" where
  "result_of shapes al now v d =
     (case parse_change shapes v of Inl e \<Rightarrow> (d, Inl e) | Inr c \<Rightarrow> apply_one d (rekey al c) now)"

fun refusals :: "'v change_reader \<Rightarrow> aliases \<Rightarrow> int \<Rightarrow> (nat \<times> 'v) list \<Rightarrow> desk_store \<Rightarrow> (nat \<times> string) list" where
  "refusals shapes al now [] d = []"
| "refusals shapes al now ((i, v) # xs) d =
     (case snd (result_of shapes al now v d) of
        Inl e \<Rightarrow> (i, e) # refusals shapes al now xs (fst (result_of shapes al now v d))
      | Inr did \<Rightarrow> refusals shapes al now xs (fst (result_of shapes al now v d)))"

lemma result_idle: "snd (result_of shapes al now v d) \<noteq> Inr True \<Longrightarrow> fst (result_of shapes al now v d) = d"
  by (cases "parse_change shapes v")
    (auto simp: result_of_def intro: idle_change prod.collapse[symmetric])

lemma upload_result_ok: "desk_ok d \<Longrightarrow> desk_ok (fst (result_of shapes al now v d))"
  by (cases "parse_change shapes v") (auto simp: result_of_def intro: ok_change prod.collapse[symmetric])

lemma raw_result:
  "apply_raw shapes al now (i, v) a =
     (case result_of shapes al now v (ap_desk a) of
        (d, Inl e) \<Rightarrow> a\<lparr>ap_desk := d, ap_refused := ap_refused a @ [(i, e)]\<rparr>
      | (d, Inr did) \<Rightarrow> a\<lparr>ap_desk := d, ap_changed := ap_changed a \<or> did\<rparr>)"
  by (cases "parse_change shapes v") (simp_all add: apply_raw_def result_of_def split: prod.split sum.split)

lemma raw_desk [simp]: "ap_desk (apply_raw shapes al now (i, v) a) = fst (result_of shapes al now v (ap_desk a))"
  by (simp add: raw_result split: prod.split sum.split)

lemma run_desk:
  "ap_desk (fold (apply_raw shapes al now) xs a) =
     fold (\<lambda>v d. fst (result_of shapes al now v d)) (map snd xs) (ap_desk a)"
  by (induction xs arbitrary: a) auto

lemma run_refused:
  "ap_refused (fold (apply_raw shapes al now) xs a) = ap_refused a @ refusals shapes al now xs (ap_desk a)"
  by (induction xs arbitrary: a) (auto simp: raw_result split: prod.split sum.split)

lemma run_unchanged:
  "\<not> ap_changed (fold (apply_raw shapes al now) xs a) \<Longrightarrow>
   \<not> ap_changed a \<and> ap_desk (fold (apply_raw shapes al now) xs a) = ap_desk a"
proof (induction xs arbitrary: a)
  case (Cons x xs)
  obtain i v where x: "x = (i, v)"
    by (cases x)
  let ?b = "apply_raw shapes al now (i, v) a"
  have "\<not> ap_changed ?b \<and> ap_desk (fold (apply_raw shapes al now) xs ?b) = ap_desk ?b"
    using Cons.prems x by (intro Cons.IH) simp
  moreover from this have "\<not> ap_changed a \<and> snd (result_of shapes al now v (ap_desk a)) \<noteq> Inr True"
    by (auto simp: raw_result split: prod.splits sum.splits)
  ultimately show ?case
    using x by (simp add: result_idle)
qed simp

lemma upload_run_ok: "desk_ok d \<Longrightarrow> desk_ok (fold (\<lambda>v d. fst (result_of shapes al now v d)) vs d)"
  by (induction vs arbitrary: d) (simp_all add: upload_result_ok)

lemma refusals_indices: "subseq (map fst (refusals shapes al now xs d)) (map fst xs)"
  by (induction shapes al now xs d rule: refusals.induct) (auto split: sum.split)

lemma refusals_subset: "fst ` set (refusals shapes al now xs d) \<subseteq> fst ` set xs"
  using refusals_indices[of shapes al now xs d] by (metis list.set_map subseq_order.order_refl set_nths_subset subseq_conv_nths)

text \<open>The changes of a list that its run does not refuse.\<close>

definition accepted :: "'v change_reader \<Rightarrow> aliases \<Rightarrow> int \<Rightarrow> (nat \<times> 'v) list \<Rightarrow> desk_store \<Rightarrow> (nat \<times> 'v) list" where
  "accepted shapes al now xs d = filter (\<lambda>(i, v). i \<notin> fst ` set (refusals shapes al now xs d)) xs"

lemma accepted_cut:
  assumes "i \<notin> fst ` set xs"
  shows "accepted shapes al now ((i, v) # xs) d =
      (case result_of shapes al now v d of
         (d', Inl e) \<Rightarrow> accepted shapes al now xs d' | (d', Inr did) \<Rightarrow> (i, v) # accepted shapes al now xs d')"
proof -
  have "i \<notin> fst ` set (refusals shapes al now xs d')" for d'
    using assms refusals_subset by blast
  then show ?thesis
    using assms by (auto simp: accepted_def image_iff split: sum.split prod.split intro!: filter_cong)
qed

lemma accepted_run:
  assumes "distinct (map fst xs)"
  shows "fold (\<lambda>v d. fst (result_of shapes al now v d)) (map snd (accepted shapes al now xs d)) d =
           fold (\<lambda>v d. fst (result_of shapes al now v d)) (map snd xs) d \<and>
         (map snd ys = map snd (accepted shapes al now xs d) \<longrightarrow> refusals shapes al now ys d = [])"
  using assms
proof (induction xs arbitrary: d ys)
  case Nil
  then show ?case by (simp add: accepted_def)
next
  case (Cons x xs)
  obtain i v where x: "x = (i, v)"
    by (cases x)
  then have fresh: "i \<notin> fst ` set xs" "distinct (map fst xs)"
    using Cons.prems by auto
  show ?case
  proof (cases "snd (result_of shapes al now v d)")
    case (Inl e)
    then have "result_of shapes al now v d = (d, Inl e)"
      using result_idle[of shapes al now v d] by (simp add: prod_eq_iff)
    then show ?thesis
      using Cons.IH[OF fresh(2), of d ys] x by (simp add: accepted_cut[OF fresh(1)])
  next
    case (Inr did)
    then obtain d' where r: "result_of shapes al now v d = (d', Inr did)"
      by (metis prod.collapse)
    have "refusals shapes al now ys d = []"
      if same: "map snd ys = v # map snd (accepted shapes al now xs d')"
    proof -
      obtain j zs where "ys = (j, v) # zs" "map snd zs = map snd (accepted shapes al now xs d')"
        using same by (cases ys) auto
      then show ?thesis
        using Cons.IH[OF fresh(2), of d' zs] r by simp
    qed
    then show ?thesis
      using Cons.IH[OF fresh(2), of d' ys] x r by (simp add: accepted_cut[OF fresh(1)])
  qed
qed

section \<open>Uploads\<close>

text \<open>The reader of changes that are already parsed: a value is a change.\<close>

definition typed_reader :: "change change_reader" where
  "typed_reader =
     \<lparr>cr_op = \<lambda>c. case c of
        CreateWindow r \<Rightarrow> Some ''create'' | CreateFence f \<Rightarrow> Some ''create'' | CreateNote n \<Rightarrow> Some ''create''
      | SetWindow i fs \<Rightarrow> Some ''set'' | SetFence i fs \<Rightarrow> Some ''set'' | SetNote i fs \<Rightarrow> Some ''set''
      | Remove k i \<Rightarrow> Some ''remove'' | Checkout r n \<Rightarrow> Some ''checkout'' | CheckoutClear r n \<Rightarrow> Some ''checkout-clear'',
      cr_create = \<lambda>c. case c of
        CreateWindow r \<Rightarrow> Inr (WindowType, c) | CreateFence f \<Rightarrow> Inr (FenceType, c)
      | CreateNote n \<Rightarrow> Inr (NoteType, c) | _ \<Rightarrow> Inl ''shape'',
      cr_set = \<lambda>c. case c of
        SetWindow i fs \<Rightarrow> Inr (WindowType, i, c) | SetFence i fs \<Rightarrow> Inr (FenceType, i, c)
      | SetNote i fs \<Rightarrow> Inr (NoteType, i, c) | _ \<Rightarrow> Inl ''shape'',
      cr_remove = \<lambda>c. case c of Remove k i \<Rightarrow> Inr (k, i) | _ \<Rightarrow> Inl ''shape'',
      cr_checkout = \<lambda>c. case c of Checkout r n \<Rightarrow> Inr (r, n) | _ \<Rightarrow> Inl ''shape'',
      cr_checkout_clear = \<lambda>c. case c of CheckoutClear r n \<Rightarrow> Inr (r, n) | _ \<Rightarrow> Inl ''shape'',
      cr_window = \<lambda>c. case c of CreateWindow r \<Rightarrow> Inr r | _ \<Rightarrow> Inl ''shape'',
      cr_fence = \<lambda>c. case c of CreateFence f \<Rightarrow> Inr f | _ \<Rightarrow> Inl ''shape'',
      cr_note = \<lambda>c. case c of CreateNote n \<Rightarrow> Inr n | _ \<Rightarrow> Inl ''shape'',
      cr_window_fields = \<lambda>c. case c of SetWindow i fs \<Rightarrow> Inr fs | _ \<Rightarrow> Inl ''shape'',
      cr_fence_fields = \<lambda>c. case c of SetFence i fs \<Rightarrow> Inr fs | _ \<Rightarrow> Inl ''shape'',
      cr_note_fields = \<lambda>c. case c of SetNote i fs \<Rightarrow> Inr fs | _ \<Rightarrow> Inl ''shape''\<rparr>"

lemma typed_reader_parses: "parse_change typed_reader c = Inr c"
  by (cases c) (simp_all add: parse_change_def typed_reader_def and_then_def)

definition stage_rect :: "rat \<Rightarrow> desk_rect" where
  "stage_rect x = \<lparr>dr_left = Fin x, dr_top = Fin 0, dr_width = Fin 300, dr_height = Fin 200\<rparr>"

definition sample_changes :: "change list" where
  "sample_changes =
     [CreateFence \<lparr>df_id = ''f1'', df_name = ''api'', df_rect = stage_rect 0, df_locked = False, df_ts = 0\<rparr>,
      CreateFence \<lparr>df_id = ''f2'', df_name = ''web'', df_rect = stage_rect (- 1), df_locked = False, df_ts = 0\<rparr>,
      Checkout ''repo'' ''../out'',
      CreateWindow (default_record\<lparr>dw_id := ''w1'', dw_session_id := Some 4\<rparr>),
      SetFence ''f1'' \<lparr>ff_rect = Some (stage_rect 8), ff_name = None, ff_locked = None\<rparr>,
      Checkout ''repo'' ''tree'']"

text \<open>
  A desk within the caps, whose records have different ids, rects on the stage, names of at most forty
  characters and checkouts that are plain names, is such a desk after every upload, whatever its changes are
  and whichever of them are refused.
\<close>

lemma upload_keeps_desk:
  assumes "desk_ok desk"
  shows "desk_ok (ap_desk (apply_changes shapes desk changes al now))"
  using assms by (simp add: apply_changes_def run_desk upload_run_ok)

text \<open>
  C16. The answer to an upload is true.  The refused indices are some of the body's, in order; a desk that is
  not said to be changed is the desk of before; and a refused change is refused alone: the desk is the one
  that the other changes give, without it and with none of them refused.
\<close>

theorem upload_answer_is_true:
  "let answer = apply_changes shapes desk changes al now;
       kept = map snd (filter (\<lambda>(i, v). i \<notin> fst ` set (ap_refused answer)) (enumerate 0 changes))
   in subseq (map fst (ap_refused answer)) [0..<length changes] \<and>
      (ap_changed answer \<or> ap_desk answer = desk) \<and>
      ap_desk (apply_changes shapes desk kept al now) = ap_desk answer \<and>
      ap_refused (apply_changes shapes desk kept al now) = []"
proof -
  let ?xs = "enumerate 0 changes"
  let ?answer = "apply_changes shapes desk changes al now"
  let ?kept = "map snd (accepted shapes al now ?xs desk)"
  have refused: "ap_refused ?answer = refusals shapes al now ?xs desk"
    by (simp add: apply_changes_def run_refused)
  have "fold (\<lambda>v d. fst (result_of shapes al now v d)) ?kept desk =
      fold (\<lambda>v d. fst (result_of shapes al now v d)) (map snd ?xs) desk"
    "refusals shapes al now (enumerate 0 ?kept) desk = []"
    using accepted_run[of ?xs shapes al now desk "enumerate 0 ?kept"] by auto
  then have "ap_desk (apply_changes shapes desk ?kept al now) = ap_desk ?answer"
    "ap_refused (apply_changes shapes desk ?kept al now) = []"
    by (simp_all add: apply_changes_def run_desk run_refused)
  moreover have "subseq (map fst (ap_refused ?answer)) [0..<length changes]"
    using refusals_indices[of shapes al now ?xs desk] refused by simp
  moreover have "ap_changed ?answer \<or> ap_desk ?answer = desk"
    using run_unchanged[of shapes al now ?xs "\<lparr>ap_desk = desk, ap_changed = False, ap_refused = []\<rparr>"]
    by (auto simp: apply_changes_def)
  ultimately show ?thesis
    by (simp add: Let_def refused accepted_def)
qed

text \<open>
  C24. A change that the desk took, or that it found nothing to do for, does nothing when it comes again, at
  any time; and a change that was refused, or that had nothing to do, has written nothing.
\<close>

theorem repeated_change_is_idle:
  assumes "apply_one desk c now = (d, res)"
  shows "case res of
      Inl e \<Rightarrow> d = desk
    | Inr did \<Rightarrow> apply_one d c later = (d, Inr False) \<and> (did \<or> d = desk)"
  using assms by (auto split: sum.split intro: again_change dest: idle_change)

lemma repeated_change_is_idle_witness:
  "apply_one (fst (apply_one empty_desk (hd sample_changes) 7)) (hd sample_changes) 9 =
     (fst (apply_one empty_desk (hd sample_changes) 7), Inr False)"
proof -
  have "apply_one empty_desk (hd sample_changes) 7 = (fst (apply_one empty_desk (hd sample_changes) 7), Inr True)"
    by code_simp
  from repeated_change_is_idle[OF this, of 9] show ?thesis
    by simp
qed

end
