(* ===== verification/Desk_Route_Props.thy ===== *)
theory Desk_Route_Props
  imports Desk_Routes Desk_Props
begin

text \<open>
  The desk over a life of requests: a sound desk on the disk stays sound and its number rises with each
  write; an upload that is sent again is ignored; a restore keeps the consoles that run, and when it gives
  two of them one id; and the history ends in the layout on the screen.
\<close>

section \<open>Former keys\<close>

lemma fold_keeps: "\<lbrakk>\<And>x m. \<lbrakk>Q m; x \<in> set xs\<rbrakk> \<Longrightarrow> Q (f x m); Q m\<rbrakk> \<Longrightarrow> Q (fold f xs m)"
  by (induction xs arbitrary: m) auto

lemma rekey_checkouts_ok:
  assumes "list_all (\<lambda>(repo, name). checkout_lexical name) old"
  shows "list_all (\<lambda>(repo, name). checkout_lexical name) (rekey_checkouts old al)"
proof -
  let ?Q = "\<lambda>m. list_all (\<lambda>(repo, name). checkout_lexical name) m"
  have name: "checkout_lexical (snd x)" if "x \<in> set old" for x
    using assms that by (auto simp: list_all_iff)
  have "?Q (fold (\<lambda>(repo, name) m. if map_of al repo = None then tree_insert repo name m else m) old [])"
  proof (rule fold_keeps)
    fix x and m :: "string btree"
    assume "?Q m" "x \<in> set old"
    then show "?Q ((\<lambda>(repo, name) m. if map_of al repo = None then tree_insert repo name m else m) x m)"
      using name[of x] by (cases x) (simp add: checkouts_insert)
  qed simp
  then show ?thesis
    unfolding rekey_checkouts_def Let_def
  proof (rule fold_keeps[rotated])
    fix x and m :: "string btree"
    assume "?Q m" "x \<in> set old"
    then show "?Q ((\<lambda>(repo, name) m. case map_of al repo of None \<Rightarrow> m
        | Some to \<Rightarrow> if map_of m to = None then tree_insert to name m else m) x m)"
      using name[of x] by (cases x) (simp add: checkouts_insert split: option.split)
  qed
qed

lemma rekey_desk_ok: "desk_ok d \<Longrightarrow> desk_ok (rekey_desk d al)"
  unfolding rekey_desk_def desk_ok_def
  by (simp add: rekey_checkouts_ok comp_def list.pred_map window_ok_def note_ok_def cong: list.pred_cong)

lemma rekey_desk_numbers [simp]:
  "dk_rev (rekey_desk d al) = dk_rev d" "dk_generation (rekey_desk d al) = dk_generation d"
  by (simp_all add: rekey_desk_def)

section \<open>An upload writes at most once\<close>

lemma change_numbers:
  "dk_rev (fst (apply_one d c now)) = dk_rev d \<and> dk_generation (fst (apply_one d c now)) = dk_generation d"
  by (cases c)
    (auto simp: create_window_def create_fence_def create_note_def set_window_def set_fence_def set_note_def
      select_checkout_def checkout_clear_def remove_record_def Let_def split: outcome_splits record_type.split)

lemma run_numbers:
  "dk_generation (fold (\<lambda>v d. fst (result_of shapes al now v d)) vs d) = dk_generation d"
  by (induction vs arbitrary: d) (auto simp: result_of_def change_numbers split: sum.split)

lemma apply_changes_generation: "dk_generation (ap_desk (apply_changes shapes d changes al now)) = dk_generation d"
  by (simp add: apply_changes_def run_desk run_numbers)

lemma record_tab_simps [simp]:
  "ds_disk (record_tab tab sq s) = ds_disk s" "ds_history (record_tab tab sq s) = ds_history s"
  "ds_pushes (record_tab tab sq s) = ds_pushes s"
  "ds_seqs (record_tab tab sq s) = (case tab of Some t \<Rightarrow> seq_record (ds_seqs s) t sq | None \<Rightarrow> ds_seqs s)"
  by (simp_all add: record_tab_def split: option.split)

section \<open>A life of requests\<close>

datatype 'r desk_request =
  Put desk_env "string option" 'r
| New desk_env
| RestoreRequest desk_env "int option" "version option"

definition desk_step ::
    "('r, 'v) body_reader \<Rightarrow> 'v change_reader \<Rightarrow> f64_arith \<Rightarrow> 'r desk_request \<Rightarrow> desk_state \<Rightarrow> desk_state" where
  "desk_step rd shapes ar req s =
     (case req of
        Put env tab raw \<Rightarrow> fst (desk_put_route rd shapes ar env tab raw s)
      | New env \<Rightarrow> fst (desk_new_route env s)
      | RestoreRequest env i v \<Rightarrow> fst (desk_history_restore_route env i v s))"

definition desk_run ::
    "('r, 'v) body_reader \<Rightarrow> 'v change_reader \<Rightarrow> f64_arith \<Rightarrow> 'r desk_request list \<Rightarrow> desk_state \<Rightarrow> desk_state" where
  "desk_run rd shapes ar reqs s = fold (desk_step rd shapes ar) reqs s"

definition other_puts :: "string \<Rightarrow> 'r desk_request list \<Rightarrow> nat" where
  "other_puts t reqs = length (filter (\<lambda>r. case r of Put env (Some u) raw \<Rightarrow> u \<noteq> t | _ \<Rightarrow> False) reqs)"

text \<open>A number of the tab at least \<open>s\<close> is among the first \<open>n + 1\<close> that are kept.\<close>

definition recorded :: "string \<Rightarrow> u64 \<Rightarrow> nat \<Rightarrow> tab_seqs \<Rightarrow> bool" where
  "recorded t s n seqs \<longleftrightarrow> (\<exists>us x vs. seqs = us @ (t, x) # vs \<and> s \<le> x \<and> length us \<le> n)"

lemma recorded_is_old: "\<lbrakk>recorded t s n seqs; s' \<le> s\<rbrakk> \<Longrightarrow> seq_is_old seqs t s'"
  by (fastforce simp: recorded_def seq_is_old_def)

lemma recorded_mono: "\<lbrakk>recorded t s m seqs; m \<le> n\<rbrakk> \<Longrightarrow> recorded t s n seqs"
  unfolding recorded_def using le_trans by blast

lemma record_first: "s \<le> y \<Longrightarrow> recorded t s 0 (seq_record seqs t y)"
  by (auto simp: recorded_def seq_record_def TAB_SEQS_def take_Cons split: nat.split)

lemma record_same:
  assumes "recorded t s n seqs" "\<not> seq_is_old seqs t y"
  shows "recorded t s 0 (seq_record seqs t y)"
proof (rule record_first)
  obtain us x vs where "seqs = us @ (t, x) # vs" "s \<le> x"
    using assms(1) by (auto simp: recorded_def)
  then have "s \<le> x" "x < y"
    using assms(2) by (auto simp: seq_is_old_def)
  then show "s \<le> y"
    by simp
qed

lemma record_other:
  assumes "recorded t s n seqs" "u \<noteq> t" "Suc n < TAB_SEQS"
  shows "recorded t s (Suc n) (seq_record seqs u y)"
proof -
  obtain us x vs where h: "seqs = us @ (t, x) # vs" "s \<le> x" "length us \<le> n"
    using assms(1) by (auto simp: recorded_def)
  let ?us = "(u, y) # filter (\<lambda>(k, l). k \<noteq> u) us"
  have short: "length ?us \<le> Suc n"
    using length_filter_bound[OF h(3)] by simp
  then have fits: "length ?us < TAB_SEQS"
    using assms(3) by linarith
  define k where "k = TAB_SEQS - length ?us - 1"
  have k: "TAB_SEQS - length ?us = Suc k"
    using fits unfolding k_def by linarith
  have "seq_record seqs u y = take TAB_SEQS (?us @ (t, x) # filter (\<lambda>(k, l). k \<noteq> u) vs)"
    using assms(2) by (simp add: seq_record_def h(1))
  also have "\<dots> = ?us @ take (Suc k) ((t, x) # filter (\<lambda>(k, l). k \<noteq> u) vs)"
    unfolding take_append k using fits by simp
  finally have "seq_record seqs u y = ?us @ (t, x) # take k (filter (\<lambda>(k, l). k \<noteq> u) vs)"
    by simp
  then show ?thesis
    unfolding recorded_def using h(2) short by blast
qed

lemma put_seqs:
  "ds_seqs (fst (desk_put_route rd shapes ar env tab raw s)) = ds_seqs s \<or>
   (\<exists>t y. tab = Some t \<and> \<not> seq_is_old (ds_seqs s) t y \<and>
      ds_seqs (fst (desk_put_route rd shapes ar env tab raw s)) = seq_record (ds_seqs s) t y)"
  by (auto simp: desk_put_route_def Let_def is_some_and_def split: sum.split prod.split option.split)

lemma other_seqs:
  "ds_seqs (fst (desk_new_route env s)) = ds_seqs s"
  "ds_seqs (fst (desk_history_restore_route env i v s)) = ds_seqs s"
  by (simp_all add: desk_new_route_def desk_history_restore_route_def Let_def split: sum.split prod.split)

lemma recorded_run:
  "\<lbrakk>recorded t s n (ds_seqs st); n + other_puts t reqs < TAB_SEQS\<rbrakk>
   \<Longrightarrow> recorded t s (n + other_puts t reqs) (ds_seqs (desk_run rd shapes ar reqs st))"
proof (induction reqs arbitrary: n st)
  case Nil
  then show ?case
    by (simp add: desk_run_def other_puts_def)
next
  case (Cons r reqs)
  let ?st = "desk_step rd shapes ar r st"
  let ?m = "if other_puts t [r] = 0 then n else Suc n"
  have total: "?m + other_puts t reqs = n + other_puts t (r # reqs)"
    by (simp add: other_puts_def)
  have "recorded t s ?m (ds_seqs ?st)"
  proof (cases r)
    case (Put env tab raw)
    show ?thesis
      using put_seqs[of rd shapes ar env tab raw st]
    proof (elim disjE exE conjE)
      assume "ds_seqs (fst (desk_put_route rd shapes ar env tab raw st)) = ds_seqs st"
      then show ?thesis
        using Cons.prems(1) Put by (auto simp: desk_step_def intro: recorded_mono)
    next
      fix u y
      assume u: "tab = Some u" "\<not> seq_is_old (ds_seqs st) u y"
        "ds_seqs (fst (desk_put_route rd shapes ar env tab raw st)) = seq_record (ds_seqs st) u y"
      show ?thesis
      proof (cases "u = t")
        case True
        then show ?thesis
          using u Put record_same[OF Cons.prems(1)] by (auto simp: desk_step_def intro: recorded_mono)
      next
        case False
        then have "Suc n < TAB_SEQS"
          using Cons.prems(2) Put u(1) by (simp add: other_puts_def)
        then show ?thesis
          using u Put False record_other[OF Cons.prems(1)] by (simp add: desk_step_def other_puts_def)
      qed
    qed
  qed (use Cons.prems in \<open>auto simp: desk_step_def other_seqs other_puts_def\<close>)
  then have "recorded t s (?m + other_puts t reqs) (ds_seqs (desk_run rd shapes ar reqs ?st))"
    using Cons.prems(2) total by (intro Cons.IH) simp_all
  then show ?case
    by (simp add: total desk_run_def)
qed

lemma put_is_recorded:
  assumes "desk_put_route rd shapes ar env (Some t) raw s = (s1, DeskIs d refused)"
    and "read_put_body rd raw = Inr (sq, g, cs)" "\<not> seq_is_old (ds_seqs s) t sq"
  shows "recorded t sq 0 (ds_seqs s1)"
  using assms
  by (auto simp: desk_put_route_def Let_def is_some_and_def unreadable_def record_first
      split: sum.splits if_splits load_error.splits)

lemma old_put_is_ignored:
  assumes "read_put_body rd raw = Inr (sq, g, cs)" "seq_is_old (ds_seqs s) t sq"
  shows "fst (desk_put_route rd shapes ar env (Some t) raw s) = s"
  using assms by (simp add: desk_put_route_def Let_def is_some_and_def split: sum.split)

section \<open>What a restore keeps\<close>

definition same_console :: "desk_record \<Rightarrow> desk_record \<Rightarrow> bool" where
  "same_console c w \<longleftrightarrow>
     dw_id w = dw_id c \<and> dw_session_id w = dw_session_id c \<and> dw_daemon_id w = dw_daemon_id c \<and>
     dw_environment w = dw_environment c"

lemma same_console_refl [simp]: "same_console c c"
  by (simp add: same_console_def)

lemma positionD: "position_of P xs = Some i \<Longrightarrow> i < length xs \<and> P (xs ! i)"
  by (induction xs arbitrary: i) (auto split: if_splits)

lemma find_consoleD:
  "find_console v left = Some i \<Longrightarrow> i < length left \<and> (\<exists>c. left ! i = Some c)"
  by (auto simp: find_console_def is_some_and_def dest!: positionD split: option.splits)

definition kept_so_far :: "desk_record list \<Rightarrow> desk_record list \<times> desk_record option list \<Rightarrow> bool" where
  "kept_so_far cs p \<longleftrightarrow>
     (\<forall>c\<in>set cs. Some c \<in> set (snd p) \<or> (\<exists>w\<in>set (fst p). same_console c w))"

lemma restore_window_keeps:
  assumes "kept_so_far cs p"
  shows "kept_so_far cs (restore_window now v p)"
proof -
  obtain ws left where p: "p = (ws, left)"
    by (cases p)
  show ?thesis
  proof (cases "find_console (cap_console_name v) left")
    case None
    then show ?thesis
      using assms p by (auto simp: restore_window_def kept_so_far_def Let_def)
  next
    case (Some i)
    then obtain c where c: "i < length left" "left ! i = Some c"
      using find_consoleD by blast
    have stays: "Some x \<in> set (left[i := None])" if x: "Some x \<in> set left" "x \<noteq> c" for x
    proof -
      obtain j where j: "j < length left" "left ! j = Some x"
        using x(1) by (auto simp: in_set_conv_nth)
      then have "j \<noteq> i"
        using c x(2) by auto
      then show ?thesis
        using j by (force simp: in_set_conv_nth)
    qed
    then show ?thesis
      using assms p Some c by (fastforce simp: restore_window_def kept_so_far_def Let_def same_console_def)
  qed
qed

lemma restore_keeps:
  assumes "c \<in> set (dk_windows current)" "dw_session_id c \<noteq> None"
  shows "\<exists>w\<in>set (dk_windows (fst (restore_desk current version now))). same_console c w"
proof -
  obtain ws left where run:
    "fold (restore_window now) (dk_windows version) ([], map Some (dk_windows current)) = (ws, left)"
    by (metis prod.collapse)
  have "kept_so_far (dk_windows current) (ws, left)"
    unfolding run[symmetric] by (rule fold_keeps) (simp_all add: restore_window_keeps, simp add: kept_so_far_def)
  then have "Some c \<in> set left \<or> (\<exists>w\<in>set ws. same_console c w)"
    using assms(1) by (simp add: kept_so_far_def)
  moreover have "c \<in> set (List.map_filter (\<lambda>c. c) left)" if "Some c \<in> set left"
    using that by (force simp: List.map_filter_def)
  ultimately show ?thesis
    using assms(2) run by (auto simp: restore_desk_def Let_def intro: bexI[of _ c])
qed

lemma prune_keeps_live:
  assumes "r \<in> set records" "dw_id r \<in> live"
  shows "r \<in> set (prune_windows records live)"
proof -
  obtain i where i: "i < length records" "records ! i = r"
    using assms(1) by (auto simp: in_set_conv_nth)
  then have "(i, r) \<in> set (enumerate 0 records)"
    by (auto simp: in_set_enumerate_eq)
  then show ?thesis
    using assms by (force simp: prune_windows_def Let_def)
qed

lemma length_filter_or: "length (filter (\<lambda>x. P x \<or> Q x) xs) \<le> length (filter P xs) + length (filter Q xs)"
  by (induction xs) auto

lemma length_newest: "length (newest ts room items is) \<le> room"
  by (simp add: newest_def)

lemma kept_indices: "length (filter (\<lambda>(i, r). i \<in> set keep) (enumerate n xs)) \<le> length keep"
proof -
  have "length (filter (\<lambda>(i, r). i \<in> set keep) (enumerate n xs)) =
      card (fst ` set (filter (\<lambda>(i, r). i \<in> set keep) (enumerate n xs)))"
    by (subst card_image)
      (auto simp: inj_on_def in_set_enumerate_eq distinct_card[symmetric] intro!: distinct_card[symmetric] distinct_filter)
  also have "\<dots> \<le> card (set keep)"
    by (rule card_mono) auto
  also have "\<dots> \<le> length keep"
    by (rule card_length)
  finally show ?thesis .
qed

lemma live_enumerate: "length (filter (\<lambda>(i, r). P r) (enumerate n xs)) = length (filter P xs)"
  by (induction xs arbitrary: n) auto

lemma prune_length: "length (prune_windows records live) \<le> max DESK_MAX (length (filter (\<lambda>r. dw_id r \<in> live) records))"
proof (cases "length records \<le> DESK_MAX")
  case False
  define keep where "keep = newest dw_ts (DESK_MAX - length (filter (\<lambda>r. dw_id r \<in> live) records)) records
    (filter (\<lambda>i. dw_id (records ! i) \<notin> live) [0..<length records])"
  have "length (prune_windows records live) =
      length (filter (\<lambda>x. (\<lambda>(i, r). dw_id r \<in> live) x \<or> (\<lambda>(i, r). i \<in> set keep) x) (enumerate 0 records))"
    using False by (simp add: prune_windows_def Let_def keep_def case_prod_beta')
  also have "\<dots> \<le> length (filter (\<lambda>r. dw_id r \<in> live) records) + length keep"
    by (rule order_trans[OF length_filter_or], rule add_mono)
      (simp_all add: live_enumerate[of "\<lambda>r. dw_id r \<in> live"] kept_indices)
  also have "\<dots> \<le> max DESK_MAX (length (filter (\<lambda>r. dw_id r \<in> live) records))"
    using length_newest[of dw_ts "DESK_MAX - length (filter (\<lambda>r. dw_id r \<in> live) records)" records
      "filter (\<lambda>i. dw_id (records ! i) \<notin> live) [0..<length records]", folded keep_def] by linarith
  finally show ?thesis .
qed (simp add: prune_windows_def)

lemma rekey_windows:
  "w \<in> set (dk_windows d) \<Longrightarrow> \<exists>u\<in>set (dk_windows (rekey_desk d al)). same_console w u"
  by (auto simp: rekey_desk_def same_console_def)

lemma same_console_trans: "\<lbrakk>same_console a b; same_console b c\<rbrakk> \<Longrightarrow> same_console a c"
  by (simp add: same_console_def)

section \<open>The history\<close>

definition readable_versions :: "desk_history \<Rightarrow> version list" where
  "readable_versions h = List.map_filter snd h"

definition file_ok :: "int \<times> version option \<Rightarrow> bool" where
  "file_ok x \<longleftrightarrow> (case snd x of Some v \<Rightarrow> vs_id v = fst x | None \<Rightarrow> True)"

definition history_ok :: "desk_history \<Rightarrow> bool" where
  "history_ok h \<longleftrightarrow>
     sorted_wrt (<) (map fst h) \<and> length h \<le> HISTORY_MAX \<and> list_all file_ok h"

lemma readable_simps [simp]:
  "readable_versions [] = []" "readable_versions ((i, Some v) # h) = v # readable_versions h" "readable_versions ((i, None) # h) = readable_versions h"
  "readable_versions (g @ h) = readable_versions g @ readable_versions h"
  by (simp_all add: readable_versions_def List.map_filter_def)

lemma newest_two_readable:
  "newest_two h = (case rev (readable_versions h) of [] \<Rightarrow> (None, None) | [v] \<Rightarrow> (Some v, None) | v # u # _ \<Rightarrow> (Some v, Some u))"
  by (simp add: newest_two_def readable_versions_def)

lemma newest_last [simp]: "fst (newest_two (h @ [(i, Some v)])) = Some v"
  by (simp add: newest_two_readable split: list.split)

text \<open>The directory up to its last readable file, and the damaged ones after it.\<close>

lemma split_newest:
  assumes "fst (newest_two h) = Some v" "history_ok h"
  obtains g k where "h = g @ (vs_id v, Some v) # k" "readable_versions k = []"
    "\<forall>j\<in>fst ` set g. j < vs_id v" "\<forall>j\<in>fst ` set k. vs_id v < j"
proof -
  have "\<exists>g i k. h = g @ (i, Some v) # k \<and> readable_versions k = []"
    using assms(1)
  proof (induction h)
    case (Cons x h)
    obtain i y where x: "x = (i, y)"
      by (cases x)
    show ?case
    proof (cases "readable_versions h = []")
      case True
      then show ?thesis
        using Cons.prems x by (cases y) (auto simp: newest_two_readable intro: exI[of _ "[]"])
    next
      case False
      then have "fst (newest_two h) = Some v"
        using Cons.prems x
        by (cases y; cases "readable_versions h" rule: rev_cases) (auto simp: newest_two_readable split: list.splits)
      then obtain g j k where "h = g @ (j, Some v) # k" "readable_versions k = []"
        using Cons.IH by blast
      then show ?thesis
        by (intro exI[of _ "x # g"]) auto
    qed
  qed (simp add: newest_two_readable)
  then obtain g i k where h: "h = g @ (i, Some v) # k" "readable_versions k = []"
    by blast
  moreover have "i = vs_id v"
    using assms(2) h(1) by (simp add: history_ok_def file_ok_def)
  ultimately show thesis
    using that assms(2) by (auto simp: history_ok_def sorted_wrt_append)
qed

lemma write_over:
  "\<lbrakk>\<forall>j\<in>fst ` set g. j < n; n = i\<rbrakk> \<Longrightarrow> write_file n f (g @ (i, x) # k) = g @ (i, f) # k"
  by (induction g) auto

lemma write_last: "\<forall>j\<in>fst ` set g. j < n \<Longrightarrow> write_file n f g = g @ [(n, f)]"
  by (induction g) auto

text \<open>Ids and instants that leave an \<^verbatim>\<open>i64\<close> room for the next ones.\<close>

definition ids_below :: "int \<Rightarrow> desk_history \<Rightarrow> int \<Rightarrow> bool" where
  "ids_below b h now \<longleftrightarrow> now < b \<and> list_all (\<lambda>(i, x). i < b) h"

lemma ids_belowI: "ids_below b h now \<Longrightarrow> b \<le> c \<Longrightarrow> ids_below c h now"
  by (auto simp: ids_below_def list_all_iff)

lemma i64_succ_above: "i < 2 ^ 63 - 1 \<Longrightarrow> i64_succ i = i + 1"
  by (simp add: i64_succ_def)

definition new_version :: "int \<Rightarrow> desk_store \<Rightarrow> reason \<Rightarrow> int \<Rightarrow> version" where
  "new_version i desk why now =
     \<lparr>vs_kind = VERSION_KIND, vs_id = i, vs_started_at = now, vs_saved_at = now, vs_reason = why,
      vs_desk = unnumbered desk\<rparr>"

lemma append_version_last:
  assumes "sorted_wrt (<) (map fst h)" "ids_below b h now" "b < 2 ^ 63"
  obtains i where "append_version jd h desk why now =
      prune_history (h @ [(i, read_back jd (new_version i desk why now))])"
    "\<forall>j\<in>fst ` set h. j < i" "i < b + 1"
proof -
  define i where "i = (if h = [] then now else max now (i64_succ (fst (last h))))"
  have newest: "i64_succ (fst (last h)) = fst (last h) + 1 \<and> fst (last h) < b" if "h \<noteq> []"
  proof -
    have "fst (last h) < b"
      using assms(2) last_in_set[OF that] by (auto simp: ids_below_def list_all_iff)
    then show ?thesis using assms(3) by (simp add: i64_succ_above)
  qed
  have above: "j < i" if "j \<in> fst ` set h" for j
  proof -
    have nonempty: "h \<noteq> []"
      using that by auto
    then obtain g x where h: "h = g @ [x]"
      by (metis rev_exhaust)
    then have "j \<le> fst x"
      using that assms(1) by (auto simp: sorted_wrt_append)
    then show ?thesis
      using newest[OF nonempty] by (simp add: i_def h)
  qed
  have "i < b + 1"
    using newest assms(2) by (cases "h = []") (auto simp: i_def ids_below_def)
  then show thesis
    using that[of i] above write_last[of h i "read_back jd (new_version i desk why now)"]
    by (simp add: append_version_def write_version_def new_version_def i_def Let_def)
qed

lemma prune_history_last:
  "prune_history (h @ [x]) = drop (length h + 1 - HISTORY_MAX) h @ [x]"
  by (simp add: prune_history_def HISTORY_MAX_def)

lemma sorted_drop: "sorted_wrt (<) (map fst h) \<Longrightarrow> sorted_wrt (<) (map fst (drop n h))"
  by (simp add: drop_map[symmetric] sorted_wrt_drop)

lemma read_back_Some: "jd (unnumbered desk) = Some d \<Longrightarrow>
   read_back jd (new_version i desk why now) = Some ((new_version i desk why now)\<lparr>vs_desk := d\<rparr>)"
  by (simp add: read_back_def new_version_def)

lemma read_back_file: "file_ok (i, read_back jd (new_version i desk why now))"
  by (simp add: file_ok_def read_back_def new_version_def split: option.split)

lemma append_version_ok:
  assumes "history_ok h" "ids_below b h now" "b < 2 ^ 63"
  shows "history_ok (append_version jd h desk why now)" "ids_below (b + 1) (append_version jd h desk why now) now"
    "jd (unnumbered desk) = Some d \<Longrightarrow> \<exists>v. fst (newest_two (append_version jd h desk why now)) = Some v \<and>
       vs_desk v = d \<and> vs_reason v = why"
proof -
  have sorted: "sorted_wrt (<) (map fst h)"
    using assms by (simp add: history_ok_def)
  obtain i where i: "append_version jd h desk why now =
      prune_history (h @ [(i, read_back jd (new_version i desk why now))])"
    and le: "\<forall>j\<in>fst ` set h. j < i" and below: "i < b + 1"
    using append_version_last[OF sorted assms(2,3)] by metis
  show "history_ok (append_version jd h desk why now)"
    using assms(1) le sorted_drop[OF sorted] read_back_file[of i jd desk why now] unfolding i prune_history_last
    by (auto simp: history_ok_def sorted_wrt_append list_all_iff HISTORY_MAX_def dest!: in_set_dropD)
  show "ids_below (b + 1) (append_version jd h desk why now) now"
    using assms(2) below unfolding i prune_history_last
    by (fastforce simp: ids_below_def list_all_iff dest!: in_set_dropD)
  show "\<exists>v. fst (newest_two (append_version jd h desk why now)) = Some v \<and> vs_desk v = d \<and> vs_reason v = why"
    if "jd (unnumbered desk) = Some d"
    unfolding i prune_history_last by (simp add: read_back_Some[where jd = jd, OF that]) (simp add: new_version_def)
qed

lemma append_twice:
  assumes "history_ok h" "ids_below b h now" "b < 2 ^ 63 - 1" "jd (unnumbered old) = Some d"
  shows "\<exists>v. vs_desk v = d \<and> vs_reason v = why \<and>
    (if jd (unnumbered desk) = None
     then fst (newest_two (append_version jd (append_version jd h old why now) desk why' now)) = Some v
     else snd (newest_two (append_version jd (append_version jd h old why now) desk why' now)) = Some v)"
proof -
  let ?h = "append_version jd h old why now"
  have b: "b < 2 ^ 63" "b + 1 < 2 ^ 63"
    using assms(3) by simp_all
  have sorted: "sorted_wrt (<) (map fst h)" "sorted_wrt (<) (map fst ?h)"
    using assms(1) append_version_ok(1)[OF assms(1,2) b(1)] by (simp_all add: history_ok_def)
  obtain n where n: "?h = prune_history (h @ [(n, read_back jd (new_version n old why now))])"
    using append_version_last[OF sorted(1) assms(2) b(1), of jd old why] by metis
  define v where "v = (new_version n old why now)\<lparr>vs_desk := d\<rparr>"
  define g where "g = drop (length h + 1 - HISTORY_MAX) h"
  have g: "?h = g @ [(n, Some v)]" "vs_desk v = d" "vs_reason v = why" "length g < HISTORY_MAX"
    using n read_back_Some[where jd = jd, OF assms(4)]
    by (simp_all add: g_def v_def prune_history_last HISTORY_MAX_def) (simp_all add: new_version_def)
  obtain i where "append_version jd ?h desk why' now =
      prune_history (?h @ [(i, read_back jd (new_version i desk why' now))])"
    using append_version_last[OF sorted(2) append_version_ok(2)[OF assms(1,2) b(1)] b(2), of jd desk why'] by metis
  then have last: "append_version jd ?h desk why' now =
      drop (length g + 2 - HISTORY_MAX) g @ [(n, Some v), (i, read_back jd (new_version i desk why' now))]"
    using g(4) by (simp add: g(1) prune_history_def HISTORY_MAX_def)
  show ?thesis
  proof (cases "jd (unnumbered desk)")
    case None
    then have "read_back jd (new_version i desk why' now) = None"
      by (simp add: read_back_def new_version_def)
    with None last g(2,3) show ?thesis
      by (intro exI[of _ v]) (simp add: newest_two_readable split: list.split)
  next
    case (Some e)
    with last g(2,3) read_back_Some[where jd = jd, OF Some] show ?thesis
      by (intro exI[of _ v]) (simp add: newest_two_readable split: list.split)
  qed
qed

lemma history_ok_cut: "history_ok (g @ x # k) \<Longrightarrow> history_ok (g @ k)"
  by (auto simp: history_ok_def sorted_wrt_append)

lemma history_ok_over: "\<lbrakk>history_ok (g @ (i, x) # k); vs_id v = i\<rbrakk> \<Longrightarrow> history_ok (g @ (i, Some v) # k)"
  by (auto simp: history_ok_def sorted_wrt_append file_ok_def)

lemma overwrite_needs_newest:
  "capture_step_of ar latest prior after now = Overwrite \<Longrightarrow> \<exists>v. latest = Some v"
  by (cases latest) (auto simp: capture_step_of_def Let_def)

lemma nothing_shows_layout:
  "capture_step_of ar latest prior after now = Nothing \<Longrightarrow> \<exists>v. latest = Some v \<and> same_layout ar (vs_desk v) after"
  by (auto simp: capture_step_of_def Let_def split: option.splits if_splits)

lemma newest_readable: "\<lbrakk>fst (newest_two (g @ (i, Some v) # k)) = x; readable_versions k = []\<rbrakk> \<Longrightarrow> x = Some v"
  by (auto simp: newest_two_readable split: list.split)

lemma newest_under:
  "\<lbrakk>snd (newest_two (g @ (i, Some v) # k)) = Some p; readable_versions k = []\<rbrakk> \<Longrightarrow> fst (newest_two (g @ k)) = Some p"
  by (auto simp: newest_two_readable split: list.splits)

lemma delete_newest:
  "\<lbrakk>\<forall>j\<in>fst ` set g. j < i; \<forall>j\<in>fst ` set k. i < j\<rbrakk> \<Longrightarrow> delete_version i (g @ (i, x) # k) = g @ k"
proof -
  assume "\<forall>j\<in>fst ` set g. j < i" "\<forall>j\<in>fst ` set k. i < j"
  then have "filter (\<lambda>(j, x). j \<noteq> i) g = g" "filter (\<lambda>(j, x). j \<noteq> i) k = k"
    by (force intro: filter_True)+
  then show ?thesis
    by (simp add: delete_version_def)
qed

text \<open>
  C19. The history ends in the layout on the screen: after a write of a desk whose JSON reads back, the newest
  version that can be read shows the layout that was written or holds what that JSON reads back as, damaged
  files in the directory or not; and, for any desk, the directory keeps at most fifty versions, in the order of
  their ids, each file under its own id.  The ids and the clock are below \<open>2 ^ 62\<close>, so that the next id does
  not wrap.
\<close>

theorem history_ends_in_the_layout:
  assumes "history_ok h" "ids_below (2 ^ 62) h now"
  shows "history_ok (capture ar jd h prior after now) \<and>
    (case jd (unnumbered after) of
       None \<Rightarrow> True
     | Some d \<Rightarrow> \<exists>v. fst (newest_two (capture ar jd h prior after now)) = Some v \<and>
         (same_layout ar (vs_desk v) after \<or> vs_desk v = d))"
proof (cases "capture_step_of ar (fst (newest_two h)) prior after now")
  case Nothing
  then show ?thesis
    using assms nothing_shows_layout[OF Nothing] by (auto simp: capture_def split: prod.split option.split)
next
  case (Append keep)
  have b: "(2 ^ 62 :: int) < 2 ^ 63" "(2 ^ 62 + 1 :: int) < 2 ^ 63" by simp_all
  note one = append_version_ok[OF assms b(1), of jd]
  note two = append_version_ok[OF one(1,2) b(2), of jd]
  show ?thesis
    using Append one two by (fastforce simp: capture_def split: prod.split option.split)
next
  case Overwrite
  then obtain v where v: "fst (newest_two h) = Some v"
    using overwrite_needs_newest by blast
  then obtain u where u: "newest_two h = (Some v, u)"
    by (cases "newest_two h") auto
  obtain g k where h: "h = g @ (vs_id v, Some v) # k" "readable_versions k = []"
    "\<forall>j\<in>fst ` set g. j < vs_id v" "\<forall>j\<in>fst ` set k. vs_id v < j"
    using split_newest[OF v assms(1)] .
  show ?thesis
  proof (cases "undoes ar v (snd (newest_two h)) after")
    case True
    then obtain p where p: "snd (newest_two h) = Some p" "same_layout ar (vs_desk p) after"
      by (auto simp: undoes_def split: option.splits)
    have "capture ar jd h prior after now = g @ k"
      using Overwrite True delete_newest[OF h(3,4), of "Some v"] by (simp add: capture_def u h(1)[symmetric])
    moreover have "fst (newest_two (g @ k)) = Some p"
      using p(1) h newest_under by metis
    ultimately show ?thesis
      using assms(1) h(1) p(2) history_ok_cut by (auto split: option.split)
  next
    case False
    let ?v = "v\<lparr>vs_desk := unnumbered after, vs_saved_at := now\<rparr>"
    have written: "capture ar jd h prior after now = g @ (vs_id v, read_back jd ?v) # k"
      using Overwrite False write_over[of g "vs_id v" "vs_id v" "read_back jd ?v" "Some v" k] h(3)
      by (simp add: capture_def write_version_def u h(1)[symmetric])
    have "file_ok (vs_id v, read_back jd ?v)"
      by (simp add: file_ok_def read_back_def split: option.split)
    then have "history_ok (g @ (vs_id v, read_back jd ?v) # k)"
      using assms(1) h(1) by (auto simp: history_ok_def sorted_wrt_append)
    moreover have "fst (newest_two (g @ (vs_id v, read_back jd ?v) # k)) = Some (?v\<lparr>vs_desk := d\<rparr>)"
      if "jd (unnumbered after) = Some d" for d
      using that newest_readable[OF refl h(2)] by (simp add: read_back_def)
    ultimately show ?thesis
      unfolding written by (auto split: option.split)
  qed
qed

section \<open>Examples\<close>

text \<open>A body with the number 5 and one change, which selects a tree of a repository.\<close>

definition sample_body :: "(nat, nat) body_reader" where
  "sample_body =
     \<lparr>by_json = Inr, by_object_has_changes = (\<lambda>v. Some True),
      by_body = (\<lambda>v. if v = 0 then Inr (5, 0, [1]) else Inl ''not a body'')\<rparr>"

definition sample_shapes :: "nat change_reader" where
  "sample_shapes =
     \<lparr>cr_op = (\<lambda>v. Some ''checkout''), cr_create = (\<lambda>v. Inl ''shape''), cr_set = (\<lambda>v. Inl ''shape''),
      cr_remove = (\<lambda>v. Inl ''shape''), cr_checkout = (\<lambda>v. Inr (''repo'', ''tree'')),
      cr_checkout_clear = (\<lambda>v. Inl ''shape''), cr_window = (\<lambda>v. Inl ''shape''), cr_fence = (\<lambda>v. Inl ''shape''),
      cr_note = (\<lambda>v. Inl ''shape''), cr_window_fields = (\<lambda>v. Inl ''shape''),
      cr_fence_fields = (\<lambda>v. Inl ''shape''), cr_note_fields = (\<lambda>v. Inl ''shape'')\<rparr>"

definition exact :: "(rat \<Rightarrow> rat \<Rightarrow> rat) \<Rightarrow> stage_f64 \<Rightarrow> stage_f64 \<Rightarrow> stage_f64" where
  "exact f a b = (case (a, b) of (Fin x, Fin y) \<Rightarrow> Fin (f x y) | _ \<Rightarrow> NaN)"

definition exact_arith :: f64_arith where
  "exact_arith = \<lparr>fa_add = exact (+), fa_sub = exact (-), fa_half = (\<lambda>a. exact (/) a (Fin 2))\<rparr>"

definition finite_rect :: "desk_rect \<Rightarrow> bool" where
  "finite_rect r = list_all is_finite [dr_left r, dr_top r, dr_width r, dr_height r]"

text \<open>A JSON crate that reads every finite number back.\<close>

definition finite_json :: desk_json where
  "finite_json d = (if list_all finite_rect (rects_of d) then Some d else None)"

definition sample_desk_env :: desk_env where
  "sample_desk_env =
     \<lparr>de_now = 1000, de_later = 1001, de_aliases = [], de_saves = True, de_moves = True, de_history_fault = None,
      de_json = finite_json, de_keeps_before = True, de_sessions = [''w2'']\<rparr>"

definition sample_window :: "string \<Rightarrow> u64 option \<Rightarrow> desk_record" where
  "sample_window i session = default_record\<lparr>dw_id := i, dw_session_id := session\<rparr>"

definition sample_desk :: desk_state where
  "sample_desk =
     \<lparr>ds_disk = Stored (empty_desk\<lparr>dk_rev := 4,
        dk_windows := [sample_window ''w1'' None, sample_window ''w2'' (Some 7)]\<rparr>),
      ds_seqs = [], ds_history = [], ds_pushes = []\<rparr>"

section \<open>The desk over its requests\<close>

definition disk_ok :: "disk \<Rightarrow> bool" where
  "disk_ok d = (case load_from d of Inr store \<Rightarrow> desk_ok store | Inl e \<Rightarrow> True)"

lemma disk_ok_stored [simp]: "disk_ok (Stored d) = desk_ok d" "disk_ok Missing"
  by (simp_all add: disk_ok_def load_from_def empty_desk_ok)

lemma desk_ok_numbers [simp]:
  "desk_ok (d\<lparr>dk_rev := n\<rparr>) = desk_ok d" "desk_ok (d\<lparr>dk_generation := g\<rparr>) = desk_ok d"
  by (simp_all add: desk_ok_def)

definition no_restore :: "'r desk_request \<Rightarrow> bool" where
  "no_restore req = (case req of RestoreRequest env i v \<Rightarrow> False | _ \<Rightarrow> True)"

lemma desk_step_ok:
  assumes "disk_ok (ds_disk s)" "no_restore req"
  shows "disk_ok (ds_disk (desk_step rd shapes ar req s))"
proof (cases req)
  case (Put env tab raw)
  have "desk_ok (ap_desk (apply_changes shapes (rekey_desk d al) cs al now))" if "load_from (ds_disk s) = Inr d" for d cs al now
    using assms(1) that by (intro upload_keeps_desk rekey_desk_ok) (simp add: disk_ok_def)
  then show ?thesis
    using Put assms(1)
    by (auto simp: desk_step_def desk_put_route_def Let_def split: sum.split prod.split)
next
  case (New env)
  then show ?thesis
    using assms(1) by (auto simp: desk_step_def desk_new_route_def Let_def empty_desk_ok split: sum.split)
qed (use assms(2) in \<open>simp add: no_restore_def\<close>)

text \<open>
  C15. The desk on the disk stays sound through every run of uploads and new desks: the records of each kind
  are within their cap and have different ids, every rect is on the stage, every console name is at most forty
  characters and every checkout is a plain name, whatever the uploads hold and whichever changes are refused.
\<close>

theorem desk_file_stays_sound:
  assumes "disk_ok (ds_disk s)" "list_all no_restore reqs"
  shows "disk_ok (ds_disk (desk_run rd shapes ar reqs s))"
  using assms by (induction reqs arbitrary: s) (simp_all add: desk_run_def desk_step_ok)

lemma desk_file_stays_sound_witness:
  "disk_ok (ds_disk (desk_run sample_body sample_shapes exact_arith [Put sample_desk_env (Some ''t'') 0, New sample_desk_env] sample_desk))"
  by (rule desk_file_stays_sound) code_simp+

text \<open>
  C17. An upload that the daemon took is taken once.  While fewer than 64 uploads of other tabs, and anything
  else, came after it, the same tab sending it again, or sending an older one, changes nothing: not the desk,
  not the history, not the numbers, and no push goes out.
\<close>

theorem resent_upload_is_ignored:
  assumes "desk_put_route rd shapes ar env (Some t) raw s = (s1, DeskIs d refused)"
    and "read_put_body rd raw = Inr (sq, g, cs)" "\<not> seq_is_old (ds_seqs s) t sq"
    and "other_puts t reqs < TAB_SEQS"
    and "read_put_body rd raw' = Inr (sq', g', cs')" "sq' \<le> sq"
  shows "fst (desk_put_route rd shapes ar env' (Some t) raw' (desk_run rd shapes ar reqs s1)) = desk_run rd shapes ar reqs s1"
proof -
  have "recorded t sq (0 + other_puts t reqs) (ds_seqs (desk_run rd shapes ar reqs s1))"
    using put_is_recorded[OF assms(1-3)] assms(4) by (intro recorded_run) simp_all
  then have "seq_is_old (ds_seqs (desk_run rd shapes ar reqs s1)) t sq'"
    using assms(6) recorded_is_old by blast
  then show ?thesis
    by (rule old_put_is_ignored[OF assms(5)])
qed

lemma resent_upload_is_ignored_witness:
  "let s1 = fst (desk_put_route sample_body sample_shapes exact_arith sample_desk_env (Some ''t'') 0 sample_desk);
       s2 = desk_run sample_body sample_shapes exact_arith [Put sample_desk_env (Some ''u'') 0, New sample_desk_env] s1
   in ds_pushes s1 = [Some ''t''] \<and>
      fst (desk_put_route sample_body sample_shapes exact_arith sample_desk_env (Some ''t'') 0 s2) = s2"
proof -
  let ?put = "desk_put_route sample_body sample_shapes exact_arith sample_desk_env (Some ''t'') 0 sample_desk"
  let ?d = "(empty_desk\<lparr>dk_rev := 5, dk_windows := [sample_window ''w1'' None, sample_window ''w2'' (Some 7)],
    dk_checkouts := [(''repo'', ''tree'')]\<rparr>)"
  have put: "?put = (fst ?put, DeskIs ?d [])"
    by code_simp
  have body: "read_put_body sample_body 0 = Inr (5, 0, [1])"
    by code_simp
  have old: "\<not> seq_is_old (ds_seqs sample_desk) ''t'' 5" "ds_pushes (fst ?put) = [Some ''t'']"
    by code_simp+
  show ?thesis
    unfolding Let_def
  proof (intro conjI resent_upload_is_ignored[OF put body old(1) _ body])
    show "other_puts ''t'' [Put sample_desk_env (Some ''u'') (0 :: nat), New sample_desk_env] < TAB_SEQS"
      by code_simp
  qed (simp_all add: old(2))
qed

lemma refusal_is_no_success: "refuse_records d \<noteq> Some (RestoredAs g)" "restore_source h i v \<noteq> Inl (RestoredAs g)"
proof -
  show no: "refuse_records d \<noteq> Some (RestoredAs g)" for d
    by (simp add: refuse_records_def split: option.split prod.split)
  show "restore_source h i v \<noteq> Inl (RestoredAs g)"
    using no by (auto simp: restore_source_def split: option.split)
qed

text \<open>
  C18. A restore of any version keeps the consoles that run and can be undone.  When no write of the history
  fails, the ids and the clock are below \<open>2 ^ 62\<close> and the JSON of the current desk reads back, then after a
  restore that is answered with success: a window of the current desk with a session, whose record a session
  of the daemon serves, is on the restored desk with its id, session, daemon and environment; the desk has the
  next number and the moment of the restore as its generation; and the history holds, under the version of the
  restored desk, a \<^verbatim>\<open>before-restore\<close> version with what the JSON of the desk of before reads back as.  (That
  version is the newest readable one when the JSON of the restored desk cannot be read.)
\<close>

theorem restore_keeps_running_consoles:
  assumes "desk_history_restore_route env i v s = (s', RestoredAs g)"
    and "load_from (ds_disk s) = Inr current" "history_ok (ds_history s)" "de_history_fault env = None"
    and "ids_below (2 ^ 62) (ds_history s) (de_now env)" "de_json env (unnumbered current) = Some d"
    and "c \<in> set (dk_windows current)" "dw_session_id c \<noteq> None" "dw_id c \<in> set (de_sessions env)"
  shows "\<exists>store u. ds_disk s' = Stored store \<and> dk_rev store = dk_rev current + 1 \<and> dk_generation store = g \<and>
    (\<exists>w\<in>set (dk_windows store). same_console c w) \<and> vs_reason u = BeforeRestore \<and> vs_desk u = d \<and>
    (if de_json env (unnumbered store) = None then fst (newest_two (ds_history s')) = Some u
     else snd (newest_two (ds_history s')) = Some u)"
proof -
  obtain saved why where source: "restore_source (ds_history s) i v = Inr (saved, why)"
    using assms(1) refusal_is_no_success(2) by (auto simp: desk_history_restore_route_def split: sum.splits)
  obtain restored running where r: "restore_desk current saved (de_now env) = (restored, running)"
    by (cases "restore_desk current saved (de_now env)")
  have rev: "dk_rev restored = dk_rev current"
    using r by (auto simp: restore_desk_def Let_def split: prod.splits)
  obtain w where w: "w \<in> set (dk_windows restored)" "same_console c w"
    using restore_keeps[OF assms(7,8), of saved "de_now env"] r by auto
  define store where "store = rekey_desk
      \<lparr>dk_rev = dk_rev restored + 1, dk_generation = g,
       dk_windows = prune_windows (dk_windows restored) (running \<union> set (de_sessions env)),
       dk_fences = prune_fences (dk_fences restored), dk_notes = prune_notes (dk_notes restored),
       dk_checkouts = dk_checkouts restored\<rparr> (de_aliases env)"
  have "w \<in> set (prune_windows (dk_windows restored) (running \<union> set (de_sessions env)))"
    using w assms(9) by (intro prune_keeps_live) (auto simp: same_console_def)
  then have "\<exists>u\<in>set (dk_windows store). same_console w u"
    unfolding store_def by (intro rekey_windows) simp
  then have kept: "\<exists>u\<in>set (dk_windows store). same_console c u"
    using w(2) same_console_trans by blast
  have "ds_disk s' = Stored store"
    "ds_history s' = append_version (de_json env)
       (append_version (de_json env) (ds_history s) current BeforeRestore (de_now env)) store why (de_now env)"
    using assms(1,2,4) source r
    by (auto simp: desk_history_restore_route_def Let_def saved_history_def store_def unreadable_def split: if_splits)
  moreover obtain u where "vs_desk u = d" "vs_reason u = BeforeRestore"
    "if de_json env (unnumbered store) = None then fst (newest_two (ds_history s')) = Some u
     else snd (newest_two (ds_history s')) = Some u"
    using append_twice[where jd = "de_json env", OF assms(3,5) _ assms(6), of BeforeRestore store why] calculation(2) by auto
  ultimately show ?thesis
    using kept rev by (auto simp: store_def)
qed

definition sample_version :: version where
  "sample_version =
     \<lparr>vs_kind = VERSION_KIND, vs_id = 3, vs_started_at = 3, vs_saved_at = 3, vs_reason = Changed,
      vs_desk = empty_desk\<lparr>dk_windows := [sample_window ''w1'' None]\<rparr>\<rparr>"

lemma restore_keeps_running_consoles_witness:
  "\<exists>store. \<exists>u :: version. ds_disk (fst (desk_history_restore_route sample_desk_env None (Some sample_version) sample_desk)) = Stored store \<and>
     dk_rev store = 5 \<and> (\<exists>w\<in>set (dk_windows store). same_console (sample_window ''w2'' (Some 7)) w) \<and>
     vs_desk u = empty_desk\<lparr>dk_windows := [sample_window ''w1'' None, sample_window ''w2'' (Some 7)]\<rparr>"
proof -
  let ?d = "empty_desk\<lparr>dk_rev := 4, dk_windows := [sample_window ''w1'' None, sample_window ''w2'' (Some 7)]\<rparr>"
  let ?saved = "empty_desk\<lparr>dk_windows := [sample_window ''w1'' None, sample_window ''w2'' (Some 7)]\<rparr>"
  have run: "desk_history_restore_route sample_desk_env None (Some sample_version) sample_desk =
      (fst (desk_history_restore_route sample_desk_env None (Some sample_version) sample_desk), RestoredAs 1000)"
    by code_simp
  have json: "de_json sample_desk_env (unnumbered ?d) = Some ?saved"
    by code_simp
  have "load_from (ds_disk sample_desk) = Inr ?d" "history_ok (ds_history sample_desk)"
    "de_history_fault sample_desk_env = None" "ids_below (2 ^ 62) (ds_history sample_desk) (de_now sample_desk_env)"
    by (simp_all add: sample_desk_def load_from_def history_ok_def sample_desk_env_def ids_below_def)
  note start = this
  have "sample_window ''w2'' (Some 7) \<in> set (dk_windows ?d)"
    "dw_session_id (sample_window ''w2'' (Some 7)) \<noteq> None" "dw_id (sample_window ''w2'' (Some 7)) \<in> set (de_sessions sample_desk_env)"
    by (simp_all add: sample_desk_env_def sample_window_def)
  from restore_keeps_running_consoles[OF run start json this]
  obtain store :: desk_store and u :: version where "ds_disk (fst (desk_history_restore_route sample_desk_env None (Some sample_version) sample_desk)) =
      Stored store" and rev: "dk_rev store = dk_rev ?d + 1"
    and "\<exists>w\<in>set (dk_windows store). same_console (sample_window ''w2'' (Some 7)) w" "vs_desk u = ?saved"
    by blast
  moreover have "dk_rev store = 5"
    unfolding rev by simp
  ultimately show ?thesis
    by blast
qed

text \<open>A history with a damaged newest file: a change a minute later starts a version of its own.\<close>

lemma history_ends_in_the_layout_witness:
  "let h = capture exact_arith finite_json [(3, Some sample_version), (5, None)] empty_desk
      (empty_desk\<lparr>dk_windows := [sample_window ''w3'' None]\<rparr>) 90000
   in history_ok h \<and> map fst h = [3, 5, 90000] \<and>
      (\<exists>v. fst (newest_two h) = Some v \<and>
         (same_layout exact_arith (vs_desk v) (empty_desk\<lparr>dk_windows := [sample_window ''w3'' None]\<rparr>) \<or>
          vs_desk v = empty_desk\<lparr>dk_windows := [sample_window ''w3'' None]\<rparr>))"
proof -
  let ?after = "empty_desk\<lparr>dk_windows := [sample_window ''w3'' None]\<rparr>"
  have ok: "history_ok [(3, Some sample_version), (5, None)]" "ids_below (2 ^ 62) [(3, Some sample_version), (5, None)] 90000"
    by (simp_all add: history_ok_def file_ok_def sample_version_def HISTORY_MAX_def ids_below_def)
  have ids: "map fst (capture exact_arith finite_json [(3, Some sample_version), (5, None)] empty_desk ?after 90000) =
      [3, 5, 90000]" "finite_json (unnumbered ?after) = Some ?after"
    by code_simp+
  show ?thesis
    using history_ends_in_the_layout[OF ok, of exact_arith finite_json empty_desk ?after] ids by (simp add: Let_def)
qed

text \<open>
  A desk with a number that is not finite makes a version that cannot be read: the history then does not show
  it.
\<close>

lemma unreadable_desk_is_not_shown:
  "let desk = empty_desk\<lparr>dk_windows := [(sample_window ''w3'' None)\<lparr>dw_rect := default_rect\<lparr>dr_left := NaN\<rparr>\<rparr>]\<rparr>
   in capture exact_arith finite_json [(3, Some sample_version)] empty_desk desk 90000 =
        [(3, Some sample_version), (90000, None)]"
  by code_simp

section \<open>What a restore may break\<close>

text \<open>
  An uploaded version with two windows of one id passes the checks of an upload and puts both on the desk: no
  check of a restore compares the ids.  So does a version whose first window shows the session that the
  current desk serves under the id of its second.
\<close>

lemma restore_may_share_an_id:
  "refuse_records (empty_desk\<lparr>dk_windows := [sample_window ''a'' None, sample_window ''a'' None]\<rparr>) = None"
  "map dw_id (dk_windows (fst (restore_desk empty_desk
      (empty_desk\<lparr>dk_windows := [sample_window ''a'' None, sample_window ''a'' None]\<rparr>) 9))) = [''a'', ''a'']"
  "map dw_id (dk_windows (fst (restore_desk (empty_desk\<lparr>dk_windows := [sample_window ''a'' (Some 4)]\<rparr>)
      (empty_desk\<lparr>dk_windows := [sample_window ''b'' (Some 4), sample_window ''a'' None]\<rparr>) 9))) = [''a'', ''a'']"
  by code_simp+

end
