(* ===== verification/Spec2Isabelle.thy ===== *)
theory Spec2Isabelle
  imports Domain Verify Blocked Artifacts Gate_Bounds Stop_Safety
    Card_Props Event_Roundtrip Queue_View
    Agent_Status_Props Session_Output Session_Table_Props Auth_Login_Props
    Mux_Delivery Mux_Reader_Props Desk_Route_Props
begin

text \<open>
  \<^bold>\<open>ralphy\<close> works a queue of GitHub issues with a coding agent: it orders the queue by the issues'
  declared dependencies, and for each issue asks the agent for a plan, has it executed, lints the
  finished plan, re-runs the plan's own verify commands and closes the issue when they pass.

  A daemon serves the web workbench: it keeps the consoles the agents run in, tells which of them wait for
  the operator, decides who may reach them, carries every channel of a page over one socket, and stores the
  desk the page lays its windows on.

  \<^bold>\<open>Parts and theories\<close> (sources are under \<^verbatim>\<open>src/crates/ralphy-core/src\<close>).
  \<^item> \<open>Prelude\<close>: strings as UTF-8 bytes with the parts of Rust's \<^verbatim>\<open>str\<close> the sources use, and weakest
    preconditions for the state monad.
  \<^item> \<open>Domain\<close>: \<^verbatim>\<open>types.rs\<close>; token counters are 64-bit words, since the release build wraps.
  \<^item> \<open>Markdown\<close>: \<^verbatim>\<open>markdown.rs\<close>; the \<^verbatim>\<open>regex\<close> crate is the parameter \<open>regex_engine\<close>, so every theorem
    holds for any engine.
  \<^item> \<open>Verify\<close>: \<^verbatim>\<open>verify.rs\<close> and \<^verbatim>\<open>verify/parse.rs\<close>; the process of one command is the parameter \<open>spawn\<close>,
    whose answer says how the wait for the child ended.
  \<^item> \<open>Blocked\<close>: \<^verbatim>\<open>blocked.rs\<close>, references and queue order.
  \<^item> \<open>Handoff\<close>, \<open>Acceptance\<close>, \<open>Protocol\<close>, \<open>Artifacts\<close>: \<^verbatim>\<open>handoff.rs\<close>, \<^verbatim>\<open>acceptance.rs\<close>, \<^verbatim>\<open>protocol.rs\<close>,
    \<^verbatim>\<open>references.rs\<close>, \<^verbatim>\<open>verify/comment.rs\<close> and the comments of the runner.
  \<^item> \<open>World\<close>: the collaborators of a run as functions of the history, the state of a run, and the
    locales \<open>state_preorder\<close> and \<open>run_discipline\<close>.
  \<^item> \<open>Ledger\<close>, \<open>Prepare\<close>, \<open>Plan_Execute\<close>, \<open>Gates\<close>, \<open>Runner\<close>: \<^verbatim>\<open>runner/types.rs\<close>, \<^verbatim>\<open>runner/phases.rs\<close>,
    \<^verbatim>\<open>runner/phases/*.rs\<close>, \<^verbatim>\<open>runner/artifacts.rs\<close>, \<^verbatim>\<open>runner/queue_run.rs\<close>, \<^verbatim>\<open>runner/branch.rs\<close>, \<^verbatim>\<open>gitignore.rs\<close>
    and \<^verbatim>\<open>runner.rs\<close>, one definition per function, in the state monad.  A phase counts in the totals of the
    run when it is recorded, whether or not the ledger took its line.
  \<^item> \<open>Run_Discipline\<close>, \<open>Example_Run\<close>, \<open>Runner_Props\<close>: what a whole run does; \<open>Run_Results\<close>: the results it
    reports; \<open>Run_Safety\<close>: the gate behind every close; \<open>Gate_Bounds\<close>: what the gates may spend;
    \<open>Stop_Safety\<close>: what a run does once one of its own checks has seen the operator's stop.  The polls inside
    a gate command, a session and a wait for a reset are part of the collaborators' answers.

  \<^item> \<open>Queue_View\<close>: \<^verbatim>\<open>queue_view.rs\<close>, the read-only judgment of a backlog, and its agreement with the runner.
  \<^item> \<open>Emit\<close>, \<open>Event_Fields\<close>, \<open>Event_Decode\<close>: \<^verbatim>\<open>emit.rs\<close> and, under \<^verbatim>\<open>src/crates/ralphy-cli/src/runstate\<close>,
    \<^verbatim>\<open>fields.rs\<close> and \<^verbatim>\<open>event.rs\<close>: the typed log events, the fields a subscriber collects and the events it
    decodes; \<open>Event_Roundtrip\<close> shows that nothing is lost between them, the two events of
    \<^verbatim>\<open>runner/clock.rs\<close> included.
  \<^item> \<open>Run_Card\<close>, \<open>Card_Props\<close>: \<^verbatim>\<open>runstate/state.rs\<close>, the fold of those events the console and the Telegram
    card render, as a refinement of a status board.

  \<^bold>\<open>The daemon\<close> (sources are under \<^verbatim>\<open>src/crates/ralphy-daemon/src\<close>).
  \<^item> \<open>Agent_Fold\<close>, \<open>Agent_Status\<close>: \<^verbatim>\<open>agent_state.rs\<close>, \<^verbatim>\<open>agent_state/*.rs\<close> and \<^verbatim>\<open>session/manager/agent_status.rs\<close>,
    from the lines the vendors' hooks append to a status file to the state a console shows; the reader of a
    JSON object is the parameter \<open>object_reader\<close>.  \<open>Agent_Fold_Props\<close> refines the fold to a two-level mode, and
    \<open>Agent_Status_Props\<close> shows that the ticks of the reader lose nothing.
  \<^item> \<open>Session_Output\<close>: \<^verbatim>\<open>session/manager/kept.rs\<close> and the client side of an attachment, for any terminal
    emulator: every client sees the output exactly once.
  \<^item> \<open>Session_Table\<close>, \<open>Session_Table_Props\<close>: \<^verbatim>\<open>session/manager.rs\<close>, \<^verbatim>\<open>attachment.rs\<close>, \<^verbatim>\<open>record.rs\<close>,
    \<^verbatim>\<open>id_seq.rs\<close> and \<^verbatim>\<open>routes/ws_session/join.rs\<close>; every interleaving of clients, launches and exits is a
    path of the relation \<open>daemon_step\<close>.
  \<^item> \<open>Auth_Cookie\<close>, \<open>Auth_Cookie_Props\<close>: \<^verbatim>\<open>cookie.rs\<close>, base64url and the signed value; HMAC-SHA1 is a parameter.
  \<^item> \<open>Auth_Login\<close>, \<open>Auth_Login_Props\<close>: \<^verbatim>\<open>auth.rs\<close>, \<^verbatim>\<open>auth/*.rs\<close>, \<^verbatim>\<open>totp.rs\<close>, \<^verbatim>\<open>routes/guard.rs\<close> and
    \<^verbatim>\<open>routes/api_security/*.rs\<close>; a history of requests is a list of timed events over the state.  A request is
    one step, so the theorems are about requests that do not overlap; the two halves of a login show what
    overlapping ones can do.  Every read and write of a file may fail, as the event says.
  \<^item> \<open>Wire\<close>: \<^verbatim>\<open>protocol.rs\<close> and \<^verbatim>\<open>protocol/channel.rs\<close>, the bytes of a frame and the pieces of a channel; nothing
    is assumed of the JSON of a command.
  \<^item> \<open>Mux_Writer\<close>, \<open>Mux_Props\<close>, \<open>Mux_Delivery\<close>: \<^verbatim>\<open>mux/writer.rs\<close>; senders and the task are interleaved
    actions, every channel is delivered whole and in order, and none waits for another.
  \<^item> \<open>Mux_Reader\<close>, \<open>Mux_Reader_Props\<close>: \<^verbatim>\<open>mux/socket/read.rs\<close>, \<^verbatim>\<open>mux/kinds.rs\<close> and the login in
    \<^verbatim>\<open>mux/socket.rs\<close>; an id has one life, and a page that was logged out opens nothing.
  \<^item> \<open>Desk\<close>, \<open>Desk_Apply\<close>, \<open>Desk_Props\<close>: \<^verbatim>\<open>desk.rs\<close>, \<^verbatim>\<open>desk/apply.rs\<close>, \<^verbatim>\<open>desk/apply/changes.rs\<close> and
    \<^verbatim>\<open>checkout.rs::lexical\<close>: an upload as a list of changes, each taken or refused alone.
  \<^item> \<open>Desk_History\<close>, \<open>Desk_Routes\<close>, \<open>Desk_Route_Props\<close>: \<^verbatim>\<open>desk/history.rs\<close>, \<^verbatim>\<open>desk/membership.rs\<close>,
    \<^verbatim>\<open>desk/store.rs\<close>, \<^verbatim>\<open>rekey.rs\<close> and \<^verbatim>\<open>routes/api_desk\<close>: a desk over its uploads and restores; the rounding
    of an \<^verbatim>\<open>f64\<close> sum and what the JSON of a version reads back as (if it does) are parameters; the ids of the
    versions are \<^verbatim>\<open>i64\<close>; the desk file itself reads back as what was saved.
  \<^item> \<open>Stepwise\<close> and \<open>Digits\<close> hold what these and the card share: the locale of folds that keep a predicate, and
    decimal numbers that read back.

  \<^bold>\<open>Fuel.\<close>  The plan and execute phases wait out usage limits in loops the source leaves unbounded.
  Their models take fuel, one unit per vendor session.  When at most \<open>k\<close> waits are resumed, \<open>k + 1\<close>
  units are enough, which \<open>run_terminates\<close> proves for the whole run.

  \<^bold>\<open>Not modelled.\<close>  Subprocesses, network and file formats: the git, \<^verbatim>\<open>gh\<close> and vendor command lines are
  parameters of the model; logging that no other part reads is left out.  Of the daemon: the PTY, the
  terminal emulator, the \<^verbatim>\<open>Host\<close> and \<^verbatim>\<open>Origin\<close> checks, the dispatch of verbs, the file tree, the peers,
  the tasks behind a page's channels and the pings of its socket, and the bytes of \<^verbatim>\<open>desk.toml\<close>; the number of
  a desk is a 64-bit word that wraps, as in the release build.
\<close>

end
